(* ===== verification/BP_Prelude.thy ===== *)
theory BP_Prelude
  imports Main
begin

section \<open>Prelude: fallible stateful computations and generic facts\<close>

text \<open>
  What every theory of the development shares:
  \<^item> the error values of \<open>anyhow::Result\<close> and the computations that use the \<open>?\<close> operator:
    a computation takes the state and gives an error or a value, and the state it leaves behind.
    Effects made before an error stay, as they do in the code (no implicit rollback);
  \<^item> the two ways proofs talk about a computation: \<open>keeps P m\<close> (the state predicate \<open>P\<close> survives
    \<open>m\<close>, whatever its result) with an introduction rule per combinator in the collection \<open>keeps\<close>,
    and \<open>when_ok m s Q\<close> for what holds after a successful run;
  \<^item> the facts on lists used as database tables.
\<close>

named_theorems keeps "introduction rules for the preservation of a state predicate"
named_theorems run "equations that run a computation on a state"

subsection \<open>Errors and computations\<close>

text \<open>
  \<open>QueryReturnedNoRows\<close> and \<open>Constraint\<close> are the SQLite errors the code tells apart (a missing row, a
  violated \<open>UNIQUE\<close>, \<open>CHECK\<close> or foreign key, an aborting trigger), \<open>Bail\<close> is \<open>anyhow::bail!\<close> with its
  message, \<open>Io\<close> an error of \<open>std::fs\<close> under its context.
\<close>

datatype err =
    QueryReturnedNoRows
  | Constraint string
  | Bail string
  | Io string

fun err_to_string :: "err \<Rightarrow> string" where
  "err_to_string QueryReturnedNoRows = ''Query returned no rows''"
| "err_to_string (Constraint s) = s"
| "err_to_string (Bail s) = s"
| "err_to_string (Io s) = s"

type_synonym ('s, 'a) m = "'s \<Rightarrow> (err + 'a) \<times> 's"

definition return_m :: "'a \<Rightarrow> ('s, 'a) m" where
  "return_m x s = (Inr x, s)"

definition raise_m :: "err \<Rightarrow> ('s, 'a) m" where
  "raise_m e s = (Inl e, s)"

definition bail :: "string \<Rightarrow> ('s, 'a) m" where
  "bail msg = raise_m (Bail msg)"

definition bind_m :: "('s, 'a) m \<Rightarrow> ('a \<Rightarrow> ('s, 'b) m) \<Rightarrow> ('s, 'b) m" where
  "bind_m m k s = (case m s of (Inl e, t) \<Rightarrow> (Inl e, t) | (Inr x, t) \<Rightarrow> k x t)"

text \<open>\<open>seq_m a b\<close> is \<open>a?; b\<close>; \<open>discard m\<close> is \<open>let _ = m;\<close> (an error is dropped, its effects stay).\<close>

definition seq_m :: "('s, 'a) m \<Rightarrow> ('s, 'b) m \<Rightarrow> ('s, 'b) m" where
  "seq_m a b = bind_m a (\<lambda>_. b)"

definition try_m :: "('s, 'a) m \<Rightarrow> ('s, err + 'a) m" where
  "try_m m s = (case m s of (r, t) \<Rightarrow> (Inr r, t))"

definition discard :: "('s, 'a) m \<Rightarrow> ('s, unit) m" where
  "discard m s = (Inr (), snd (m s))"

definition gets_m :: "('s \<Rightarrow> 'a) \<Rightarrow> ('s, 'a) m" where
  "gets_m f s = (Inr (f s), s)"

definition modify_m :: "('s \<Rightarrow> 's) \<Rightarrow> ('s, unit) m" where
  "modify_m f s = (Inr (), f s)"

definition unless_m :: "bool \<Rightarrow> ('s, unit) m \<Rightarrow> ('s, unit) m" where
  "unless_m b m = (if b then return_m () else m)"

text \<open>\<open>context\<close> of anyhow: an error is replaced by the given one.\<close>

definition with_context :: "string \<Rightarrow> ('s, 'a) m \<Rightarrow> ('s, 'a) m" where
  "with_context msg m s = (case m s of (Inl e, t) \<Rightarrow> (Inl (Io msg), t) | (Inr x, t) \<Rightarrow> (Inr x, t))"

text \<open>A loop over a list that stops at the first error.\<close>

fun for_m :: "'x list \<Rightarrow> ('x \<Rightarrow> ('s, unit) m) \<Rightarrow> ('s, unit) m" where
  "for_m [] f = return_m ()"
| "for_m (x # xs) f = seq_m (f x) (for_m xs f)"

text \<open>A loop over a list that counts the iterations whose body answers true.\<close>

fun count_m :: "'x list \<Rightarrow> ('x \<Rightarrow> ('s, bool) m) \<Rightarrow> ('s, nat) m" where
  "count_m [] f = return_m 0"
| "count_m (x # xs) f =
     bind_m (f x) (\<lambda>b. bind_m (count_m xs f) (\<lambda>n. return_m (if b then Suc n else n)))"

lemma return_m_run [run, simp]: "return_m x s = (Inr x, s)"
  by (simp add: return_m_def)

lemma raise_m_run [run, simp]: "raise_m e s = (Inl e, s)"
  by (simp add: raise_m_def)

lemma bail_run [run, simp]: "bail msg s = (Inl (Bail msg), s)"
  by (simp add: bail_def)

lemma gets_m_run [run, simp]: "gets_m f s = (Inr (f s), s)"
  by (simp add: gets_m_def)

lemma modify_m_run [run, simp]: "modify_m f s = (Inr (), f s)"
  by (simp add: modify_m_def)

lemma discard_run [run, simp]: "discard m s = (Inr (), snd (m s))"
  by (simp add: discard_def)

lemma bind_m_ok [run]: "m s = (Inr x, t) \<Longrightarrow> bind_m m k s = k x t"
  by (simp add: bind_m_def)

lemma bind_m_err [run]: "m s = (Inl e, t) \<Longrightarrow> bind_m m k s = (Inl e, t)"
  by (simp add: bind_m_def)

lemma seq_m_ok [run]: "m s = (Inr x, t) \<Longrightarrow> seq_m m k s = k t"
  by (simp add: seq_m_def bind_m_def)

lemma seq_m_err [run]: "m s = (Inl e, t) \<Longrightarrow> seq_m m k s = (Inl e, t)"
  by (simp add: seq_m_def bind_m_def)

lemma bind_m_return [simp]: "bind_m (return_m x) k = k x"
  by (rule ext) (simp add: bind_m_def)

lemma bind_m_gets [simp]: "bind_m (gets_m f) k s = k (f s) s"
  by (simp add: bind_m_def)

lemma bind_m_raise [simp]: "bind_m (raise_m e) k = raise_m e"
  by (rule ext) (simp add: bind_m_def)

lemma bind_m_bail [simp]: "bind_m (bail e) k = bail e"
  by (simp add: bail_def)

lemma seq_m_modify [simp]: "seq_m (modify_m f) k s = k (f s)"
  by (simp add: seq_m_def bind_m_def)

lemma seq_m_discard [simp]: "seq_m (discard m) k s = k (snd (m s))"
  by (simp add: seq_m_def bind_m_def)

lemma seq_m_return [simp]: "seq_m (return_m x) k = k"
  by (simp add: seq_m_def)

lemma bind_m_assoc: "bind_m (bind_m m f) g = bind_m m (\<lambda>x. bind_m (f x) g)"
  by (rule ext) (simp add: bind_m_def split: sum.splits prod.splits)

text \<open>Success of a sequence, as the success of each step.\<close>

lemma bind_m_Inr [simp]:
  "bind_m m k s = (Inr y, t) \<longleftrightarrow> (\<exists>x u. m s = (Inr x, u) \<and> k x u = (Inr y, t))"
  by (auto simp: bind_m_def split: prod.splits sum.splits)

lemma seq_m_Inr [simp]:
  "seq_m m k s = (Inr y, t) \<longleftrightarrow> (\<exists>x u. m s = (Inr x, u) \<and> k u = (Inr y, t))"
  by (simp add: seq_m_def)

subsection \<open>Preservation of a state predicate\<close>

definition keeps :: "('s \<Rightarrow> bool) \<Rightarrow> ('s, 'a) m \<Rightarrow> bool" where
  "keeps P m \<longleftrightarrow> (\<forall>s. P s \<longrightarrow> P (snd (m s)))"

definition pure_m :: "('s, 'a) m \<Rightarrow> bool" where
  "pure_m m \<longleftrightarrow> (\<forall>s. snd (m s) = s)"

lemma keepsI: "(\<And>s. P s \<Longrightarrow> P (snd (m s))) \<Longrightarrow> keeps P m"
  by (simp add: keeps_def)

lemma keepsD: "keeps P m \<Longrightarrow> P s \<Longrightarrow> P (snd (m s))"
  by (simp add: keeps_def)

lemma keeps_result: "keeps P m \<Longrightarrow> P s \<Longrightarrow> m s = (r, t) \<Longrightarrow> P t"
  by (metis keepsD snd_conv)

lemma keeps_pure: "pure_m m \<Longrightarrow> keeps P m"
  by (simp add: keeps_def pure_m_def)

lemma pure_return [keeps]: "pure_m (return_m x)"
  by (simp add: pure_m_def)

lemma keeps_return [keeps]: "keeps P (return_m x)"
  by (simp add: keeps_def)

lemma keeps_raise [keeps]: "keeps P (raise_m e)"
  by (simp add: keeps_def)

lemma keeps_bail [keeps]: "keeps P (bail e)"
  by (simp add: keeps_def)

lemma keeps_gets [keeps]: "keeps P (gets_m f)"
  by (simp add: keeps_def)

lemma keeps_bind [keeps]:
  "keeps P m \<Longrightarrow> (\<And>x. keeps P (k x)) \<Longrightarrow> keeps P (bind_m m k)"
  by (fastforce simp: keeps_def bind_m_def split: prod.splits sum.splits)

lemma keeps_seq [keeps]: "keeps P m \<Longrightarrow> keeps P k \<Longrightarrow> keeps P (seq_m m k)"
  by (simp add: seq_m_def keeps_bind)

lemma keeps_discard [keeps]: "keeps P m \<Longrightarrow> keeps P (discard m)"
  by (simp add: keeps_def)

lemma keeps_try [keeps]: "keeps P m \<Longrightarrow> keeps P (try_m m)"
  by (auto simp: keeps_def try_m_def split: prod.splits)

lemma keeps_with_context [keeps]: "keeps P m \<Longrightarrow> keeps P (with_context msg m)"
  by (fastforce simp: keeps_def with_context_def split: prod.splits sum.splits)

lemma keeps_unless [keeps]: "keeps P m \<Longrightarrow> keeps P (unless_m b m)"
  by (simp add: unless_m_def keeps_return)

lemma keeps_if [keeps]: "keeps P m \<Longrightarrow> keeps P n \<Longrightarrow> keeps P (if b then m else n)"
  by simp

lemma keeps_option [keeps]:
  "keeps P m \<Longrightarrow> (\<And>x. keeps P (k x)) \<Longrightarrow> keeps P (case v of None \<Rightarrow> m | Some x \<Rightarrow> k x)"
  by (simp split: option.splits)

lemma keeps_sum [keeps]:
  "(\<And>e. keeps P (f e)) \<Longrightarrow> (\<And>x. keeps P (k x)) \<Longrightarrow> keeps P (case v of Inl e \<Rightarrow> f e | Inr x \<Rightarrow> k x)"
  by (simp split: sum.splits)

lemma keeps_prod [keeps]:
  "(\<And>x y. keeps P (k x y)) \<Longrightarrow> keeps P (case v of (x, y) \<Rightarrow> k x y)"
  by (simp split: prod.splits)

lemma keeps_for [keeps]: "(\<And>x. keeps P (f x)) \<Longrightarrow> keeps P (for_m xs f)"
  by (induction xs) (simp_all add: keeps_return keeps_seq)

lemma keeps_count [keeps]: "(\<And>x. keeps P (f x)) \<Longrightarrow> keeps P (count_m xs f)"
  by (induction xs) (simp_all add: keeps_return keeps_bind)

text \<open>The state a branching computation leaves, branch by branch; equal branches collapse.\<close>

lemma snd_if [simp]: "snd (if b then x else y) = (if b then snd x else snd y)"
  by simp

lemma snd_case_sum [simp]:
  "snd (case v of Inl a \<Rightarrow> f a | Inr b \<Rightarrow> g b) = (case v of Inl a \<Rightarrow> snd (f a) | Inr b \<Rightarrow> snd (g b))"
  by (simp split: sum.splits)

lemma snd_case_option [simp]:
  "snd (case v of None \<Rightarrow> x | Some b \<Rightarrow> g b) = (case v of None \<Rightarrow> snd x | Some b \<Rightarrow> snd (g b))"
  by (simp split: option.splits)

lemma case_sum_same [simp]: "(case v of Inl _ \<Rightarrow> s | Inr _ \<Rightarrow> s) = s"
  by (simp split: sum.splits)

lemma case_option_same [simp]: "(case v of None \<Rightarrow> s | Some _ \<Rightarrow> s) = s"
  by (simp split: option.splits)

lemmas branch_cong = sum.case_cong option.case_cong if_cong

subsection \<open>Decimal rendering of integers\<close>

fun dec_nat :: "nat \<Rightarrow> string" where
  "dec_nat n = (if n < 10 then [char_of (48 + n)] else dec_nat (n div 10) @ [char_of (48 + n mod 10)])"

declare dec_nat.simps [simp del]

definition dec :: "int \<Rightarrow> string" where
  "dec i = (if i < 0 then ''-'' @ dec_nat (nat (- i)) else dec_nat (nat i))"

text \<open>\<open>format!\<close>: the pieces one after the other. Kept folded, so that proofs never walk through message texts.\<close>

definition fmt :: "string list \<Rightarrow> string" where
  "fmt pieces = concat pieces"

subsection \<open>Tables as lists\<close>

text \<open>\<open>upd_where P f\<close> is \<open>UPDATE t SET f WHERE P\<close>; \<open>count_where\<close> is \<open>SELECT COUNT(*) \<dots> WHERE\<close>.\<close>

definition upd_where :: "('r \<Rightarrow> bool) \<Rightarrow> ('r \<Rightarrow> 'r) \<Rightarrow> 'r list \<Rightarrow> 'r list" where
  "upd_where P f rs = map (\<lambda>r. if P r then f r else r) rs"

definition count_where :: "('r \<Rightarrow> bool) \<Rightarrow> 'r list \<Rightarrow> int" where
  "count_where P rs = int (length (filter P rs))"

lemma upd_where_Nil [simp]: "upd_where P f [] = []"
  by (simp add: upd_where_def)

lemma upd_where_Cons [simp]:
  "upd_where P f (r # rs) = (if P r then f r else r) # upd_where P f rs"
  by (simp add: upd_where_def)

lemma length_upd_where [simp]: "length (upd_where P f rs) = length rs"
  by (simp add: upd_where_def)

lemma set_upd_where: "set (upd_where P f rs) = (\<lambda>r. if P r then f r else r) ` set rs"
  by (simp add: upd_where_def)

lemma map_upd_where [simp]:
  "(\<And>r. g (f r) = g r) \<Longrightarrow> map g (upd_where P f rs) = map g rs"
  by (simp add: upd_where_def)

lemma upd_where_twice:
  "(\<And>r. P (g r) = P r) \<Longrightarrow> upd_where P f (upd_where P g rs) = upd_where P (\<lambda>r. f (g r)) rs"
  by (induction rs) auto

lemma filter_upd_where:
  "(\<And>r. Q (f r) = Q r) \<Longrightarrow> filter Q (upd_where P f rs) = upd_where P f (filter Q rs)"
  by (induction rs) auto

lemma count_where_0 [simp]: "count_where P rs = 0 \<longleftrightarrow> (\<forall>r \<in> set rs. \<not> P r)"
  by (simp add: count_where_def filter_empty_conv)

lemma count_where_nonneg [simp]: "0 \<le> count_where P rs"
  by (simp add: count_where_def)

lemma count_where_pos: "0 < count_where P rs \<longleftrightarrow> (\<exists>r \<in> set rs. P r)"
  by (metis count_where_0 count_where_nonneg less_le)

lemma find_None: "find P rs = None \<longleftrightarrow> (\<forall>r \<in> set rs. \<not> P r)"
  by (auto simp: find_None_iff)

lemma find_SomeD: "find P rs = Some r \<Longrightarrow> r \<in> set rs \<and> P r"
  by (auto simp: find_Some_iff)

lemma find_append: "find P (rs @ ss) = (case find P rs of None \<Rightarrow> find P ss | Some r \<Rightarrow> Some r)"
  by (induction rs) auto

lemma find_upd_where:
  "(\<And>r. Q (f r) = Q r) \<Longrightarrow>
    find Q (upd_where P f rs) = map_option (\<lambda>r. if P r then f r else r) (find Q rs)"
  by (induction rs) auto

end
