(* ===== verification/BP_State.thy ===== *)
theory BP_State
  imports BP_Prelude "HOL-Library.Word"
begin

section \<open>The state: tables, files, clock\<close>

text \<open>
  The records of \<open>src/db/repository.rs\<close> (one per table of \<open>src/db/schema.rs\<close>, the columns in their
  order), the database as the list of its tables' rows in rowid order with the \<open>AUTOINCREMENT\<close>
  counter of each, the file system the program works on, and the world that holds both.
  Row ids and counters are SQLite integers, read as \<open>i64\<close>; no operation modelled here does arithmetic
  that could leave that range, so they are \<open>int\<close>. Time stamps (\<open>datetime('now')\<close>, second resolution)
  are \<open>int\<close> seconds. State and role columns are text, as in the code.
\<close>

subsection \<open>Rows\<close>

record drive_pair =
  dp_id :: int
  dp_name :: string
  dp_primary_path :: string
  dp_secondary_path :: string
  dp_primary_state :: string
  dp_secondary_state :: string
  dp_active_role :: string
  dp_primary_media_type :: string
  dp_secondary_media_type :: string
  dp_created_at :: int
  dp_updated_at :: int

record tracked_file =
  tf_id :: int
  tf_drive_pair_id :: int
  tf_relative_path :: string
  tf_checksum :: string
  tf_file_size :: int
  tf_virtual_path :: "string option"
  tf_is_mirrored :: bool
  tf_tracked_direct :: bool
  tf_tracked_via_folder :: bool
  tf_last_integrity_check_at :: "int option"
  tf_created_at :: int
  tf_updated_at :: int

record tracked_folder =
  fo_id :: int
  fo_drive_pair_id :: int
  fo_folder_path :: string
  fo_virtual_path :: "string option"
  fo_include_checksum_sidecars :: bool
  fo_scanning :: bool
  fo_scan_scanned_files :: int
  fo_scan_total_files :: int
  fo_mirroring :: bool
  fo_deleting :: bool
  fo_mirror_mirrored_files :: int
  fo_mirror_total_files :: int
  fo_last_scanned_at :: "int option"
  fo_last_mirrored_at :: "int option"
  fo_created_at :: int

text \<open>
  The code's \<open>SyncQueueItem\<close> also carries the joined \<open>relative_path\<close> of its file, which is only
  displayed; the model keeps the columns of the table.
\<close>

record sync_item =
  sq_id :: int
  sq_tracked_file_id :: int
  sq_action :: string
  sq_status :: string
  sq_error_message :: "string option"
  sq_reason :: "string option"
  sq_created_at :: int
  sq_completed_at :: "int option"

record event_row =
  ev_id :: int
  ev_event_type :: string
  ev_tracked_file_id :: "int option"
  ev_message :: string
  ev_details :: "string option"
  ev_created_at :: int

record integrity_run =
  ir_id :: int
  ir_scope_drive_pair_id :: "int option"
  ir_recover :: bool
  ir_trigger :: string
  ir_status :: string
  ir_total_files :: int
  ir_processed_files :: int
  ir_attention_files :: int
  ir_recovered_files :: int
  ir_active_workers :: int
  ir_stop_requested :: bool
  ir_started_at :: int
  ir_ended_at :: "int option"
  ir_error_message :: "string option"

record integrity_run_result =
  rr_id :: int
  rr_run_id :: int
  rr_file_id :: int
  rr_drive_pair_id :: int
  rr_relative_path :: string
  rr_status :: string
  rr_recovered :: bool
  rr_needs_attention :: bool
  rr_checked_at :: int

record schedule_config =
  sc_id :: int
  sc_task_type :: string
  sc_cron_expr :: "string option"
  sc_interval_seconds :: "int option"
  sc_max_duration_seconds :: "int option"
  sc_enabled :: bool
  sc_last_run :: "int option"
  sc_next_run :: "int option"
  sc_created_at :: int
  sc_updated_at :: int

record db_backup_config =
  bk_id :: int
  bk_backup_path :: string
  bk_drive_label :: "string option"
  bk_priority :: int
  bk_enabled :: bool
  bk_last_backup :: "int option"
  bk_last_integrity_check :: "int option"
  bk_last_integrity_status :: "string option"
  bk_last_error :: "string option"
  bk_created_at :: int

record db_backup_settings =
  bs_backup_enabled :: bool
  bs_backup_interval_seconds :: int
  bs_integrity_enabled :: bool
  bs_integrity_interval_seconds :: int
  bs_last_backup_run :: "int option"
  bs_last_integrity_run :: "int option"
  bs_updated_at :: int

record sync_settings =
  ss_queue_paused :: bool
  ss_processing_locked_at :: "int option"
  ss_processing_locked_by_pid :: "int option"

text \<open>The database: the rows of each table, oldest rowid first, and the next rowid of each.\<close>

record db =
  db_pairs :: "drive_pair list"
  db_files :: "tracked_file list"
  db_folders :: "tracked_folder list"
  db_queue :: "sync_item list"
  db_events :: "event_row list"
  db_runs :: "integrity_run list"
  db_results :: "integrity_run_result list"
  db_schedules :: "schedule_config list"
  db_sync_settings :: sync_settings
  db_backups :: "db_backup_config list"
  db_backup_options :: db_backup_settings
  nx_pair :: int
  nx_file :: int
  nx_folder :: int
  nx_queue :: int
  nx_event :: int
  nx_run :: int
  nx_result :: int
  nx_schedule :: int
  nx_backup :: int

definition empty_db :: db where
  "empty_db = \<lparr>db_pairs = [], db_files = [], db_folders = [], db_queue = [], db_events = [],
     db_runs = [], db_results = [], db_schedules = [],
     db_sync_settings = \<lparr>ss_queue_paused = False, ss_processing_locked_at = None,
        ss_processing_locked_by_pid = None\<rparr>,
     db_backups = [],
     db_backup_options = \<lparr>bs_backup_enabled = False, bs_backup_interval_seconds = 86400, bs_integrity_enabled = False,
        bs_integrity_interval_seconds = 86400, bs_last_backup_run = None, bs_last_integrity_run = None, bs_updated_at = 0\<rparr>,
     nx_pair = 1, nx_file = 1, nx_folder = 1, nx_queue = 1, nx_event = 1, nx_run = 1,
     nx_result = 1, nx_schedule = 1, nx_backup = 1\<rparr>"

subsection \<open>Files\<close>

text \<open>
  A path names a node by its components: \<open>//\<close> and \<open>.\<close> components are dropped, as the kernel
  does, and an absolute path keeps the component \<open>''/''\<close> in front. A node is a regular file (its
  bytes and its permission bits), a directory, or a symbolic link (its target). The remaining
  fields are the environment's faults: \<open>fs_nostat\<close> makes \<open>metadata\<close> fail, \<open>fs_noread\<close> makes opening
  a file or listing a directory fail (a dead mount keeps its mountpoint but cannot be listed),
  \<open>fs_nowrite\<close> makes creating, replacing or deleting fail, \<open>fs_bad_at\<close> is the offset from which
  reads of a file fail, \<open>fs_full_at\<close> the size beyond which writes to it fail.
\<close>

type_synonym bytes = "nat list"
type_synonym key = "string list"

datatype node =
    RegFile bytes nat
  | Directory
  | Symlink string

record fs =
  fs_nodes :: "key \<Rightarrow> node option"
  fs_nostat :: "key \<Rightarrow> bool"
  fs_noread :: "key \<Rightarrow> bool"
  fs_nowrite :: "key \<Rightarrow> bool"
  fs_bad_at :: "key \<Rightarrow> nat option"
  fs_full_at :: "key \<Rightarrow> nat option"

text \<open>
  The event bus of the sync queue (\<open>SyncSummary\<close>, \<open>SyncEventBus\<close> of \<open>src/core/sync_queue.rs\<close>): whether a
  background run is active, the revision counter, an \<open>AtomicU64\<close>, and the summaries sent so far.
\<close>

record sync_summary =
  su_total :: int
  su_active_items :: int
  su_pending_items :: int
  su_in_progress_items :: int
  su_completed_items :: int
  su_failed_items :: int
  su_queue_paused :: bool
  su_processing_active :: bool
  su_scanning :: bool
  su_scan_total_files :: int
  su_scan_scanned_files :: int
  su_scan_active_folders :: int
  su_deleting :: bool
  su_delete_active_folders :: int
  su_revision :: "64 word"

record sync_bus =
  bus_processing_active :: bool
  bus_revision :: "64 word"
  bus_sent :: "sync_summary list"

text \<open>
  The world: the database, the file system, what \<open>datetime('now')\<close> gives, the successive readings of
  the monotonic clock (\<open>Instant::now\<close>: reading number \<open>w_reads\<close> of the stream \<open>w_instants\<close>), the id of
  this process, the process ids that are alive, and the event bus. An instant counts nanoseconds.
\<close>

record world =
  w_db :: db
  w_fs :: fs
  w_now :: int
  w_instants :: "nat \<Rightarrow> int"
  w_reads :: nat
  w_pid :: int
  w_alive :: "int \<Rightarrow> bool"
  w_bus :: sync_bus

type_synonym 'a prog = "(world, 'a) m"

definition instant_now :: "int prog" where
  "instant_now w = (Inr (w_instants w (w_reads w)), w\<lparr>w_reads := Suc (w_reads w)\<rparr>)"

text \<open>\<open>if let Some(dl) = deadline { if Instant::now() >= dl ... }\<close>: the clock is read only for a deadline.\<close>

definition past_deadline :: "int option \<Rightarrow> bool prog" where
  "past_deadline deadline = (case deadline of
       None \<Rightarrow> return_m False
     | Some dl \<Rightarrow> bind_m instant_now (\<lambda>now. return_m (dl \<le> now)))"

definition db_do :: "(db \<Rightarrow> db) \<Rightarrow> unit prog" where
  "db_do f = modify_m (\<lambda>w. w\<lparr>w_db := f (w_db w)\<rparr>)"

definition fs_put :: "key \<Rightarrow> node option \<Rightarrow> world \<Rightarrow> world" where
  "fs_put k n w = w\<lparr>w_fs := (w_fs w)\<lparr>fs_nodes := (fs_nodes (w_fs w))(k := n)\<rparr>\<rparr>"

lemma db_do_run [run, simp]: "db_do f w = (Inr (), w\<lparr>w_db := f (w_db w)\<rparr>)"
  by (simp add: db_do_def)

lemma bind_db_do [simp]: "seq_m (db_do f) k w = k (w\<lparr>w_db := f (w_db w)\<rparr>)"
  by (simp add: seq_m_def bind_m_def)

lemma keeps_db_do: "(\<And>w. P w \<Longrightarrow> P (w\<lparr>w_db := f (w_db w)\<rparr>)) \<Longrightarrow> keeps P (db_do f)"
  by (simp add: keeps_def)

lemma past_deadline_None [simp]: "past_deadline None w = (Inr False, w)"
  by (simp add: past_deadline_def)

lemma past_deadline_Inr: "\<exists>b. fst (past_deadline d w) = Inr b"
  by (auto simp add: past_deadline_def bind_m_def instant_now_def split: option.splits)

lemma past_deadline_db [simp]: "w_db (snd (past_deadline d w)) = w_db w"
  by (simp add: past_deadline_def bind_m_def instant_now_def split: option.splits)

lemma past_deadline_fs [simp]: "w_fs (snd (past_deadline d w)) = w_fs w"
  by (simp add: past_deadline_def bind_m_def instant_now_def split: option.splits)

lemma fs_put_db [simp]: "w_db (fs_put k n w) = w_db w"
  by (simp add: fs_put_def)

lemma fs_put_nodes [simp]: "fs_nodes (w_fs (fs_put k n w)) = (fs_nodes (w_fs w))(k := n)"
  by (simp add: fs_put_def)

lemma fs_put_env [simp]:
  "fs_nostat (w_fs (fs_put k n w)) = fs_nostat (w_fs w)"
  "fs_noread (w_fs (fs_put k n w)) = fs_noread (w_fs w)"
  "fs_nowrite (w_fs (fs_put k n w)) = fs_nowrite (w_fs w)"
  "fs_bad_at (w_fs (fs_put k n w)) = fs_bad_at (w_fs w)"
  "fs_full_at (w_fs (fs_put k n w)) = fs_full_at (w_fs w)"
  "w_now (fs_put k n w) = w_now w"
  by (simp_all add: fs_put_def)

text \<open>A world with a given database and an empty disk, and a file row: the witnesses run on them.\<close>

definition blank_world :: "db \<Rightarrow> world" where
  "blank_world d = \<lparr>w_db = d, w_fs = \<lparr>fs_nodes = (\<lambda>k. if k = [''/''] then Some Directory else None),
       fs_nostat = (\<lambda>_. False), fs_noread = (\<lambda>_. False), fs_nowrite = (\<lambda>_. False),
       fs_bad_at = (\<lambda>_. None), fs_full_at = (\<lambda>_. None)\<rparr>,
     w_now = 5, w_instants = (\<lambda>n. int n), w_reads = 0, w_pid = 7, w_alive = (\<lambda>p. p = 7),
     w_bus = \<lparr>bus_processing_active = False, bus_revision = 0, bus_sent = []\<rparr>\<rparr>"

definition blank_file :: "int \<Rightarrow> int \<Rightarrow> tracked_file" where
  "blank_file i pair = \<lparr>tf_id = i, tf_drive_pair_id = pair, tf_relative_path = ''x'', tf_checksum = ''h'',
     tf_file_size = 3, tf_virtual_path = None, tf_is_mirrored = False, tf_tracked_direct = True,
     tf_tracked_via_folder = False, tf_last_integrity_check_at = None, tf_created_at = 0, tf_updated_at = 0\<rparr>"

end
