(* ===== verification/Std_Fs.thy ===== *)
theory Std_Fs
  imports BP_State
begin

section \<open>Paths and std::fs\<close>

text \<open>
  What the program uses of \<open>std::path\<close> and \<open>std::fs\<close>. A path is a string; \<open>path_key\<close> gives the node it
  names. A symbolic link in the last component is followed up to 40 times, as Linux does; links
  in inner components and \<open>..\<close> are not resolved (\<open>..\<close> stays an ordinary component): the program
  never creates a link below a drive root that it then reads through.
\<close>

subsection \<open>Paths\<close>

fun split_on :: "char \<Rightarrow> string \<Rightarrow> string list" where
  "split_on c [] = [[]]"
| "split_on c (x # xs) =
     (if x = c then [] # split_on c xs
      else (case split_on c xs of [] \<Rightarrow> [[x]] | y # ys \<Rightarrow> (x # y) # ys))"

definition is_absolute :: "string \<Rightarrow> bool" where
  "is_absolute p = (case p of [] \<Rightarrow> False | c # _ \<Rightarrow> c = CHR ''/'')"

definition path_key :: "string \<Rightarrow> key" where
  "path_key p = (if is_absolute p then [''/''] else []) @
     filter (\<lambda>c. c \<noteq> '''' \<and> c \<noteq> ''.'') (split_on (CHR ''/'') p)"

text \<open>\<open>Path::join\<close>: an absolute second path replaces the first.\<close>

definition path_join :: "string \<Rightarrow> string \<Rightarrow> string" where
  "path_join base p =
     (if is_absolute p then p
      else if base = [] \<or> last base = CHR ''/'' then base @ p
      else base @ ''/'' @ p)"

lemma split_on_not_Nil [simp]: "split_on c s \<noteq> []"
  by (cases s) (auto split: list.splits)

subsection \<open>Looking at nodes\<close>

fun follow :: "nat \<Rightarrow> fs \<Rightarrow> key \<Rightarrow> key option" where
  "follow n f k = (case fs_nodes f k of
       Some (Symlink t) \<Rightarrow>
         (case n of 0 \<Rightarrow> None
          | Suc n' \<Rightarrow> follow n' f (if is_absolute t then path_key t else butlast k @ path_key t))
     | _ \<Rightarrow> Some k)"

declare follow.simps [simp del]

definition target :: "fs \<Rightarrow> string \<Rightarrow> key option" where
  "target f p = follow 40 f (path_key p)"

text \<open>\<open>fs::metadata\<close>: the node behind the links, or nothing when it is missing or cannot be inspected.\<close>

definition metadata :: "fs \<Rightarrow> string \<Rightarrow> node option" where
  "metadata f p = (case target f p of
       None \<Rightarrow> None
     | Some k \<Rightarrow> (if fs_nostat f k then None else fs_nodes f k))"

definition path_exists :: "fs \<Rightarrow> string \<Rightarrow> bool" where
  "path_exists f p = (metadata f p \<noteq> None)"

definition path_is_dir :: "fs \<Rightarrow> string \<Rightarrow> bool" where
  "path_is_dir f p = (metadata f p = Some Directory)"

definition path_is_file :: "fs \<Rightarrow> string \<Rightarrow> bool" where
  "path_is_file f p = (case metadata f p of Some (RegFile _ _) \<Rightarrow> True | _ \<Rightarrow> False)"

definition read_dir_ok :: "fs \<Rightarrow> string \<Rightarrow> bool" where
  "read_dir_ok f p = (case target f p of
       None \<Rightarrow> False
     | Some k \<Rightarrow> fs_nodes f k = Some Directory \<and> \<not> fs_noread f k)"

text \<open>The bytes of the regular file a path leads to, when there is one.\<close>

definition file_bytes :: "fs \<Rightarrow> string \<Rightarrow> bytes option" where
  "file_bytes f p = (case target f p of
       None \<Rightarrow> None
     | Some k \<Rightarrow> (case fs_nodes f k of Some (RegFile c _) \<Rightarrow> Some c | _ \<Rightarrow> None))"

subsection \<open>Changing nodes\<close>

definition io :: "string \<Rightarrow> 'a prog" where
  "io msg = raise_m (Io msg)"

text \<open>\<open>File::open\<close> and \<open>File::create\<close> give the key of the opened node; creating truncates.\<close>

definition file_open :: "string \<Rightarrow> key prog" where
  "file_open p w = (case target (w_fs w) p of
       None \<Rightarrow> io ''open'' w
     | Some k \<Rightarrow>
         (if fs_nodes (w_fs w) k = None \<or> fs_noread (w_fs w) k then io ''open'' w
          else return_m k w))"

definition file_create :: "string \<Rightarrow> key prog" where
  "file_create p w = (case target (w_fs w) p of
       None \<Rightarrow> io ''create'' w
     | Some k \<Rightarrow>
         (if fs_nowrite (w_fs w) k \<or> fs_nodes (w_fs w) (butlast k) \<noteq> Some Directory then io ''create'' w
          else (case fs_nodes (w_fs w) k of
              None \<Rightarrow> (Inr k, fs_put k (Some (RegFile [] 420)) w)
            | Some (RegFile _ m) \<Rightarrow> (Inr k, fs_put k (Some (RegFile [] m)) w)
            | _ \<Rightarrow> io ''create'' w)))"

definition remove_file :: "string \<Rightarrow> unit prog" where
  "remove_file p w =
     (let k = path_key p in
      case fs_nodes (w_fs w) k of
        None \<Rightarrow> io ''remove'' w
      | Some Directory \<Rightarrow> io ''remove'' w
      | Some _ \<Rightarrow> (if fs_nowrite (w_fs w) k then io ''remove'' w else (Inr (), fs_put k None w)))"

text \<open>The bytes behind an open file, and the replacement of the bytes of one.\<close>

definition node_bytes :: "fs \<Rightarrow> key \<Rightarrow> bytes" where
  "node_bytes f k = (case fs_nodes f k of Some (RegFile c _) \<Rightarrow> c | _ \<Rightarrow> [])"

definition node_mode :: "fs \<Rightarrow> key \<Rightarrow> nat" where
  "node_mode f k = (case fs_nodes f k of Some (RegFile _ m) \<Rightarrow> m | _ \<Rightarrow> 493)"

definition set_bytes :: "key \<Rightarrow> bytes \<Rightarrow> world \<Rightarrow> world" where
  "set_bytes k c w = (case fs_nodes (w_fs w) k of
       Some (RegFile _ m) \<Rightarrow> fs_put k (Some (RegFile c m)) w
     | _ \<Rightarrow> w)"

definition set_mode :: "key \<Rightarrow> nat \<Rightarrow> world \<Rightarrow> world" where
  "set_mode k m w = (case fs_nodes (w_fs w) k of
       Some (RegFile c _) \<Rightarrow> fs_put k (Some (RegFile c m)) w
     | _ \<Rightarrow> w)"

text \<open>\<open>fs::write\<close>: create, then write all the bytes.\<close>

definition fs_write :: "string \<Rightarrow> bytes \<Rightarrow> unit prog" where
  "fs_write p c = bind_m (file_create p) (\<lambda>k w.
     case fs_full_at (w_fs w) k of
       Some n \<Rightarrow> (if n < length c then (Inl (Io ''write''), set_bytes k (take n c) w)
                  else (Inr (), set_bytes k c w))
     | None \<Rightarrow> (Inr (), set_bytes k c w))"

text \<open>
  \<open>fs::create_dir_all\<close>: every missing prefix becomes a directory, outermost first; a prefix that is
  not a directory, or may not be created, is an error.
\<close>

fun mkdirs :: "key \<Rightarrow> key \<Rightarrow> unit prog" where
  "mkdirs pre [] w = (Inr (), w)"
| "mkdirs pre (c # cs) w =
     (let k = pre @ [c] in
      case fs_nodes (w_fs w) k of
        None \<Rightarrow> (if fs_nowrite (w_fs w) k then io ''mkdir'' w
                 else mkdirs k cs (fs_put k (Some Directory) w))
      | Some Directory \<Rightarrow> mkdirs k cs w
      | Some (Symlink t) \<Rightarrow>
          (case follow 40 (w_fs w) k of
             Some k' \<Rightarrow> (if fs_nodes (w_fs w) k' = Some Directory then mkdirs k cs w else io ''mkdir'' w)
           | None \<Rightarrow> io ''mkdir'' w)
      | Some (RegFile _ _) \<Rightarrow> io ''mkdir'' w)"

definition create_dir_all :: "key \<Rightarrow> unit prog" where
  "create_dir_all k = mkdirs [] k"

text \<open>\<open>std::os::unix::fs::symlink\<close>: fails when something is there already.\<close>

definition make_symlink :: "string \<Rightarrow> string \<Rightarrow> unit prog" where
  "make_symlink real link w =
     (let k = path_key link in
      if fs_nodes (w_fs w) k \<noteq> None \<or> fs_nowrite (w_fs w) k
         \<or> fs_nodes (w_fs w) (butlast k) \<noteq> Some Directory
      then io ''symlink'' w
      else (Inr (), fs_put k (Some (Symlink real)) w))"

end
