(* ===== verification/Repo_Core.thy ===== *)
theory Repo_Core
  imports Std_Fs "HOL-Library.Sublist"
begin

section \<open>Repository: drive pairs and tracked files\<close>

text \<open>
  The statements of \<open>src/db/repository.rs\<close> on \<open>drive_pairs\<close> and \<open>tracked_files\<close>, with the constraints of
  \<open>src/db/schema.rs\<close> they run under (\<open>CHECK\<close>, \<open>UNIQUE\<close>, foreign keys, the two triggers). A statement is
  atomic; a method that runs several statements runs them in the code's order. A connection is
  always available and the disk of the database does not fail.
\<close>

subsection \<open>What the queries use of SQL\<close>

definition i64_max :: int where
  "i64_max = 9223372036854775807"

text \<open>
  \<open>LIMIT per_page OFFSET (page - 1) * per_page\<close>. A negative limit is none in SQLite; rowids are \<open>i64\<close>,
  so a limit of \<open>i64::MAX\<close> never cuts either.
\<close>

definition paginate :: "int \<Rightarrow> int \<Rightarrow> 'r list \<Rightarrow> 'r list" where
  "paginate page per_page rs =
     (let rest = drop (nat ((page - 1) * per_page)) rs
      in if per_page < 0 \<or> per_page = i64_max then rest else take (nat per_page) rest)"

lemma paginate_all [simp]: "paginate 1 i64_max rs = rs"
  by (simp add: paginate_def)

definition ascii_lower :: "char \<Rightarrow> char" where
  "ascii_lower c = (let n = of_char c :: nat in if 65 \<le> n \<and> n \<le> 90 then char_of (n + 32) else c)"

text \<open>
  \<open>s LIKE pattern [ESCAPE e]\<close>: \<open>%\<close> matches any run of characters, \<open>_\<close> any one, an escaped character
  itself, and letters match in either case (ASCII only), SQLite's default.
\<close>

function sql_like :: "char option \<Rightarrow> string \<Rightarrow> string \<Rightarrow> bool" where
  "sql_like e [] s = (s = [])"
| "sql_like e (p # ps) s =
     (if e = Some p then
        (case ps of [] \<Rightarrow> False
         | q # qs \<Rightarrow> (case s of [] \<Rightarrow> False
              | c # cs \<Rightarrow> ascii_lower c = ascii_lower q \<and> sql_like e qs cs))
      else if p = CHR ''%'' then list_ex (sql_like e ps) (suffixes s)
      else (case s of [] \<Rightarrow> False
         | c # cs \<Rightarrow> (p = CHR ''_'' \<or> ascii_lower c = ascii_lower p) \<and> sql_like e ps cs))"
  by pat_completeness auto
termination
  by (relation "measure (\<lambda>(e, p, s). length p)") auto

definition is_ascii_ws :: "char \<Rightarrow> bool" where
  "is_ascii_ws c = (let n = of_char c :: nat in n = 32 \<or> (9 \<le> n \<and> n \<le> 13))"

definition trim_end_char :: "char \<Rightarrow> string \<Rightarrow> string" where
  "trim_end_char c s = rev (dropWhile (\<lambda>x. x = c) (rev s))"

definition str_trim :: "string \<Rightarrow> string" where
  "str_trim s = rev (dropWhile is_ascii_ws (rev (dropWhile is_ascii_ws s)))"

subsection \<open>An interface: tables read by rowid\<close>

text \<open>
  What the core relies on when it reads a row by its id: the row is the first with that id, a
  missing row is \<open>QueryReturnedNoRows\<close>, and reading changes nothing. The facts below hold for every
  table whose \<open>get_\<dots>\<close> method keeps that contract.
\<close>

locale row_table =
  fixes rows :: "db \<Rightarrow> 'r list" and rid :: "'r \<Rightarrow> int" and get :: "int \<Rightarrow> 'r prog"
  assumes get_run: "get i w = (case find (\<lambda>r. rid r = i) (rows (w_db w)) of
      None \<Rightarrow> (Inl QueryReturnedNoRows, w) | Some r \<Rightarrow> (Inr r, w))"
begin

lemma get_pure: "pure_m (get i)"
  by (simp add: pure_m_def get_run split: option.splits)

lemma keeps_get: "keeps P (get i)"
  by (rule keeps_pure) (rule get_pure)

lemma get_Inr: "get i w = (Inr r, v) \<longleftrightarrow> v = w \<and> find (\<lambda>r. rid r = i) (rows (w_db w)) = Some r"
  by (auto simp: get_run split: option.splits)

lemma get_state: "snd (get i w) = w"
  by (simp add: get_run split: option.splits)

lemma get_id: "get i w = (Inr r, v) \<Longrightarrow> rid r = i"
  by (auto simp: get_Inr dest: find_SomeD)

lemma get_member: "get i w = (Inr r, v) \<Longrightarrow> r \<in> set (rows (w_db w))"
  by (auto simp: get_Inr dest: find_SomeD)

lemma get_found: "r \<in> set (rows (w_db w)) \<Longrightarrow> \<exists>r'. get (rid r) w = (Inr r', w)"
  by (auto simp: get_run find_None split: option.splits)

lemma get_unique:
  "distinct (map rid (rows (w_db w))) \<Longrightarrow> r \<in> set (rows (w_db w)) \<Longrightarrow> get (rid r) w = (Inr r, w)"
proof -
  assume d: "distinct (map rid (rows (w_db w)))" and r: "r \<in> set (rows (w_db w))"
  from get_found [OF r] obtain r' where r': "get (rid r) w = (Inr r', w)" by blast
  then have "rid r' = rid r" "r' \<in> set (rows (w_db w))"
    by (auto dest: get_id get_member)
  with d r have "r' = r" by (auto simp: distinct_map dest: inj_onD)
  with r' show ?thesis by simp
qed

lemma bind_get: "bind_m (get i) k w = (case find (\<lambda>r. rid r = i) (rows (w_db w)) of
    None \<Rightarrow> (Inl QueryReturnedNoRows, w) | Some r \<Rightarrow> k r w)"
  by (simp add: bind_m_def get_run split: option.splits)

end

subsection \<open>Drive pairs\<close>

definition duplicate_drive_path_error :: err where
  "duplicate_drive_path_error = Bail ''Drive path is already registered to another drive pair''"

definition is_duplicate_drive_path_error :: "err \<Rightarrow> bool" where
  "is_duplicate_drive_path_error e =
     (err_to_string e = ''Drive path is already registered to another drive pair'')"

definition check_m :: "bool \<Rightarrow> string \<Rightarrow> unit prog" where
  "check_m ok what = (if ok then return_m () else raise_m (Constraint what))"

definition opt_m :: "'a option \<Rightarrow> ('a \<Rightarrow> unit prog) \<Rightarrow> unit prog" where
  "opt_m v f = (case v of None \<Rightarrow> return_m () | Some x \<Rightarrow> f x)"

definition state_names :: "string list" where
  "state_names = [''active'', ''quiescing'', ''failed'', ''rebuilding'']"

definition get_drive_pair :: "int \<Rightarrow> drive_pair prog" where
  "get_drive_pair i w = (case find (\<lambda>p. dp_id p = i) (db_pairs (w_db w)) of
       None \<Rightarrow> (Inl QueryReturnedNoRows, w) | Some p \<Rightarrow> (Inr p, w))"

definition list_drive_pairs :: "drive_pair list prog" where
  "list_drive_pairs = gets_m (\<lambda>w. db_pairs (w_db w))"

definition path_registered :: "db \<Rightarrow> string \<Rightarrow> bool" where
  "path_registered d path =
     (\<exists>p \<in> set (db_pairs d). dp_primary_path p = path \<or> dp_secondary_path p = path)"

definition create_drive_pair_with_media ::
    "string \<Rightarrow> string \<Rightarrow> string \<Rightarrow> string \<Rightarrow> string \<Rightarrow> drive_pair prog" where
  "create_drive_pair_with_media name primary secondary primary_media secondary_media w =
     (let d = w_db w; i = nx_pair d in
      if path_registered d primary \<or> path_registered d secondary
      then raise_m duplicate_drive_path_error w
      else if (\<exists>p \<in> set (db_pairs d). dp_name p = name) then raise_m (Constraint ''UNIQUE drive_pairs.name'') w
      else if primary_media \<notin> {''hdd'', ''ssd''} \<or> secondary_media \<notin> {''hdd'', ''ssd''}
      then raise_m (Constraint ''CHECK media_type'') w
      else get_drive_pair i (w\<lparr>w_db := d\<lparr>
        db_pairs := db_pairs d @
          [\<lparr>dp_id = i, dp_name = name, dp_primary_path = primary, dp_secondary_path = secondary,
            dp_primary_state = ''active'', dp_secondary_state = ''active'', dp_active_role = ''primary'',
            dp_primary_media_type = primary_media, dp_secondary_media_type = secondary_media,
            dp_created_at = w_now w, dp_updated_at = w_now w\<rparr>],
        nx_pair := i + 1\<rparr>\<rparr>))"

definition create_drive_pair :: "string \<Rightarrow> string \<Rightarrow> string \<Rightarrow> drive_pair prog" where
  "create_drive_pair name primary secondary =
     create_drive_pair_with_media name primary secondary ''hdd'' ''hdd''"

text \<open>\<open>UPDATE drive_pairs SET \<dots>, updated_at=datetime('now') WHERE id=i\<close>\<close>

definition update_pair :: "int \<Rightarrow> (drive_pair \<Rightarrow> drive_pair) \<Rightarrow> unit prog" where
  "update_pair i f = modify_m (\<lambda>w. w\<lparr>w_db := (w_db w)\<lparr>db_pairs :=
     upd_where (\<lambda>p. dp_id p = i) (\<lambda>p. (f p)\<lparr>dp_updated_at := w_now w\<rparr>) (db_pairs (w_db w))\<rparr>\<rparr>)"

definition has_pair :: "int \<Rightarrow> world \<Rightarrow> bool" where
  "has_pair i w = (\<exists>p \<in> set (db_pairs (w_db w)). dp_id p = i)"

definition update_drive_pair_with_media ::
    "int \<Rightarrow> string option \<Rightarrow> string option \<Rightarrow> string option \<Rightarrow> string option \<Rightarrow> string option
      \<Rightarrow> drive_pair prog" where
  "update_drive_pair_with_media i name primary secondary primary_media secondary_media =
     seq_m (opt_m name (\<lambda>n. seq_m
        (bind_m (gets_m (\<lambda>w. \<exists>p \<in> set (db_pairs (w_db w)). dp_name p = n \<and> dp_id p \<noteq> i \<and> has_pair i w))
           (\<lambda>clash. check_m (\<not> clash) ''UNIQUE drive_pairs.name''))
        (update_pair i (\<lambda>p. p\<lparr>dp_name := n\<rparr>))))
     (seq_m (opt_m primary (\<lambda>x. update_pair i (\<lambda>p. p\<lparr>dp_primary_path := x\<rparr>)))
     (seq_m (opt_m secondary (\<lambda>x. update_pair i (\<lambda>p. p\<lparr>dp_secondary_path := x\<rparr>)))
     (seq_m (opt_m primary_media (\<lambda>x. seq_m
        (bind_m (gets_m (has_pair i)) (\<lambda>h. check_m (\<not> h \<or> x \<in> {''hdd'', ''ssd''}) ''CHECK media_type''))
        (update_pair i (\<lambda>p. p\<lparr>dp_primary_media_type := x\<rparr>))))
     (seq_m (opt_m secondary_media (\<lambda>x. seq_m
        (bind_m (gets_m (has_pair i)) (\<lambda>h. check_m (\<not> h \<or> x \<in> {''hdd'', ''ssd''}) ''CHECK media_type''))
        (update_pair i (\<lambda>p. p\<lparr>dp_secondary_media_type := x\<rparr>))))
     (get_drive_pair i)))))"

definition update_drive_pair_runtime ::
    "int \<Rightarrow> string option \<Rightarrow> string option \<Rightarrow> string option \<Rightarrow> string option \<Rightarrow> string option
      \<Rightarrow> drive_pair prog" where
  "update_drive_pair_runtime i primary_path secondary_path primary_state secondary_state active_role =
     seq_m (opt_m primary_path (\<lambda>x. update_pair i (\<lambda>p. p\<lparr>dp_primary_path := x\<rparr>)))
     (seq_m (opt_m secondary_path (\<lambda>x. update_pair i (\<lambda>p. p\<lparr>dp_secondary_path := x\<rparr>)))
     (seq_m (opt_m primary_state (\<lambda>x. seq_m
        (bind_m (gets_m (has_pair i)) (\<lambda>h. check_m (\<not> h \<or> x \<in> set state_names) ''CHECK primary_state''))
        (update_pair i (\<lambda>p. p\<lparr>dp_primary_state := x\<rparr>))))
     (seq_m (opt_m secondary_state (\<lambda>x. seq_m
        (bind_m (gets_m (has_pair i)) (\<lambda>h. check_m (\<not> h \<or> x \<in> set state_names) ''CHECK secondary_state''))
        (update_pair i (\<lambda>p. p\<lparr>dp_secondary_state := x\<rparr>))))
     (seq_m (opt_m active_role (\<lambda>x. seq_m
        (bind_m (gets_m (has_pair i)) (\<lambda>h. check_m (\<not> h \<or> x \<in> {''primary'', ''secondary''}) ''CHECK active_role''))
        (update_pair i (\<lambda>p. p\<lparr>dp_active_role := x\<rparr>))))
     (get_drive_pair i)))))"

definition delete_drive_pair :: "int \<Rightarrow> unit prog" where
  "delete_drive_pair i w =
     (let d = w_db w; n = count_where (\<lambda>f. tf_drive_pair_id f = i) (db_files d) in
      if n > 0 then bail (fmt [''Cannot delete drive pair: '', dec n, '' files are still tracked'']) w
      else if (\<exists>f \<in> set (db_folders d). fo_drive_pair_id f = i)
              \<or> (\<exists>r \<in> set (db_results d). rr_drive_pair_id r = i)
      then raise_m (Constraint ''FOREIGN KEY drive_pairs'') w
      else (Inr (), w\<lparr>w_db := d\<lparr>
        db_pairs := filter (\<lambda>p. dp_id p \<noteq> i) (db_pairs d),
        db_runs := upd_where (\<lambda>r. ir_scope_drive_pair_id r = Some i)
          (\<lambda>r. r\<lparr>ir_scope_drive_pair_id := None\<rparr>) (db_runs d)\<rparr>\<rparr>))"

definition update_files :: "(tracked_file \<Rightarrow> bool) \<Rightarrow> (tracked_file \<Rightarrow> tracked_file) \<Rightarrow> unit prog" where
  "update_files P f = modify_m (\<lambda>w. w\<lparr>w_db := (w_db w)\<lparr>db_files :=
     upd_where P (\<lambda>r. (f r)\<lparr>tf_updated_at := w_now w\<rparr>) (db_files (w_db w))\<rparr>\<rparr>)"

definition mark_drive_pair_unmirrored :: "int \<Rightarrow> unit prog" where
  "mark_drive_pair_unmirrored i =
     update_files (\<lambda>f. tf_drive_pair_id f = i) (\<lambda>f. f\<lparr>tf_is_mirrored := False\<rparr>)"

definition count_tracked_files_for_drive_pair :: "int \<Rightarrow> int prog" where
  "count_tracked_files_for_drive_pair i =
     gets_m (\<lambda>w. count_where (\<lambda>f. tf_drive_pair_id f = i) (db_files (w_db w)))"

subsection \<open>Tracked files\<close>

definition get_tracked_file :: "int \<Rightarrow> tracked_file prog" where
  "get_tracked_file i w = (case find (\<lambda>f. tf_id f = i) (db_files (w_db w)) of
       None \<Rightarrow> (Inl QueryReturnedNoRows, w) | Some f \<Rightarrow> (Inr f, w))"

definition create_tracked_file_with_source ::
    "int \<Rightarrow> string \<Rightarrow> string \<Rightarrow> int \<Rightarrow> string option \<Rightarrow> bool \<Rightarrow> bool \<Rightarrow> tracked_file prog" where
  "create_tracked_file_with_source pair_id path checksum sz virtual direct via_folder w =
     (let d = w_db w; i = nx_file d in
      if (\<exists>f \<in> set (db_files d). tf_drive_pair_id f = pair_id \<and> tf_relative_path f = path)
      then raise_m (Constraint ''UNIQUE tracked_files'') w
      else if \<not> has_pair pair_id w then raise_m (Constraint ''FOREIGN KEY tracked_files'') w
      else get_tracked_file i (w\<lparr>w_db := d\<lparr>
        db_files := db_files d @
          [\<lparr>tf_id = i, tf_drive_pair_id = pair_id, tf_relative_path = path, tf_checksum = checksum,
            tf_file_size = sz, tf_virtual_path = virtual, tf_is_mirrored = False,
            tf_tracked_direct = direct, tf_tracked_via_folder = via_folder,
            tf_last_integrity_check_at = None, tf_created_at = w_now w, tf_updated_at = w_now w\<rparr>],
        nx_file := i + 1\<rparr>\<rparr>))"

definition create_tracked_file :: "int \<Rightarrow> string \<Rightarrow> string \<Rightarrow> int \<Rightarrow> string option \<Rightarrow> tracked_file prog" where
  "create_tracked_file pair_id path checksum sz virtual =
     create_tracked_file_with_source pair_id path checksum sz virtual True False"

definition get_tracked_file_by_path :: "int \<Rightarrow> string \<Rightarrow> tracked_file prog" where
  "get_tracked_file_by_path pair_id path w =
     (case find (\<lambda>f. tf_drive_pair_id f = pair_id \<and> tf_relative_path f = path) (db_files (w_db w)) of
       None \<Rightarrow> (Inl QueryReturnedNoRows, w) | Some f \<Rightarrow> (Inr f, w))"

definition list_tracked_files ::
    "int option \<Rightarrow> string option \<Rightarrow> bool option \<Rightarrow> int \<Rightarrow> int \<Rightarrow> (tracked_file list \<times> int) prog" where
  "list_tracked_files pair_id vprefix mirrored page per_page = gets_m (\<lambda>w.
     let sel = filter (\<lambda>f.
         (case pair_id of None \<Rightarrow> True | Some i \<Rightarrow> tf_drive_pair_id f = i) \<and>
         (case vprefix of None \<Rightarrow> True
          | Some p \<Rightarrow> (case tf_virtual_path f of None \<Rightarrow> False | Some v \<Rightarrow> sql_like None (p @ ''%'') v)) \<and>
         (case mirrored of None \<Rightarrow> True | Some b \<Rightarrow> tf_is_mirrored f = b)) (db_files (w_db w))
     in (paginate page per_page sel, int (length sel)))"

definition update_tracked_file_checksum :: "int \<Rightarrow> string \<Rightarrow> int \<Rightarrow> unit prog" where
  "update_tracked_file_checksum i checksum sz =
     update_files (\<lambda>f. tf_id f = i) (\<lambda>f. f\<lparr>tf_checksum := checksum, tf_file_size := sz\<rparr>)"

definition update_tracked_file_mirror_status :: "int \<Rightarrow> bool \<Rightarrow> unit prog" where
  "update_tracked_file_mirror_status i b =
     update_files (\<lambda>f. tf_id f = i) (\<lambda>f. f\<lparr>tf_is_mirrored := b\<rparr>)"

definition update_tracked_file_last_integrity_check_at :: "int \<Rightarrow> unit prog" where
  "update_tracked_file_last_integrity_check_at i w =
     update_files (\<lambda>f. tf_id f = i) (\<lambda>f. f\<lparr>tf_last_integrity_check_at := Some (w_now w)\<rparr>) w"

definition update_tracked_file_virtual_path :: "int \<Rightarrow> string option \<Rightarrow> unit prog" where
  "update_tracked_file_virtual_path i v =
     update_files (\<lambda>f. tf_id f = i) (\<lambda>f. f\<lparr>tf_virtual_path := v\<rparr>)"

definition update_tracked_file_sources :: "int \<Rightarrow> bool \<Rightarrow> bool \<Rightarrow> unit prog" where
  "update_tracked_file_sources i direct via_folder =
     update_files (\<lambda>f. tf_id f = i)
       (\<lambda>f. f\<lparr>tf_tracked_direct := direct, tf_tracked_via_folder := via_folder\<rparr>)"

text \<open>
  Deleting a file: its queue items first, then the row, whose events keep no reference and whose run
  results go with it (\<open>ON DELETE SET NULL\<close>, \<open>ON DELETE CASCADE\<close>).
\<close>

definition drop_file_rows :: "int \<Rightarrow> db \<Rightarrow> db" where
  "drop_file_rows i d = d\<lparr>
     db_files := filter (\<lambda>f. tf_id f \<noteq> i) (db_files d),
     db_events := upd_where (\<lambda>e. ev_tracked_file_id e = Some i)
       (\<lambda>e. e\<lparr>ev_tracked_file_id := None\<rparr>) (db_events d),
     db_results := filter (\<lambda>r. rr_file_id r \<noteq> i) (db_results d)\<rparr>"

definition drop_file_queue :: "int \<Rightarrow> db \<Rightarrow> db" where
  "drop_file_queue i d = d\<lparr>db_queue := filter (\<lambda>q. sq_tracked_file_id q \<noteq> i) (db_queue d)\<rparr>"

definition delete_tracked_file :: "int \<Rightarrow> unit prog" where
  "delete_tracked_file i = seq_m (db_do (drop_file_queue i)) (db_do (drop_file_rows i))"

definition count_tracked_files :: "int option \<Rightarrow> int prog" where
  "count_tracked_files pair_id = gets_m (\<lambda>w. case pair_id of
       Some i \<Rightarrow> count_where (\<lambda>f. tf_drive_pair_id f = i) (db_files (w_db w))
     | None \<Rightarrow> int (length (db_files (w_db w))))"

text \<open>
  \<open>ORDER BY last_integrity_check_at ASC\<close>: files never checked (\<open>NULL\<close>) first. Rows with the same time
  stamp have no order in the query; here they keep the rowid order, the order of an index on the column.
\<close>

definition oldest_check_first :: "tracked_file list \<Rightarrow> tracked_file list" where
  "oldest_check_first fs =
     filter (\<lambda>f. tf_last_integrity_check_at f = None) fs @
     sort_key (\<lambda>f. the (tf_last_integrity_check_at f)) (filter (\<lambda>f. tf_last_integrity_check_at f \<noteq> None) fs)"

definition list_tracked_files_oldest_integrity_first ::
    "int option \<Rightarrow> int \<Rightarrow> int \<Rightarrow> (tracked_file list \<times> int) prog" where
  "list_tracked_files_oldest_integrity_first pair_id page per_page = gets_m (\<lambda>w.
     let sel = filter (\<lambda>f. case pair_id of None \<Rightarrow> True | Some i \<Rightarrow> tf_drive_pair_id f = i) (db_files (w_db w))
     in (paginate page per_page (oldest_check_first sel), int (length sel)))"

subsection \<open>Both tables keep the read contract\<close>

interpretation pairs: row_table db_pairs dp_id get_drive_pair
  by unfold_locales (simp add: get_drive_pair_def)

interpretation files: row_table db_files tf_id get_tracked_file
  by unfold_locales (simp add: get_tracked_file_def)

lemmas reads_keep [keeps] = pairs.keeps_get files.keeps_get

subsection \<open>Running the updates\<close>

lemma update_pair_run [run, simp]:
  "update_pair i f w = (Inr (), w\<lparr>w_db := (w_db w)\<lparr>db_pairs :=
     upd_where (\<lambda>p. dp_id p = i) (\<lambda>p. (f p)\<lparr>dp_updated_at := w_now w\<rparr>) (db_pairs (w_db w))\<rparr>\<rparr>)"
  by (simp add: update_pair_def)

lemma update_files_run [run, simp]:
  "update_files P f w = (Inr (), w\<lparr>w_db := (w_db w)\<lparr>db_files :=
     upd_where P (\<lambda>r. (f r)\<lparr>tf_updated_at := w_now w\<rparr>) (db_files (w_db w))\<rparr>\<rparr>)"
  by (simp add: update_files_def)

lemma opt_m_simps [simp]: "opt_m None f = return_m ()" "opt_m (Some x) f = f x"
  by (simp_all add: opt_m_def)

lemma check_m_simps [simp]: "check_m True s = return_m ()" "check_m False s = raise_m (Constraint s)"
  by (simp_all add: check_m_def)

lemma opt_m_keeps [keeps]: "(\<And>x. keeps P (f x)) \<Longrightarrow> keeps P (opt_m v f)"
  by (simp add: opt_m_def keeps_return split: option.splits)

lemma check_m_keeps [keeps]: "keeps P (check_m b s)"
  by (simp add: check_m_def keeps_return keeps_raise)

text \<open>
  The runtime update with valid names is one update of the row: the fields given are replaced, the
  rest stay, and the row read back is the row written.
\<close>

definition runtime_fields ::
    "string option \<Rightarrow> string option \<Rightarrow> string option \<Rightarrow> string option \<Rightarrow> string option
      \<Rightarrow> drive_pair \<Rightarrow> drive_pair" where
  "runtime_fields pp sp ps ss ar p = p\<lparr>
     dp_primary_path := (case pp of None \<Rightarrow> dp_primary_path p | Some x \<Rightarrow> x),
     dp_secondary_path := (case sp of None \<Rightarrow> dp_secondary_path p | Some x \<Rightarrow> x),
     dp_primary_state := (case ps of None \<Rightarrow> dp_primary_state p | Some x \<Rightarrow> x),
     dp_secondary_state := (case ss of None \<Rightarrow> dp_secondary_state p | Some x \<Rightarrow> x),
     dp_active_role := (case ar of None \<Rightarrow> dp_active_role p | Some x \<Rightarrow> x)\<rparr>"

definition valid_names :: "string option \<Rightarrow> string option \<Rightarrow> string option \<Rightarrow> bool" where
  "valid_names ps ss ar \<longleftrightarrow>
     (case ps of None \<Rightarrow> True | Some x \<Rightarrow> x \<in> set state_names) \<and>
     (case ss of None \<Rightarrow> True | Some x \<Rightarrow> x \<in> set state_names) \<and>
     (case ar of None \<Rightarrow> True | Some x \<Rightarrow> x \<in> {''primary'', ''secondary''})"

definition put_pairs :: "(drive_pair list \<Rightarrow> drive_pair list) \<Rightarrow> world \<Rightarrow> world" where
  "put_pairs f w = w\<lparr>w_db := (w_db w)\<lparr>db_pairs := f (db_pairs (w_db w))\<rparr>\<rparr>"

lemma runtime_update_get:
  assumes "valid_names ps ss ar" and "\<not> (pp = None \<and> sp = None \<and> ps = None \<and> ss = None \<and> ar = None)"
  shows "update_drive_pair_runtime i pp sp ps ss ar w =
    get_drive_pair i (put_pairs (upd_where (\<lambda>q. dp_id q = i)
      (\<lambda>q. (runtime_fields pp sp ps ss ar q)\<lparr>dp_updated_at := w_now w\<rparr>)) w)"
  using assms
  by (cases pp; cases sp; cases ps; cases ss; cases ar)
    (simp_all add: update_drive_pair_runtime_def valid_names_def runtime_fields_def put_pairs_def
      upd_where_twice seq_m_def bind_m_def)

text \<open>The stamped row the update writes, and the update as one equation.\<close>

definition runtime_row ::
    "string option \<Rightarrow> string option \<Rightarrow> string option \<Rightarrow> string option \<Rightarrow> string option
      \<Rightarrow> int \<Rightarrow> drive_pair \<Rightarrow> drive_pair" where
  "runtime_row pp sp ps ss ar now p = (runtime_fields pp sp ps ss ar p)\<lparr>dp_updated_at := now\<rparr>"

lemma runtime_row_sel [simp]:
  "dp_id (runtime_row pp sp ps ss ar now p) = dp_id p"
  "dp_name (runtime_row pp sp ps ss ar now p) = dp_name p"
  "dp_primary_path (runtime_row pp sp ps ss ar now p) = (case pp of None \<Rightarrow> dp_primary_path p | Some x \<Rightarrow> x)"
  "dp_secondary_path (runtime_row pp sp ps ss ar now p) = (case sp of None \<Rightarrow> dp_secondary_path p | Some x \<Rightarrow> x)"
  "dp_primary_state (runtime_row pp sp ps ss ar now p) = (case ps of None \<Rightarrow> dp_primary_state p | Some x \<Rightarrow> x)"
  "dp_secondary_state (runtime_row pp sp ps ss ar now p) = (case ss of None \<Rightarrow> dp_secondary_state p | Some x \<Rightarrow> x)"
  "dp_active_role (runtime_row pp sp ps ss ar now p) = (case ar of None \<Rightarrow> dp_active_role p | Some x \<Rightarrow> x)"
  by (simp_all add: runtime_row_def runtime_fields_def)

lemma put_pairs_sel [simp]:
  "db_pairs (w_db (put_pairs f w)) = f (db_pairs (w_db w))"
  "db_files (w_db (put_pairs f w)) = db_files (w_db w)"
  "db_folders (w_db (put_pairs f w)) = db_folders (w_db w)"
  "db_queue (w_db (put_pairs f w)) = db_queue (w_db w)"
  "w_fs (put_pairs f w) = w_fs w"
  "w_now (put_pairs f w) = w_now w"
  by (simp_all add: put_pairs_def)

lemma runtime_update_run:
  assumes "valid_names ps ss ar" and "\<not> (pp = None \<and> sp = None \<and> ps = None \<and> ss = None \<and> ar = None)"
    and "find (\<lambda>q. dp_id q = i) (db_pairs (w_db w)) = Some p"
  shows "update_drive_pair_runtime i pp sp ps ss ar w =
    (Inr (runtime_row pp sp ps ss ar (w_now w) p),
     put_pairs (upd_where (\<lambda>q. dp_id q = i) (runtime_row pp sp ps ss ar (w_now w))) w)"
proof -
  have g: "(\<lambda>q. (runtime_fields pp sp ps ss ar q)\<lparr>dp_updated_at := w_now w\<rparr>) =
      runtime_row pp sp ps ss ar (w_now w)"
    by (simp add: fun_eq_iff runtime_row_def)
  from assms(3) have "dp_id p = i" by (auto dest: find_SomeD)
  with assms show ?thesis
    unfolding runtime_update_get [OF assms(1,2)] g by (simp add: pairs.get_run find_upd_where)
qed

end
