(* ===== verification/Repo_Queue.thy ===== *)
theory Repo_Queue
  imports Repo_Core
begin

section \<open>Repository: sync queue, sync settings, event log\<close>

text \<open>
  The statements of \<open>src/db/repository.rs\<close> on \<open>sync_queue\<close>, \<open>sync_settings\<close> and \<open>event_log\<close>. A queue item
  is \<^emph>\<open>active\<close> while it is \<open>pending\<close> or \<open>in_progress\<close>. The facts proved here: a deduplicated insertion
  never adds a second active item for the same file, action and reason; the fair page of pending
  items holds only pending items and keeps each drive pair's queue order; the cross-process lock is
  exclusive while its holder lives.
\<close>

subsection \<open>The queue table\<close>

definition action_names :: "string list" where
  "action_names = [''mirror'', ''restore_master'', ''restore_mirror'', ''verify'',
     ''user_action_required'', ''adopt_mirror'']"

definition status_names :: "string list" where
  "status_names = [''pending'', ''in_progress'', ''completed'', ''failed'']"

definition is_active :: "sync_item \<Rightarrow> bool" where
  "is_active q = (sq_status q = ''pending'' \<or> sq_status q = ''in_progress'')"

definition get_sync_queue_item :: "int \<Rightarrow> sync_item prog" where
  "get_sync_queue_item i w = (case find (\<lambda>q. sq_id q = i) (db_queue (w_db w)) of
       None \<Rightarrow> (Inl QueryReturnedNoRows, w) | Some q \<Rightarrow> (Inr q, w))"

definition has_file :: "int \<Rightarrow> db \<Rightarrow> bool" where
  "has_file i d = (\<exists>f \<in> set (db_files d). tf_id f = i)"

definition new_item :: "int \<Rightarrow> int \<Rightarrow> string \<Rightarrow> string option \<Rightarrow> string option \<Rightarrow> int \<Rightarrow> sync_item" where
  "new_item i file_id action reason error_message now =
     \<lparr>sq_id = i, sq_tracked_file_id = file_id, sq_action = action, sq_status = ''pending'',
      sq_error_message = error_message, sq_reason = reason, sq_created_at = now, sq_completed_at = None\<rparr>"

definition push_item :: "sync_item \<Rightarrow> db \<Rightarrow> db" where
  "push_item q d = d\<lparr>db_queue := db_queue d @ [q], nx_queue := nx_queue d + 1\<rparr>"

definition create_sync_queue_item_with_reason_and_error ::
    "int \<Rightarrow> string \<Rightarrow> string option \<Rightarrow> string option \<Rightarrow> sync_item prog" where
  "create_sync_queue_item_with_reason_and_error file_id action reason error_message w =
     (let d = w_db w in
      if action \<notin> set action_names then raise_m (Constraint ''CHECK sync_queue.action'') w
      else if \<not> has_file file_id d then raise_m (Constraint ''FOREIGN KEY sync_queue'') w
      else get_sync_queue_item (nx_queue d) (w\<lparr>w_db :=
        push_item (new_item (nx_queue d) file_id action reason error_message (w_now w)) d\<rparr>))"

definition create_sync_queue_item :: "int \<Rightarrow> string \<Rightarrow> sync_item prog" where
  "create_sync_queue_item file_id action =
     create_sync_queue_item_with_reason_and_error file_id action None None"

definition create_sync_queue_item_with_reason :: "int \<Rightarrow> string \<Rightarrow> string option \<Rightarrow> sync_item prog" where
  "create_sync_queue_item_with_reason file_id action reason =
     create_sync_queue_item_with_reason_and_error file_id action reason None"

text \<open>The rows the deduplication looks for (\<open>reason = NULL\<close> is never true in SQL, hence the two cases).\<close>

definition dup_item :: "int \<Rightarrow> string \<Rightarrow> string option \<Rightarrow> sync_item \<Rightarrow> bool" where
  "dup_item file_id action reason q =
     (sq_tracked_file_id q = file_id \<and> sq_action q = action \<and> is_active q \<and>
      (reason = None \<and> sq_reason q = None
       \<or> (case sq_reason q of None \<Rightarrow> False | Some r \<Rightarrow> reason = Some r)))"

definition create_sync_queue_item_dedup_with_reason_and_error_with_created ::
    "int \<Rightarrow> string \<Rightarrow> string option \<Rightarrow> string option \<Rightarrow> (sync_item \<times> bool) prog" where
  "create_sync_queue_item_dedup_with_reason_and_error_with_created file_id action reason error_message w =
     (case find (dup_item file_id action reason) (db_queue (w_db w)) of
        Some q \<Rightarrow> bind_m (get_sync_queue_item (sq_id q)) (\<lambda>item. return_m (item, False)) w
      | None \<Rightarrow> bind_m (create_sync_queue_item_with_reason_and_error file_id action reason error_message)
          (\<lambda>item. return_m (item, True)) w)"

definition create_sync_queue_item_dedup :: "int \<Rightarrow> string \<Rightarrow> sync_item option prog" where
  "create_sync_queue_item_dedup file_id action =
     bind_m (create_sync_queue_item_dedup_with_reason_and_error_with_created file_id action None None)
       (\<lambda>(item, _). return_m (Some item))"

definition create_sync_queue_item_dedup_with_created :: "int \<Rightarrow> string \<Rightarrow> (sync_item \<times> bool) prog" where
  "create_sync_queue_item_dedup_with_created file_id action =
     create_sync_queue_item_dedup_with_reason_and_error_with_created file_id action None None"

definition create_sync_queue_item_dedup_with_reason ::
    "int \<Rightarrow> string \<Rightarrow> string option \<Rightarrow> (sync_item \<times> bool) prog" where
  "create_sync_queue_item_dedup_with_reason file_id action reason =
     create_sync_queue_item_dedup_with_reason_and_error_with_created file_id action reason None"

definition has_pending_sync_queue_item_with_reason :: "int \<Rightarrow> string \<Rightarrow> string \<Rightarrow> bool prog" where
  "has_pending_sync_queue_item_with_reason file_id action reason = gets_m (\<lambda>w.
     count_where (\<lambda>q. sq_tracked_file_id q = file_id \<and> sq_action q = action \<and>
       sq_reason q = Some reason \<and> is_active q) (db_queue (w_db w)) > 0)"

interpretation queue: row_table db_queue sq_id get_sync_queue_item
  by unfold_locales (simp add: get_sync_queue_item_def)

lemma create_item_keeps:
  assumes P: "\<And>q w. P w \<Longrightarrow> P (w\<lparr>w_db := push_item q (w_db w)\<rparr>)"
  shows "keeps P (create_sync_queue_item_with_reason_and_error file_id action reason error_message)"
  using P by (simp add: keeps_def create_sync_queue_item_with_reason_and_error_def Let_def queue.get_state)

lemma create_item_dedup_keeps:
  assumes P: "\<And>q w. P w \<Longrightarrow> P (w\<lparr>w_db := push_item q (w_db w)\<rparr>)"
  shows "keeps P (create_sync_queue_item_dedup_with_reason_and_error_with_created i a r e)"
proof (rule keepsI)
  fix w assume w: "P w"
  have "P (snd (bind_m (get_sync_queue_item j) (\<lambda>item. return_m (item, False)) w))" for j
    by (rule keepsD [where P = P, OF _ w]) (intro keeps_bind queue.keeps_get keeps_return)
  moreover have "P (snd (bind_m (create_sync_queue_item_with_reason_and_error i a r e)
      (\<lambda>item. return_m (item, True)) w))"
    by (rule keepsD [where P = P, OF _ w]) (intro keeps_bind create_item_keeps P keeps_return)
  ultimately show "P (snd (create_sync_queue_item_dedup_with_reason_and_error_with_created i a r e w))"
    by (simp add: create_sync_queue_item_dedup_with_reason_and_error_with_created_def split: option.splits)
qed

text \<open>
  The fair page: pending items in rowid order with the drive pair of their file (\<open>0\<close> for an orphan),
  ranked within their pair, lowest ranks first. The list is in rowid order, so a stable sort on the
  rank is \<open>ORDER BY pair_rank, id\<close>.
\<close>

definition item_pair :: "db \<Rightarrow> sync_item \<Rightarrow> int" where
  "item_pair d q = (case find (\<lambda>f. tf_id f = sq_tracked_file_id q) (db_files d) of
       None \<Rightarrow> 0 | Some f \<Rightarrow> tf_drive_pair_id f)"

fun ranked :: "int list \<Rightarrow> (int \<times> sync_item) list \<Rightarrow> (nat \<times> int \<times> sync_item) list" where
  "ranked seen [] = []"
| "ranked seen ((p, q) # xs) = (count_list seen p, p, q) # ranked (p # seen) xs"

definition pending_with_pair :: "db \<Rightarrow> (int \<times> sync_item) list" where
  "pending_with_pair d =
     map (\<lambda>q. (item_pair d q, q)) (filter (\<lambda>q. sq_status q = ''pending'') (db_queue d))"

definition list_pending_sync_queue_with_drive_pair :: "int \<Rightarrow> (int \<times> sync_item) list prog" where
  "list_pending_sync_queue_with_drive_pair limit = gets_m (\<lambda>w.
     take (nat limit) (map snd (sort_key fst (ranked [] (pending_with_pair (w_db w))))))"

definition list_sync_queue :: "string option \<Rightarrow> int \<Rightarrow> int \<Rightarrow> (sync_item list \<times> int) prog" where
  "list_sync_queue status page per_page = gets_m (\<lambda>w.
     let sel = filter (\<lambda>q. case status of None \<Rightarrow> True | Some s \<Rightarrow> sq_status q = s) (db_queue (w_db w))
     in (paginate (max page 1) (max 1 (min per_page 200)) sel, int (length sel)))"

definition update_queue :: "(sync_item \<Rightarrow> bool) \<Rightarrow> (sync_item \<Rightarrow> sync_item) \<Rightarrow> world \<Rightarrow> world" where
  "update_queue P f w = w\<lparr>w_db := (w_db w)\<lparr>db_queue := upd_where P f (db_queue (w_db w))\<rparr>\<rparr>"

text \<open>An update that answers with the number of rows it changed.\<close>

definition update_queue_counted :: "(sync_item \<Rightarrow> bool) \<Rightarrow> (sync_item \<Rightarrow> sync_item) \<Rightarrow> int prog" where
  "update_queue_counted P f w = (Inr (count_where P (db_queue (w_db w))), update_queue P f w)"

definition clear_completed_sync_queue :: "int prog" where
  "clear_completed_sync_queue w =
     (Inr (count_where (\<lambda>q. sq_status q = ''completed'') (db_queue (w_db w))),
      w\<lparr>w_db := (w_db w)\<lparr>db_queue := filter (\<lambda>q. sq_status q \<noteq> ''completed'') (db_queue (w_db w))\<rparr>\<rparr>)"

definition requeue_in_progress_sync_queue :: "int prog" where
  "requeue_in_progress_sync_queue = update_queue_counted (\<lambda>q. sq_status q = ''in_progress'')
     (\<lambda>q. q\<lparr>sq_status := ''pending'', sq_error_message := None, sq_completed_at := None\<rparr>)"

definition stamp_status :: "string \<Rightarrow> string option \<Rightarrow> int \<Rightarrow> sync_item \<Rightarrow> sync_item" where
  "stamp_status status error_message now q = q\<lparr>sq_status := status, sq_error_message := error_message,
     sq_completed_at := (if status = ''completed'' \<or> status = ''failed'' then Some now else None)\<rparr>"

definition update_sync_queue_status :: "int \<Rightarrow> string \<Rightarrow> string option \<Rightarrow> unit prog" where
  "update_sync_queue_status i status error_message w =
     (if status \<notin> set status_names \<and> (\<exists>q \<in> set (db_queue (w_db w)). sq_id q = i)
      then raise_m (Constraint ''CHECK sync_queue.status'') w
      else (Inr (), update_queue (\<lambda>q. sq_id q = i) (stamp_status status error_message (w_now w)) w))"

definition is_mirror_action :: "string \<Rightarrow> bool" where
  "is_mirror_action a = (a = ''mirror'' \<or> a = ''adopt_mirror'')"

definition complete_pending_mirror_queue_for_file :: "int \<Rightarrow> int prog" where
  "complete_pending_mirror_queue_for_file file_id w = update_queue_counted
     (\<lambda>q. sq_tracked_file_id q = file_id \<and> is_mirror_action (sq_action q) \<and> is_active q)
     (stamp_status ''completed'' None (w_now w)) w"

definition start_pending_mirror_queue_for_file :: "int \<Rightarrow> int prog" where
  "start_pending_mirror_queue_for_file file_id w = update_queue_counted
     (\<lambda>q. sq_tracked_file_id q = file_id \<and> is_mirror_action (sq_action q) \<and> sq_status q = ''pending'')
     (stamp_status ''in_progress'' None (w_now w)) w"

definition fail_pending_mirror_queue_for_file :: "int \<Rightarrow> string \<Rightarrow> int prog" where
  "fail_pending_mirror_queue_for_file file_id error_message w = update_queue_counted
     (\<lambda>q. sq_tracked_file_id q = file_id \<and> is_mirror_action (sq_action q) \<and> is_active q)
     (stamp_status ''failed'' (Some error_message) (w_now w)) w"

definition file_of_pair :: "db \<Rightarrow> int \<Rightarrow> int \<Rightarrow> bool" where
  "file_of_pair d pair_id file_id = (\<exists>f \<in> set (db_files d). tf_id f = file_id \<and> tf_drive_pair_id f = pair_id)"

definition fail_pending_sync_queue_for_drive_pair :: "int \<Rightarrow> string \<Rightarrow> int prog" where
  "fail_pending_sync_queue_for_drive_pair pair_id error_message w = update_queue_counted
     (\<lambda>q. is_active q \<and> file_of_pair (w_db w) pair_id (sq_tracked_file_id q))
     (stamp_status ''failed'' (Some error_message) (w_now w)) w"

definition count_sync_queue_items_for_drive_pair_action :: "int \<Rightarrow> string \<Rightarrow> string list \<Rightarrow> int prog" where
  "count_sync_queue_items_for_drive_pair_action pair_id action statuses = gets_m (\<lambda>w.
     count_where (\<lambda>q. sq_action q = action \<and> file_of_pair (w_db w) pair_id (sq_tracked_file_id q) \<and>
       (statuses = [] \<or> sq_status q \<in> set statuses)) (db_queue (w_db w)))"

definition count_active_sync_queue :: "int prog" where
  "count_active_sync_queue = gets_m (\<lambda>w. count_where is_active (db_queue (w_db w)))"

definition count_in_progress_sync_queue :: "int prog" where
  "count_in_progress_sync_queue =
     gets_m (\<lambda>w. count_where (\<lambda>q. sq_status q = ''in_progress'') (db_queue (w_db w)))"

definition has_active_sync_for_file :: "int \<Rightarrow> bool prog" where
  "has_active_sync_for_file file_id = gets_m (\<lambda>w.
     count_where (\<lambda>q. sq_tracked_file_id q = file_id \<and> sq_status q = ''in_progress'') (db_queue (w_db w)) > 0)"

text \<open>\<open>SELECT status, COUNT(*) \<dots> GROUP BY status\<close>: a status without rows is absent.\<close>

definition count_sync_queue_by_status :: "(string \<Rightarrow> int option) prog" where
  "count_sync_queue_by_status = gets_m (\<lambda>w s.
     let n = count_where (\<lambda>q. sq_status q = s) (db_queue (w_db w)) in if n = 0 then None else Some n)"

subsection \<open>Settings and the processing lock\<close>

definition get_sync_queue_paused :: "bool prog" where
  "get_sync_queue_paused = gets_m (\<lambda>w. ss_queue_paused (db_sync_settings (w_db w)))"

definition set_sync_queue_paused :: "bool \<Rightarrow> unit prog" where
  "set_sync_queue_paused b =
     db_do (\<lambda>d. d\<lparr>db_sync_settings := (db_sync_settings d)\<lparr>ss_queue_paused := b\<rparr>\<rparr>)"

text \<open>\<open>p as u32\<close> keeps the low 32 bits of the stored process id.\<close>

definition held_by_dead_process :: "world \<Rightarrow> bool" where
  "held_by_dead_process w = (case ss_processing_locked_by_pid (db_sync_settings (w_db w)) of
       None \<Rightarrow> False | Some p \<Rightarrow> \<not> w_alive w (p mod 2 ^ 32))"

definition try_acquire_sync_processing_lock :: "int \<Rightarrow> bool prog" where
  "try_acquire_sync_processing_lock stale_after_secs w =
     (let s = db_sync_settings (w_db w);
          free = (case ss_processing_locked_at s of
              None \<Rightarrow> True
            | Some t \<Rightarrow> t \<le> w_now w - stale_after_secs \<or> held_by_dead_process w)
      in if free then (Inr True, w\<lparr>w_db := (w_db w)\<lparr>db_sync_settings :=
             s\<lparr>ss_processing_locked_at := Some (w_now w), ss_processing_locked_by_pid := Some (w_pid w)\<rparr>\<rparr>\<rparr>)
         else (Inr False, w))"

definition heartbeat_sync_processing_lock :: "unit prog" where
  "heartbeat_sync_processing_lock = modify_m (\<lambda>w. w\<lparr>w_db := (w_db w)\<lparr>db_sync_settings :=
     (db_sync_settings (w_db w))\<lparr>ss_processing_locked_at := Some (w_now w)\<rparr>\<rparr>\<rparr>)"

definition release_sync_processing_lock :: "unit prog" where
  "release_sync_processing_lock = db_do (\<lambda>d. d\<lparr>db_sync_settings :=
     (db_sync_settings d)\<lparr>ss_processing_locked_at := None, ss_processing_locked_by_pid := None\<rparr>\<rparr>)"

subsection \<open>The event log\<close>

definition event_names :: "string list" where
  "event_names = [''file_created'', ''file_edited'', ''file_mirrored'', ''file_untracked'',
     ''integrity_pass'', ''integrity_fail'', ''recovery_success'', ''recovery_fail'', ''both_corrupted'',
     ''change_detected'', ''sync_completed'', ''sync_failed'', ''folder_tracked'', ''folder_untracked'',
     ''integrity_run_started'', ''integrity_run_completed'', ''drive_created'', ''drive_updated'',
     ''drive_deleted'', ''drive_failover'', ''drive_quiescing'', ''drive_quiesce_cancelled'',
     ''drive_failure_confirmed'', ''drive_replacement_assigned'', ''drive_rebuild_completed'']"

definition create_event_log :: "string \<Rightarrow> int option \<Rightarrow> string \<Rightarrow> string option \<Rightarrow> unit prog" where
  "create_event_log event_type file_id message details w =
     (let d = w_db w in
      if event_type \<notin> set event_names then raise_m (Constraint ''CHECK event_log.event_type'') w
      else if (case file_id of None \<Rightarrow> False | Some i \<Rightarrow> \<not> has_file i d)
      then raise_m (Constraint ''FOREIGN KEY event_log'') w
      else (Inr (), w\<lparr>w_db := d\<lparr>
        db_events := db_events d @ [\<lparr>ev_id = nx_event d, ev_event_type = event_type,
          ev_tracked_file_id = file_id, ev_message = message, ev_details = details,
          ev_created_at = w_now w\<rparr>],
        nx_event := nx_event d + 1\<rparr>\<rparr>))"

subsection \<open>The fair page\<close>

lemma ranked_snd: "map snd (ranked seen xs) = xs"
  by (induction seen xs rule: ranked.induct) simp_all

lemma ranked_pair:
  "map fst (filter (\<lambda>x. fst (snd x) = p) (ranked seen xs)) =
     [count_list seen p ..< count_list seen p + length (filter (\<lambda>x. fst x = p) xs)]"
proof (induction seen xs rule: ranked.induct)
  case (2 seen r q xs)
  show ?case
  proof (cases "r = p")
    case True
    have "[count_list seen p ..< Suc (count_list seen p + length (filter (\<lambda>x. fst x = p) xs))] =
        count_list seen p # [Suc (count_list seen p) ..< Suc (count_list seen p + length (filter (\<lambda>x. fst x = p) xs))]"
      by (rule upt_conv_Cons) simp
    then show ?thesis using 2 True by simp
  qed (use 2 in simp)
qed simp

definition fair_order :: "(int \<times> sync_item) list \<Rightarrow> (nat \<times> int \<times> sync_item) list" where
  "fair_order xs = sort_key fst (ranked [] xs)"

lemma fair_order_pair:
  "filter (\<lambda>x. fst (snd x) = p) (fair_order xs) = filter (\<lambda>x. fst (snd x) = p) (ranked [] xs)"
proof -
  have "sorted (map fst (filter (\<lambda>x. fst (snd x) = p) (ranked [] xs)))"
    unfolding ranked_pair by simp
  then show ?thesis by (simp add: fair_order_def filter_sort sort_key_id_if_sorted)
qed

lemma fair_order_pair_ranks:
  "map fst (filter (\<lambda>x. fst (snd x) = p) (fair_order xs)) = [0 ..< length (filter (\<lambda>x. fst x = p) xs)]"
  by (simp add: fair_order_pair ranked_pair)

lemma map_snd_filter: "map snd (filter (\<lambda>x. P (snd x)) ys) = filter P (map snd ys)"
  by (induction ys) auto

lemma fair_order_pair_items:
  "filter (\<lambda>x. fst x = p) (map snd (fair_order xs)) = filter (\<lambda>x. fst x = p) xs"
  using arg_cong [OF fair_order_pair [of p xs], of "map snd"]
  by (simp only: map_snd_filter [where P = "\<lambda>x. fst x = p"] ranked_snd)

lemma fair_order_set: "set (map snd (fair_order xs)) = set xs"
  using arg_cong [OF ranked_snd [of "[]" xs], of set] by (simp add: fair_order_def)

definition fair_page :: "nat \<Rightarrow> (int \<times> sync_item) list \<Rightarrow> (int \<times> sync_item) list" where
  "fair_page n xs = take n (map snd (fair_order xs))"

lemma fair_page_prefix:
  "prefix (filter (\<lambda>x. fst x = p) (fair_page n xs)) (filter (\<lambda>x. fst x = p) xs)"
  unfolding fair_page_def fair_order_pair_items [symmetric, of p xs]
  by (metis append_take_drop_id filter_append prefixI)

lemma upt_split:
  assumes "[0 ..< n] = ys @ zs"
  shows "ys = [0 ..< length ys]" "zs = [length ys ..< n]"
proof -
  have le: "length ys \<le> n" using arg_cong [OF assms, of length] by simp
  have "ys = take (length ys) [0 ..< n]" "zs = drop (length ys) [0 ..< n]"
    by (simp_all add: assms)
  with le show "ys = [0 ..< length ys]" "zs = [length ys ..< n]" by simp_all
qed

lemma fair_page_bound:
  assumes more: "length (filter (\<lambda>x. fst x = j) (fair_page n xs)) < length (filter (\<lambda>x. fst x = j) xs)"
  shows "length (filter (\<lambda>x. fst x = i) (fair_page n xs)) \<le> length (filter (\<lambda>x. fst x = j) (fair_page n xs)) + 1"
proof -
  define T where "T = take n (fair_order xs)"
  define D where "D = drop n (fair_order xs)"
  have TD: "fair_order xs = T @ D" by (simp add: T_def D_def)
  let ?f = "\<lambda>p ys. filter (\<lambda>x. fst (snd x) = p) ys"
  have len: "length (filter (\<lambda>x. fst x = p) (fair_page n xs)) = length (?f p T)" for p
    unfolding fair_page_def T_def take_map map_snd_filter [symmetric] by simp
  have split: "[0 ..< length (filter (\<lambda>x. fst x = p) xs)] = map fst (?f p T) @ map fst (?f p D)" for p
    using fair_order_pair_ranks [of p xs] by (simp add: TD)
  have s: "sorted (map fst (fair_order xs))" by (simp add: fair_order_def)
  show ?thesis
  proof (cases "length (?f i T)")
    case (Suc a)
    have "a \<in> set (map fst (?f i T))"
      using Suc by (subst upt_split(1) [OF split [of i]]) simp
    then have a: "a \<in> set (map fst T)" by auto
    have "length (?f j T) \<in> set (map fst (?f j D))"
      using more by (subst upt_split(2) [OF split [of j]]) (simp add: len)
    then have b: "length (?f j T) \<in> set (map fst D)" by auto
    have "a \<le> length (?f j T)"
      using s a b unfolding TD map_append sorted_append by blast
    then show ?thesis using Suc by (simp add: len)
  qed (simp add: len)
qed

lemma list_pending_run:
  "list_pending_sync_queue_with_drive_pair limit w = (Inr (fair_page (nat limit) (pending_with_pair (w_db w))), w)"
  by (simp add: list_pending_sync_queue_with_drive_pair_def fair_page_def fair_order_def)

subsection \<open>Deduplication\<close>

text \<open>No file has two unfinished items with the same action and reason.\<close>

definition no_duplicates :: "sync_item list \<Rightarrow> bool" where
  "no_duplicates qs = distinct (map (\<lambda>q. (sq_tracked_file_id q, sq_action q, sq_reason q)) (filter is_active qs))"

lemma dup_item_iff:
  "dup_item i a r q \<longleftrightarrow> is_active q \<and> (sq_tracked_file_id q, sq_action q, sq_reason q) = (i, a, r)"
  by (auto simp: dup_item_def split: option.splits)

lemma no_duplicates_push:
  assumes "no_duplicates qs" "find (dup_item i a r) qs = None"
  shows "no_duplicates (qs @ [new_item k i a r e now])"
  using assms by (auto simp: no_duplicates_def find_None dup_item_iff new_item_def is_active_def)

lemma dedup_run:
  "create_sync_queue_item_dedup_with_reason_and_error_with_created i a r e w =
   (let d = w_db w in
    if find (dup_item i a r) (db_queue d) \<noteq> None
    then (case find (dup_item i a r) (db_queue d) of Some q \<Rightarrow>
       (case find (\<lambda>x. sq_id x = sq_id q) (db_queue d) of Some x \<Rightarrow> (Inr (x, False), w)))
    else if a \<notin> set action_names then (Inl (Constraint ''CHECK sync_queue.action''), w)
    else if \<not> has_file i d then (Inl (Constraint ''FOREIGN KEY sync_queue''), w)
    else (let new = new_item (nx_queue d) i a r e (w_now w); qs = db_queue d @ [new] in
      case find (\<lambda>x. sq_id x = nx_queue d) qs of Some x \<Rightarrow>
        (Inr (x, True), w\<lparr>w_db := push_item new d\<rparr>)))"
proof (cases "find (dup_item i a r) (db_queue (w_db w))")
  case None
  have "find (\<lambda>x. sq_id x = nx_queue (w_db w))
      (db_queue (w_db w) @ [new_item (nx_queue (w_db w)) i a r e (w_now w)]) \<noteq> None"
    by (auto simp: find_None new_item_def)
  with None show ?thesis
    by (auto simp: create_sync_queue_item_dedup_with_reason_and_error_with_created_def Let_def
        create_sync_queue_item_with_reason_and_error_def queue.get_run bind_m_def push_item_def)
next
  case (Some q)
  then have "find (\<lambda>x. sq_id x = sq_id q) (db_queue (w_db w)) \<noteq> None"
    by (auto simp: find_None dest: find_SomeD)
  with Some show ?thesis
    by (auto simp: create_sync_queue_item_dedup_with_reason_and_error_with_created_def Let_def
        queue.get_run bind_m_def)
qed


definition queue_ids_ok :: "db \<Rightarrow> bool" where
  "queue_ids_ok d = (distinct (map sq_id (db_queue d)) \<and> (\<forall>q \<in> set (db_queue d). sq_id q < nx_queue d))"

lemma find_own_id:
  "distinct (map sq_id qs) \<Longrightarrow> q \<in> set qs \<Longrightarrow> find (\<lambda>x. sq_id x = sq_id q) qs = Some q"
  by (induction qs) auto

subsection \<open>The lock between processes\<close>

text \<open>
  What happens while one process holds the lock: time passes, the holder beats, another process tries
  to acquire. \<open>attempts\<close> runs such a history and collects the answers the others get; \<open>kept_fresh\<close> says
  that no attempt comes when the last beat is older than the staleness limit.
\<close>

datatype lock_event =
    Elapse int
  | Beat
  | Attempt int

fun attempts :: "int \<Rightarrow> lock_event list \<Rightarrow> world \<Rightarrow> (err + bool) list \<times> world" where
  "attempts stale [] w = ([], w)"
| "attempts stale (Elapse dt # es) w = attempts stale es (w\<lparr>w_now := w_now w + dt\<rparr>)"
| "attempts stale (Beat # es) w = attempts stale es (snd (heartbeat_sync_processing_lock w))"
| "attempts stale (Attempt pid # es) w =
     (case try_acquire_sync_processing_lock stale (w\<lparr>w_pid := pid\<rparr>) of (r, v) \<Rightarrow>
        (case attempts stale es (v\<lparr>w_pid := w_pid w\<rparr>) of (rs, u) \<Rightarrow> (r # rs, u)))"

fun kept_fresh :: "int \<Rightarrow> int \<Rightarrow> lock_event list \<Rightarrow> bool" where
  "kept_fresh stale age [] = True"
| "kept_fresh stale age (Elapse dt # es) = (0 \<le> dt \<and> kept_fresh stale (age + dt) es)"
| "kept_fresh stale age (Beat # es) = kept_fresh stale 0 es"
| "kept_fresh stale age (Attempt pid # es) = (age < stale \<and> kept_fresh stale age es)"

definition lock_held :: "int \<Rightarrow> int \<Rightarrow> world \<Rightarrow> bool" where
  "lock_held p age w =
     (ss_processing_locked_at (db_sync_settings (w_db w)) = Some (w_now w - age) \<and>
      ss_processing_locked_by_pid (db_sync_settings (w_db w)) = Some p \<and> w_alive w (p mod 2 ^ 32))"

lemma held_refuses:
  assumes "lock_held p age w" "age < stale"
  shows "try_acquire_sync_processing_lock stale (w\<lparr>w_pid := pid\<rparr>) = (Inr False, w\<lparr>w_pid := pid\<rparr>)"
  using assms by (simp add: lock_held_def try_acquire_sync_processing_lock_def held_by_dead_process_def Let_def)

lemma attempts_refused:
  "lock_held p age w \<Longrightarrow> kept_fresh stale age es \<Longrightarrow>
    set (fst (attempts stale es w)) \<subseteq> {Inr False} \<and> (\<exists>a. lock_held p a (snd (attempts stale es w)))"
proof (induction stale es w arbitrary: age rule: attempts.induct)
  case (2 stale dt es w)
  have "lock_held p (age + dt) (w\<lparr>w_now := w_now w + dt\<rparr>)" using 2 by (simp add: lock_held_def)
  then show ?case using 2 by simp
next
  case (3 stale es w)
  have "lock_held p 0 (snd (heartbeat_sync_processing_lock w))"
    using 3 by (simp add: lock_held_def heartbeat_sync_processing_lock_def)
  then show ?case using 3 by simp
next
  case (4 stale pid es w)
  have r: "try_acquire_sync_processing_lock stale (w\<lparr>w_pid := pid\<rparr>) = (Inr False, w\<lparr>w_pid := pid\<rparr>)"
    using 4 by (simp add: held_refuses)
  have w: "w\<lparr>w_pid := pid, w_pid := w_pid w\<rparr> = w" by (cases w) simp
  have "set (fst (attempts stale es w)) \<subseteq> {Inr False} \<and> (\<exists>a. lock_held p a (snd (attempts stale es w)))"
    using 4(1) [OF r [symmetric], of age] 4(2,3) w by simp
  then show ?case using r w by (cases "attempts stale es w") simp
qed auto

subsection \<open>Properties\<close>

text \<open>C6: deduplicated insertion. If no file has two unfinished items with the same action and reason,
  none has afterwards; an item is created exactly when there was no such unfinished item, and it is then
  appended to the queue; otherwise, and on every error, nothing changes. The item answered is an
  unfinished one for that file, action and reason.\<close>

theorem dedup_insert_correct:
  assumes "no_duplicates (db_queue (w_db w))" "queue_ids_ok (w_db w)"
  shows "(case create_sync_queue_item_dedup_with_reason_and_error_with_created i a r e w of
      (Inr (x, created), v) \<Rightarrow> no_duplicates (db_queue (w_db v)) \<and> queue_ids_ok (w_db v)
        \<and> dup_item i a r x \<and> x \<in> set (db_queue (w_db v))
        \<and> created = (\<not> (\<exists>q \<in> set (db_queue (w_db w)). dup_item i a r q))
        \<and> (if created then db_queue (w_db v) = db_queue (w_db w) @ [x] \<and> sq_status x = ''pending'' else v = w)
    | (Inl _, v) \<Rightarrow> v = w \<and> (a \<notin> set action_names \<or> \<not> has_file i (w_db w)))"
proof (cases "find (dup_item i a r) (db_queue (w_db w))")
  case None
  let ?new = "new_item (nx_queue (w_db w)) i a r e (w_now w)"
  have new: "find (\<lambda>x. sq_id x = nx_queue (w_db w)) (db_queue (w_db w) @ [?new]) = Some ?new"
    using assms(2) by (auto simp: find_append find_None queue_ids_ok_def new_item_def split: option.splits
        dest!: find_SomeD)
  have ids: "queue_ids_ok (push_item ?new (w_db w))"
    using assms(2) by (auto simp: queue_ids_ok_def push_item_def new_item_def)
  have dup: "dup_item i a r ?new" "sq_status ?new = ''pending''"
    by (simp_all add: dup_item_iff new_item_def is_active_def)
  show ?thesis
    using None new ids dup no_duplicates_push [OF assms(1) None, of "nx_queue (w_db w)" e "w_now w"]
    by (auto simp: dedup_run Let_def find_None push_item_def)
next
  case (Some q)
  then have q: "q \<in> set (db_queue (w_db w))" "dup_item i a r q" by (auto dest: find_SomeD)
  have "find (\<lambda>x. sq_id x = sq_id q) (db_queue (w_db w)) = Some q"
    using assms(2) q(1) by (intro find_own_id) (simp_all add: queue_ids_ok_def)
  then show ?thesis using Some q assms by (auto simp: dedup_run Let_def)
qed

theorem dedup_insert_correct_witness:
  "\<exists>x v. create_sync_queue_item_dedup_with_reason_and_error_with_created 1 ''mirror'' None None
     (blank_world (empty_db\<lparr>db_files := [blank_file 1 1]\<rparr>)) = (Inr (x, True), v) \<and> db_queue (w_db v) = [x]"
  using dedup_insert_correct [where w = "blank_world (empty_db\<lparr>db_files := [blank_file 1 1]\<rparr>)"
      and i = 1 and a = "''mirror''" and r = None and e = None]
  by (auto simp: blank_world_def blank_file_def empty_db_def no_duplicates_def queue_ids_ok_def
      action_names_def has_file_def split: prod.splits sum.splits)

text \<open>C7: the fair page. Reading the pending items changes nothing; the page is as long as the limit and the
  queue allow; within each drive pair it holds the oldest pending items in queue order; and a pair
  with pending items left out is at most one item behind any other pair, so no pair starves another.\<close>

theorem pending_page_fair:
  "(case list_pending_sync_queue_with_drive_pair limit w of
     (Inr page, v) \<Rightarrow> v = w \<and> set page \<subseteq> set (pending_with_pair (w_db w))
       \<and> length page = min (nat limit) (length (pending_with_pair (w_db w)))
       \<and> (\<forall>i. prefix (filter (\<lambda>x. fst x = i) page) (filter (\<lambda>x. fst x = i) (pending_with_pair (w_db w))))
       \<and> (\<forall>i j. length (filter (\<lambda>x. fst x = j) page)
              < length (filter (\<lambda>x. fst x = j) (pending_with_pair (w_db w))) \<longrightarrow>
            length (filter (\<lambda>x. fst x = i) page) \<le> length (filter (\<lambda>x. fst x = j) page) + 1)
   | _ \<Rightarrow> False)"
proof -
  have "set (fair_page n xs) \<subseteq> set xs" for n and xs :: "(int \<times> sync_item) list"
    using fair_order_set [of xs] set_take_subset [of n "map snd (fair_order xs)"] by (simp add: fair_page_def)
  moreover have "length (fair_page n xs) = min n (length xs)" for n and xs :: "(int \<times> sync_item) list"
    using arg_cong [OF ranked_snd [of "[]" xs], of length] by (simp add: fair_page_def fair_order_def)
  ultimately show ?thesis
    using fair_page_prefix fair_page_bound by (simp add: list_pending_run)
qed

theorem pending_page_fair_witness:
  "\<exists>page. list_pending_sync_queue_with_drive_pair 1 (blank_world empty_db) = (Inr page, blank_world empty_db)"
  using pending_page_fair [where limit = 1 and w = "blank_world empty_db"] by (auto split: prod.splits sum.splits)

text \<open>C8: one processor at a time. Once a living process has the processing lock and beats so that no
  attempt finds the last beat older than the limit, every other attempt, in any order with the beats
  and whatever time passes, answers false, and the lock stays with that process.\<close>

theorem processing_lock_exclusive:
  assumes "try_acquire_sync_processing_lock stale w = (Inr True, v)"
    "w_alive w (w_pid w mod 2 ^ 32)" "kept_fresh stale 0 es"
  shows "set (fst (attempts stale es v)) \<subseteq> {Inr False}
    \<and> ss_processing_locked_by_pid (db_sync_settings (w_db (snd (attempts stale es v)))) = Some (w_pid w)"
proof -
  have "lock_held (w_pid w) 0 v"
    using assms(1,2) by (auto simp: try_acquire_sync_processing_lock_def Let_def lock_held_def split: if_splits)
  from attempts_refused [OF this assms(3)] show ?thesis by (auto simp: lock_held_def)
qed

theorem processing_lock_exclusive_witness:
  "fst (attempts 10 [Elapse 9, Attempt 8, Beat, Elapse 9, Attempt 9]
     (snd (try_acquire_sync_processing_lock 10 (blank_world empty_db)))) = [Inr False, Inr False]"
proof -
  let ?es = "[Elapse 9, Attempt 8, Beat, Elapse 9, Attempt 9]"
  let ?v = "snd (try_acquire_sync_processing_lock 10 (blank_world empty_db))"
  have "set (fst (attempts 10 ?es ?v)) \<subseteq> {Inr False}"
    by (rule conjunct1 [OF processing_lock_exclusive [where w = "blank_world empty_db"]])
      (simp_all add: try_acquire_sync_processing_lock_def blank_world_def empty_db_def)
  moreover have "length (fst (attempts 10 ?es ?v)) = 2"
    by (simp split: prod.splits)
  ultimately show ?thesis by (auto simp: length_Suc_conv numeral_2_eq_2)
qed

end
