(* ===== verification/Event_Logger.thy ===== *)
theory Event_Logger
  imports Repo_Queue
begin

section \<open>The event logger\<close>

text \<open>
  \<open>src/logging/event_logger.rs\<close>: one function per event, each a single insertion into \<open>event_log\<close> with
  a message and a JSON object built by string formatting (only \<open>log_sync_failed\<close> escapes the quotes of
  its error text). Callers drop the result (\<open>let _ =\<close>). What the rest of the development needs of
  them is a frame: an event touches the event table and nothing else (\<open>logs_only\<close>).
\<close>

definition jquote :: string where
  "jquote = [CHR 0x22]"

definition jstr :: "string \<Rightarrow> string" where
  "jstr s = jquote @ s @ jquote"

definition jopt :: "string option \<Rightarrow> string" where
  "jopt v = (case v of None \<Rightarrow> ''null'' | Some s \<Rightarrow> jstr s)"

definition escape_quotes :: "string \<Rightarrow> string" where
  "escape_quotes s = concat (map (\<lambda>c. if c = CHR 0x22 then [CHR 0x5C, CHR 0x22] else [c]) s)"

fun join_with :: "string \<Rightarrow> string list \<Rightarrow> string" where
  "join_with sep [] = []"
| "join_with sep [x] = x"
| "join_with sep (x # y # ys) = x @ sep @ join_with sep (y # ys)"

definition json_obj :: "(string \<times> string) list \<Rightarrow> string" where
  "json_obj kvs = ''{'' @ join_with '','' (map (\<lambda>(k, v). jstr k @ '':'' @ v) kvs) @ ''}''"

definition log_event :: "string \<Rightarrow> int option \<Rightarrow> string \<Rightarrow> string option \<Rightarrow> unit prog" where
  "log_event event_type file_id message details = create_event_log event_type file_id message details"

definition log_file_tracked :: "int \<Rightarrow> string \<Rightarrow> unit prog" where
  "log_file_tracked file_id path = log_event ''file_created'' (Some file_id)
     (fmt [''Tracked: '', path])
     (Some (json_obj [(''path'', jstr path)]))"

definition log_file_untracked :: "int \<Rightarrow> string \<Rightarrow> unit prog" where
  "log_file_untracked file_id path = log_event ''file_untracked'' (Some file_id)
     (fmt [''Untracked: '', path])
     (Some (json_obj [(''path'', jstr path)]))"

definition log_file_mirrored :: "int \<Rightarrow> string \<Rightarrow> string \<Rightarrow> unit prog" where
  "log_file_mirrored file_id path checksum = log_event ''file_mirrored'' (Some file_id)
     (fmt [''Mirrored: '', path])
     (Some (json_obj [(''path'', jstr path), (''checksum'', jstr checksum)]))"

definition log_integrity_pass :: "int \<Rightarrow> string \<Rightarrow> unit prog" where
  "log_integrity_pass file_id path = log_event ''integrity_pass'' (Some file_id)
     (fmt [''Integrity OK: '', path])
     (Some (json_obj [(''path'', jstr path)]))"

definition log_integrity_fail :: "int \<Rightarrow> string \<Rightarrow> string \<Rightarrow> unit prog" where
  "log_integrity_fail file_id path status = log_event ''integrity_fail'' (Some file_id)
     (fmt [''Integrity FAIL ('', status, ''): '', path])
     (Some (json_obj [(''path'', jstr path), (''status'', jstr status)]))"

definition log_both_corrupted :: "int \<Rightarrow> string \<Rightarrow> string option \<Rightarrow> string option \<Rightarrow> string \<Rightarrow> unit prog" where
  "log_both_corrupted file_id path master_checksum mirror_checksum stored_checksum = log_event ''both_corrupted'' (Some file_id)
     (fmt [''Both copies corrupted: '', path])
     (Some (json_obj [(''path'', jstr path), (''stored_checksum'', jstr stored_checksum), (''master_checksum'', jopt master_checksum), (''mirror_checksum'', jopt mirror_checksum)]))"

definition log_recovery :: "int \<Rightarrow> string \<Rightarrow> bool \<Rightarrow> unit prog" where
  "log_recovery file_id action success = log_event (if success then ''recovery_success'' else ''recovery_fail'') (Some file_id)
     (fmt [''Recovery '', (if success then ''OK'' else ''FAILED''), '': '', action])
     (Some (json_obj [(''action'', jstr action), (''success'', (if success then ''true'' else ''false''))]))"

definition log_sync_completed :: "int \<Rightarrow> string \<Rightarrow> string \<Rightarrow> unit prog" where
  "log_sync_completed file_id action path = log_event ''sync_completed'' (Some file_id)
     (fmt [''Sync completed ('', action, ''): '', path])
     (Some (json_obj [(''action'', jstr action), (''path'', jstr path)]))"

definition log_sync_failed :: "int \<Rightarrow> string \<Rightarrow> string \<Rightarrow> string \<Rightarrow> unit prog" where
  "log_sync_failed file_id action error path = log_event ''sync_failed'' (Some file_id)
     (fmt [''Sync failed ('', action, ''): '', path])
     (Some (json_obj [(''action'', jstr action), (''path'', jstr path), (''error'', jstr (escape_quotes error))]))"

definition log_folder_tracked :: "int \<Rightarrow> string \<Rightarrow> int \<Rightarrow> unit prog" where
  "log_folder_tracked folder_id folder_path drive_pair_id = log_event ''folder_tracked'' None
     (fmt [''Folder tracked: '', folder_path, '' (folder #'', dec folder_id, '')''])
     (Some (json_obj [(''folder_id'', dec folder_id), (''path'', jstr folder_path), (''drive_pair_id'', dec drive_pair_id)]))"

definition log_folder_untracked :: "int \<Rightarrow> string \<Rightarrow> unit prog" where
  "log_folder_untracked folder_id folder_path = log_event ''folder_untracked'' None
     (fmt [''Folder untracked: '', folder_path, '' (folder #'', dec folder_id, '')''])
     (Some (json_obj [(''folder_id'', dec folder_id), (''path'', jstr folder_path)]))"

definition log_integrity_run_started :: "int \<Rightarrow> int \<Rightarrow> string \<Rightarrow> unit prog" where
  "log_integrity_run_started run_id total_files trigger = log_event ''integrity_run_started'' None
     (fmt [''Integrity run #'', dec run_id, '' started ('', dec total_files, '' files, trigger: '', trigger, '')''])
     (Some (json_obj [(''run_id'', dec run_id), (''total_files'', dec total_files), (''trigger'', jstr trigger)]))"

definition log_integrity_run_completed :: "int \<Rightarrow> string \<Rightarrow> int \<Rightarrow> int \<Rightarrow> unit prog" where
  "log_integrity_run_completed run_id status issues recovered = log_event ''integrity_run_completed'' None
     (fmt [''Integrity run #'', dec run_id, '' '', status, '': '', dec issues, '' issues, '', dec recovered, '' recovered''])
     (Some (json_obj [(''run_id'', dec run_id), (''status'', jstr status), (''issues'', dec issues), (''recovered'', dec recovered)]))"

definition log_drive_created :: "int \<Rightarrow> string \<Rightarrow> string \<Rightarrow> string \<Rightarrow> unit prog" where
  "log_drive_created pair_id name primary_path secondary_path = log_event ''drive_created'' None
     (fmt [''Drive pair created: '', name, '' (#'', dec pair_id, '')''])
     (Some (json_obj [(''pair_id'', dec pair_id), (''name'', jstr name), (''primary_path'', jstr primary_path), (''secondary_path'', jstr secondary_path)]))"

definition log_drive_updated :: "int \<Rightarrow> string \<Rightarrow> unit prog" where
  "log_drive_updated pair_id name = log_event ''drive_updated'' None
     (fmt [''Drive pair updated: '', name, '' (#'', dec pair_id, '')''])
     (Some (json_obj [(''pair_id'', dec pair_id), (''name'', jstr name)]))"

definition log_drive_deleted :: "int \<Rightarrow> string \<Rightarrow> unit prog" where
  "log_drive_deleted pair_id name = log_event ''drive_deleted'' None
     (fmt [''Drive pair deleted: '', name, '' (#'', dec pair_id, '')''])
     (Some (json_obj [(''pair_id'', dec pair_id), (''name'', jstr name)]))"

definition log_drive_failover :: "int \<Rightarrow> string \<Rightarrow> string \<Rightarrow> string \<Rightarrow> unit prog" where
  "log_drive_failover pair_id failed_role new_active_role failed_path = log_event ''drive_failover'' None
     (fmt [''Emergency failover for drive pair #'', dec pair_id, '': '', failed_role, '' unavailable, active role now '', new_active_role])
     (Some (json_obj [(''pair_id'', dec pair_id), (''failed_role'', jstr failed_role), (''new_active_role'', jstr new_active_role), (''failed_path'', jstr failed_path)]))"

definition log_drive_quiescing :: "int \<Rightarrow> string \<Rightarrow> unit prog" where
  "log_drive_quiescing pair_id role = log_event ''drive_quiescing'' None
     (fmt [''Drive pair #'', dec pair_id, '' entered quiescing state for '', role, '' replacement''])
     (Some (json_obj [(''pair_id'', dec pair_id), (''role'', jstr role)]))"

definition log_drive_quiesce_cancelled :: "int \<Rightarrow> string \<Rightarrow> unit prog" where
  "log_drive_quiesce_cancelled pair_id role = log_event ''drive_quiesce_cancelled'' None
     (fmt [''Drive pair #'', dec pair_id, '' cancelled '', role, '' replacement quiesce''])
     (Some (json_obj [(''pair_id'', dec pair_id), (''role'', jstr role)]))"

definition log_drive_failure_confirmed :: "int \<Rightarrow> string \<Rightarrow> string \<Rightarrow> string \<Rightarrow> unit prog" where
  "log_drive_failure_confirmed pair_id role new_active_role failed_path = log_event ''drive_failure_confirmed'' None
     (fmt [''Drive pair #'', dec pair_id, '' confirmed '', role, '' failure; active role now '', new_active_role])
     (Some (json_obj [(''pair_id'', dec pair_id), (''role'', jstr role), (''new_active_role'', jstr new_active_role), (''failed_path'', jstr failed_path)]))"

definition log_drive_replacement_assigned :: "int \<Rightarrow> string \<Rightarrow> string \<Rightarrow> nat \<Rightarrow> unit prog" where
  "log_drive_replacement_assigned pair_id role new_path queued_items = log_event ''drive_replacement_assigned'' None
     (fmt [''Drive pair #'', dec pair_id, '' assigned replacement '', role, '' path, queued '', dec_nat queued_items, '' rebuild item(s)''])
     (Some (json_obj [(''pair_id'', dec pair_id), (''role'', jstr role), (''new_path'', jstr new_path), (''queued_items'', dec_nat queued_items)]))"

definition log_drive_rebuild_completed :: "int \<Rightarrow> string \<Rightarrow> string \<Rightarrow> unit prog" where
  "log_drive_rebuild_completed pair_id role active_role = log_event ''drive_rebuild_completed'' None
     (fmt [''Drive pair #'', dec pair_id, '' finished rebuilding '', role, ''; active role is '', active_role])
     (Some (json_obj [(''pair_id'', dec pair_id), (''role'', jstr role), (''active_role'', jstr active_role)]))"

subsection \<open>The frame of a log call\<close>

text \<open>The world up to its event table: every log call is invisible there.\<close>

definition forget_events :: "world \<Rightarrow> world" where
  "forget_events w = w\<lparr>w_db := (w_db w)\<lparr>db_events := [], nx_event := 0\<rparr>\<rparr>"

definition logs_only :: "(world, 'a) m \<Rightarrow> bool" where
  "logs_only m \<longleftrightarrow> (\<forall>w. forget_events (snd (m w)) = forget_events w)"

lemma forget_events_eqD:
  assumes "forget_events v = forget_events w"
  shows "db_pairs (w_db v) = db_pairs (w_db w)" "db_files (w_db v) = db_files (w_db w)"
    "db_folders (w_db v) = db_folders (w_db w)" "db_queue (w_db v) = db_queue (w_db w)"
    "db_runs (w_db v) = db_runs (w_db w)" "db_results (w_db v) = db_results (w_db w)"
    "db_schedules (w_db v) = db_schedules (w_db w)"
    "db_sync_settings (w_db v) = db_sync_settings (w_db w)"
    "nx_pair (w_db v) = nx_pair (w_db w)" "nx_file (w_db v) = nx_file (w_db w)"
    "nx_queue (w_db v) = nx_queue (w_db w)" "nx_run (w_db v) = nx_run (w_db w)"
    "w_fs v = w_fs w" "w_now v = w_now w"
  using assms by (cases v; cases w; cases "w_db v"; cases "w_db w"; simp add: forget_events_def)+

lemma create_event_log_only: "logs_only (create_event_log t i m d)"
  by (simp add: logs_only_def create_event_log_def forget_events_def Let_def split: option.splits)

lemmas log_defs = log_event_def
  log_file_tracked_def
  log_file_untracked_def
  log_file_mirrored_def
  log_integrity_pass_def
  log_integrity_fail_def
  log_both_corrupted_def
  log_recovery_def
  log_sync_completed_def
  log_sync_failed_def
  log_folder_tracked_def
  log_folder_untracked_def
  log_integrity_run_started_def
  log_integrity_run_completed_def
  log_drive_created_def
  log_drive_updated_def
  log_drive_deleted_def
  log_drive_failover_def
  log_drive_quiescing_def
  log_drive_quiesce_cancelled_def
  log_drive_failure_confirmed_def
  log_drive_replacement_assigned_def
  log_drive_rebuild_completed_def

lemma log_only [simp]:
  "logs_only (log_file_tracked file_id path)"
  "logs_only (log_file_untracked file_id path)"
  "logs_only (log_file_mirrored file_id path checksum)"
  "logs_only (log_integrity_pass file_id path)"
  "logs_only (log_integrity_fail file_id path status)"
  "logs_only (log_both_corrupted file_id path master_checksum mirror_checksum stored_checksum)"
  "logs_only (log_recovery file_id action success)"
  "logs_only (log_sync_completed file_id action path)"
  "logs_only (log_sync_failed file_id action error path)"
  "logs_only (log_folder_tracked folder_id folder_path drive_pair_id)"
  "logs_only (log_folder_untracked folder_id folder_path)"
  "logs_only (log_integrity_run_started run_id total_files trigger)"
  "logs_only (log_integrity_run_completed run_id status issues recovered)"
  "logs_only (log_drive_created pair_id name primary_path secondary_path)"
  "logs_only (log_drive_updated pair_id name)"
  "logs_only (log_drive_deleted pair_id name)"
  "logs_only (log_drive_failover pair_id failed_role new_active_role failed_path)"
  "logs_only (log_drive_quiescing pair_id role)"
  "logs_only (log_drive_quiesce_cancelled pair_id role)"
  "logs_only (log_drive_failure_confirmed pair_id role new_active_role failed_path)"
  "logs_only (log_drive_replacement_assigned pair_id role new_path queued_items)"
  "logs_only (log_drive_rebuild_completed pair_id role active_role)"
  by (simp_all only: log_defs create_event_log_only)

lemma log_event_only [simp]: "logs_only (log_event t i m d)"
  by (simp only: log_defs create_event_log_only)

lemma logs_only_forget [simp]: "logs_only m \<Longrightarrow> forget_events (snd (m w)) = forget_events w"
  by (simp add: logs_only_def)

lemma logs_only_sel [simp]:
  assumes "logs_only m"
  shows "db_pairs (w_db (snd (m w))) = db_pairs (w_db w)"
    "db_files (w_db (snd (m w))) = db_files (w_db w)"
    "db_folders (w_db (snd (m w))) = db_folders (w_db w)"
    "db_queue (w_db (snd (m w))) = db_queue (w_db w)"
    "db_runs (w_db (snd (m w))) = db_runs (w_db w)"
    "db_results (w_db (snd (m w))) = db_results (w_db w)"
    "db_sync_settings (w_db (snd (m w))) = db_sync_settings (w_db w)"
    "nx_pair (w_db (snd (m w))) = nx_pair (w_db w)"
    "nx_file (w_db (snd (m w))) = nx_file (w_db w)"
    "nx_queue (w_db (snd (m w))) = nx_queue (w_db w)"
    "nx_run (w_db (snd (m w))) = nx_run (w_db w)"
    "w_fs (snd (m w)) = w_fs w" "w_now (snd (m w)) = w_now w"
  using forget_events_eqD [of "snd (m w)" w] assms by simp_all

subsection \<open>The tables without the event log\<close>

text \<open>Two worlds have the same \<open>tables\<close> when their databases differ at most in the event log.\<close>

definition tables :: "world \<Rightarrow> db" where
  "tables w = (w_db w)\<lparr>db_events := [], nx_event := 0\<rparr>"

lemma tables_eqD:
  assumes "tables v = tables w"
  shows "db_pairs (w_db v) = db_pairs (w_db w)" "db_files (w_db v) = db_files (w_db w)"
    "db_folders (w_db v) = db_folders (w_db w)" "db_queue (w_db v) = db_queue (w_db w)"
    "db_sync_settings (w_db v) = db_sync_settings (w_db w)" "db_runs (w_db v) = db_runs (w_db w)"
    "db_results (w_db v) = db_results (w_db w)" "nx_queue (w_db v) = nx_queue (w_db w)"
    "nx_file (w_db v) = nx_file (w_db w)" "nx_run (w_db v) = nx_run (w_db w)"
    "db_schedules (w_db v) = db_schedules (w_db w)"
  using assms by (cases "w_db v"; cases "w_db w"; simp add: tables_def)+

lemma tables_forget: "tables x = w_db (forget_events x)"
  by (simp add: tables_def forget_events_def)

lemma tables_log [simp]: "logs_only m \<Longrightarrow> tables (snd (m w)) = tables w"
  by (simp add: tables_forget)

lemma tables_db: "w_db v = w_db w \<Longrightarrow> tables v = tables w"
  by (simp add: tables_def)

end
