(* ===== verification/Drive_Roles.thy ===== *)
theory Drive_Roles
  imports Event_Logger
begin

section \<open>Drive roles, states and roots\<close>

text \<open>
  The enums of \<open>src/core/drive.rs\<close> with their text forms, the methods of \<open>DrivePair\<close> that read a row
  through them, and the tests on a drive root: whether it is available, and its marker file.
\<close>

subsection \<open>Enums\<close>

datatype drive_role = Primary | Secondary

datatype drive_state = Active | Quiescing | Failed | Rebuilding

datatype drive_media_type = Hdd | Ssd

fun role_str :: "drive_role \<Rightarrow> string" where
  "role_str Primary = ''primary''"
| "role_str Secondary = ''secondary''"

fun opposite :: "drive_role \<Rightarrow> drive_role" where
  "opposite Primary = Secondary"
| "opposite Secondary = Primary"

definition role_from_str :: "string \<Rightarrow> drive_role" where
  "role_from_str v = (if v = ''secondary'' then Secondary else Primary)"

fun state_str :: "drive_state \<Rightarrow> string" where
  "state_str Active = ''active''"
| "state_str Quiescing = ''quiescing''"
| "state_str Failed = ''failed''"
| "state_str Rebuilding = ''rebuilding''"

definition state_from_str :: "string \<Rightarrow> drive_state" where
  "state_from_str v = (if v = ''quiescing'' then Quiescing else if v = ''failed'' then Failed
     else if v = ''rebuilding'' then Rebuilding else Active)"

fun media_str :: "drive_media_type \<Rightarrow> string" where
  "media_str Hdd = ''hdd''"
| "media_str Ssd = ''ssd''"

definition media_from_str :: "string \<Rightarrow> drive_media_type" where
  "media_from_str v = (if v = ''ssd'' then Ssd else Hdd)"

instantiation drive_role :: linorder
begin

definition less_eq_drive_role :: "drive_role \<Rightarrow> drive_role \<Rightarrow> bool" where
  "less_eq_drive_role a b = (a = Primary \<or> b = Secondary)"

definition less_drive_role :: "drive_role \<Rightarrow> drive_role \<Rightarrow> bool" where
  "less_drive_role a b = (a = Primary \<and> b = Secondary)"

instance
proof
  fix a b c :: drive_role
  show "(a < b) = (a \<le> b \<and> \<not> b \<le> a)"
    by (cases a; cases b) (simp_all add: less_eq_drive_role_def less_drive_role_def)
  show "a \<le> a" by (cases a) (simp_all add: less_eq_drive_role_def)
  show "a \<le> b \<Longrightarrow> b \<le> c \<Longrightarrow> a \<le> c"
    by (cases a; cases b; cases c) (simp_all add: less_eq_drive_role_def)
  show "a \<le> b \<Longrightarrow> b \<le> a \<Longrightarrow> a = b"
    by (cases a; cases b) (simp_all add: less_eq_drive_role_def)
  show "a \<le> b \<or> b \<le> a" by (cases a; cases b) (simp_all add: less_eq_drive_role_def)
qed

end

lemma role_from_role_str [simp]: "role_from_str (role_str r) = r"
  by (cases r) (simp_all add: role_from_str_def)

lemma state_from_state_str [simp]: "state_from_str (state_str s) = s"
  by (cases s) (simp_all add: state_from_str_def)

lemma media_from_media_str [simp]: "media_from_str (media_str m) = m"
  by (cases m) (simp_all add: media_from_str_def)

lemma role_str_eq [simp]: "role_str a = role_str b \<longleftrightarrow> a = b"
  by (metis role_from_role_str)

lemma state_str_eq [simp]: "state_str a = state_str b \<longleftrightarrow> a = b"
  by (metis state_from_state_str)

lemma opposite_opposite [simp]: "opposite (opposite r) = r"
  by (cases r) simp_all

lemma opposite_neq [simp]: "opposite r \<noteq> r" "r \<noteq> opposite r"
  by (cases r; simp)+

lemma neq_role_iff: "r \<noteq> s \<longleftrightarrow> s = opposite r"
  by (cases r; cases s) simp_all

lemma state_str_valid [simp]: "state_str s \<in> set state_names"
  by (cases s) (simp_all add: state_names_def)

lemma role_str_valid [simp]: "role_str r \<in> {''primary'', ''secondary''}"
  by (cases r) simp_all

declare role_str.simps [simp del] state_str.simps [simp del]

subsection \<open>Reading a pair\<close>

definition role_state :: "drive_pair \<Rightarrow> drive_role \<Rightarrow> drive_state" where
  "role_state p r = (case r of
       Primary \<Rightarrow> state_from_str (dp_primary_state p)
     | Secondary \<Rightarrow> state_from_str (dp_secondary_state p))"

definition active_role_enum :: "drive_pair \<Rightarrow> drive_role" where
  "active_role_enum p = role_from_str (dp_active_role p)"

definition standby_role :: "drive_pair \<Rightarrow> drive_role" where
  "standby_role p = opposite (active_role_enum p)"

definition path_for_role :: "drive_pair \<Rightarrow> drive_role \<Rightarrow> string" where
  "path_for_role p r = (case r of Primary \<Rightarrow> dp_primary_path p | Secondary \<Rightarrow> dp_secondary_path p)"

definition active_path :: "drive_pair \<Rightarrow> string" where
  "active_path p = path_for_role p (active_role_enum p)"

definition standby_path :: "drive_pair \<Rightarrow> string" where
  "standby_path p = path_for_role p (standby_role p)"

definition is_quiescing :: "drive_pair \<Rightarrow> bool" where
  "is_quiescing p = (role_state p Primary = Quiescing \<or> role_state p Secondary = Quiescing)"

definition is_degraded :: "drive_pair \<Rightarrow> bool" where
  "is_degraded p = (role_state p Primary \<noteq> Active \<or> role_state p Secondary \<noteq> Active)"

definition media_type_for_role :: "drive_pair \<Rightarrow> drive_role \<Rightarrow> drive_media_type" where
  "media_type_for_role p r = (case r of
       Primary \<Rightarrow> media_from_str (dp_primary_media_type p)
     | Secondary \<Rightarrow> media_from_str (dp_secondary_media_type p))"

subsection \<open>Drive roots\<close>

text \<open>A root is available when it is a directory that can be listed (a dead mount cannot).\<close>

definition path_is_available :: "fs \<Rightarrow> string \<Rightarrow> bool" where
  "path_is_available f p = (case metadata f p of
       None \<Rightarrow> False
     | Some n \<Rightarrow> (if n \<noteq> Directory then False else read_dir_ok f p))"

definition standby_accepts_sync :: "fs \<Rightarrow> drive_pair \<Rightarrow> bool" where
  "standby_accepts_sync f p =
     ((role_state p (standby_role p) = Active \<or> role_state p (standby_role p) = Rebuilding)
      \<and> path_is_available f (standby_path p))"

definition drive_root_marker :: string where
  "drive_root_marker = ''.bitprotector-drive-root''"

definition drive_root_marker_path :: "string \<Rightarrow> string" where
  "drive_root_marker_path p = path_join p drive_root_marker"

definition string_bytes :: "string \<Rightarrow> bytes" where
  "string_bytes s = map (\<lambda>c. of_char c) s"

definition marker_bytes :: bytes where
  "marker_bytes = string_bytes (''bitprotector managed root'' @ [CHR 0x0A])"

definition ensure_drive_root_marker :: "string \<Rightarrow> unit prog" where
  "ensure_drive_root_marker p w =
     (if \<not> path_is_available (w_fs w) p then bail (fmt [''Drive root unavailable: '', p]) w
      else if \<not> path_exists (w_fs w) (drive_root_marker_path p)
      then fs_write (drive_root_marker_path p) marker_bytes w
      else (Inr (), w))"

definition missing_expected_root_marker :: "fs \<Rightarrow> drive_pair \<Rightarrow> drive_role \<Rightarrow> bool" where
  "missing_expected_root_marker f p r =
     (if \<not> path_is_available f (path_for_role p r) then False
      else if path_exists f (drive_root_marker_path (path_for_role p r)) then False
      else path_exists f (drive_root_marker_path (path_for_role p (opposite r))))"

definition rebuild_action_for_role :: "drive_role \<Rightarrow> string" where
  "rebuild_action_for_role r = (case r of Primary \<Rightarrow> ''restore_master'' | Secondary \<Rightarrow> ''restore_mirror'')"

definition require_pair_mutation_allowed :: "drive_pair \<Rightarrow> unit prog" where
  "require_pair_mutation_allowed p =
     (if is_quiescing p
      then bail (fmt [''Drive pair #'', dec (dp_id p), '' is quiescing; confirm or cancel replacement first''])
      else return_m ())"

text \<open>What a runtime update does to the fields read through the enums.\<close>

lemma role_state_runtime [simp]:
  "role_state (runtime_row pp sp ps ss ar now p) Primary =
     (case ps of None \<Rightarrow> role_state p Primary | Some x \<Rightarrow> state_from_str x)"
  "role_state (runtime_row pp sp ps ss ar now p) Secondary =
     (case ss of None \<Rightarrow> role_state p Secondary | Some x \<Rightarrow> state_from_str x)"
  by (simp_all add: role_state_def split: option.splits)

lemma active_role_runtime [simp]:
  "active_role_enum (runtime_row pp sp ps ss ar now p) =
     (case ar of None \<Rightarrow> active_role_enum p | Some x \<Rightarrow> role_from_str x)"
  by (simp add: active_role_enum_def split: option.splits)

lemma path_for_role_runtime [simp]:
  "path_for_role (runtime_row pp sp ps ss ar now p) Primary =
     (case pp of None \<Rightarrow> path_for_role p Primary | Some x \<Rightarrow> x)"
  "path_for_role (runtime_row pp sp ps ss ar now p) Secondary =
     (case sp of None \<Rightarrow> path_for_role p Secondary | Some x \<Rightarrow> x)"
  by (simp_all add: path_for_role_def split: option.splits)

lemma not_degraded_iff: "\<not> is_degraded p \<longleftrightarrow> (\<forall>r. role_state p r = Active)"
  unfolding is_degraded_def by (metis (full_types) drive_role.exhaust)

lemma not_quiescing_iff: "\<not> is_quiescing p \<longleftrightarrow> (\<forall>r. role_state p r \<noteq> Quiescing)"
  unfolding is_quiescing_def by (metis (full_types) drive_role.exhaust)

lemma fs_write_keeps:
  assumes P: "\<And>k n w. P w \<Longrightarrow> P (fs_put k n w)"
  shows "keeps P (fs_write p c)"
proof -
  have c: "keeps P (file_create p)"
    by (rule keepsI) (auto simp: file_create_def io_def P split: option.splits node.splits)
  have s: "P w \<Longrightarrow> P (set_bytes k c w)" for k c w
    by (simp add: set_bytes_def P split: option.splits node.splits)
  show ?thesis
    unfolding fs_write_def by (rule keeps_bind [OF c]) (auto simp: keeps_def s split: option.splits)
qed

lemma ensure_marker_keeps:
  assumes P: "\<And>k n w. P w \<Longrightarrow> P (fs_put k n w)"
  shows "keeps P (ensure_drive_root_marker p)"
  using keepsD [OF fs_write_keeps [of P, OF P]]
  by (auto simp: keeps_def ensure_drive_root_marker_def)

lemma ensure_marker_db [simp]: "w_db (snd (ensure_drive_root_marker p w)) = w_db w"
  using keepsD [OF ensure_marker_keeps [of "\<lambda>v. w_db v = w_db w"], of w p] by simp

lemma ensure_marker_now [simp]: "w_now (snd (ensure_drive_root_marker p w)) = w_now w"
  using keepsD [OF ensure_marker_keeps [of "\<lambda>v. w_now v = w_now w"], of w p] by simp

end
