(* ===== verification/Virtual_Links.thy ===== *)
theory Virtual_Links
  imports Drive_Roles
begin

section \<open>Virtual paths: normalisation, reservations, symbolic links\<close>

text \<open>
  The part of \<open>src/core/virtual_path.rs\<close> that the drive state machine calls: the normal form of a
  virtual path, the reservations the tracked files and folders hold, the overlap rule, the
  validation of a path for an owner, the creation and removal of one symbolic link, and
  \<open>refresh_all_virtual_paths\<close>. Setting and removing virtual paths is in \<open>Virtual_Path\<close>, after
  the drives. Text is a list of 8-bit characters; \<open>trim\<close> is on ASCII white space.
\<close>

subsection \<open>The tables the links are made from\<close>

definition list_tracked_folders :: "tracked_folder list prog" where
  "list_tracked_folders = gets_m (\<lambda>w. db_folders (w_db w))"

datatype virtual_owner = OwnerFile int | OwnerFolder int

record virtual_reservation =
  vr_owner :: virtual_owner
  vr_path :: string

record virtual_mapping =
  vm_owner :: virtual_owner
  vm_virtual_path :: string
  vm_real_path :: string

record symlink_refresh_result =
  srr_created :: nat
  srr_removed :: nat
  srr_errors :: "string list"

text \<open>The file or folder rows that have a virtual path, in table order; the first error stops.\<close>

fun collect_r :: "('x \<Rightarrow> (err + 'y) option) \<Rightarrow> 'x list \<Rightarrow> err + 'y list" where
  "collect_r f [] = Inr []"
| "collect_r f (x # xs) = (case f x of
       None \<Rightarrow> collect_r f xs
     | Some (Inl e) \<Rightarrow> Inl e
     | Some (Inr y) \<Rightarrow> (case collect_r f xs of Inl e \<Rightarrow> Inl e | Inr ys \<Rightarrow> Inr (y # ys)))"

subsection \<open>Normal form\<close>

text \<open>
  \<open>Path::components\<close> of an absolute path: the root, then the names between slashes, without empty
  names and \<open>.\<close> names; \<open>..\<close> is a component of its own kind. Each name is trimmed, after the kind of
  its component is known.
\<close>

fun normal_segments :: "string \<Rightarrow> string list \<Rightarrow> err + string list" where
  "normal_segments vp [] = Inr []"
| "normal_segments vp (c # cs) =
     (if c = ''..'' then Inl (Bail ''Parent-directory traversal is not allowed in virtual paths'')
      else if str_trim c = []
      then Inl (Bail (fmt [''Virtual path segments may not be empty or whitespace-only: '', vp]))
      else (case normal_segments vp cs of Inl e \<Rightarrow> Inl e | Inr ss \<Rightarrow> Inr (str_trim c # ss)))"

definition normalize_virtual_path :: "string \<Rightarrow> err + string" where
  "normalize_virtual_path vp =
     (let trimmed = str_trim vp in
      if trimmed = [] then Inl (Bail ''Virtual path is required'')
      else if \<not> is_absolute trimmed
      then Inl (Bail (fmt [''Virtual path must be absolute (start with /): '', vp]))
      else (case normal_segments vp
              (filter (\<lambda>c. c \<noteq> '''' \<and> c \<noteq> ''.'') (split_on (CHR ''/'') trimmed)) of
          Inl e \<Rightarrow> Inl e
        | Inr ss \<Rightarrow> (if ss = [] then Inl (Bail ''Virtual paths may not use the filesystem root'')
                    else Inr (''/'' @ join_with ''/'' ss))))"

subsection \<open>Reservations and overlap\<close>

definition reservations_of :: "db \<Rightarrow> err + virtual_reservation list" where
  "reservations_of d =
     (case collect_r (\<lambda>f. map_option (\<lambda>v. map_sum id
              (\<lambda>n. \<lparr>vr_owner = OwnerFile (tf_id f), vr_path = n\<rparr>) (normalize_virtual_path v))
            (tf_virtual_path f)) (db_files d) of
        Inl e \<Rightarrow> Inl e
      | Inr rs \<Rightarrow>
          (case collect_r (\<lambda>f. map_option (\<lambda>v. map_sum id
                  (\<lambda>n. \<lparr>vr_owner = OwnerFolder (fo_id f), vr_path = n\<rparr>) (normalize_virtual_path v))
                (fo_virtual_path f)) (db_folders d) of
             Inl e \<Rightarrow> Inl e
           | Inr ss \<Rightarrow> Inr (rs @ ss)))"

definition lift_r :: "err + 'a \<Rightarrow> 'a prog" where
  "lift_r r w = (r, w)"

definition collect_virtual_reservations :: "virtual_reservation list prog" where
  "collect_virtual_reservations w = (reservations_of (w_db w), w)"

definition strict_below :: "string \<Rightarrow> string \<Rightarrow> bool" where
  "strict_below long short = (take (length short) long = short \<and>
     (case drop (length short) long of [] \<Rightarrow> False | c # _ \<Rightarrow> c = CHR ''/''))"

definition paths_overlap :: "string \<Rightarrow> string \<Rightarrow> bool" where
  "paths_overlap left right = (left = right \<or> strict_below left right \<or> strict_below right left)"

fun check_reservations :: "virtual_owner \<Rightarrow> string \<Rightarrow> virtual_reservation list \<Rightarrow> err option" where
  "check_reservations owner normalized [] = None"
| "check_reservations owner normalized (r # rs) =
     (if vr_owner r = owner then check_reservations owner normalized rs
      else if vr_path r = normalized
      then Some (Bail (fmt [''Virtual path is already assigned: '', normalized]))
      else if paths_overlap (vr_path r) normalized
      then Some (Bail (fmt [''Virtual path overlaps an existing virtual path: '', vr_path r]))
      else check_reservations owner normalized rs)"

text \<open>\<open>fs::symlink_metadata\<close>: the node itself, links not followed.\<close>

definition symlink_metadata :: "fs \<Rightarrow> string \<Rightarrow> err + node option" where
  "symlink_metadata f p =
     (if fs_nostat f (path_key p) then Inl (Io ''Failed to inspect virtual path'')
      else Inr (fs_nodes f (path_key p)))"

definition is_symlink :: "node \<Rightarrow> bool" where
  "is_symlink n = (case n of Symlink _ \<Rightarrow> True | _ \<Rightarrow> False)"

definition validate_virtual_path :: "virtual_owner \<Rightarrow> string \<Rightarrow> string prog" where
  "validate_virtual_path owner vp w =
     (case normalize_virtual_path vp of
        Inl e \<Rightarrow> (Inl e, w)
      | Inr normalized \<Rightarrow>
          (case reservations_of (w_db w) of
             Inl e \<Rightarrow> (Inl e, w)
           | Inr rs \<Rightarrow>
               (case check_reservations owner normalized rs of
                  Some e \<Rightarrow> (Inl e, w)
                | None \<Rightarrow>
                    (case symlink_metadata (w_fs w) normalized of
                       Inl e \<Rightarrow> (Inl e, w)
                     | Inr None \<Rightarrow> (Inr normalized, w)
                     | Inr (Some n) \<Rightarrow>
                         (if \<not> is_symlink n
                          then (Inl (Bail (fmt [''Virtual path already exists and is not a BitProtector-managed symlink: '', normalized])), w)
                          else if \<not> list_ex (\<lambda>r. vr_owner r = owner \<and> vr_path r = normalized) rs
                          then (Inl (Bail (fmt [''Virtual path is already in use: '', normalized])), w)
                          else (Inr normalized, w))))))"

subsection \<open>One link\<close>

definition create_symlink :: "string \<Rightarrow> string \<Rightarrow> bool \<Rightarrow> unit prog" where
  "create_symlink vp real allow_replace =
     seq_m (with_context ''Failed to create virtual path directories'' (create_dir_all (butlast (path_key vp))))
     (seq_m (\<lambda>w. case symlink_metadata (w_fs w) vp of
          Inl e \<Rightarrow> (Inl e, w)
        | Inr None \<Rightarrow> (Inr (), w)
        | Inr (Some n) \<Rightarrow>
            (if \<not> is_symlink n
             then bail (fmt [''Virtual path already exists and is not a BitProtector-managed symlink: '', vp]) w
             else if \<not> allow_replace then bail (fmt [''Virtual path is already in use: '', vp]) w
             else with_context ''Failed to remove old symlink'' (remove_file vp) w))
     (with_context ''Failed to create symlink'' (make_symlink real vp)))"

definition remove_symlink :: "string \<Rightarrow> unit prog" where
  "remove_symlink vp w = (case symlink_metadata (w_fs w) vp of
       Inl e \<Rightarrow> (Inl e, w)
     | Inr None \<Rightarrow> (Inr (), w)
     | Inr (Some n) \<Rightarrow>
         (if \<not> is_symlink n then bail (fmt [''Virtual path is not a BitProtector-managed symlink: '', vp]) w
          else remove_file vp w))"

subsection \<open>All links\<close>

definition file_real_path :: "drive_pair \<Rightarrow> tracked_file \<Rightarrow> string" where
  "file_real_path p f = path_join (active_path p) (tf_relative_path f)"

definition folder_real_path :: "drive_pair \<Rightarrow> tracked_folder \<Rightarrow> string" where
  "folder_real_path p f = path_join (active_path p) (fo_folder_path f)"

definition mapping_of ::
    "(int \<Rightarrow> drive_pair option) \<Rightarrow> virtual_owner \<Rightarrow> int \<Rightarrow> (drive_pair \<Rightarrow> string) \<Rightarrow> string
      \<Rightarrow> err + virtual_mapping" where
  "mapping_of pairs owner pair_id real v =
     (case pairs pair_id of
        None \<Rightarrow> Inl (Bail (fmt [''Drive pair '', dec pair_id, '' not found'']))
      | Some p \<Rightarrow> map_sum id (\<lambda>n. \<lparr>vm_owner = owner, vm_virtual_path = n, vm_real_path = real p\<rparr>)
          (normalize_virtual_path v))"

definition mappings_of :: "(int \<Rightarrow> drive_pair option) \<Rightarrow> db \<Rightarrow> err + virtual_mapping list" where
  "mappings_of pairs d =
     (case collect_r (\<lambda>f. map_option
            (mapping_of pairs (OwnerFile (tf_id f)) (tf_drive_pair_id f) (\<lambda>p. file_real_path p f))
            (tf_virtual_path f)) (db_files d) of
        Inl e \<Rightarrow> Inl e
      | Inr ms \<Rightarrow>
          (case collect_r (\<lambda>f. map_option
                (mapping_of pairs (OwnerFolder (fo_id f)) (fo_drive_pair_id f) (\<lambda>p. folder_real_path p f))
                (fo_virtual_path f)) (db_folders d) of
             Inl e \<Rightarrow> Inl e
           | Inr ns \<Rightarrow> Inr (ms @ ns)))"

definition collect_virtual_mappings :: "(int \<Rightarrow> drive_pair option) \<Rightarrow> virtual_mapping list prog" where
  "collect_virtual_mappings pairs w = (mappings_of pairs (w_db w), w)"

definition owner_error :: "virtual_owner \<Rightarrow> string \<Rightarrow> string" where
  "owner_error owner message = (case owner of
       OwnerFile i \<Rightarrow> fmt [''File '', dec i, '': '', message]
     | OwnerFolder i \<Rightarrow> fmt [''Folder '', dec i, '': '', message])"

fun refresh_links :: "virtual_mapping list \<Rightarrow> symlink_refresh_result \<Rightarrow> symlink_refresh_result prog" where
  "refresh_links [] res = return_m res"
| "refresh_links (m # ms) res =
     bind_m (try_m (validate_virtual_path (vm_owner m) (vm_virtual_path m))) (\<lambda>v. case v of
        Inl e \<Rightarrow> refresh_links ms
          (res\<lparr>srr_errors := srr_errors res @ [owner_error (vm_owner m) (err_to_string e)]\<rparr>)
      | Inr _ \<Rightarrow>
          bind_m (try_m (create_symlink (vm_virtual_path m) (vm_real_path m) True)) (\<lambda>c. case c of
             Inr _ \<Rightarrow> refresh_links ms (res\<lparr>srr_created := srr_created res + 1\<rparr>)
           | Inl e \<Rightarrow> refresh_links ms
               (res\<lparr>srr_errors := srr_errors res @ [owner_error (vm_owner m) (err_to_string e)]\<rparr>)))"

definition refresh_all_virtual_paths :: "(int \<Rightarrow> drive_pair option) \<Rightarrow> symlink_refresh_result prog" where
  "refresh_all_virtual_paths pairs =
     bind_m (collect_virtual_mappings pairs)
       (\<lambda>ms. refresh_links ms \<lparr>srr_created = 0, srr_removed = 0, srr_errors = []\<rparr>)"

subsection \<open>Links never touch the database\<close>

lemma keeps_fs_put: "(\<And>k n w. P w \<Longrightarrow> P (fs_put k n w)) \<Longrightarrow> P w \<Longrightarrow> P (fs_put k n w)"
  by blast

lemma mkdirs_keeps:
  assumes "\<And>k n w. P w \<Longrightarrow> P (fs_put k n w)"
  shows "P w \<Longrightarrow> P (snd (mkdirs pre cs w))"
proof (induction pre cs w rule: mkdirs.induct)
  case (2 pre c cs w)
  then show ?case
    by (auto simp: Let_def io_def assms split: option.splits node.splits)
qed simp

lemma remove_file_keeps:
  assumes "\<And>k n w. P w \<Longrightarrow> P (fs_put k n w)"
  shows "keeps P (remove_file p)"
  by (rule keepsI) (simp add: remove_file_def Let_def io_def assms split: option.splits node.splits)

lemma make_symlink_keeps:
  assumes "\<And>k n w. P w \<Longrightarrow> P (fs_put k n w)"
  shows "keeps P (make_symlink real link)"
  by (rule keepsI) (simp add: make_symlink_def Let_def io_def assms)

lemma create_symlink_keeps:
  assumes P: "\<And>k n w. P w \<Longrightarrow> P (fs_put k n w)"
  shows "keeps P (create_symlink vp real b)"
proof -
  have 1: "keeps P (create_dir_all k)" for k
    by (rule keepsI) (simp add: create_dir_all_def mkdirs_keeps [of P, OF P])
  have 2: "keeps P (\<lambda>w. case symlink_metadata (w_fs w) vp of
          Inl e \<Rightarrow> (Inl e, w)
        | Inr None \<Rightarrow> (Inr (), w)
        | Inr (Some n) \<Rightarrow>
            (if \<not> is_symlink n
             then bail (fmt [''Virtual path already exists and is not a BitProtector-managed symlink: '', vp]) w
             else if \<not> b then bail (fmt [''Virtual path is already in use: '', vp]) w
             else with_context ''Failed to remove old symlink'' (remove_file vp) w))"
    using keepsD [OF keeps_with_context [OF remove_file_keeps [of P, OF P]]]
    by (auto simp: keeps_def split: sum.splits option.splits)
  show ?thesis
    unfolding create_symlink_def
    by (intro keeps_seq keeps_with_context 1 2 make_symlink_keeps P)
qed

lemma validate_pure: "pure_m (validate_virtual_path owner vp)"
  by (simp add: pure_m_def validate_virtual_path_def cong: branch_cong)

lemma refresh_links_keeps:
  assumes P: "\<And>k n w. P w \<Longrightarrow> P (fs_put k n w)"
  shows "keeps P (refresh_links ms res)"
proof (induction ms arbitrary: res)
  case Nil
  show ?case unfolding refresh_links.simps by (rule keeps_return)
next
  case (Cons m ms)
  show ?case
    unfolding refresh_links.simps
    by (intro keeps_bind keeps_try keeps_sum keeps_pure [OF validate_pure]
        create_symlink_keeps P Cons.IH)
qed

lemma refresh_all_keeps:
  assumes P: "\<And>k n w. P w \<Longrightarrow> P (fs_put k n w)"
  shows "keeps P (refresh_all_virtual_paths pairs)"
proof -
  have "keeps P (collect_virtual_mappings pairs)"
    by (simp add: keeps_def collect_virtual_mappings_def)
  then show ?thesis
    unfolding refresh_all_virtual_paths_def
    by (intro keeps_bind refresh_links_keeps P)
qed

lemma refresh_all_db [simp]: "w_db (snd (refresh_all_virtual_paths pairs w)) = w_db w"
  using keepsD [OF refresh_all_keeps [of "\<lambda>v. w_db v = w_db w"], of w pairs] by simp

end
