(* ===== verification/Drive.thy ===== *)
theory Drive
  imports Virtual_Links
begin

section \<open>The drive state machine\<close>

text \<open>
  The operations of \<open>src/core/drive.rs\<close>: emergency failover when a pair is loaded, the planned
  replacement (quiesce, cancel, confirm), the assignment of a replacement and the completion of a
  rebuild, each with its guards, its database updates in order and its best-effort calls. Below
  them, the abstract state machine of one pair (\<open>pair_step\<close>): every successful operation is one of
  its steps or leaves the pair as it was.
\<close>

subsection \<open>Operations\<close>

definition refresh_pair_virtual_paths :: "drive_pair \<Rightarrow> unit prog" where
  "refresh_pair_virtual_paths p =
     bind_m (refresh_all_virtual_paths [dp_id p \<mapsto> p]) (\<lambda>_. return_m ())"

definition maybe_emergency_failover :: "drive_pair \<Rightarrow> drive_pair prog" where
  "maybe_emergency_failover p w =
     (let act = active_role_enum p; stb = opposite act; f = w_fs w in
      if path_is_available f (active_path p) \<and> \<not> missing_expected_root_marker f p act
      then return_m p w
      else if role_state p act \<noteq> Active then return_m p w
      else if role_state p stb \<noteq> Active \<or> \<not> path_is_available f (path_for_role p stb)
      then return_m p w
      else bind_m (update_drive_pair_runtime (dp_id p) None None
             (if act = Primary then Some (state_str Failed) else None)
             (if act = Secondary then Some (state_str Failed) else None)
             (Some (role_str stb))) (\<lambda>updated.
           seq_m (mark_drive_pair_unmirrored (dp_id p))
          (seq_m (discard (fail_pending_sync_queue_for_drive_pair (dp_id p)
             ''drive failover required after fatal root error''))
          (seq_m (discard (refresh_pair_virtual_paths updated))
          (seq_m (discard (log_drive_failover (dp_id p) (role_str act) (role_str stb) (path_for_role p act)))
          (get_drive_pair (dp_id p)))))) w)"

definition load_operational_pair :: "int \<Rightarrow> drive_pair prog" where
  "load_operational_pair pair_id = bind_m (get_drive_pair pair_id) maybe_emergency_failover"

definition cannot :: "string \<Rightarrow> int \<Rightarrow> drive_role \<Rightarrow> drive_pair \<Rightarrow> string" where
  "cannot what pair_id r p =
     fmt [''Cannot '', what, '' for pair #'', dec pair_id, '' while it is '', state_str (role_state p r)]"

definition mark_drive_quiescing :: "int \<Rightarrow> drive_role \<Rightarrow> drive_pair prog" where
  "mark_drive_quiescing pair_id r = bind_m (get_drive_pair pair_id) (\<lambda>p.
     if role_state p r \<noteq> Active
     then bail (cannot (fmt [''quiesce '', role_str r, '' drive'']) pair_id r p)
     else bind_m (update_drive_pair_runtime pair_id None None
            (if r = Primary then Some (state_str Quiescing) else None)
            (if r = Secondary then Some (state_str Quiescing) else None) None) (\<lambda>updated.
          seq_m (discard (log_drive_quiescing pair_id (role_str r))) (return_m updated)))"

definition cancel_drive_quiescing :: "int \<Rightarrow> drive_role \<Rightarrow> drive_pair prog" where
  "cancel_drive_quiescing pair_id r = bind_m (get_drive_pair pair_id) (\<lambda>p.
     if role_state p r \<noteq> Quiescing
     then bail (cannot (fmt [''cancel '', role_str r, '' quiesce'']) pair_id r p)
     else bind_m (update_drive_pair_runtime pair_id None None
            (if r = Primary then Some (state_str Active) else None)
            (if r = Secondary then Some (state_str Active) else None) None) (\<lambda>updated.
          seq_m (discard (log_drive_quiesce_cancelled pair_id (role_str r))) (return_m updated)))"

definition confirm_drive_failure :: "int \<Rightarrow> drive_role \<Rightarrow> drive_pair prog" where
  "confirm_drive_failure pair_id r = bind_m (get_drive_pair pair_id) (\<lambda>p w.
     if role_state p r \<noteq> Quiescing
     then bail (cannot (fmt [''confirm '', role_str r, '' failure'']) pair_id r p) w
     else
       (let next_active = (if active_role_enum p = r then opposite r else active_role_enum p) in
        if r = active_role_enum p \<and> \<not> path_is_available (w_fs w) (path_for_role p next_active)
        then bail (fmt [''Cannot fail over drive pair #'', dec pair_id, '' because the '',
               role_str next_active, '' path is unavailable'']) w
        else bind_m (update_drive_pair_runtime pair_id None None
               (if r = Primary then Some (state_str Failed) else None)
               (if r = Secondary then Some (state_str Failed) else None)
               (Some (role_str next_active))) (\<lambda>updated.
             seq_m (mark_drive_pair_unmirrored pair_id)
            (seq_m (discard (fail_pending_sync_queue_for_drive_pair pair_id
               ''drive replacement confirmed; rebuild required''))
            (seq_m (discard (refresh_pair_virtual_paths updated))
            (seq_m (discard (log_drive_failure_confirmed pair_id (role_str r) (dp_active_role updated)
               (path_for_role updated r)))
            (return_m updated))))) w))"

text \<open>The queueing loop of the replacement: one deduplicated rebuild item per tracked file, counted when new.\<close>

definition queue_rebuild :: "string \<Rightarrow> tracked_file list \<Rightarrow> nat prog" where
  "queue_rebuild action files = count_m files (\<lambda>f.
     bind_m (create_sync_queue_item_dedup_with_created (tf_id f) action) (\<lambda>(_, created). return_m created))"

definition assign_replacement_drive :: "int \<Rightarrow> drive_role \<Rightarrow> string \<Rightarrow> (drive_pair \<times> nat) prog" where
  "assign_replacement_drive pair_id r new_path = bind_m (get_drive_pair pair_id) (\<lambda>p.
     if role_state p r \<noteq> Failed
     then bail (cannot (fmt [''assign replacement '', role_str r, '' drive'']) pair_id r p)
     else
       seq_m (ensure_drive_root_marker new_path)
      (bind_m (update_drive_pair_runtime pair_id
           (if r = Primary then Some new_path else None)
           (if r = Secondary then Some new_path else None)
           (if r = Primary then Some (state_str Rebuilding) else None)
           (if r = Secondary then Some (state_str Rebuilding) else None) None) (\<lambda>updated.
       bind_m (list_tracked_files (Some pair_id) None None 1 i64_max) (\<lambda>(files, _).
       bind_m (queue_rebuild (rebuild_action_for_role r) files) (\<lambda>queued.
       seq_m (discard (log_drive_replacement_assigned pair_id (role_str r) new_path queued))
      (return_m (updated, queued)))))))"

definition rebuilt_role :: "string \<Rightarrow> drive_role option" where
  "rebuilt_role action = (if action = ''restore_master'' then Some Primary
     else if action = ''restore_mirror'' then Some Secondary else None)"

definition maybe_finalize_rebuild_for_action :: "int \<Rightarrow> string \<Rightarrow> drive_pair option prog" where
  "maybe_finalize_rebuild_for_action pair_id action = bind_m (get_drive_pair pair_id) (\<lambda>p.
     case rebuilt_role action of
       None \<Rightarrow> return_m None
     | Some r \<Rightarrow>
         if role_state p r \<noteq> Rebuilding then return_m None
         else bind_m (count_sync_queue_items_for_drive_pair_action pair_id action
                [''pending'', ''in_progress'', ''failed'']) (\<lambda>remaining.
           if remaining > 0 then return_m None
           else bind_m (update_drive_pair_runtime pair_id None None
                  (if r = Primary then Some (state_str Active) else None)
                  (if r = Secondary then Some (state_str Active) else None)
                  (if r = Primary then Some (role_str Primary) else None)) (\<lambda>updated.
             seq_m (mark_drive_pair_unmirrored pair_id)
            (seq_m (if role_state updated Primary = Active \<and> role_state updated Secondary = Active
                    then bind_m (list_tracked_files (Some pair_id) None None 1 i64_max) (\<lambda>(files, _).
                      for_m files (\<lambda>f. update_tracked_file_mirror_status (tf_id f) True))
                    else return_m ())
            (seq_m (discard (refresh_pair_virtual_paths updated))
            (seq_m (discard (log_drive_rebuild_completed pair_id (role_str r) (dp_active_role updated)))
            (return_m (Some updated))))))))"

subsection \<open>The abstract state machine of a pair\<close>

record pair_abs =
  pa_state :: "drive_role \<Rightarrow> drive_state"
  pa_active :: drive_role

definition abs_pair :: "drive_pair \<Rightarrow> pair_abs" where
  "abs_pair p = \<lparr>pa_state = role_state p, pa_active = active_role_enum p\<rparr>"

datatype pair_event =
    Quiesce drive_role
  | Cancel drive_role
  | Confirm drive_role
  | Emergency
  | Assign drive_role
  | Rebuilt drive_role

inductive pair_step :: "pair_abs \<Rightarrow> pair_event \<Rightarrow> pair_abs \<Rightarrow> bool" where
  quiesce: "pa_state a r = Active \<Longrightarrow>
    pair_step a (Quiesce r) (a\<lparr>pa_state := (pa_state a)(r := Quiescing)\<rparr>)"
| cancel: "pa_state a r = Quiescing \<Longrightarrow>
    pair_step a (Cancel r) (a\<lparr>pa_state := (pa_state a)(r := Active)\<rparr>)"
| confirm: "pa_state a r = Quiescing \<Longrightarrow>
    pair_step a (Confirm r) (a\<lparr>pa_state := (pa_state a)(r := Failed),
      pa_active := (if pa_active a = r then opposite r else pa_active a)\<rparr>)"
| emergency: "pa_state a (pa_active a) = Active \<Longrightarrow> pa_state a (opposite (pa_active a)) = Active \<Longrightarrow>
    pair_step a Emergency (a\<lparr>pa_state := (pa_state a)(pa_active a := Failed),
      pa_active := opposite (pa_active a)\<rparr>)"
| assign: "pa_state a r = Failed \<Longrightarrow>
    pair_step a (Assign r) (a\<lparr>pa_state := (pa_state a)(r := Rebuilding)\<rparr>)"
| rebuilt: "pa_state a r = Rebuilding \<Longrightarrow>
    pair_step a (Rebuilt r) (a\<lparr>pa_state := (pa_state a)(r := Active),
      pa_active := (if r = Primary then Primary else pa_active a)\<rparr>)"

inductive_cases quiesce_elim: "pair_step a (Quiesce r) b"
inductive_cases confirm_elim: "pair_step a (Confirm r) b"
inductive_simps pair_step_iff [simp]: "pair_step a e b"

definition fresh_pair_abs :: pair_abs where
  "fresh_pair_abs = \<lparr>pa_state = (\<lambda>_. Active), pa_active = Primary\<rparr>"

inductive reach :: "(pair_abs \<Rightarrow> pair_event \<Rightarrow> bool) \<Rightarrow> pair_abs \<Rightarrow> bool" for ok where
  reach_fresh: "reach ok fresh_pair_abs"
| reach_step: "reach ok a \<Longrightarrow> ok a e \<Longrightarrow> pair_step a e b \<Longrightarrow> reach ok b"

text \<open>
  A run is careful when the active drive is confirmed as failed only while the other one is
  \<open>Active\<close>. In careful runs the active drive is never a failed or a half-rebuilt one.
\<close>

definition careful :: "pair_abs \<Rightarrow> pair_event \<Rightarrow> bool" where
  "careful a e = (case e of
       Confirm r \<Rightarrow> (r \<noteq> pa_active a \<or> pa_state a (opposite r) = Active)
     | _ \<Rightarrow> True)"

definition active_side_live :: "pair_abs \<Rightarrow> bool" where
  "active_side_live a = (pa_state a (pa_active a) = Active \<or> pa_state a (pa_active a) = Quiescing)"

lemma step_keeps_live: "pair_step a e b \<Longrightarrow> careful a e \<Longrightarrow> active_side_live a \<Longrightarrow> active_side_live b"
  by (cases e) (auto simp: careful_def active_side_live_def)

lemma reach_live: "reach careful a \<Longrightarrow> active_side_live a"
proof (induction rule: reach.induct)
  case reach_fresh
  show ?case by (simp add: active_side_live_def fresh_pair_abs_def)
next
  case (reach_step a e b)
  then show ?case by (blast intro: step_keeps_live)
qed

end
