(* ===== verification/Checksum.thy ===== *)
theory Checksum
  imports Drive "HOL-Library.Word"
begin

section \<open>Checksums and verified copies\<close>

text \<open>
  \<open>src/core/checksum.rs\<close> and the memory limits of \<open>src/core/system.rs\<close>: the strategy for a file, the
  parallelism of a pair, hashing a file by the streaming loop or through a memory map, and the two
  copies that hash while they write.

  BLAKE3 is a crate outside the repository. A hasher is the list of the byte slices it was fed, in
  order, and \<open>b3\<close>, a parameter of every definition that hashes, is the digest of such a list
  (\<open>Hasher::finalize().to_hex()\<close>; \<open>blake3::hash(x)\<close> is \<open>b3 [x]\<close>). The hypothesis
  \<open>streaming_hash b3\<close> is the documented behaviour of \<open>Hasher::update\<close>: the digest depends on the
  concatenation of the slices alone.

  A read gives at most 65536 bytes and may give fewer when the medium fails further on
  (\<open>fs_bad_at\<close>); a write fails when the file would pass \<open>fs_full_at\<close>, after what fits. A read fault under
  a memory map kills the process with a signal; the model gives an error there. \<open>posix_fadvise\<close> and
  \<open>flush\<close> (a \<open>File\<close> has no buffer) do nothing.
\<close>

subsection \<open>Limits and strategies\<close>

definition line_rest :: "string \<Rightarrow> string \<Rightarrow> string option" where
  "line_rest pre line = (if take (length pre) line = pre then Some (drop (length pre) line) else None)"

definition parse_u64 :: "string \<Rightarrow> 64 word option" where
  "parse_u64 s =
     (let digits = (case s of [] \<Rightarrow> s | c # cs \<Rightarrow> (if c = CHR ''+'' \<and> cs \<noteq> [] then cs else s));
          v = foldl (\<lambda>n c. 10 * n + (of_char c - 48 :: nat)) 0 digits
      in if digits = [] \<or> \<not> list_all (\<lambda>c. 48 \<le> (of_char c :: nat) \<and> (of_char c :: nat) \<le> 57) digits \<or> 2 ^ 64 \<le> v
         then None else Some (of_nat v))"

definition first_word :: "string \<Rightarrow> string option" where
  "first_word s = (case takeWhile (\<lambda>c. \<not> is_ascii_ws c) (dropWhile is_ascii_ws s) of [] \<Rightarrow> None | x \<Rightarrow> Some x)"

text \<open>The first line that starts with \<open>MemTotal:\<close> decides; its number of kilobytes times 1024 wraps at 64 bits.\<close>

fun parse_meminfo_lines :: "string list \<Rightarrow> 64 word option" where
  "parse_meminfo_lines [] = None"
| "parse_meminfo_lines (l # ls) = (case line_rest ''MemTotal:'' l of
       None \<Rightarrow> parse_meminfo_lines ls
     | Some rest \<Rightarrow> Option.bind (first_word rest) (\<lambda>x. map_option (\<lambda>kb. kb * 1024) (parse_u64 x)))"

definition parse_proc_meminfo :: "string option \<Rightarrow> 64 word option" where
  "parse_proc_meminfo content =
     Option.bind content (\<lambda>c. parse_meminfo_lines (split_on (CHR 0x0A) c))"

definition total_ram_bytes :: "string option \<Rightarrow> 64 word" where
  "total_ram_bytes content = (case parse_proc_meminfo content of None \<Rightarrow> 2 * 1024 * 1024 * 1024 | Some n \<Rightarrow> n)"

definition mmap_threshold_bytes :: "string option \<Rightarrow> 64 word" where
  "mmap_threshold_bytes content = total_ram_bytes content div 2"

definition default_ssd_parallel :: "nat \<Rightarrow> nat" where
  "default_ssd_parallel cpus = max (cpus div 2) 2"

datatype checksum_strategy = Streaming | MmapRayon

definition for_drive :: "string option \<Rightarrow> drive_media_type \<Rightarrow> 64 word \<Rightarrow> checksum_strategy" where
  "for_drive meminfo media sz =
     (if media = Ssd \<and> sz \<le> mmap_threshold_bytes meminfo then MmapRayon else Streaming)"

record checksum_config =
  cc_hdd_max_parallel :: nat
  cc_ssd_max_parallel :: nat
  cc_resolved_ssd_parallel :: nat

definition default_checksum_config :: "nat \<Rightarrow> checksum_config" where
  "default_checksum_config cpus = \<lparr>cc_hdd_max_parallel = 2, cc_ssd_max_parallel = 0,
     cc_resolved_ssd_parallel = default_ssd_parallel cpus\<rparr>"

definition resolve_config :: "nat \<Rightarrow> nat \<Rightarrow> nat \<Rightarrow> checksum_config" where
  "resolve_config cpus hdd ssd = \<lparr>cc_hdd_max_parallel = hdd, cc_ssd_max_parallel = ssd,
     cc_resolved_ssd_parallel = (if ssd = 0 then default_ssd_parallel cpus else ssd)\<rparr>"

definition pool_size_for_pair :: "drive_media_type \<Rightarrow> drive_media_type \<Rightarrow> checksum_config \<Rightarrow> nat" where
  "pool_size_for_pair primary secondary cfg =
     (if primary = Ssd \<and> secondary = Ssd then cc_resolved_ssd_parallel cfg else cc_hdd_max_parallel cfg)"

subsection \<open>Reading, writing and hashing\<close>

type_synonym digest = "bytes list \<Rightarrow> string"

definition streaming_hash :: "digest \<Rightarrow> bool" where
  "streaming_hash b3 = (\<forall>xs ys. concat xs = concat ys \<longrightarrow> b3 xs = b3 ys)"

lemma digest_eq: "streaming_hash b3 \<Longrightarrow> concat xs = c \<Longrightarrow> b3 xs = b3 [c]"
  unfolding streaming_hash_def by (drule spec [of _ xs], drule spec [of _ "[c]"]) simp

definition checksum_bytes :: "digest \<Rightarrow> bytes \<Rightarrow> string" where
  "checksum_bytes b3 data = b3 [data]"

definition buf_size :: nat where
  "buf_size = 65536"

definition file_read :: "key \<Rightarrow> nat \<Rightarrow> bytes prog" where
  "file_read k off w = (case fs_nodes (w_fs w) k of
       Some (RegFile c _) \<Rightarrow>
         (let n = min buf_size (length c - off) in
          case fs_bad_at (w_fs w) k of
            None \<Rightarrow> return_m (take n (drop off c)) w
          | Some b \<Rightarrow> (if off < length c \<and> b \<le> off then io ''read'' w
                       else return_m (take (min n (b - off)) (drop off c)) w))
     | _ \<Rightarrow> io ''read'' w)"

definition splice :: "key \<Rightarrow> nat \<Rightarrow> bytes \<Rightarrow> world \<Rightarrow> world" where
  "splice k pos ch w = (let c = node_bytes (w_fs w) k in
     set_bytes k (take pos c @ replicate (pos - length c) 0 @ ch @ drop (pos + length ch) c) w)"

definition write_all :: "key \<Rightarrow> nat \<Rightarrow> bytes \<Rightarrow> unit prog" where
  "write_all k pos ch w = (case fs_full_at (w_fs w) k of
       None \<Rightarrow> (Inr (), splice k pos ch w)
     | Some n \<Rightarrow> (if n < pos + length ch then (Inl (Io ''write''), splice k pos (take (n - pos) ch) w)
                  else (Inr (), splice k pos ch w)))"

text \<open>The hashing loop ends because every non-empty read moves on in the file.\<close>

lemma file_read_Inr:
  assumes "file_read k off w = (Inr ch, v)"
  shows "v = w \<and> (\<exists>c m. fs_nodes (w_fs w) k = Some (RegFile c m) \<and> ch = take (length ch) (drop off c) \<and>
    (ch = [] \<longleftrightarrow> length c \<le> off) \<and> length ch \<le> length c - off)"
proof -
  obtain c m where n: "fs_nodes (w_fs w) k = Some (RegFile c m)"
    using assms by (auto simp: file_read_def io_def split: option.splits node.splits)
  have t: "take n (drop off c) = take (length (take n (drop off c))) (drop off c)" for n
    by (cases "n \<le> length c - off") (simp_all add: min_def)
  show ?thesis
    using assms n t by (auto simp: file_read_def io_def Let_def buf_size_def min_def split: option.splits if_splits)
qed

function hash_stream :: "key \<Rightarrow> nat \<Rightarrow> bytes list \<Rightarrow> bytes list prog" where
  "hash_stream k off fed w = (case file_read k off w of
       (Inl e, v) \<Rightarrow> (Inl e, w)
     | (Inr ch, v) \<Rightarrow> (if ch = [] then (Inr fed, w) else hash_stream k (off + length ch) (fed @ [ch]) w))"
  by pat_completeness auto
termination
proof (relation "measure (\<lambda>(k, off, fed, w). length (node_bytes (w_fs w) k) - off)")
  fix k off fed w r v ch
  assume "(r, v) = file_read k off w" "r = Inr ch" "ch \<noteq> []"
  then have r: "file_read k off w = (Inr ch, v)" "ch \<noteq> []" by simp_all
  from file_read_Inr [OF r(1)] r(2) obtain c m where
    c: "fs_nodes (w_fs w) k = Some (RegFile c m)" "\<not> length c \<le> off" by auto
  have "0 < length ch" using r(2) by simp
  then have "length c - (off + length ch) < length c - off" using c(2) by arith
  then show "((k, off + length ch, fed @ [ch], w), k, off, fed, w) \<in>
      measure (\<lambda>(k, off, fed, w). length (node_bytes (w_fs w) k) - off)"
    using c by (simp add: node_bytes_def)
qed simp

declare hash_stream.simps [simp del]

definition map_file :: "key \<Rightarrow> bytes prog" where
  "map_file k w = (case fs_nodes (w_fs w) k of
       Some (RegFile c _) \<Rightarrow>
         (case fs_bad_at (w_fs w) k of
            None \<Rightarrow> return_m c w
          | Some b \<Rightarrow> (if b < length c then io ''read'' w else return_m c w))
     | _ \<Rightarrow> io ''read'' w)"

definition checksum_file :: "digest \<Rightarrow> string \<Rightarrow> checksum_strategy \<Rightarrow> string prog" where
  "checksum_file b3 path strategy = bind_m (file_open path) (\<lambda>k. case strategy of
       MmapRayon \<Rightarrow> bind_m (file_open path) (\<lambda>k'. bind_m (map_file k') (\<lambda>c. return_m (b3 [c])))
     | Streaming \<Rightarrow> bind_m (hash_stream k 0 []) (\<lambda>fed. return_m (b3 fed)))"

definition verify_file :: "digest \<Rightarrow> string \<Rightarrow> string \<Rightarrow> bool prog" where
  "verify_file b3 path expected =
     bind_m (checksum_file b3 path Streaming) (\<lambda>actual. return_m (actual = expected))"

subsection \<open>Copying\<close>

definition copy_permissions :: "string \<Rightarrow> string \<Rightarrow> unit prog" where
  "copy_permissions src dst w = (case metadata (w_fs w) src of
       None \<Rightarrow> io ''metadata'' w
     | Some n \<Rightarrow>
         (let mode = (case n of RegFile _ m \<Rightarrow> m | _ \<Rightarrow> 493) in
          case target (w_fs w) dst of
            None \<Rightarrow> io ''set_permissions'' w
          | Some k \<Rightarrow> (if fs_nodes (w_fs w) k = None \<or> fs_nowrite (w_fs w) k then io ''set_permissions'' w
                       else (Inr (), set_mode k mode w))))"

text \<open>
  The copy loops. The slices fed to the hashers are collected; \<open>copy_both\<close> feeds the source hasher before
  the write and the destination hasher after it, from the same buffer. The fuel is one more than the
  length of the source after the destination was truncated, so it never runs out (\<open>copy_fuel\<close> below).
\<close>

fun copy_stream :: "nat \<Rightarrow> key \<Rightarrow> key \<Rightarrow> nat \<Rightarrow> bytes list \<Rightarrow> bytes list prog" where
  "copy_stream 0 ks kd off fed = io ''endless copy''"
| "copy_stream (Suc n) ks kd off fed = bind_m (file_read ks off) (\<lambda>ch.
     if ch = [] then return_m fed
     else seq_m (write_all kd off ch) (copy_stream n ks kd (off + length ch) (fed @ [ch])))"

fun copy_both :: "nat \<Rightarrow> key \<Rightarrow> key \<Rightarrow> nat \<Rightarrow> bytes list \<Rightarrow> bytes list \<Rightarrow> (bytes list \<times> bytes list) prog" where
  "copy_both 0 ks kd off sfed dfed = io ''endless copy''"
| "copy_both (Suc n) ks kd off sfed dfed = bind_m (file_read ks off) (\<lambda>ch.
     if ch = [] then return_m (sfed, dfed)
     else seq_m (write_all kd off ch) (copy_both n ks kd (off + length ch) (sfed @ [ch]) (dfed @ [ch])))"

definition copy_with_checksum :: "digest \<Rightarrow> string \<Rightarrow> string \<Rightarrow> (string \<times> string) prog" where
  "copy_with_checksum b3 src dst = bind_m (file_open src) (\<lambda>ks. bind_m (file_create dst) (\<lambda>kd.
     bind_m (gets_m (\<lambda>w. Suc (length (node_bytes (w_fs w) ks)))) (\<lambda>n.
     bind_m (copy_both n ks kd 0 [] []) (\<lambda>(sfed, dfed).
     seq_m (copy_permissions src dst) (return_m (b3 sfed, b3 dfed))))))"

definition mismatch :: "string \<Rightarrow> string \<Rightarrow> string" where
  "mismatch expected actual = fmt [''checksum mismatch: expected='', expected, '' actual='', actual]"

definition copy_and_verify_checksum :: "digest \<Rightarrow> string \<Rightarrow> string \<Rightarrow> string \<Rightarrow> unit prog" where
  "copy_and_verify_checksum b3 src dst expected = bind_m (file_open src) (\<lambda>ks. bind_m (file_create dst) (\<lambda>kd.
     bind_m (gets_m (\<lambda>w. Suc (length (node_bytes (w_fs w) ks)))) (\<lambda>n.
     bind_m (copy_stream n ks kd 0 []) (\<lambda>fed.
       if b3 fed \<noteq> expected
       then seq_m (discard (remove_file dst)) (raise_m (Io (mismatch expected (b3 fed))))
       else copy_permissions src dst))))"


subsection \<open>What hashing gives\<close>

lemma file_read_state [simp]: "snd (file_read k off w) = w"
  by (simp add: file_read_def io_def Let_def split: option.splits node.splits)

lemma read_step:
  assumes "fs_nodes (w_fs w) k = Some (RegFile c m)" "file_read k off w = (Inr ch, v)"
  shows "ch @ drop (off + length ch) c = drop off c"
proof -
  from file_read_Inr [OF assms(2)] assms(1) have "ch = take (length ch) (drop off c)" by auto
  then show ?thesis by (metis append_take_drop_id drop_drop add.commute)
qed

lemma hash_stream_Inr:
  "hash_stream k off fed w = (Inr out, v) \<Longrightarrow> fs_nodes (w_fs w) k = Some (RegFile c m) \<Longrightarrow>
    v = w \<and> concat out = concat fed @ drop off c"
proof (induction k off fed w rule: hash_stream.induct)
  case (1 k off fed w)
  obtain r u where r: "file_read k off w = (r, u)" by fastforce
  show ?case
  proof (cases r)
    case (Inl e)
    then show ?thesis using 1 r by (simp add: hash_stream.simps [of k off fed w])
  next
    case (Inr ch)
    show ?thesis
    proof (cases "ch = []")
      case True
      then have "length c \<le> off" using file_read_Inr [of k off w ch u] r Inr 1(3) by auto
      then show ?thesis using True 1 r Inr by (simp add: hash_stream.simps [of k off fed w])
    next
      case False
      then have "hash_stream k (off + length ch) (fed @ [ch]) w = (Inr out, v)"
        using 1(2) r Inr by (simp add: hash_stream.simps [of k off fed w])
      from 1(1) [OF r [symmetric] Inr False this 1(3)] read_step [OF 1(3), of off ch u] r Inr
      show ?thesis by simp
    qed
  qed
qed

lemma hash_stream_state: "snd (hash_stream k off fed w) = w"
proof (induction k off fed w rule: hash_stream.induct)
  case (1 k off fed w)
  then show ?case by (simp add: hash_stream.simps [of k off fed w] split: prod.splits sum.splits)
qed

lemma hash_stream_not_file:
  "(\<And>c m. fs_nodes (w_fs w) k \<noteq> Some (RegFile c m)) \<Longrightarrow> hash_stream k off fed w = (Inl (Io ''read''), w)"
  by (simp add: hash_stream.simps [of k off fed w] file_read_def io_def split: option.splits node.splits)

text \<open>When the streaming loop succeeds, and that its only error is a read fault.\<close>

lemma hash_stream_total:
  assumes "fs_nodes (w_fs w) k = Some (RegFile c m)"
  shows "off \<le> length c \<Longrightarrow> (\<forall>b. fs_bad_at (w_fs w) k = Some b \<longrightarrow> off \<le> b) \<Longrightarrow>
    (if \<exists>b. fs_bad_at (w_fs w) k = Some b \<and> b < length c
     then hash_stream k off fed w = (Inl (Io ''read''), w)
     else (\<exists>out. hash_stream k off fed w = (Inr out, w)))"
  using assms
proof (induction k off fed w rule: hash_stream.induct)
  case (1 k off fed w)
  obtain r u where r: "file_read k off w = (r, u)" by fastforce
  show ?case
  proof (cases r)
    case (Inl e)
    then have "e = Io ''read'' \<and> (\<exists>b. fs_bad_at (w_fs w) k = Some b \<and> b \<le> off \<and> off < length c)"
      using r 1(4) by (auto simp: file_read_def io_def Let_def split: option.splits if_splits)
    then show ?thesis using Inl r by (auto simp: hash_stream.simps [of k off fed w])
  next
    case (Inr ch)
    show ?thesis
    proof (cases "ch = []")
      case True
      then have "length c \<le> off" using file_read_Inr [of k off w ch u] r Inr 1(4) by auto
      then show ?thesis using True 1(2,3) r Inr by (auto simp: hash_stream.simps [of k off fed w])
    next
      case False
      have len: "off + length ch \<le> length c"
        using file_read_Inr [of k off w ch u] r Inr 1(2,4) by auto
      have bad: "\<forall>b. fs_bad_at (w_fs w) k = Some b \<longrightarrow> off + length ch \<le> b"
        using r Inr 1(3,4) by (auto simp: file_read_def io_def Let_def split: option.splits if_splits)
      have "hash_stream k off fed w = hash_stream k (off + length ch) (fed @ [ch]) w"
        using r Inr False by (simp add: hash_stream.simps [of k off fed w])
      with 1(1) [OF r [symmetric] Inr False len bad 1(4)] show ?thesis by simp
    qed
  qed
qed

lemma file_open_Inr: "file_open p w = (Inr k, v) \<longleftrightarrow>
    v = w \<and> target (w_fs w) p = Some k \<and> fs_nodes (w_fs w) k \<noteq> None \<and> \<not> fs_noread (w_fs w) k"
  by (auto simp: file_open_def io_def split: option.splits)

lemma file_open_state [simp]: "snd (file_open p w) = w"
  by (simp add: file_open_def io_def split: option.splits)

lemma map_file_state [simp]: "snd (map_file k w) = w"
  by (simp add: map_file_def io_def split: option.splits node.splits)

lemma checksum_pure: "pure_m (checksum_file b3 p st)"
  by (auto simp: pure_m_def checksum_file_def bind_m_def hash_stream_state split: checksum_strategy.splits
      prod.splits sum.splits) (metis file_open_state map_file_state hash_stream_state snd_conv)+

text \<open>The bytes a checksum is taken of: those of the node the path leads to, when it can be opened and read to the end.\<close>

definition readable_bytes :: "fs \<Rightarrow> string \<Rightarrow> bytes option" where
  "readable_bytes f p = (case target f p of
       None \<Rightarrow> None
     | Some k \<Rightarrow> (case fs_nodes f k of
          Some (RegFile c _) \<Rightarrow>
            (if fs_noread f k then None
             else (case fs_bad_at f k of None \<Rightarrow> Some c | Some b \<Rightarrow> (if b < length c then None else Some c)))
        | _ \<Rightarrow> None))"

lemma checksum_file_eq:
  assumes h: "streaming_hash b3"
  shows "case readable_bytes (w_fs w) p of
     Some c \<Rightarrow> checksum_file b3 p st w = (Inr (b3 [c]), w)
   | None \<Rightarrow> checksum_file b3 p st w =
       (Inl (if \<exists>k. file_open p w = (Inr k, w) then Io ''read'' else Io ''open''), w)"
proof (cases "file_open p w")
  case (Pair r v)
  show ?thesis
  proof (cases r)
    case (Inl e)
    then have "e = Io ''open''" "v = w" "readable_bytes (w_fs w) p = None"
      using Pair by (auto simp: file_open_def io_def readable_bytes_def split: option.splits node.splits if_splits)
    then show ?thesis using Pair Inl by (simp add: checksum_file_def bind_m_def)
  next
    case (Inr k)
    then have k: "v = w" "target (w_fs w) p = Some k" "fs_nodes (w_fs w) k \<noteq> None" "\<not> fs_noread (w_fs w) k"
      using Pair by (simp_all add: file_open_Inr)
    show ?thesis
    proof (cases "\<exists>c m. fs_nodes (w_fs w) k = Some (RegFile c m)")
      case False
      then have m: "map_file k w = (Inl (Io ''read''), w)"
        by (auto simp: map_file_def io_def split: option.splits node.splits)
      have "readable_bytes (w_fs w) p = None"
        using False k by (auto simp: readable_bytes_def split: option.splits node.splits)
      then show ?thesis
        using False k m hash_stream_not_file [of w k 0 "[]"] Pair Inr
        by (cases st) (simp_all add: checksum_file_def bind_m_def)
    next
      case True
      then obtain c m where c: "fs_nodes (w_fs w) k = Some (RegFile c m)" by blast
      have rb: "readable_bytes (w_fs w) p = (if \<exists>b. fs_bad_at (w_fs w) k = Some b \<and> b < length c then None else Some c)"
        using c k by (auto simp: readable_bytes_def split: option.splits)
      have mf: "map_file k w = (if \<exists>b. fs_bad_at (w_fs w) k = Some b \<and> b < length c
          then (Inl (Io ''read''), w) else (Inr c, w))"
        using c by (auto simp: map_file_def io_def split: option.splits)
      note hs = hash_stream_total [OF c, of 0 "[]"]
      have "b3 out = b3 [c]" if "hash_stream k 0 [] w = (Inr out, w)" for out
        by (rule digest_eq [OF h]) (use hash_stream_Inr [OF that c] in simp)
      then have "hash_stream k 0 [] w = (Inl (Io ''read''), w) \<and> readable_bytes (w_fs w) p = None
          \<or> (\<exists>out. hash_stream k 0 [] w = (Inr out, w) \<and> b3 out = b3 [c]) \<and> readable_bytes (w_fs w) p = Some c"
        using rb hs by (cases "\<exists>b. fs_bad_at (w_fs w) k = Some b \<and> b < length c") auto
      moreover have "map_file k w = (Inl (Io ''read''), w) \<and> readable_bytes (w_fs w) p = None
          \<or> map_file k w = (Inr c, w) \<and> readable_bytes (w_fs w) p = Some c"
        using rb mf by (cases "\<exists>b. fs_bad_at (w_fs w) k = Some b \<and> b < length c") auto
      ultimately show ?thesis
        using k(1) Pair Inr by (cases st) (auto simp: checksum_file_def bind_m_def)
    qed
  qed
qed


subsection \<open>What copying gives\<close>

lemma fs_put_put [simp]: "fs_put k x (fs_put k y w) = fs_put k x w"
  by (simp add: fs_put_def)

lemma fs_put_same: "fs_nodes (w_fs w) k = n \<Longrightarrow> fs_put k n w = w"
  by (simp add: fs_put_def fun_upd_idem)

lemma splice_end:
  "fs_nodes (w_fs w) k = Some (RegFile b m) \<Longrightarrow> pos = length b \<Longrightarrow>
    splice k pos ch w = fs_put k (Some (RegFile (b @ ch) m)) w"
  by (simp add: splice_def set_bytes_def node_bytes_def Let_def)

lemma write_all_end:
  assumes "fs_nodes (w_fs w) k = Some (RegFile b m)" "pos = length b"
  shows "\<exists>b'. snd (write_all k pos ch w) = fs_put k (Some (RegFile b' m)) w"
    "fst (write_all k pos ch w) = Inr () \<Longrightarrow> snd (write_all k pos ch w) = fs_put k (Some (RegFile (b @ ch) m)) w"
  using splice_end [OF assms] by (auto simp: write_all_def split: option.splits)

lemma copy_stream_spec:
  assumes "fs_nodes (w_fs w) kd = Some (RegFile (concat fed) m)" "off = length (concat fed)"
  shows "\<exists>b. snd (copy_stream n ks kd off fed w) = fs_put kd (Some (RegFile b m)) w \<and>
    (\<forall>out. fst (copy_stream n ks kd off fed w) = Inr out \<longrightarrow> b = concat out \<and>
       (ks \<noteq> kd \<longrightarrow> (\<exists>c mc. fs_nodes (w_fs w) ks = Some (RegFile c mc) \<and> concat out = concat fed @ drop off c)))"
  using assms
proof (induction n arbitrary: off fed w)
  case 0
  then show ?case by (intro exI [of _ "concat fed"]) (simp add: io_def fs_put_same)
next
  case (Suc n)
  obtain r u where r: "file_read ks off w = (r, u)" by fastforce
  then have u: "u = w" using file_read_state [of ks off w] by simp
  have here: "fs_put kd (Some (RegFile (concat fed) m)) w = w" by (rule fs_put_same) (rule Suc.prems(1))
  show ?case
  proof (cases r)
    case (Inl e)
    then show ?thesis using r u here by (intro exI [of _ "concat fed"]) (simp add: bind_m_def)
  next
    case (Inr ch)
    from file_read_Inr [of ks off w ch u] r Inr obtain c mc where
      c: "fs_nodes (w_fs w) ks = Some (RegFile c mc)" "(ch = []) = (length c \<le> off)" by auto
    show ?thesis
    proof (cases "ch = []")
      case True
      then show ?thesis using r u Inr here c
        by (intro exI [of _ "concat fed"]) (simp add: bind_m_def)
    next
      case False
      have run: "copy_stream (Suc n) ks kd off fed w =
          seq_m (write_all kd off ch) (copy_stream n ks kd (off + length ch) (fed @ [ch])) w"
        using r u Inr False by (simp add: bind_m_def)
      note wr = write_all_end [OF Suc.prems, of ch]
      show ?thesis
      proof (cases "fst (write_all kd off ch w)")
        case (Inl e)
        then have "copy_stream (Suc n) ks kd off fed w = (Inl e, snd (write_all kd off ch w))"
          unfolding run by (cases "write_all kd off ch w") (simp add: seq_m_def bind_m_def)
        then show ?thesis using wr(1) by auto
      next
        case (Inr x)
        let ?v = "fs_put kd (Some (RegFile (concat fed @ ch) m)) w"
        have v: "copy_stream (Suc n) ks kd off fed w = copy_stream n ks kd (off + length ch) (fed @ [ch]) ?v"
          using Inr wr(2) unfolding run by (cases "write_all kd off ch w") (simp add: seq_m_def bind_m_def)
        have "fs_nodes (w_fs ?v) kd = Some (RegFile (concat (fed @ [ch])) m)"
          "off + length ch = length (concat (fed @ [ch]))" using Suc.prems(2) by simp_all
        from Suc.IH [OF this] obtain b where
          b: "snd (copy_stream n ks kd (off + length ch) (fed @ [ch]) ?v) = fs_put kd (Some (RegFile b m)) w"
          "\<And>out. fst (copy_stream n ks kd (off + length ch) (fed @ [ch]) ?v) = Inr out \<Longrightarrow> b = concat out \<and>
             (ks \<noteq> kd \<longrightarrow> (\<exists>c mc. fs_nodes (w_fs ?v) ks = Some (RegFile c mc) \<and>
                concat out = concat (fed @ [ch]) @ drop (off + length ch) c))" by auto
        have "ks \<noteq> kd \<Longrightarrow> ch @ drop (off + length ch) c = drop off c"
          using read_step [OF c(1), of off ch u] r \<open>r = Inr ch\<close> by simp
        then show ?thesis using b(1) b(2) c(1) unfolding v by (intro exI [of _ b]) auto
      qed
    qed
  qed
qed

text \<open>Without faults the loop ends well, within its fuel.\<close>

lemma copy_stream_total:
  assumes "fs_nodes (w_fs w) kd = Some (RegFile (concat fed) m)" "off = length (concat fed)"
    "fs_nodes (w_fs w) ks = Some (RegFile c mc)" "ks \<noteq> kd"
    "fs_bad_at (w_fs w) ks = None" "fs_full_at (w_fs w) kd = None" "length c < off + n" "off \<le> length c"
  shows "\<exists>out. fst (copy_stream n ks kd off fed w) = Inr out"
  using assms
proof (induction n arbitrary: off fed w)
  case 0
  then show ?case by simp
next
  case (Suc n)
  let ?ch = "take (min buf_size (length c - off)) (drop off c)"
  have r: "file_read ks off w = (Inr ?ch, w)" using Suc.prems by (simp add: file_read_def Let_def)
  show ?case
  proof (cases "?ch = []")
    case True
    then show ?thesis using r by (simp add: bind_m_def)
  next
    case False
    let ?v = "fs_put kd (Some (RegFile (concat fed @ ?ch) m)) w"
    have wr: "write_all kd off ?ch w = (Inr (), ?v)"
      using Suc.prems by (simp add: write_all_def splice_end del: append_take_drop_id)
    have run: "copy_stream (Suc n) ks kd off fed w = copy_stream n ks kd (off + length ?ch) (fed @ [?ch]) ?v"
      using r False by (simp add: bind_m_def seq_m_def wr del: take_eq_Nil)
    have len: "0 < length ?ch" using False by (simp del: take_eq_Nil length_take)
    have "\<exists>out. fst (copy_stream n ks kd (off + length ?ch) (fed @ [?ch]) ?v) = Inr out"
    proof (rule Suc.IH)
      show "length c < off + length ?ch + n" using Suc.prems(7) len by linarith
      show "off + length ?ch \<le> length c" using Suc.prems(8) by simp
    qed (use Suc.prems(1-6) in simp_all)
    then show ?thesis unfolding run .
  qed
qed

text \<open>The loop of \<open>copy_with_checksum\<close> feeds both hashers the same slices.\<close>

lemma copy_both_eq:
  "copy_both n ks kd off fed fed w = (case copy_stream n ks kd off fed w of
     (Inl e, v) \<Rightarrow> (Inl e, v) | (Inr out, v) \<Rightarrow> (Inr (out, out), v))"
proof (induction n arbitrary: off fed w)
  case (Suc n)
  show ?case
    by (simp add: bind_m_def seq_m_def Suc split: prod.splits sum.splits)
qed (simp add: io_def)


text \<open>A path still leads to the same node after a file was put there.\<close>

lemma follow_end: "follow n f k = Some k' \<Longrightarrow> \<not> (\<exists>t. fs_nodes f k' = Some (Symlink t))"
proof (induction n f k rule: follow.induct)
  case (1 n f k)
  then show ?case
    by (subst (asm) follow.simps) (auto split: option.splits node.splits nat.splits if_splits)
qed

lemma follow_put:
  "follow n (w_fs w) k = Some k' \<Longrightarrow> follow n (w_fs (fs_put k' (Some (RegFile c m)) w)) k = Some k'"
proof (induction n "w_fs w" k rule: follow.induct)
  case (1 n k)
  have e: "\<not> (\<exists>t. fs_nodes (w_fs w) k' = Some (Symlink t))" by (rule follow_end) (rule 1(2))
  show ?case
  proof (cases "\<exists>t. fs_nodes (w_fs w) k = Some (Symlink t)")
    case True
    then obtain t where t: "fs_nodes (w_fs w) k = Some (Symlink t)" by blast
    with e have "k \<noteq> k'" by auto
    from 1(2) t obtain n' where n: "n = Suc n'"
      "follow n' (w_fs w) (if is_absolute t then path_key t else butlast k @ path_key t) = Some k'"
      by (auto simp: follow.simps [of n] split: nat.splits)
    show ?thesis
      using 1(1) [OF t refl n(1) n(2)] t \<open>k \<noteq> k'\<close> n(1) by (simp add: follow.simps [of "Suc n'"])
  next
    case False
    then have "k = k'" using 1(2) by (subst (asm) follow.simps) (auto split: option.splits node.splits)
    then show ?thesis by (simp add: follow.simps [of n])
  qed
qed

lemma target_put: "target (w_fs w) p = Some k \<Longrightarrow> target (w_fs (fs_put k (Some (RegFile c m)) w)) p = Some k"
  unfolding target_def by (rule follow_put)

lemma file_bytes_put: "target (w_fs w) p = Some k \<Longrightarrow> file_bytes (w_fs (fs_put k (Some (RegFile c m)) w)) p = Some c"
  by (simp add: file_bytes_def target_put)

lemma file_create_cases:
  "(\<exists>e. file_create p w = (Inl e, w)) \<or>
   (\<exists>k m. file_create p w = (Inr k, fs_put k (Some (RegFile [] m)) w) \<and> target (w_fs w) p = Some k)"
  by (auto simp: file_create_def io_def split: option.splits node.splits)

lemma set_mode_file:
  "fs_nodes (w_fs w) k = Some (RegFile c m) \<Longrightarrow> set_mode k m' w = fs_put k (Some (RegFile c m')) w"
  by (simp add: set_mode_def)

text \<open>The stages of a verified copy, whatever their outcome: the world after it.\<close>

lemma copy_permissions_cases:
  assumes "target (w_fs w) dst = Some k" "fs_nodes (w_fs w) k = Some (RegFile c m)"
  shows "\<exists>m'. snd (copy_permissions src dst w) = fs_put k (Some (RegFile c m')) w"
  using assms fs_put_same [OF assms(2)] set_mode_file [OF assms(2)]
  by (auto simp: copy_permissions_def io_def Let_def split: option.splits) (metis)+

lemma copied_stage:
  assumes "file_open src w = (Inr ks, w)" "file_create dst w = (Inr kd, fs_put kd (Some (RegFile [] m)) w)"
    and "copy_stream n ks kd 0 [] (fs_put kd (Some (RegFile [] m)) w) = (r, v)"
  shows "\<exists>b. v = fs_put kd (Some (RegFile b m)) w \<and>
    (\<forall>out. r = Inr out \<longrightarrow> b = concat out \<and> (ks \<noteq> kd \<longrightarrow> file_bytes (w_fs w) src = Some b))"
proof -
  have "fs_nodes (w_fs (fs_put kd (Some (RegFile [] m)) w)) kd = Some (RegFile (concat []) m)" by simp
  from copy_stream_spec [OF this, of 0 n ks] assms(3) obtain b where
    b: "v = fs_put kd (Some (RegFile b m)) w"
    "\<forall>out. r = Inr out \<longrightarrow> b = concat out \<and> (ks \<noteq> kd \<longrightarrow>
        (\<exists>c mc. fs_nodes (w_fs w) ks = Some (RegFile c mc) \<and> concat out = c))" by auto
  have "target (w_fs w) src = Some ks" using assms(1) by (simp add: file_open_Inr)
  with b show ?thesis by (intro exI [of _ b]) (auto simp: file_bytes_def)
qed

definition put_or_gone :: "string \<Rightarrow> world \<Rightarrow> world \<Rightarrow> bool" where
  "put_or_gone dst w v = (v = w \<or> (\<exists>k n. target (w_fs w) dst = Some k \<and>
     (v = fs_put k n w \<or> v = fs_put (path_key dst) None (fs_put k n w))))"

lemma remove_file_cases:
  "snd (remove_file p w) = w \<or> snd (remove_file p w) = fs_put (path_key p) None w"
  by (simp add: remove_file_def io_def Let_def split: option.splits node.splits)

lemma bind_file_open: "bind_m (file_open p) k w = (case fst (file_open p w) of Inl e \<Rightarrow> (Inl e, w) | Inr x \<Rightarrow> k x w)"
  using file_open_state [of p w] by (cases "file_open p w") (simp add: bind_m_def split: sum.splits)

lemma copy_and_verify_spec:
  assumes h: "streaming_hash b3"
  shows "case copy_and_verify_checksum b3 src dst expected w of
     (Inr _, v) \<Rightarrow> \<exists>k c m. target (w_fs w) dst = Some k \<and> v = fs_put k (Some (RegFile c m)) w \<and>
        b3 [c] = expected \<and> (target (w_fs w) src \<noteq> Some k \<longrightarrow> file_bytes (w_fs w) src = Some c)
   | (Inl _, v) \<Rightarrow> put_or_gone dst w v"
proof (cases "fst (file_open src w)")
  case (Inl e)
  then show ?thesis by (simp add: copy_and_verify_checksum_def bind_file_open put_or_gone_def)
next
  case (Inr ks)
  then have o1: "file_open src w = (Inr ks, w)" using file_open_state [of src w] by (cases "file_open src w") simp
  then have src: "target (w_fs w) src = Some ks" by (simp add: file_open_Inr)
  from file_create_cases [of dst w] show ?thesis
  proof (elim disjE exE conjE)
    fix e assume "file_create dst w = (Inl e, w)"
    then show ?thesis using o1 by (simp add: copy_and_verify_checksum_def bind_m_def put_or_gone_def)
  next
    fix kd m assume cr: "file_create dst w = (Inr kd, fs_put kd (Some (RegFile [] m)) w)" and
      dst: "target (w_fs w) dst = Some kd"
    let ?u = "fs_put kd (Some (RegFile [] m)) w"
    let ?n = "Suc (length (node_bytes (w_fs ?u) ks))"
    obtain r v where cs: "copy_stream ?n ks kd 0 [] ?u = (r, v)" by fastforce
    obtain b where b: "v = fs_put kd (Some (RegFile b m)) w"
      "\<forall>out. r = Inr out \<longrightarrow> b = concat out \<and> (ks \<noteq> kd \<longrightarrow> file_bytes (w_fs w) src = Some b)"
      using copied_stage [OF o1 cr cs] by blast
    have run: "copy_and_verify_checksum b3 src dst expected w = (case r of Inl e \<Rightarrow> (Inl e, v)
       | Inr fed \<Rightarrow> (if b3 fed \<noteq> expected
           then seq_m (discard (remove_file dst)) (raise_m (Io (mismatch expected (b3 fed))))
           else copy_permissions src dst) v)"
      using o1 cr cs by (simp add: copy_and_verify_checksum_def bind_m_def)
    show ?thesis
    proof (cases r)
      case (Inl e)
      then show ?thesis using run b(1) dst by (auto simp: put_or_gone_def)
    next
      case out: (Inr out)
      have d: "b3 out = b3 [b]" by (rule digest_eq [OF h]) (use b(2) out in simp)
      show ?thesis
      proof (cases "b3 out = expected")
        case False
        then have "copy_and_verify_checksum b3 src dst expected w =
            (Inl (Io (mismatch expected (b3 out))), snd (remove_file dst v))"
          using run out by simp
        moreover have "put_or_gone dst w (snd (remove_file dst v))"
          using remove_file_cases [of dst v] dst b(1) unfolding put_or_gone_def by metis
        ultimately show ?thesis by simp
      next
        case True
        have "target (w_fs v) dst = Some kd" using target_put [OF dst] b(1) by simp
        moreover have "fs_nodes (w_fs v) kd = Some (RegFile b m)" using b(1) by simp
        ultimately obtain m' where m': "snd (copy_permissions src dst v) = fs_put kd (Some (RegFile b m')) v"
          using copy_permissions_cases by blast
        then have "snd (copy_permissions src dst v) = fs_put kd (Some (RegFile b m')) w" using b(1) by simp
        then show ?thesis
          using run out True b(2) d dst src
          by (cases "copy_permissions src dst v") (auto simp: put_or_gone_def split: sum.splits)
      qed
    qed
  qed
qed

text \<open>Without faults: exactly when the digest is the expected one the copy is kept.\<close>

definition copy_ready :: "fs \<Rightarrow> string \<Rightarrow> bytes \<Rightarrow> nat \<Rightarrow> key \<Rightarrow> string \<Rightarrow> key \<Rightarrow> bool" where
  "copy_ready f src c mode ks dst kd = (target f src = Some ks \<and> fs_nodes f ks = Some (RegFile c mode) \<and>
     \<not> fs_noread f ks \<and> \<not> fs_nostat f ks \<and> fs_bad_at f ks = None \<and>
     target f dst = Some kd \<and> ks \<noteq> kd \<and> \<not> fs_nowrite f kd \<and> fs_full_at f kd = None \<and>
     fs_nodes f (butlast kd) = Some Directory \<and>
     (case fs_nodes f kd of None \<Rightarrow> True | Some (RegFile _ _) \<Rightarrow> True | _ \<Rightarrow> False))"

lemma target_other:
  assumes "target (w_fs w) p = Some k'" "target (w_fs w) q = Some k" "k \<noteq> k'"
    "case fs_nodes (w_fs w) k of None \<Rightarrow> True | Some (RegFile _ _) \<Rightarrow> True | _ \<Rightarrow> False"
  shows "target (w_fs (fs_put k (Some (RegFile c m)) w)) p = Some k'"
proof -
  have "follow n (w_fs w) j = Some k' \<Longrightarrow> follow n (w_fs (fs_put k (Some (RegFile c m)) w)) j = Some k'" for n j
  proof (induction n "w_fs w" j rule: follow.induct)
    case (1 n j)
    show ?case
    proof (cases "\<exists>t. fs_nodes (w_fs w) j = Some (Symlink t)")
      case True
      then obtain t where t: "fs_nodes (w_fs w) j = Some (Symlink t)" by blast
      then have "j \<noteq> k" using assms(4) by auto
      from 1(2) t obtain n' where n: "n = Suc n'"
        "follow n' (w_fs w) (if is_absolute t then path_key t else butlast j @ path_key t) = Some k'"
        by (auto simp: follow.simps [of n] split: nat.splits)
      show ?thesis using 1(1) [OF t refl n(1) n(2)] t \<open>j \<noteq> k\<close> n(1) by (simp add: follow.simps [of "Suc n'"])
    next
      case False
      then have "j = k'" using 1(2) by (subst (asm) follow.simps) (auto split: option.splits node.splits)
      then show ?thesis using False assms(3) by (auto simp: follow.simps [of n] split: option.splits node.splits)
    qed
  qed
  then show ?thesis using assms(1) by (simp add: target_def)
qed

lemma copy_ready_run:
  assumes h: "streaming_hash b3" and r: "copy_ready (w_fs w) src c mode ks dst kd"
  shows "copy_and_verify_checksum b3 src dst expected w =
    (if b3 [c] = expected then (Inr (), fs_put kd (Some (RegFile c mode)) w)
     else (Inl (Io (mismatch expected (b3 [c]))), snd (remove_file dst (fs_put kd (Some (RegFile c
       (case fs_nodes (w_fs w) kd of Some (RegFile _ m) \<Rightarrow> m | _ \<Rightarrow> 420))) w))))"
proof -
  define m where "m = (case fs_nodes (w_fs w) kd of Some (RegFile _ m) \<Rightarrow> m | _ \<Rightarrow> (420::nat))"
  let ?u = "fs_put kd (Some (RegFile [] m)) w"
  let ?n = "Suc (length (node_bytes (w_fs ?u) ks))"
  have o1: "file_open src w = (Inr ks, w)" using r by (simp add: file_open_Inr copy_ready_def)
  have cr: "file_create dst w = (Inr kd, ?u)"
    using r by (auto simp: file_create_def copy_ready_def m_def split: option.splits node.splits)
  have n: "node_bytes (w_fs ?u) ks = c" using r by (simp add: copy_ready_def node_bytes_def)
  obtain out where out: "fst (copy_stream ?n ks kd 0 [] ?u) = Inr out"
    using copy_stream_total [of ?u kd "[]" m 0 ks c mode ?n] r n by (auto simp: copy_ready_def)
  obtain v where cs: "copy_stream ?n ks kd 0 [] ?u = (Inr out, v)"
    using out by (cases "copy_stream ?n ks kd 0 [] ?u") simp
  have "file_bytes (w_fs w) src = Some c" using r by (simp add: copy_ready_def file_bytes_def)
  with copied_stage [OF o1 cr cs] r have v: "v = fs_put kd (Some (RegFile c m)) w" "concat out = c"
    by (auto simp: copy_ready_def)
  have d: "b3 out = b3 [c]" by (rule digest_eq [OF h v(2)])
  have ts: "target (w_fs v) src = Some ks" "target (w_fs v) dst = Some kd"
    using target_other [of w src ks dst kd c m] target_put [of w dst kd c m] r v(1) by (auto simp: copy_ready_def)
  have perm: "copy_permissions src dst v = (Inr (), fs_put kd (Some (RegFile c mode)) w)"
    using r ts v(1) set_mode_file [of v kd c m mode] by (simp add: copy_permissions_def copy_ready_def metadata_def)
  show ?thesis
    using o1 cr cs perm d by (simp add: copy_and_verify_checksum_def bind_m_def v(1) m_def)
qed


declare copy_stream.simps [simp del] copy_both.simps [simp del]

lemma copy_with_spec:
  assumes h: "streaming_hash b3"
  shows "case copy_with_checksum b3 src dst w of
     (Inr (s, d), v) \<Rightarrow> s = d \<and> (\<exists>k c m. target (w_fs w) dst = Some k \<and> v = fs_put k (Some (RegFile c m)) w \<and>
        s = b3 [c] \<and> (target (w_fs w) src \<noteq> Some k \<longrightarrow> file_bytes (w_fs w) src = Some c))
   | (Inl _, v) \<Rightarrow> v = w \<or> (\<exists>k n. target (w_fs w) dst = Some k \<and> v = fs_put k n w)"
proof (cases "fst (file_open src w)")
  case (Inl e)
  then show ?thesis by (simp add: copy_with_checksum_def bind_file_open)
next
  case (Inr ks)
  then have o1: "file_open src w = (Inr ks, w)" using file_open_state [of src w] by (cases "file_open src w") simp
  then have src: "target (w_fs w) src = Some ks" by (simp add: file_open_Inr)
  from file_create_cases [of dst w] show ?thesis
  proof (elim disjE exE conjE)
    fix e assume "file_create dst w = (Inl e, w)"
    then show ?thesis using o1 by (simp add: copy_with_checksum_def bind_m_def)
  next
    fix kd m assume cr: "file_create dst w = (Inr kd, fs_put kd (Some (RegFile [] m)) w)" and
      dst: "target (w_fs w) dst = Some kd"
    let ?u = "fs_put kd (Some (RegFile [] m)) w"
    let ?n = "Suc (length (node_bytes (w_fs ?u) ks))"
    obtain r v where cs: "copy_stream ?n ks kd 0 [] ?u = (r, v)" by fastforce
    obtain b where b: "v = fs_put kd (Some (RegFile b m)) w"
      "\<forall>out. r = Inr out \<longrightarrow> b = concat out \<and> (ks \<noteq> kd \<longrightarrow> file_bytes (w_fs w) src = Some b)"
      using copied_stage [OF o1 cr cs] by blast
    have run: "copy_with_checksum b3 src dst w = (case r of Inl e \<Rightarrow> (Inl e, v)
       | Inr fed \<Rightarrow> seq_m (copy_permissions src dst) (return_m (b3 fed, b3 fed)) v)"
      using o1 cr cs by (simp add: copy_with_checksum_def bind_m_def copy_both_eq split: sum.splits)
    show ?thesis
    proof (cases r)
      case (Inl e)
      then show ?thesis using run b(1) dst by auto
    next
      case out: (Inr out)
      have d: "b3 out = b3 [b]" by (rule digest_eq [OF h]) (use b(2) out in simp)
      have "target (w_fs v) dst = Some kd" using target_put [OF dst] b(1) by simp
      moreover have "fs_nodes (w_fs v) kd = Some (RegFile b m)" using b(1) by simp
      ultimately obtain m' where m': "snd (copy_permissions src dst v) = fs_put kd (Some (RegFile b m')) v"
        using copy_permissions_cases by blast
      then have "snd (copy_permissions src dst v) = fs_put kd (Some (RegFile b m')) w" using b(1) by simp
      then show ?thesis
        using run out b(2) d dst src
        by (cases "copy_permissions src dst v") (auto simp: seq_m_def bind_m_def split: sum.splits)
    qed
  qed
qed

lemma copy_with_ready_run:
  assumes h: "streaming_hash b3" and r: "copy_ready (w_fs w) src c mode ks dst kd"
  shows "copy_with_checksum b3 src dst w = (Inr (b3 [c], b3 [c]), fs_put kd (Some (RegFile c mode)) w)"
proof -
  have v: "copy_and_verify_checksum b3 src dst (b3 [c]) w = (Inr (), fs_put kd (Some (RegFile c mode)) w)"
    using copy_ready_run [OF h r] by simp
  then obtain kd' u fed v where st: "file_open src w = (Inr ks, w)" "file_create dst w = (Inr kd', u)"
    "copy_stream (Suc (length (node_bytes (w_fs u) ks))) ks kd' 0 [] u = (Inr fed, v)"
    "b3 fed = b3 [c]" "copy_permissions src dst v = (Inr (), fs_put kd (Some (RegFile c mode)) w)"
    using r by (auto simp: copy_and_verify_checksum_def file_open_Inr copy_ready_def split: if_splits)
  then show ?thesis
    by (simp add: copy_with_checksum_def bind_m_def copy_both_eq seq_m_def)
qed

text \<open>The copies keep whatever a change of one node keeps; the database in particular.\<close>

lemma write_all_keeps:
  assumes P: "\<And>k n w. P w \<Longrightarrow> P (fs_put k n w)"
  shows "keeps P (write_all k pos ch)"
  by (simp add: keeps_def write_all_def splice_def set_bytes_def Let_def P split: option.splits node.splits)

lemma file_create_keeps:
  assumes P: "\<And>k n w. P w \<Longrightarrow> P (fs_put k n w)"
  shows "keeps P (file_create p)"
  by (rule keepsI) (auto simp: file_create_def io_def P split: option.splits node.splits)

lemma copy_permissions_keeps:
  assumes P: "\<And>k n w. P w \<Longrightarrow> P (fs_put k n w)"
  shows "keeps P (copy_permissions src dst)"
  by (rule keepsI) (auto simp: copy_permissions_def io_def Let_def set_mode_def P split: option.splits node.splits)

lemma reads_keep_all [keeps]: "keeps P (file_read k off)" "keeps P (file_open p)" "keeps P (io msg)"
  by (simp_all add: keeps_def io_def)

lemma copy_stream_keeps:
  assumes P: "\<And>k n w. P w \<Longrightarrow> P (fs_put k n w)"
  shows "keeps P (copy_stream n ks kd off fed)"
proof (induction n arbitrary: off fed)
  case (Suc n)
  show ?case unfolding copy_stream.simps
    by (intro keeps_bind keeps_if keeps_seq keeps_return reads_keep_all write_all_keeps P Suc)
qed (unfold copy_stream.simps, rule reads_keep_all)

lemma copy_both_keeps:
  assumes P: "\<And>k n w. P w \<Longrightarrow> P (fs_put k n w)"
  shows "keeps P (copy_both n ks kd off f g)"
proof (induction n arbitrary: off f g)
  case (Suc n)
  show ?case unfolding copy_both.simps
    by (intro keeps_bind keeps_if keeps_seq keeps_return reads_keep_all write_all_keeps P Suc)
qed (unfold copy_both.simps, rule reads_keep_all)

lemma copy_verify_keeps:
  assumes P: "\<And>k n w. P w \<Longrightarrow> P (fs_put k n w)"
  shows "keeps P (copy_and_verify_checksum b3 src dst expected)"
  unfolding copy_and_verify_checksum_def
  by (intro keeps_bind keeps_if keeps_seq keeps_discard keeps_raise keeps_gets reads_keep_all
      file_create_keeps copy_stream_keeps copy_permissions_keeps remove_file_keeps P)

lemma copy_with_keeps:
  assumes P: "\<And>k n w. P w \<Longrightarrow> P (fs_put k n w)"
  shows "keeps P (copy_with_checksum b3 src dst)"
  unfolding copy_with_checksum_def
  by (intro keeps_bind keeps_prod keeps_seq keeps_gets keeps_return reads_keep_all
      file_create_keeps copy_both_keeps copy_permissions_keeps P)

lemma copy_db [simp]:
  "w_db (snd (copy_and_verify_checksum b3 src dst expected w)) = w_db w"
  "w_db (snd (copy_with_checksum b3 src dst w)) = w_db w"
  using keepsD [OF copy_verify_keeps [of "\<lambda>v. w_db v = w_db w"], of w]
    keepsD [OF copy_with_keeps [of "\<lambda>v. w_db v = w_db w"], of w] by simp_all

lemma copy_now [simp]:
  "w_now (snd (copy_and_verify_checksum b3 src dst expected w)) = w_now w"
  "w_now (snd (copy_with_checksum b3 src dst w)) = w_now w"
  using keepsD [OF copy_verify_keeps [of "\<lambda>v. w_now v = w_now w"], of w]
    keepsD [OF copy_with_keeps [of "\<lambda>v. w_now v = w_now w"], of w] by simp_all

subsection \<open>Properties\<close>

text \<open>
  The witnesses copy between two drives: \<open>/a/x\<close> holds the bytes \<open>c\<close>, \<open>/b\<close> may hold a file \<open>x\<close> too. Their
  digest lists the bytes as characters; it has the law of a streaming hash.
\<close>

definition plain_digest :: digest where
  "plain_digest xs = map char_of (concat xs)"

definition disk :: "bytes \<Rightarrow> bytes option \<Rightarrow> world" where
  "disk c d = (blank_world empty_db)\<lparr>w_fs := (w_fs (blank_world empty_db))\<lparr>fs_nodes := (\<lambda>k.
     if k \<in> {[''/''], [''/'', ''a''], [''/'', ''b'']} then Some Directory
     else if k = [''/'', ''a'', ''x''] then Some (RegFile c 416)
     else if k = [''/'', ''b'', ''x''] then map_option (\<lambda>b. RegFile b 420) d else None)\<rparr>\<rparr>"

lemma plain_streaming [simp]: "streaming_hash plain_digest"
  by (simp add: streaming_hash_def plain_digest_def)

lemma disk_ready:
  "copy_ready (w_fs (disk c d)) ''/a/x'' c 416 [''/'', ''a'', ''x''] ''/b/x'' [''/'', ''b'', ''x'']"
  by (cases d) (simp_all add: copy_ready_def disk_def blank_world_def target_def follow.simps path_key_def is_absolute_def)

text \<open>C9: the verified copy is sound. Whatever the disks do, when \<open>copy_and_verify_checksum\<close> answers Ok the
  destination is a file whose bytes have the expected digest, they are the bytes of the source, and no
  other node changed; on an error nothing but the destination changed.\<close>

theorem verified_copy_sound:
  assumes "streaming_hash b3"
  shows "(case copy_and_verify_checksum b3 src dst expected w of
     (Inr _, v) \<Rightarrow> \<exists>k c m. target (w_fs w) dst = Some k \<and> v = fs_put k (Some (RegFile c m)) w
        \<and> file_bytes (w_fs v) dst = Some c \<and> checksum_bytes b3 c = expected
        \<and> (target (w_fs w) src \<noteq> Some k \<longrightarrow> file_bytes (w_fs w) src = Some c)
   | (Inl _, v) \<Rightarrow> put_or_gone dst w v)"
  using copy_and_verify_spec [OF assms, where src = src and dst = dst and expected = expected and w = w] file_bytes_put
  by (fastforce simp: checksum_bytes_def split: prod.splits sum.splits)

theorem verified_copy_sound_witness:
  "\<exists>v. copy_and_verify_checksum plain_digest ''/a/x'' ''/b/x'' (plain_digest [[65, 66]]) (disk [65, 66] None) =
     (Inr (), v) \<and> file_bytes (w_fs v) ''/b/x'' = Some [65, 66]"
proof -
  let ?w = "disk [65, 66] None"
  have "copy_and_verify_checksum plain_digest ''/a/x'' ''/b/x'' (plain_digest [[65, 66]]) ?w =
      (Inr (), fs_put [''/'', ''b'', ''x''] (Some (RegFile [65, 66] 416)) ?w)"
    using copy_ready_run [OF plain_streaming disk_ready [of "[65, 66]" None]] by simp
  moreover have "target (w_fs ?w) ''/a/x'' \<noteq> target (w_fs ?w) ''/b/x''"
    using disk_ready [of "[65, 66]" None] by (simp add: copy_ready_def)
  moreover have "file_bytes (w_fs ?w) ''/a/x'' = Some [65, 66]"
    using disk_ready [of "[65, 66]" None] by (simp add: copy_ready_def file_bytes_def)
  ultimately show ?thesis
    using verified_copy_sound [OF plain_streaming, where src = "''/a/x''" and dst = "''/b/x''"
        and expected = "plain_digest [[65, 66]]" and w = ?w]
    by auto
qed

text \<open>C10: the verified copy is complete. On healthy disks it answers Ok exactly when the source's digest is
  the expected one, and then the destination has the source's bytes and permissions; otherwise it
  answers the mismatch and the destination is gone, whatever it held before.\<close>

theorem verified_copy_complete:
  assumes "streaming_hash b3" "copy_ready (w_fs w) src c mode ks dst kd" "path_key dst = kd"
  shows "copy_and_verify_checksum b3 src dst expected w =
    (if checksum_bytes b3 c = expected then (Inr (), fs_put kd (Some (RegFile c mode)) w)
     else (Inl (Io (mismatch expected (checksum_bytes b3 c))), fs_put kd None w))"
  using copy_ready_run [OF assms(1,2)] assms(2,3)
  by (simp add: checksum_bytes_def remove_file_def copy_ready_def)

theorem verified_copy_complete_witness:
  "copy_and_verify_checksum plain_digest ''/a/x'' ''/b/x'' '''' (disk [65, 66] (Some [65, 67])) =
     (Inl (Io (mismatch '''' (plain_digest [[65, 66]]))), fs_put [''/'', ''b'', ''x''] None (disk [65, 66] (Some [65, 67])))"
  using verified_copy_complete [OF plain_streaming disk_ready [of "[65, 66]" "Some [65, 67]"], where expected = "''''"]
  by (simp add: path_key_def is_absolute_def checksum_bytes_def) (simp add: plain_digest_def)



text \<open>A failed copy destroys the destination: when the source cannot be read to the end, the copy
  answers an error, but the destination was truncated when it was opened: the good bytes it held
  are gone.\<close>

theorem failed_copy_destroys_destination:
  "\<exists>w v. file_bytes (w_fs w) ''/b/x'' = Some [65, 66]
    \<and> copy_and_verify_checksum b3 ''/a/x'' ''/b/x'' expected w = (Inl (Io ''read''), v)
    \<and> file_bytes (w_fs v) ''/b/x'' = Some []"
proof -
  let ?d = "disk [65] (Some [65, 66])"
  let ?w = "?d\<lparr>w_fs := (w_fs ?d)\<lparr>fs_bad_at := (\<lambda>_. Some 0)\<rparr>\<rparr>"
  have "file_bytes (w_fs ?w) ''/b/x'' = Some [65, 66]"
    by (simp add: file_bytes_def disk_def blank_world_def target_def follow.simps path_key_def is_absolute_def)
  moreover have "copy_and_verify_checksum b3 ''/a/x'' ''/b/x'' expected ?w =
      (Inl (Io ''read''), fs_put [''/'', ''b'', ''x''] (Some (RegFile [] 420)) ?w)"
    by (simp add: copy_and_verify_checksum_def file_open_def file_create_def bind_m_def file_read_def io_def
        copy_stream.simps disk_def blank_world_def target_def follow.simps path_key_def is_absolute_def node_bytes_def)
  moreover have "target (w_fs ?w) ''/b/x'' = Some [''/'', ''b'', ''x'']"
    by (simp add: disk_def blank_world_def target_def follow.simps path_key_def is_absolute_def)
  ultimately show ?thesis using file_bytes_put by blast
qed

end
