(* ===== verification/Mirroring.thy ===== *)
theory Mirroring
  imports Checksum
begin

section \<open>Mirroring and restoring one file\<close>

text \<open>
  \<open>src/core/mirror.rs\<close>: the test of the two roots of a new pair, the copy of a file from the active to the
  standby drive, and the two restores between primary and secondary. The restores share a contract, the
  locale \<open>verified_restorer\<close>; the integrity checks rest on it.
\<close>

subsection \<open>Operations\<close>

text \<open>\<open>canonicalize\<close>: the key of the node behind the links; it fails as \<open>metadata\<close> does.\<close>

definition canonicalize :: "string \<Rightarrow> key prog" where
  "canonicalize p w = (case metadata (w_fs w) p of
       None \<Rightarrow> io ''canonicalize'' w
     | Some _ \<Rightarrow> (case target (w_fs w) p of None \<Rightarrow> io ''canonicalize'' w | Some k \<Rightarrow> return_m k w))"

definition check_root :: "string \<Rightarrow> string \<Rightarrow> unit prog" where
  "check_root what p w =
     (if \<not> path_exists (w_fs w) p then bail (fmt [what, '' path does not exist: '', p]) w
      else if \<not> path_is_dir (w_fs w) p then bail (fmt [what, '' path is not a directory: '', p]) w
      else (Inr (), w))"

definition write_test :: "string \<Rightarrow> string \<Rightarrow> unit prog" where
  "write_test what p = seq_m
     (with_context (fmt [what, '' path is not writable'']) (fs_write (path_join p ''.bitprotector_write_test'') []))
     (discard (remove_file (path_join p ''.bitprotector_write_test'')))"

definition validate_drive_pair :: "string \<Rightarrow> string \<Rightarrow> unit prog" where
  "validate_drive_pair primary secondary =
     seq_m (check_root ''Primary'' primary)
    (seq_m (check_root ''Secondary'' secondary)
    (bind_m (with_context ''Failed to canonicalize primary path'' (canonicalize primary)) (\<lambda>kp.
     bind_m (with_context ''Failed to canonicalize secondary path'' (canonicalize secondary)) (\<lambda>ks.
     if kp = ks then bail ''Primary and secondary paths must be different directories''
     else seq_m (write_test ''Primary'' primary) (write_test ''Secondary'' secondary)))))"

definition require_source :: "string \<Rightarrow> string \<Rightarrow> unit prog" where
  "require_source what p w =
     (if \<not> path_exists (w_fs w) p then bail (fmt [what, '' file does not exist: '', p]) w else (Inr (), w))"

definition mirror_file :: "digest \<Rightarrow> drive_pair \<Rightarrow> string \<Rightarrow> string prog" where
  "mirror_file b3 p rel w =
     (if \<not> standby_accepts_sync (w_fs w) p
      then bail (fmt [''Standby '', role_str (standby_role p),
             '' path is not ready to receive sync data for drive pair #'', dec (dp_id p)]) w
      else
       (seq_m (ensure_drive_root_marker (active_path p))
       (seq_m (ensure_drive_root_marker (standby_path p))
       (let src = path_join (active_path p) rel; dst = path_join (standby_path p) rel in
        seq_m (require_source ''Source'' src)
       (seq_m (with_context ''Failed to create mirror directory'' (create_dir_all (butlast (path_key dst))))
       (bind_m (with_context ''Failed to copy file to mirror'' (copy_with_checksum b3 src dst))
         (\<lambda>(src_checksum, dst_checksum).
            if src_checksum \<noteq> dst_checksum
            then bail (fmt [''Mirror verification failed: src='', src_checksum, '' dst='', dst_checksum])
            else return_m src_checksum)))))) w)"

text \<open>The two restores are the same code with the sides exchanged; each is written out as the source has it.\<close>

definition restore_from_mirror :: "digest \<Rightarrow> drive_pair \<Rightarrow> string \<Rightarrow> string \<Rightarrow> unit prog" where
  "restore_from_mirror b3 p rel expected =
     (let src = path_join (dp_secondary_path p) rel; dst = path_join (dp_primary_path p) rel in
      if role_state p Primary = Failed
      then bail (fmt [''Primary drive is marked failed for drive pair #'', dec (dp_id p)])
      else seq_m (require_source ''Mirror'' src)
          (seq_m (create_dir_all (butlast (path_key dst)))
          (seq_m (ensure_drive_root_marker (dp_primary_path p))
          (with_context (fmt [''Mirror file checksum mismatch: stored='', expected])
             (copy_and_verify_checksum b3 src dst expected)))))"

definition restore_mirror_from_master :: "digest \<Rightarrow> drive_pair \<Rightarrow> string \<Rightarrow> string \<Rightarrow> unit prog" where
  "restore_mirror_from_master b3 p rel expected =
     (let src = path_join (dp_primary_path p) rel; dst = path_join (dp_secondary_path p) rel in
      if role_state p Secondary = Failed
      then bail (fmt [''Secondary drive is marked failed for drive pair #'', dec (dp_id p)])
      else seq_m (require_source ''Primary'' src)
          (seq_m (create_dir_all (butlast (path_key dst)))
          (seq_m (ensure_drive_root_marker (dp_secondary_path p))
          (with_context (fmt [''Master file checksum mismatch: stored='', expected])
             (copy_and_verify_checksum b3 src dst expected)))))"

subsection \<open>After a copy both sides hold the same bytes\<close>

lemma copy_target_file:
  assumes "fs_nodes (w_fs u) k = Some (RegFile c m)" "target (w_fs u) p = Some k"
  shows "file_bytes (w_fs u) p = Some c"
  using assms by (simp add: file_bytes_def)

lemma file_create_plain:
  "file_create p w = (Inr k, u) \<Longrightarrow> target (w_fs w) p = Some k \<and>
    (case fs_nodes (w_fs w) k of None \<Rightarrow> True | Some (RegFile _ _) \<Rightarrow> True | _ \<Rightarrow> False)"
  by (auto simp: file_create_def io_def split: option.splits node.splits if_splits)

lemma bytes_after_put:
  assumes "target (w_fs w) dst = Some k" and v: "v = fs_put k (Some (RegFile c m)) w"
    and plain: "case fs_nodes (w_fs w) k of None \<Rightarrow> True | Some (RegFile _ _) \<Rightarrow> True | _ \<Rightarrow> False"
    and src: "target (w_fs w) src = Some ks" "target (w_fs w) src \<noteq> Some k \<longrightarrow> file_bytes (w_fs w) src = Some c"
  shows "file_bytes (w_fs v) src = Some c \<and> file_bytes (w_fs v) dst = Some c"
proof
  show "file_bytes (w_fs v) dst = Some c" using file_bytes_put [OF assms(1)] v by simp
  show "file_bytes (w_fs v) src = Some c"
  proof (cases "ks = k")
    case True
    then show ?thesis using file_bytes_put [of w src k c m] src v by simp
  next
    case False
    then have "target (w_fs v) src = Some ks"
      using target_other [OF src(1) assms(1) _ plain] v by auto
    then show ?thesis using src False v by (simp add: file_bytes_def)
  qed
qed

lemma verified_copy_both_sides:
  assumes h: "streaming_hash b3" and ok: "copy_and_verify_checksum b3 src dst expected w = (Inr u, v)"
  shows "\<exists>c. file_bytes (w_fs v) src = Some c \<and> file_bytes (w_fs v) dst = Some c \<and> b3 [c] = expected"
proof -
  from copy_and_verify_spec [OF h, where src = src and dst = dst and expected = expected and w = w] ok
  obtain k c m where c: "target (w_fs w) dst = Some k" "v = fs_put k (Some (RegFile c m)) w" "b3 [c] = expected"
    "target (w_fs w) src \<noteq> Some k \<longrightarrow> file_bytes (w_fs w) src = Some c" by auto
  from ok obtain ks k' u' where "file_open src w = (Inr ks, w)" "file_create dst w = (Inr k', u')"
    using file_open_Inr by (auto simp: copy_and_verify_checksum_def)
  then have "target (w_fs w) src = Some ks"
    "case fs_nodes (w_fs w) k of None \<Rightarrow> True | Some (RegFile _ _) \<Rightarrow> True | _ \<Rightarrow> False"
    using file_create_plain [of dst w k' u'] c(1) by (auto simp: file_open_Inr)
  from bytes_after_put [OF c(1,2) this(2,1) c(4)] c(3) show ?thesis by blast
qed

lemma checksum_copy_both_sides:
  assumes h: "streaming_hash b3" and ok: "copy_with_checksum b3 src dst w = (Inr (s, d), v)"
  shows "\<exists>c. file_bytes (w_fs v) src = Some c \<and> file_bytes (w_fs v) dst = Some c \<and> s = b3 [c] \<and> d = b3 [c]"
proof -
  from copy_with_spec [OF h, where src = src and dst = dst and w = w] ok
  obtain k c m where c: "target (w_fs w) dst = Some k" "v = fs_put k (Some (RegFile c m)) w" "s = b3 [c]" "s = d"
    "target (w_fs w) src \<noteq> Some k \<longrightarrow> file_bytes (w_fs w) src = Some c" by auto
  from ok obtain ks k' u' where "file_open src w = (Inr ks, w)" "file_create dst w = (Inr k', u')"
    using file_open_Inr by (auto simp: copy_with_checksum_def)
  then have "target (w_fs w) src = Some ks"
    "case fs_nodes (w_fs w) k of None \<Rightarrow> True | Some (RegFile _ _) \<Rightarrow> True | _ \<Rightarrow> False"
    using file_create_plain [of dst w k' u'] c(1) by (auto simp: file_open_Inr)
  from bytes_after_put [OF c(1,2) this(2,1) c(5)] c(3,4) show ?thesis by auto
qed

subsection \<open>The contract of a restore\<close>

definition side_file :: "drive_pair \<Rightarrow> drive_role \<Rightarrow> string \<Rightarrow> string" where
  "side_file p r rel = path_join (path_for_role p r) rel"

definition sides_agree :: "digest \<Rightarrow> drive_pair \<Rightarrow> string \<Rightarrow> string \<Rightarrow> world \<Rightarrow> bool" where
  "sides_agree b3 p rel expected w = (\<exists>c. b3 [c] = expected \<and>
     (\<forall>r. file_bytes (w_fs w) (side_file p r rel) = Some c))"

locale verified_restorer =
  fixes restore :: "digest \<Rightarrow> drive_pair \<Rightarrow> string \<Rightarrow> string \<Rightarrow> unit prog" and side :: drive_role
  assumes restore_keeps: "(\<And>k n w. P w \<Longrightarrow> P (fs_put k n w)) \<Longrightarrow> keeps P (restore b3 p rel expected)"
    and restore_ok: "streaming_hash b3 \<Longrightarrow> restore b3 p rel expected w = (Inr u, v) \<Longrightarrow>
      sides_agree b3 p rel expected v"
    and restore_refused: "role_state p side = Failed \<Longrightarrow> \<exists>msg. restore b3 p rel expected w = (Inl (Bail msg), w)"
begin

lemma restore_db: "w_db (snd (restore b3 p rel expected w)) = w_db w"
  using keepsD [OF restore_keeps [of "\<lambda>v. w_db v = w_db w"], of w] by simp

lemma restore_now: "w_now (snd (restore b3 p rel expected w)) = w_now w"
  using keepsD [OF restore_keeps [of "\<lambda>v. w_now v = w_now w"], of w] by simp

lemma restored_not_failed: "restore b3 p rel expected w = (Inr u, v) \<Longrightarrow> role_state p side \<noteq> Failed"
  using restore_refused [of p b3 rel expected w] by auto

lemma restored_side:
  assumes "streaming_hash b3" "restore b3 p rel expected w = (Inr u, v)"
  shows "\<exists>c. file_bytes (w_fs v) (side_file p side rel) = Some c \<and> b3 [c] = expected"
  using restore_ok [OF assms] by (auto simp: sides_agree_def)

end

lemma with_context_Inr [simp]: "with_context msg m w = (Inr x, v) \<longleftrightarrow> m w = (Inr x, v)"
  by (auto simp: with_context_def split: prod.splits sum.splits)

lemma path_for_role_simps [simp]:
  "path_for_role p Primary = dp_primary_path p" "path_for_role p Secondary = dp_secondary_path p"
  by (simp_all add: path_for_role_def)

lemma all_roles: "(\<forall>r. Q r) \<longleftrightarrow> Q Primary \<and> Q Secondary"
  by (metis drive_role.exhaust)

lemma mkdirs_keeps_m:
  assumes "\<And>k n w. P w \<Longrightarrow> P (fs_put k n w)"
  shows "keeps P (create_dir_all k)"
  by (rule keepsI) (simp add: create_dir_all_def mkdirs_keeps [of P, OF assms])

lemma require_source_keeps [keeps]: "keeps P (require_source what p)"
  by (simp add: keeps_def require_source_def)

interpretation master_restore: verified_restorer restore_from_mirror Primary
proof
  fix P b3 p rel expected
  assume P: "\<And>k n w. P w \<Longrightarrow> P (fs_put k n w)"
  show "keeps P (restore_from_mirror b3 p rel expected)"
    unfolding restore_from_mirror_def Let_def
    by (intro keeps_if keeps_bail keeps_seq require_source_keeps mkdirs_keeps_m ensure_marker_keeps
        keeps_with_context copy_verify_keeps P)
next
  fix b3 p rel expected w u v
  assume h: "streaming_hash b3" and ok: "restore_from_mirror b3 p rel expected w = (Inr u, v)"
  then obtain w' where "copy_and_verify_checksum b3 (path_join (dp_secondary_path p) rel)
      (path_join (dp_primary_path p) rel) expected w' = (Inr u, v)"
    by (auto simp: restore_from_mirror_def Let_def split: if_splits)
  from verified_copy_both_sides [OF h this] show "sides_agree b3 p rel expected v"
    by (auto simp: sides_agree_def side_file_def all_roles)
qed (simp add: restore_from_mirror_def Let_def)

interpretation mirror_restore: verified_restorer restore_mirror_from_master Secondary
proof
  fix P b3 p rel expected
  assume P: "\<And>k n w. P w \<Longrightarrow> P (fs_put k n w)"
  show "keeps P (restore_mirror_from_master b3 p rel expected)"
    unfolding restore_mirror_from_master_def Let_def
    by (intro keeps_if keeps_bail keeps_seq require_source_keeps mkdirs_keeps_m ensure_marker_keeps
        keeps_with_context copy_verify_keeps P)
next
  fix b3 p rel expected w u v
  assume h: "streaming_hash b3" and ok: "restore_mirror_from_master b3 p rel expected w = (Inr u, v)"
  then obtain w' where "copy_and_verify_checksum b3 (path_join (dp_primary_path p) rel)
      (path_join (dp_secondary_path p) rel) expected w' = (Inr u, v)"
    by (auto simp: restore_mirror_from_master_def Let_def split: if_splits)
  from verified_copy_both_sides [OF h this] show "sides_agree b3 p rel expected v"
    by (auto simp: sides_agree_def side_file_def all_roles)
qed (simp add: restore_mirror_from_master_def Let_def)

subsection \<open>Mirroring\<close>

lemma mirror_keeps:
  assumes P: "\<And>k n w. P w \<Longrightarrow> P (fs_put k n w)"
  shows "keeps P (mirror_file b3 p rel)"
proof (rule keepsI)
  fix w assume w: "P w"
  have "keeps P (seq_m (ensure_drive_root_marker (active_path p))
       (seq_m (ensure_drive_root_marker (standby_path p))
       (let src = path_join (active_path p) rel; dst = path_join (standby_path p) rel in
        seq_m (require_source ''Source'' src)
       (seq_m (with_context ''Failed to create mirror directory'' (create_dir_all (butlast (path_key dst))))
       (bind_m (with_context ''Failed to copy file to mirror'' (copy_with_checksum b3 src dst))
         (\<lambda>(src_checksum, dst_checksum).
            if src_checksum \<noteq> dst_checksum
            then bail (fmt [''Mirror verification failed: src='', src_checksum, '' dst='', dst_checksum])
            else return_m src_checksum))))))"
    unfolding Let_def
    by (intro keeps_if keeps_bail keeps_seq keeps_bind keeps_prod keeps_return require_source_keeps
        mkdirs_keeps_m ensure_marker_keeps keeps_with_context copy_with_keeps P)
  from keepsD [OF this w] w show "P (snd (mirror_file b3 p rel w))"
    by (simp add: mirror_file_def)
qed

lemma mirror_db [simp]: "w_db (snd (mirror_file b3 p rel w)) = w_db w"
  using keepsD [OF mirror_keeps [of "\<lambda>v. w_db v = w_db w"], of w] by simp

lemma mirror_now [simp]: "w_now (snd (mirror_file b3 p rel w)) = w_now w"
  using keepsD [OF mirror_keeps [of "\<lambda>v. w_now v = w_now w"], of w] by simp

lemma mirror_ok:
  assumes h: "streaming_hash b3" and ok: "mirror_file b3 p rel w = (Inr s, v)"
  shows "standby_accepts_sync (w_fs w) p \<and> sides_agree b3 p rel s v"
proof -
  from ok have a: "standby_accepts_sync (w_fs w) p" by (auto simp: mirror_file_def split: if_splits)
  with ok obtain w' d where "copy_with_checksum b3 (path_join (active_path p) rel)
      (path_join (standby_path p) rel) w' = (Inr (s, d), v)"
    by (auto simp: mirror_file_def Let_def split: if_splits)
  from checksum_copy_both_sides [OF h this] a show ?thesis
    by (cases "active_role_enum p")
      (auto simp: sides_agree_def side_file_def all_roles active_path_def standby_path_def standby_role_def)
qed

end
