(* ===== verification/Integrity.thy ===== *)
theory Integrity
  imports Mirroring
begin

section \<open>Integrity of one file\<close>

text \<open>
  \<open>src/core/integrity.rs\<close>: the check of a tracked file on both drives, the automatic recovery and its
  reconciliation with queue and metadata. The two checksums are computed by \<open>rayon::join\<close>; both only
  read, so their order does not matter, and the error of the master copy is the one reported.
\<close>

subsection \<open>Operations\<close>

datatype integrity_status =
    IOk
  | MasterCorrupted
  | MirrorCorrupted
  | BothCorrupted
  | MirrorMissing
  | MasterMissing
  | PrimaryDriveUnavailable
  | SecondaryDriveUnavailable

record integrity_check_result =
  ic_file_id :: int
  ic_stored_checksum :: string
  ic_master_checksum :: "string option"
  ic_mirror_checksum :: "string option"
  ic_master_valid :: bool
  ic_mirror_valid :: bool
  ic_status :: integrity_status

definition unavailable_result :: "tracked_file \<Rightarrow> integrity_status \<Rightarrow> integrity_check_result" where
  "unavailable_result f status = \<lparr>ic_file_id = tf_id f, ic_stored_checksum = tf_checksum f,
     ic_master_checksum = None, ic_mirror_checksum = None, ic_master_valid = False,
     ic_mirror_valid = False, ic_status = status\<rparr>"

definition side_checksum :: "digest \<Rightarrow> bool \<Rightarrow> string \<Rightarrow> checksum_strategy \<Rightarrow> string option prog" where
  "side_checksum b3 root_available path strategy w =
     (if root_available \<and> path_exists (w_fs w) path
      then bind_m (checksum_file b3 path strategy) (\<lambda>s. return_m (Some s)) w
      else (Inr None, w))"

definition classify :: "drive_pair \<Rightarrow> string option \<Rightarrow> string option \<Rightarrow> bool \<Rightarrow> bool \<Rightarrow> integrity_status" where
  "classify p master mirror master_valid mirror_valid =
     (if is_degraded p
      then (case active_role_enum p of
          Primary \<Rightarrow> (if master_valid then IOk else BothCorrupted)
        | Secondary \<Rightarrow> (if mirror_valid then IOk else BothCorrupted))
      else if master = None then MasterMissing
      else if mirror = None then MirrorMissing
      else if master_valid \<and> mirror_valid then IOk
      else if \<not> master_valid \<and> mirror_valid then MasterCorrupted
      else if master_valid \<and> \<not> mirror_valid then MirrorCorrupted
      else BothCorrupted)"

definition check_file_integrity ::
    "digest \<Rightarrow> drive_pair \<Rightarrow> tracked_file \<Rightarrow> checksum_strategy \<Rightarrow> checksum_strategy
      \<Rightarrow> integrity_check_result prog" where
  "check_file_integrity b3 p f master_strategy mirror_strategy w =
     (let master_path = path_join (dp_primary_path p) (tf_relative_path f);
          mirror_path = path_join (dp_secondary_path p) (tf_relative_path f);
          primary_root_available = path_is_available (w_fs w) (dp_primary_path p);
          secondary_root_available = path_is_available (w_fs w) (dp_secondary_path p)
      in if role_state p Primary = Active \<and> \<not> primary_root_available
         then (Inr (unavailable_result f PrimaryDriveUnavailable), w)
         else if role_state p Secondary = Active \<and> \<not> secondary_root_available
         then (Inr (unavailable_result f SecondaryDriveUnavailable), w)
         else bind_m (side_checksum b3 primary_root_available master_path master_strategy) (\<lambda>master.
              bind_m (side_checksum b3 secondary_root_available mirror_path mirror_strategy) (\<lambda>mirror.
                let master_valid = (master = Some (tf_checksum f)); mirror_valid = (mirror = Some (tf_checksum f))
                in return_m \<lparr>ic_file_id = tf_id f, ic_stored_checksum = tf_checksum f,
                     ic_master_checksum = master, ic_mirror_checksum = mirror,
                     ic_master_valid = master_valid, ic_mirror_valid = mirror_valid,
                     ic_status = classify p master mirror master_valid mirror_valid\<rparr>)) w)"

definition attempt_recovery :: "digest \<Rightarrow> drive_pair \<Rightarrow> tracked_file \<Rightarrow> integrity_check_result \<Rightarrow> bool prog" where
  "attempt_recovery b3 p f res =
     (if is_degraded p then return_m False
      else (case ic_status res of
          MasterCorrupted \<Rightarrow>
            seq_m (restore_from_mirror b3 p (tf_relative_path f) (tf_checksum f)) (return_m True)
        | MirrorCorrupted \<Rightarrow>
            seq_m (restore_mirror_from_master b3 p (tf_relative_path f) (tf_checksum f)) (return_m True)
        | MirrorMissing \<Rightarrow>
            seq_m (restore_mirror_from_master b3 p (tf_relative_path f) (tf_checksum f)) (return_m True)
        | _ \<Rightarrow> return_m False))"

fun recovery_action_for_status :: "integrity_status \<Rightarrow> string" where
  "recovery_action_for_status MasterCorrupted = ''restore_master''"
| "recovery_action_for_status MasterMissing = ''restore_master''"
| "recovery_action_for_status MirrorCorrupted = ''restore_mirror''"
| "recovery_action_for_status MirrorMissing = ''restore_mirror''"
| "recovery_action_for_status BothCorrupted = ''user_action_required''"
| "recovery_action_for_status PrimaryDriveUnavailable = ''drive_unavailable''"
| "recovery_action_for_status SecondaryDriveUnavailable = ''drive_unavailable''"
| "recovery_action_for_status IOk = ''none''"

text \<open>The derived \<open>Debug\<close> form of a status is its constructor's name.\<close>

fun status_debug :: "integrity_status \<Rightarrow> string" where
  "status_debug IOk = ''Ok''"
| "status_debug MasterCorrupted = ''MasterCorrupted''"
| "status_debug MirrorCorrupted = ''MirrorCorrupted''"
| "status_debug BothCorrupted = ''BothCorrupted''"
| "status_debug MirrorMissing = ''MirrorMissing''"
| "status_debug MasterMissing = ''MasterMissing''"
| "status_debug PrimaryDriveUnavailable = ''PrimaryDriveUnavailable''"
| "status_debug SecondaryDriveUnavailable = ''SecondaryDriveUnavailable''"

definition recovery_action_with_context :: "integrity_check_result \<Rightarrow> string" where
  "recovery_action_with_context res =
     fmt [recovery_action_for_status (ic_status res), '' ('', status_debug (ic_status res), '')'']"

definition attempt_recovery_with_reconciliation ::
    "digest \<Rightarrow> drive_pair \<Rightarrow> tracked_file \<Rightarrow> integrity_check_result \<Rightarrow> bool prog" where
  "attempt_recovery_with_reconciliation b3 p f res =
     (let action = recovery_action_with_context res in
      bind_m (try_m (attempt_recovery b3 p f res)) (\<lambda>r. case r of
         Inr True \<Rightarrow>
           seq_m (update_tracked_file_mirror_status (tf_id f) True)
          (bind_m (complete_pending_mirror_queue_for_file (tf_id f)) (\<lambda>reconciled.
           seq_m (discard (log_recovery (tf_id f) (recovery_action_for_status (ic_status res)) True))
          (seq_m (if reconciled > 0
                  then discard (log_sync_completed (tf_id f) ''mirror''
                         (fmt [dp_primary_path p, ''/'', tf_relative_path f]))
                  else return_m ())
          (return_m True))))
       | Inr False \<Rightarrow> seq_m (discard (log_recovery (tf_id f) action False)) (return_m False)
       | Inl e \<Rightarrow> seq_m (discard (log_recovery (tf_id f) action False)) (raise_m e)))"

subsection \<open>The check only reads\<close>

lemma side_checksum_pure: "pure_m (side_checksum b3 a path st)"
  using checksum_pure [of b3 path st]
  by (auto simp: pure_m_def side_checksum_def bind_m_def split: prod.splits sum.splits) (metis snd_conv)+

lemma side_checksum_state: "snd (side_checksum b3 a path st w) = w"
  using side_checksum_pure by (simp add: pure_m_def)

lemma check_state [simp]: "snd (check_file_integrity b3 p f s1 s2 w) = w"
  using side_checksum_state
  by (auto simp: check_file_integrity_def Let_def bind_m_def split: prod.splits sum.splits) (metis snd_conv)+

lemma check_keeps [keeps]: "keeps P (check_file_integrity b3 p f s1 s2)"
  by (simp add: keeps_def)

text \<open>What one side contributes: nothing when the root or the file is missing, the digest of its bytes else.\<close>

definition copy_seen :: "fs \<Rightarrow> drive_pair \<Rightarrow> drive_role \<Rightarrow> string \<Rightarrow> bool" where
  "copy_seen f p r rel = (path_is_available f (path_for_role p r) \<and> path_exists f (side_file p r rel))"

definition copy_valid :: "digest \<Rightarrow> world \<Rightarrow> drive_pair \<Rightarrow> drive_role \<Rightarrow> tracked_file \<Rightarrow> bool" where
  "copy_valid b3 w p r f = (copy_seen (w_fs w) p r (tf_relative_path f) \<and>
     (\<exists>c. readable_bytes (w_fs w) (side_file p r (tf_relative_path f)) = Some c \<and> b3 [c] = tf_checksum f))"

lemma side_checksum_Inr:
  assumes h: "streaming_hash b3" and ok: "side_checksum b3 (path_is_available (w_fs w) (path_for_role p r))
      (side_file p r (tf_relative_path f)) st w = (Inr s, v)"
  shows "v = w \<and> (s = None \<longleftrightarrow> \<not> copy_seen (w_fs w) p r (tf_relative_path f)) \<and>
    (s = Some (tf_checksum f) \<longleftrightarrow> copy_valid b3 w p r f)"
proof (cases "copy_seen (w_fs w) p r (tf_relative_path f)")
  case True
  let ?p = "side_file p r (tf_relative_path f)"
  obtain x where x: "checksum_file b3 ?p st w = (Inr x, v)" "s = Some x"
    using ok True by (auto simp: side_checksum_def copy_seen_def)
  show ?thesis
    using checksum_file_eq [OF h, where w = w and p = ?p and st = st] x True
    by (cases "readable_bytes (w_fs w) ?p") (auto simp: copy_valid_def)
next
  case False
  then show ?thesis using ok by (auto simp: side_checksum_def copy_seen_def copy_valid_def)
qed

lemma check_Inr:
  assumes h: "streaming_hash b3" and ok: "check_file_integrity b3 p f s1 s2 w = (Inr res, v)"
    and roots: "\<And>r. role_state p r = Active \<Longrightarrow> path_is_available (w_fs w) (path_for_role p r)"
  shows "v = w \<and> ic_file_id res = tf_id f \<and>
    (ic_master_checksum res = None \<longleftrightarrow> \<not> copy_seen (w_fs w) p Primary (tf_relative_path f)) \<and>
    (ic_mirror_checksum res = None \<longleftrightarrow> \<not> copy_seen (w_fs w) p Secondary (tf_relative_path f)) \<and>
    ic_master_valid res = copy_valid b3 w p Primary f \<and> ic_mirror_valid res = copy_valid b3 w p Secondary f \<and>
    ic_status res = classify p (ic_master_checksum res) (ic_mirror_checksum res)
      (copy_valid b3 w p Primary f) (copy_valid b3 w p Secondary f)"
proof -
  from ok roots [of Primary] roots [of Secondary] obtain m u s where
    m: "side_checksum b3 (path_is_available (w_fs w) (path_for_role p Primary))
        (side_file p Primary (tf_relative_path f)) s1 w = (Inr m, u)" and
    s: "side_checksum b3 (path_is_available (w_fs w) (path_for_role p Secondary))
        (side_file p Secondary (tf_relative_path f)) s2 u = (Inr s, v)" and
    res: "res = \<lparr>ic_file_id = tf_id f, ic_stored_checksum = tf_checksum f,
       ic_master_checksum = m, ic_mirror_checksum = s, ic_master_valid = (m = Some (tf_checksum f)),
       ic_mirror_valid = (s = Some (tf_checksum f)),
       ic_status = classify p m s (m = Some (tf_checksum f)) (s = Some (tf_checksum f))\<rparr>"
    by (auto simp: check_file_integrity_def Let_def side_file_def split: if_splits)
  note m' = side_checksum_Inr [OF h m]
  with s have "side_checksum b3 (path_is_available (w_fs w) (path_for_role p Secondary))
      (side_file p Secondary (tf_relative_path f)) s2 w = (Inr s, v)" by simp
  from m' side_checksum_Inr [OF h this] show ?thesis unfolding res by simp
qed

subsection \<open>Recovery\<close>

lemma attempt_keeps:
  assumes P: "\<And>k n w. P w \<Longrightarrow> P (fs_put k n w)"
  shows "keeps P (attempt_recovery b3 p f res)"
proof -
  have 1: "keeps P (restore_from_mirror b3 p rel e)" for rel e
    by (rule master_restore.restore_keeps) (rule P)
  have 2: "keeps P (restore_mirror_from_master b3 p rel e)" for rel e
    by (rule mirror_restore.restore_keeps) (rule P)
  show ?thesis
    unfolding attempt_recovery_def
    by (cases "ic_status res") (simp_all only: integrity_status.case keeps_if keeps_seq keeps_return 1 2)
qed

lemma attempt_db [simp]: "w_db (snd (attempt_recovery b3 p f res w)) = w_db w"
  using keepsD [OF attempt_keeps [of "\<lambda>v. w_db v = w_db w"], of w] by simp

lemma attempt_now [simp]: "w_now (snd (attempt_recovery b3 p f res w)) = w_now w"
  using keepsD [OF attempt_keeps [of "\<lambda>v. w_now v = w_now w"], of w] by simp

definition recoverable :: "integrity_status \<Rightarrow> bool" where
  "recoverable s = (s = MasterCorrupted \<or> s = MirrorCorrupted \<or> s = MirrorMissing)"

lemma attempt_idle:
  "is_degraded p \<or> \<not> recoverable (ic_status res) \<Longrightarrow> attempt_recovery b3 p f res w = (Inr False, w)"
  by (cases "ic_status res") (auto simp: attempt_recovery_def recoverable_def)

lemma attempt_acts:
  assumes "\<not> is_degraded p" "recoverable (ic_status res)"
  shows "attempt_recovery b3 p f res w \<noteq> (Inr False, v)"
    "streaming_hash b3 \<Longrightarrow> attempt_recovery b3 p f res w = (Inr True, v) \<Longrightarrow>
      sides_agree b3 p (tf_relative_path f) (tf_checksum f) v"
  using assms
  by (auto simp: attempt_recovery_def recoverable_def
      dest: master_restore.restore_ok mirror_restore.restore_ok)


subsection \<open>Reconciliation\<close>

definition mirrored_file :: "int \<Rightarrow> int \<Rightarrow> tracked_file list \<Rightarrow> tracked_file list" where
  "mirrored_file i now = upd_where (\<lambda>g. tf_id g = i) (\<lambda>g. g\<lparr>tf_is_mirrored := True, tf_updated_at := now\<rparr>)"

definition completed_mirrors :: "int \<Rightarrow> int \<Rightarrow> sync_item list \<Rightarrow> sync_item list" where
  "completed_mirrors i now = upd_where
     (\<lambda>q. sq_tracked_file_id q = i \<and> is_mirror_action (sq_action q) \<and> is_active q) (stamp_status ''completed'' None now)"

definition reconciled_db :: "int \<Rightarrow> int \<Rightarrow> db \<Rightarrow> db" where
  "reconciled_db i now d = d\<lparr>db_files := mirrored_file i now (db_files d),
     db_queue := completed_mirrors i now (db_queue d)\<rparr>"

lemma reconcile_steps:
  "seq_m (update_tracked_file_mirror_status i True) (bind_m (complete_pending_mirror_queue_for_file i) k) w =
   k (count_where (\<lambda>q. sq_tracked_file_id q = i \<and> is_mirror_action (sq_action q) \<and> is_active q) (db_queue (w_db w)))
     (w\<lparr>w_db := reconciled_db i (w_now w) (w_db w)\<rparr>)"
  by (simp add: seq_m_def bind_m_def update_tracked_file_mirror_status_def
      complete_pending_mirror_queue_for_file_def update_queue_counted_def update_queue_def
      reconciled_db_def mirrored_file_def completed_mirrors_def)

lemma tables_seq_discard [simp]: "logs_only m \<Longrightarrow> tables (snd (discard m w)) = tables w"
  by simp

lemma reconciliation_spec:
  assumes r: "attempt_recovery b3 p f res w = (r, v)"
  shows "fst (attempt_recovery_with_reconciliation b3 p f res w) = r \<and>
    tables (snd (attempt_recovery_with_reconciliation b3 p f res w)) =
      (if r = Inr True then (reconciled_db (tf_id f) (w_now w) (w_db w))\<lparr>db_events := [], nx_event := 0\<rparr>
       else tables w) \<and>
    w_fs (snd (attempt_recovery_with_reconciliation b3 p f res w)) = w_fs v"
proof -
  have d: "w_db v = w_db w" "w_now v = w_now w"
    using attempt_db [of b3 p f res w] attempt_now [of b3 p f res w] r by simp_all
  have t: "try_m (attempt_recovery b3 p f res) w = (Inr r, v)" by (simp add: try_m_def r)
  have u: "tables (w\<lparr>w_db := d'\<rparr>) = d'\<lparr>db_events := [], nx_event := 0\<rparr>" for w d'
    by (simp add: tables_def)
  consider (yes) "r = Inr True" | (no) "r = Inr False" | (err) e where "r = Inl e"
    by (cases r) auto
  then show ?thesis
  proof cases
    case yes
    have "attempt_recovery_with_reconciliation b3 p f res w =
        seq_m (discard (log_recovery (tf_id f) (recovery_action_for_status (ic_status res)) True))
       (seq_m (if 0 < count_where (\<lambda>q. sq_tracked_file_id q = tf_id f \<and> is_mirror_action (sq_action q) \<and> is_active q)
                    (db_queue (w_db v))
               then discard (log_sync_completed (tf_id f) ''mirror'' (fmt [dp_primary_path p, ''/'', tf_relative_path f]))
               else return_m ())
       (return_m True)) (v\<lparr>w_db := reconciled_db (tf_id f) (w_now v) (w_db v)\<rparr>)"
      unfolding attempt_recovery_with_reconciliation_def Let_def
      by (simp add: bind_m_def [of "try_m (attempt_recovery b3 p f res)"] t yes reconcile_steps
          del: seq_m_discard)
    then show ?thesis using yes d by (simp add: u)
  next
    case no
    then show ?thesis
      by (simp add: attempt_recovery_with_reconciliation_def Let_def t
          bind_m_def [of "try_m (attempt_recovery b3 p f res)"] tables_db [OF d(1)])
  next
    case err
    then show ?thesis
      by (simp add: attempt_recovery_with_reconciliation_def Let_def t
          bind_m_def [of "try_m (attempt_recovery b3 p f res)"] tables_db [OF d(1)])
  qed
qed

subsection \<open>Properties\<close>

text \<open>The witnesses use two healthy roots with markers; \<open>/a/x\<close> holds \<open>c\<close> and \<open>/b/x\<close> holds \<open>d\<close>.\<close>

definition two_copies :: "bytes \<Rightarrow> bytes \<Rightarrow> world" where
  "two_copies c d = (blank_world empty_db)\<lparr>w_fs := (w_fs (blank_world empty_db))\<lparr>fs_nodes := (\<lambda>k.
     if k \<in> {[''/''], [''/'', ''a''], [''/'', ''b'']} then Some Directory
     else if k = [''/'', ''a'', ''x''] then Some (RegFile c 416)
     else if k = [''/'', ''b'', ''x''] then Some (RegFile d 420)
     else if k \<in> {[''/'', ''a'', drive_root_marker], [''/'', ''b'', drive_root_marker]} then Some (RegFile marker_bytes 420)
     else None)\<rparr>\<rparr>"

definition ab_pair :: drive_pair where
  "ab_pair = \<lparr>dp_id = 1, dp_name = ''p'', dp_primary_path = ''/a'', dp_secondary_path = ''/b'',
     dp_primary_state = ''active'', dp_secondary_state = ''active'', dp_active_role = ''primary'',
     dp_primary_media_type = ''hdd'', dp_secondary_media_type = ''hdd'', dp_created_at = 0, dp_updated_at = 0\<rparr>"

definition x_file :: "string \<Rightarrow> tracked_file" where
  "x_file s = (blank_file 1 1)\<lparr>tf_checksum := s\<rparr>"

lemmas sample_eval = two_copies_def blank_world_def target_def follow.simps path_key_def is_absolute_def
  path_join_def ab_pair_def x_file_def blank_file_def

lemma ab_sel [simp]:
  "role_state ab_pair r = Active" "active_role_enum ab_pair = Primary" "\<not> is_degraded ab_pair"
  "path_for_role ab_pair Primary = ''/a''" "path_for_role ab_pair Secondary = ''/b''"
  by (cases r; simp add: ab_pair_def role_state_def state_from_str_def active_role_enum_def
      role_from_str_def path_for_role_def is_degraded_def)+

lemma two_ready:
  "copy_ready (w_fs (two_copies c d)) ''/a/x'' c 416 [''/'', ''a'', ''x''] ''/b/x'' [''/'', ''b'', ''x'']"
  by (simp add: copy_ready_def sample_eval)

lemma two_restore:
  assumes "streaming_hash b3" "b3 [c] = s"
  shows "restore_mirror_from_master b3 ab_pair ''x'' s (two_copies c d) =
    (Inr (), fs_put [''/'', ''b'', ''x''] (Some (RegFile c 416)) (two_copies c d))"
proof -
  have 1: "require_source ''Primary'' ''/a/x'' (two_copies c d) = (Inr (), two_copies c d)"
    by (simp add: require_source_def path_exists_def metadata_def sample_eval)
  have 2: "create_dir_all [''/'', ''b''] (two_copies c d) = (Inr (), two_copies c d)"
    by (simp add: create_dir_all_def Let_def sample_eval)
  have 3: "ensure_drive_root_marker ''/b'' (two_copies c d) = (Inr (), two_copies c d)"
    by (simp add: ensure_drive_root_marker_def path_is_available_def path_exists_def metadata_def read_dir_ok_def
        drive_root_marker_path_def drive_root_marker_def sample_eval)
  have 4: "copy_and_verify_checksum b3 ''/a/x'' ''/b/x'' s (two_copies c d) =
      (Inr (), fs_put [''/'', ''b'', ''x''] (Some (RegFile c 416)) (two_copies c d))"
    using copy_ready_run [OF assms(1) two_ready, where expected = s] assms(2) by simp
  have p: "path_join ''/a'' ''x'' = ''/a/x''" "path_join ''/b'' ''x'' = ''/b/x''"
    "butlast (path_key ''/b/x'') = [''/'', ''b'']"
    by (simp_all add: path_join_def is_absolute_def path_key_def)
  have q: "dp_primary_path ab_pair = ''/a''" "dp_secondary_path ab_pair = ''/b''" by (simp_all add: ab_pair_def)
  show ?thesis
    by (simp add: restore_mirror_from_master_def Let_def p q 1 2 3 4 del: role_str_eq)
qed


lemma two_seen:
  "copy_seen (w_fs (two_copies c d)) ab_pair r ''x''"
  "readable_bytes (w_fs (two_copies c d)) (side_file ab_pair Primary ''x'') = Some c"
  "readable_bytes (w_fs (two_copies c d)) (side_file ab_pair Secondary ''x'') = Some d"
  "path_is_available (w_fs (two_copies c d)) (path_for_role ab_pair r)"
  by (cases r; simp add: copy_seen_def side_file_def path_is_available_def path_exists_def metadata_def
      read_dir_ok_def readable_bytes_def sample_eval)+


lemma two_check:
  assumes "streaming_hash b3"
  shows "\<exists>res. check_file_integrity b3 ab_pair (x_file s) Streaming Streaming (two_copies c d) = (Inr res, two_copies c d)"
proof -
  have x: "tf_relative_path (x_file s) = ''x''" by (simp add: x_file_def blank_file_def)
  have "\<exists>m. side_checksum b3 True (side_file ab_pair r ''x'') Streaming (two_copies c d) = (Inr m, two_copies c d)" for r
    using checksum_file_eq [OF assms, where w = "two_copies c d" and p = "side_file ab_pair r ''x''" and st = Streaming]
      two_seen [of c d]
    by (cases r) (simp_all add: side_checksum_def bind_m_def copy_seen_def)
  then obtain m1 m2 where
    "side_checksum b3 True (side_file ab_pair Primary ''x'') Streaming (two_copies c d) = (Inr m1, two_copies c d)"
    "side_checksum b3 True (side_file ab_pair Secondary ''x'') Streaming (two_copies c d) = (Inr m2, two_copies c d)"
    by blast
  then show ?thesis
    using two_seen(4) [of c d Primary] two_seen(4) [of c d Secondary]
    by (simp add: check_file_integrity_def Let_def bind_m_def side_file_def x)
qed


text \<open>C13: recovery is sound and touches only what it may. On a degraded pair, and for every status but a
  corrupted master, a corrupted mirror and a missing mirror (so also for a missing master whose mirror
  is intact), it answers false and leaves the world as it was; for those three statuses it never answers
  false, and when it answers true both copies hold the same bytes, and those have the stored checksum.
  It never changes the database.\<close>

theorem recovery_sound:
  assumes "streaming_hash b3" "attempt_recovery b3 p f res w = (r, v)"
  shows "w_db v = w_db w
    \<and> (is_degraded p \<or> \<not> recoverable (ic_status res) \<longrightarrow> r = Inr False \<and> v = w)
    \<and> (\<not> is_degraded p \<and> recoverable (ic_status res) \<longrightarrow> r \<noteq> Inr False)
    \<and> (r = Inr True \<longrightarrow> sides_agree b3 p (tf_relative_path f) (tf_checksum f) v)"
  using attempt_idle [of p res b3 f w] attempt_acts [of p res b3 f w v] assms
    attempt_db [of b3 p f res w] by (cases "is_degraded p \<or> \<not> recoverable (ic_status res)") auto

definition mirror_bad :: integrity_check_result where
  "mirror_bad = \<lparr>ic_file_id = 1, ic_stored_checksum = plain_digest [[65]], ic_master_checksum = None,
     ic_mirror_checksum = None, ic_master_valid = True, ic_mirror_valid = False, ic_status = MirrorCorrupted\<rparr>"

lemma two_attempt:
  "attempt_recovery plain_digest ab_pair (x_file (plain_digest [[65]])) mirror_bad (two_copies [65] [66]) =
     (Inr True, fs_put [''/'', ''b'', ''x''] (Some (RegFile [65] 416)) (two_copies [65] [66]))"
  using two_restore [OF plain_streaming refl, of "[65]" "[66]"]
  by (simp add: attempt_recovery_def mirror_bad_def seq_m_def bind_m_def x_file_def blank_file_def)

theorem recovery_sound_witness:
  "\<exists>v. attempt_recovery plain_digest ab_pair (x_file (plain_digest [[65]])) mirror_bad (two_copies [65] [66]) = (Inr True, v)
     \<and> sides_agree plain_digest ab_pair ''x'' (plain_digest [[65]]) v"
  using recovery_sound [OF plain_streaming two_attempt] two_attempt
  by (simp add: x_file_def blank_file_def)

text \<open>Recovery with reconciliation. Its answer is that of the recovery; after true the file is marked
  as mirrored and exactly its pending or running mirror items are completed, the rest of the tables
  stays; after false or an error no table changes but the event log.\<close>

theorem recovery_reconciles:
  "(let (r, v) = attempt_recovery b3 p f res w; (r', v') = attempt_recovery_with_reconciliation b3 p f res w in
     r' = r \<and> w_fs v' = w_fs v
     \<and> db_files (w_db v') = (if r = Inr True then mirrored_file (tf_id f) (w_now w) (db_files (w_db w)) else db_files (w_db w))
     \<and> db_queue (w_db v') = (if r = Inr True then completed_mirrors (tf_id f) (w_now w) (db_queue (w_db w)) else db_queue (w_db w))
     \<and> db_pairs (w_db v') = db_pairs (w_db w) \<and> db_folders (w_db v') = db_folders (w_db w)
     \<and> db_runs (w_db v') = db_runs (w_db w) \<and> db_results (w_db v') = db_results (w_db w))"
proof (cases "attempt_recovery b3 p f res w")
  case (Pair r v)
  obtain r' v' where r': "attempt_recovery_with_reconciliation b3 p f res w = (r', v')" by fastforce
  from reconciliation_spec [OF Pair] r' have s: "r' = r" "w_fs v' = w_fs v"
    "tables v' = tables (if r = Inr True then w\<lparr>w_db := reconciled_db (tf_id f) (w_now w) (w_db w)\<rparr> else w)"
    by (auto simp: tables_def)
  from tables_eqD [OF s(3)] s(1,2) Pair r' show ?thesis
    by (simp add: reconciled_db_def)
qed

end
