(* ===== verification/Sidecar.thy ===== *)
theory Sidecar
  imports Checksum
begin

section \<open>Checksum sidecars\<close>

text \<open>
  \<open>src/core/sidecar.rs\<close>: the file \<open><name>.b3\<close> beside a tracked file, whose first word is the BLAKE3 hash
  of the file in 64 hexadecimal digits. Text is a list of 8-bit characters, white space is the ASCII
  one, and \<open>read_to_string\<close> refuses bytes that are not UTF-8. \<open>sidecar_text\<close> is the line the queue
  writes when a mismatch is accepted; reading it back gives the checksum.
\<close>

subsection \<open>Names\<close>

text \<open>
  \<open>Path::file_name\<close> is the last component unless that is \<open>..\<close>; \<open>with_file_name\<close> replaces it. The new path
  is rebuilt from the components, so it may differ in redundant slashes, never in the file it names.
\<close>

definition path_comps :: "string \<Rightarrow> string list" where
  "path_comps p = filter (\<lambda>c. c \<noteq> '''' \<and> c \<noteq> ''.'') (split_on (CHR ''/'') p)"

definition path_file_name :: "string \<Rightarrow> string option" where
  "path_file_name p = (let cs = path_comps p in
     if cs = [] \<or> last cs = ''..'' then None else Some (last cs))"

definition path_with_file_name :: "string \<Rightarrow> string \<Rightarrow> string" where
  "path_with_file_name p name = (if is_absolute p then ''/'' else '''') @
     join_with ''/'' ((if path_file_name p = None then path_comps p else butlast (path_comps p)) @ [name])"

definition sidecar_path_for :: "string \<Rightarrow> err + string" where
  "sidecar_path_for p = (case path_file_name p of
       None \<Rightarrow> Inl (Bail ''File path has no terminal filename'')
     | Some name \<Rightarrow> Inr (path_with_file_name p (name @ ''.b3'')))"

subsection \<open>Parsing\<close>

definition is_hex :: "char \<Rightarrow> bool" where
  "is_hex c = (let n = of_char c :: nat in
     (48 \<le> n \<and> n \<le> 57) \<or> (97 \<le> n \<and> n \<le> 102) \<or> (65 \<le> n \<and> n \<le> 70))"

definition normalize_b3_hex :: "string \<Rightarrow> err + string" where
  "normalize_b3_hex candidate = (let lowered = map ascii_lower candidate in
     if length lowered \<noteq> 64
     then Inl (Bail ''Invalid BLAKE3 hash length in sidecar: expected 64 hex chars'')
     else if \<not> list_all is_hex lowered
     then Inl (Bail ''Invalid BLAKE3 hash in sidecar: expected hex characters only'')
     else Inr lowered)"

definition cont :: "nat \<Rightarrow> bool" where
  "cont b = (128 \<le> b \<and> b \<le> 191)"

fun utf8_ok :: "bytes \<Rightarrow> bool" where
  "utf8_ok [] = True"
| "utf8_ok (a # bs) =
     (if a < 128 then utf8_ok bs
      else case bs of [] \<Rightarrow> False | b # cs \<Rightarrow>
        (if 194 \<le> a \<and> a \<le> 223 then cont b \<and> utf8_ok cs
         else case cs of [] \<Rightarrow> False | c # ds \<Rightarrow>
           (if a = 224 then 160 \<le> b \<and> b \<le> 191 \<and> cont c \<and> utf8_ok ds
            else if a = 237 then 128 \<le> b \<and> b \<le> 159 \<and> cont c \<and> utf8_ok ds
            else if 225 \<le> a \<and> a \<le> 239 then cont b \<and> cont c \<and> utf8_ok ds
            else case ds of [] \<Rightarrow> False | d # es \<Rightarrow>
              (if a = 240 then 144 \<le> b \<and> b \<le> 191 \<and> cont c \<and> cont d \<and> utf8_ok es
               else if 241 \<le> a \<and> a \<le> 243 then cont b \<and> cont c \<and> cont d \<and> utf8_ok es
               else a = 244 \<and> 128 \<le> b \<and> b \<le> 143 \<and> cont c \<and> cont d \<and> utf8_ok es))))"

definition parse_sidecar :: "bytes \<Rightarrow> err + string" where
  "parse_sidecar content =
     (if \<not> utf8_ok content then Inl (Io ''Failed to read sidecar'')
      else (case find (\<lambda>l. l \<noteq> []) (map str_trim (split_on (CHR 0x0A) (map char_of content))) of
          None \<Rightarrow> Inl (Bail ''Sidecar is empty'')
        | Some line \<Rightarrow> normalize_b3_hex (case first_word line of None \<Rightarrow> line | Some token \<Rightarrow> token)))"

definition max_sidecar_bytes :: nat where
  "max_sidecar_bytes = 4096"

text \<open>\<open>metadata.len()\<close> of a directory is that of its entry, never above the limit here; reading it fails.\<close>

definition read_b3_sidecar :: "string \<Rightarrow> string option prog" where
  "read_b3_sidecar file_path w = (case sidecar_path_for file_path of
       Inl e \<Rightarrow> (Inl e, w)
     | Inr sp \<Rightarrow>
         (case metadata (w_fs w) sp of
            None \<Rightarrow> (Inr None, w)
          | Some n \<Rightarrow>
              (if max_sidecar_bytes < (case n of RegFile c _ \<Rightarrow> length c | _ \<Rightarrow> 0)
               then bail (fmt [''Sidecar is too large: '', sp]) w
               else (case readable_bytes (w_fs w) sp of
                   None \<Rightarrow> io (fmt [''Failed to read sidecar '', sp]) w
                 | Some content \<Rightarrow> (case parse_sidecar content of Inl e \<Rightarrow> (Inl e, w) | Inr h \<Rightarrow> (Inr (Some h), w))))))"

definition sidecar_text :: "string \<Rightarrow> string \<Rightarrow> string" where
  "sidecar_text checksum name = checksum @ ''  '' @ name @ [CHR 0x0A]"

subsection \<open>Reading changes nothing\<close>

lemma read_sidecar_pure: "pure_m (read_b3_sidecar p)"
  by (simp add: pure_m_def read_b3_sidecar_def io_def cong: branch_cong)

subsection \<open>What was written is read back\<close>

definition b3_hex :: "string \<Rightarrow> bool" where
  "b3_hex h = (length h = 64 \<and> list_all is_hex h \<and> map ascii_lower h = h)"

lemma split_on_head: "c \<notin> set xs \<Longrightarrow> split_on c (xs @ c # ys) = xs # split_on c ys"
  by (induction xs) auto

lemma split_on_plain: "c \<notin> set xs \<Longrightarrow> split_on c xs = [xs]"
  by (induction xs) auto

lemma hex_not_ws: "is_hex c \<Longrightarrow> \<not> is_ascii_ws c"
  by (auto simp: is_hex_def is_ascii_ws_def Let_def)

lemma takeWhile_hex: "list_all is_hex h \<Longrightarrow> is_ascii_ws c \<Longrightarrow> takeWhile (\<lambda>c. \<not> is_ascii_ws c) (h @ c # ys) = h"
  by (induction h) (auto simp: hex_not_ws)

lemma takeWhile_all_hex: "list_all is_hex h \<Longrightarrow> takeWhile (\<lambda>c. \<not> is_ascii_ws c) h = h"
  by (induction h) (auto simp: hex_not_ws)

lemma dropWhile_hex: "list_all is_hex h \<Longrightarrow> h \<noteq> [] \<Longrightarrow> dropWhile is_ascii_ws (h @ ys) = h @ ys"
  by (cases h) (auto simp: hex_not_ws)

lemma trim_starts:
  assumes "list_all is_hex h" "h \<noteq> []"
  shows "\<exists>zs. str_trim (h @ ys) = h @ zs \<and> (zs = [] \<or> (ys \<noteq> [] \<and> hd zs = hd ys))"
proof -
  have d: "dropWhile is_ascii_ws (rev h @ xs) = rev h @ xs" for xs
    using assms by (cases h rule: rev_cases) (auto simp: hex_not_ws)
  obtain zs where zs: "dropWhile is_ascii_ws (rev ys) = rev zs" "\<exists>us. ys = zs @ us"
  proof -
    have "rev ys = takeWhile is_ascii_ws (rev ys) @ dropWhile is_ascii_ws (rev ys)" by simp
    then have "ys = rev (dropWhile is_ascii_ws (rev ys)) @ rev (takeWhile is_ascii_ws (rev ys))"
      by (metis rev_append rev_rev_ident)
    then show ?thesis using that [of "rev (dropWhile is_ascii_ws (rev ys))"] by auto
  qed
  have "dropWhile is_ascii_ws (rev ys @ rev h) = rev zs @ rev h"
  proof (cases "\<exists>x \<in> set (rev ys). \<not> is_ascii_ws x")
    case True
    then show ?thesis using zs(1) by (auto simp: dropWhile_append1)
  next
    case False
    then have "dropWhile is_ascii_ws (rev ys @ rev h) = dropWhile is_ascii_ws (rev h)"
      by (intro dropWhile_append2) auto
    moreover have "zs = []" using False zs(1) by (metis dropWhile_eq_Nil_conv rev_is_Nil_conv)
    ultimately show ?thesis using d [of "[]"] by simp
  qed
  then have "str_trim (h @ ys) = h @ zs"
    by (simp add: str_trim_def dropWhile_hex [OF assms])
  then show ?thesis using zs(2) by (cases zs) auto
qed

lemma parse_sidecar_text:
  assumes h: "b3_hex h" and n: "CHR 0x0A \<notin> set name" and u: "utf8_ok (string_bytes (sidecar_text h name))"
  shows "parse_sidecar (string_bytes (sidecar_text h name)) = Inr h"
proof -
  have hx: "list_all is_hex h" "h \<noteq> []" using h by (auto simp: b3_hex_def)
  have nl: "CHR 0x0A \<notin> set h" using hx(1) by (induction h) (auto simp: is_hex_def Let_def)
  have c: "map char_of (string_bytes s) = s" for s by (induction s) (simp_all add: string_bytes_def)
  have "split_on (CHR 0x0A) ((h @ ''  '' @ name) @ CHR 0x0A # []) = [h @ ''  '' @ name, []]"
    by (subst split_on_head) (use nl n in auto)
  then have lines: "split_on (CHR 0x0A) (sidecar_text h name) = [h @ ''  '' @ name, []]"
    by (simp add: sidecar_text_def)
  obtain zs where zs: "str_trim (h @ ''  '' @ name) = h @ zs" "zs = [] \<or> hd zs = CHR '' ''"
    using trim_starts [OF hx, of "''  '' @ name"] by auto
  have w: "first_word (h @ zs) = Some h"
  proof (cases zs)
    case Nil
    have "dropWhile is_ascii_ws h = h" using dropWhile_hex [OF hx, of "[]"] by simp
    then show ?thesis
      using Nil takeWhile_all_hex [OF hx(1)] hx(2) by (cases h) (simp_all add: first_word_def)
  next
    case (Cons z zs')
    then have "is_ascii_ws z" using zs(2) by (simp add: is_ascii_ws_def)
    then show ?thesis
      using takeWhile_hex [OF hx(1), of z zs'] hx(2) Cons
      by (simp add: first_word_def dropWhile_hex [OF hx] split: list.splits)
  qed
  show ?thesis
    using u w zs(1) hx(2) h
    by (simp add: parse_sidecar_def c lines normalize_b3_hex_def b3_hex_def Let_def)
qed

end
