(* ===== verification/Drive_Correct.thy ===== *)
theory Drive_Correct
  imports Drive
begin

section \<open>The drive operations, proved\<close>

text \<open>
  What the operations of \<open>Drive\<close> do to the stored rows: every runtime update is one \<open>role_row\<close>, the
  calls that follow it (degrading files and queue, links, events) are framed away, and each operation
  is described on every branch. The last section holds the properties: failover, the refinement of the
  state machine, the live active drive, assignment and completion of a rebuild.
\<close>


subsection \<open>The row a call writes\<close>

text \<open>
  All the runtime updates of this component set the state of one role \<open>r\<close>, possibly with a new path
  for that role and a new active role. \<open>role_row\<close> is the row they write.
\<close>

definition role_row ::
    "drive_role \<Rightarrow> drive_state \<Rightarrow> string option \<Rightarrow> drive_role option \<Rightarrow> int \<Rightarrow> drive_pair \<Rightarrow> drive_pair" where
  "role_row r s path act now p = runtime_row
     (if r = Primary then path else None) (if r = Secondary then path else None)
     (if r = Primary then Some (state_str s) else None)
     (if r = Secondary then Some (state_str s) else None)
     (map_option role_str act) now p"

lemma role_row_sel [simp]:
  "dp_id (role_row r s path act now p) = dp_id p"
  "role_state (role_row r s path act now p) = (role_state p)(r := s)"
  "active_role_enum (role_row r s path act now p) = (case act of None \<Rightarrow> active_role_enum p | Some q \<Rightarrow> q)"
  "path_for_role (role_row r s path act now p) x =
     (if x = r then (case path of None \<Rightarrow> path_for_role p r | Some y \<Rightarrow> y) else path_for_role p x)"
proof -
  show "role_state (role_row r s path act now p) = (role_state p)(r := s)"
  proof
    fix x show "role_state (role_row r s path act now p) x = ((role_state p)(r := s)) x"
      by (cases r; cases x) (simp_all add: role_row_def)
  qed
  show "path_for_role (role_row r s path act now p) x =
     (if x = r then (case path of None \<Rightarrow> path_for_role p r | Some y \<Rightarrow> y) else path_for_role p x)"
    by (cases r; cases x) (auto simp: role_row_def split: option.splits)
qed (simp_all add: role_row_def split: option.splits)

definition pair_row :: "int \<Rightarrow> world \<Rightarrow> drive_pair option" where
  "pair_row i w = find (\<lambda>q. dp_id q = i) (db_pairs (w_db w))"

lemma pair_row_id: "pair_row i w = Some p \<Longrightarrow> dp_id p = i"
  by (auto simp: pair_row_def dest: find_SomeD)

lemma get_pair_run [run]: "pair_row i w = Some p \<Longrightarrow> get_drive_pair i w = (Inr p, w)"
  by (simp add: pair_row_def pairs.get_run)

lemma get_pair_Inr: "get_drive_pair i w = (Inr p, v) \<longleftrightarrow> v = w \<and> pair_row i w = Some p"
  by (simp add: pair_row_def pairs.get_Inr)

definition put_role_row ::
    "int \<Rightarrow> drive_role \<Rightarrow> drive_state \<Rightarrow> string option \<Rightarrow> drive_role option \<Rightarrow> world \<Rightarrow> world" where
  "put_role_row i r s path act w =
     put_pairs (upd_where (\<lambda>q. dp_id q = i) (role_row r s path act (w_now w))) w"

lemma pair_row_put:
  "pair_row j (put_role_row i r s path act w) =
     (if j = i then map_option (role_row r s path act (w_now w)) (pair_row i w) else pair_row j w)"
proof -
  have "map_option (\<lambda>q. if dp_id q = i then role_row r s path act (w_now w) q else q) (pair_row j w) =
      (if j = i then map_option (role_row r s path act (w_now w)) (pair_row i w) else pair_row j w)"
    using pair_row_id [of j w] by (cases "pair_row j w") auto
  then show ?thesis
    by (simp add: put_role_row_def pair_row_def find_upd_where)
qed

lemma put_role_row_sel [simp]:
  "db_files (w_db (put_role_row i r s path act w)) = db_files (w_db w)"
  "db_folders (w_db (put_role_row i r s path act w)) = db_folders (w_db w)"
  "db_queue (w_db (put_role_row i r s path act w)) = db_queue (w_db w)"
  "w_fs (put_role_row i r s path act w) = w_fs w"
  "w_now (put_role_row i r s path act w) = w_now w"
  by (simp_all add: put_role_row_def)

lemma set_role_run:
  assumes "pair_row i w = Some p"
  shows "update_drive_pair_runtime i (if r = Primary then path else None) (if r = Secondary then path else None)
     (if r = Primary then Some (state_str s) else None)
     (if r = Secondary then Some (state_str s) else None) (map_option role_str act) w =
     (Inr (role_row r s path act (w_now w) p), put_role_row i r s path act w)"
proof -
  have v: "valid_names (if r = Primary then Some (state_str s) else None)
     (if r = Secondary then Some (state_str s) else None) (map_option role_str act)"
    using role_str_valid by (cases act) (auto simp: valid_names_def simp del: role_str_valid)
  have n: "\<not> ((if r = Primary then path else None) = None \<and> (if r = Secondary then path else None) = None \<and>
      (if r = Primary then Some (state_str s) else None) = None \<and>
      (if r = Secondary then Some (state_str s) else None) = None \<and> map_option role_str act = None)"
    by (cases r) simp_all
  have row: "role_row r s path act (w_now w) = runtime_row (if r = Primary then path else None)
      (if r = Secondary then path else None) (if r = Primary then Some (state_str s) else None)
      (if r = Secondary then Some (state_str s) else None) (map_option role_str act) (w_now w)"
    by (rule ext) (simp add: role_row_def)
  show ?thesis
    unfolding put_role_row_def row
    by (rule runtime_update_run [OF v n]) (use assms in \<open>simp add: pair_row_def\<close>)
qed

lemmas set_role_run_plain = set_role_run [where path = None and act = None, simplified]
lemmas set_role_run_act = set_role_run [where path = None and act = "Some q" for q, simplified]
lemmas set_role_run_path = set_role_run [where path = "Some x" and act = None for x, simplified]

lemma set_role_run_final:
  assumes "pair_row i w = Some p"
  shows "update_drive_pair_runtime i None None
     (if r = Primary then Some (state_str Active) else None)
     (if r = Secondary then Some (state_str Active) else None)
     (if r = Primary then Some (role_str Primary) else None) w =
     (Inr (role_row r Active None (if r = Primary then Some Primary else None) (w_now w) p),
      put_role_row i r Active None (if r = Primary then Some Primary else None) w)"
proof -
  have "(if r = Primary then Some (role_str Primary) else None) =
      map_option role_str (if r = Primary then Some Primary else None)"
    by simp
  with set_role_run [OF assms, of r None Active "if r = Primary then Some Primary else None"]
  show ?thesis by simp
qed

text \<open>The same facts, as steps of a longer computation.\<close>

lemma bind_get_pair [run]: "pair_row i w = Some p \<Longrightarrow> bind_m (get_drive_pair i) k w = k p w"
  by (simp add: bind_m_def get_pair_run)

lemma bind_set_role [run]:
  assumes "pair_row i w = Some p"
  shows "bind_m (update_drive_pair_runtime i None None
       (if r = Primary then Some (state_str s) else None)
       (if r = Secondary then Some (state_str s) else None) None) k w =
     k (role_row r s None None (w_now w) p) (put_role_row i r s None None w)"
    "bind_m (update_drive_pair_runtime i None None
       (if r = Primary then Some (state_str s) else None)
       (if r = Secondary then Some (state_str s) else None) (Some (role_str q))) k w =
     k (role_row r s None (Some q) (w_now w) p) (put_role_row i r s None (Some q) w)"
    "bind_m (update_drive_pair_runtime i
       (if r = Primary then Some x else None) (if r = Secondary then Some x else None)
       (if r = Primary then Some (state_str s) else None)
       (if r = Secondary then Some (state_str s) else None) None) k w =
     k (role_row r s (Some x) None (w_now w) p) (put_role_row i r s (Some x) None w)"
    "bind_m (update_drive_pair_runtime i None None
       (if r = Primary then Some (state_str Active) else None)
       (if r = Secondary then Some (state_str Active) else None)
       (if r = Primary then Some (role_str Primary) else None)) k w =
     k (role_row r Active None (if r = Primary then Some Primary else None) (w_now w) p)
       (put_role_row i r Active None (if r = Primary then Some Primary else None) w)"
  by (simp_all only: bind_m_def set_role_run_plain [OF assms] set_role_run_act [OF assms]
      set_role_run_path [OF assms] set_role_run_final [OF assms] prod.case sum.case)

subsection \<open>What follows the row update\<close>

text \<open>
  The rest of every operation changes files, queue, events and links, never the table of pairs.
\<close>

definition pairs_are :: "drive_pair list \<Rightarrow> world \<Rightarrow> bool" where
  "pairs_are ps w = (db_pairs (w_db w) = ps)"

lemma keeps_pairs_files [keeps]:
  "keeps (pairs_are ps) (update_files P f)"
  "keeps (pairs_are ps) (mark_drive_pair_unmirrored i)"
  "keeps (pairs_are ps) (update_tracked_file_mirror_status i b)"
  "keeps (pairs_are ps) (list_tracked_files o1 o2 o3 n1 n2)"
  by (simp_all add: keeps_def pairs_are_def mark_drive_pair_unmirrored_def update_files_def
      update_tracked_file_mirror_status_def list_tracked_files_def)

lemma keeps_pairs_queue [keeps]:
  "keeps (pairs_are ps) (fail_pending_sync_queue_for_drive_pair i e)"
  "keeps (pairs_are ps) (count_sync_queue_items_for_drive_pair_action i a ss)"
  by (simp_all add: keeps_def pairs_are_def fail_pending_sync_queue_for_drive_pair_def
      update_queue_counted_def update_queue_def count_sync_queue_items_for_drive_pair_action_def)

lemma keeps_pairs_links [keeps]:
  "keeps (pairs_are ps) (refresh_pair_virtual_paths p)"
  unfolding refresh_pair_virtual_paths_def
  by (intro keeps_bind keeps_return) (simp add: keeps_def pairs_are_def)

lemma keeps_pairs_marker [keeps]: "keeps (pairs_are ps) (ensure_drive_root_marker root)"
  by (simp add: keeps_def pairs_are_def)

lemma keeps_pairs_log [keeps]: "logs_only m \<Longrightarrow> keeps (pairs_are ps) m"
  by (simp add: keeps_def pairs_are_def)

lemma keeps_pairs_item [keeps]:
  "keeps (pairs_are ps) (create_sync_queue_item_dedup_with_created i a)"
  unfolding create_sync_queue_item_dedup_with_created_def
  by (rule create_item_dedup_keeps) (simp add: pairs_are_def push_item_def)

lemma keeps_pairs_rebuild [keeps]: "keeps (pairs_are ps) (queue_rebuild action files)"
  unfolding queue_rebuild_def by (intro keeps)

lemma pairs_are_put: "pairs_are (db_pairs (w_db w)) w"
  by (simp add: pairs_are_def)

text \<open>What the calls leave behind in the table of pairs: the row update, and nothing else.\<close>

lemma after_pairs:
  assumes "keeps (pairs_are (db_pairs (w_db w))) m"
  shows "pair_row j (snd (m w)) = pair_row j w"
  using keepsD [OF assms pairs_are_put] by (simp add: pairs_are_def pair_row_def)

datatype drive_call =
    CallLoad
  | CallQuiesce drive_role
  | CallCancel drive_role
  | CallConfirm drive_role
  | CallAssign drive_role string
  | CallFinalize string

fun run_call :: "int \<Rightarrow> drive_call \<Rightarrow> unit prog" where
  "run_call i CallLoad = discard (load_operational_pair i)"
| "run_call i (CallQuiesce r) = discard (mark_drive_quiescing i r)"
| "run_call i (CallCancel r) = discard (cancel_drive_quiescing i r)"
| "run_call i (CallConfirm r) = discard (confirm_drive_failure i r)"
| "run_call i (CallAssign r path) = discard (assign_replacement_drive i r path)"
| "run_call i (CallFinalize action) = discard (maybe_finalize_rebuild_for_action i action)"

lemma quiesce_row:
  assumes "pair_row i w = Some p"
  shows "pair_row i (snd (mark_drive_quiescing i r w)) =
    Some (if role_state p r = Active then role_row r Quiescing None None (w_now w) p else p)"
proof (cases "role_state p r = Active")
  case True
  have "mark_drive_quiescing i r w =
     seq_m (discard (log_drive_quiescing i (role_str r)))
       (return_m (role_row r Quiescing None None (w_now w) p))
       (put_role_row i r Quiescing None None w)"
    using True by (simp add: mark_drive_quiescing_def bind_get_pair [OF assms]
      bind_set_role [OF assms] del: seq_m_discard)
  then show ?thesis using True assms
    by (simp add: after_pairs [OF keeps_pairs_log] pair_row_put)
next
  case False
  then show ?thesis using assms
    by (simp add: mark_drive_quiescing_def bind_get_pair [OF assms])
qed

lemma cancel_row:
  assumes "pair_row i w = Some p"
  shows "pair_row i (snd (cancel_drive_quiescing i r w)) =
    Some (if role_state p r = Quiescing then role_row r Active None None (w_now w) p else p)"
proof (cases "role_state p r = Quiescing")
  case True
  have "cancel_drive_quiescing i r w =
     seq_m (discard (log_drive_quiesce_cancelled i (role_str r)))
       (return_m (role_row r Active None None (w_now w) p))
       (put_role_row i r Active None None w)"
    using True by (simp add: cancel_drive_quiescing_def bind_get_pair [OF assms]
      bind_set_role [OF assms] del: seq_m_discard)
  then show ?thesis using True assms
    by (simp add: after_pairs [OF keeps_pairs_log] pair_row_put)
next
  case False
  then show ?thesis using assms
    by (simp add: cancel_drive_quiescing_def bind_get_pair [OF assms])
qed

subsection \<open>Degrading a pair\<close>

text \<open>
  The two statements that follow every failure: all files of the pair lose their mirrored flag and
  every pending or running queue item of the pair fails.
\<close>

definition unmirror_files :: "int \<Rightarrow> int \<Rightarrow> tracked_file list \<Rightarrow> tracked_file list" where
  "unmirror_files i now = upd_where (\<lambda>f. tf_drive_pair_id f = i)
     (\<lambda>f. f\<lparr>tf_is_mirrored := False, tf_updated_at := now\<rparr>)"

definition fail_items :: "int \<Rightarrow> string \<Rightarrow> int \<Rightarrow> tracked_file list \<Rightarrow> sync_item list \<Rightarrow> sync_item list" where
  "fail_items i msg now fs = upd_where
     (\<lambda>q. is_active q \<and> (\<exists>f \<in> set fs. tf_id f = sq_tracked_file_id q \<and> tf_drive_pair_id f = i))
     (stamp_status ''failed'' (Some msg) now)"

definition degrade :: "int \<Rightarrow> string \<Rightarrow> world \<Rightarrow> world" where
  "degrade i msg w = w\<lparr>w_db := (w_db w)\<lparr>
     db_files := unmirror_files i (w_now w) (db_files (w_db w)),
     db_queue := fail_items i msg (w_now w) (db_files (w_db w)) (db_queue (w_db w))\<rparr>\<rparr>"

lemma unmirror_run: "mark_drive_pair_unmirrored i w =
    (Inr (), w\<lparr>w_db := (w_db w)\<lparr>db_files := unmirror_files i (w_now w) (db_files (w_db w))\<rparr>\<rparr>)"
  by (simp add: mark_drive_pair_unmirrored_def update_files_def unmirror_files_def)

lemma unmirror_files_mem:
  "(\<exists>f \<in> set (unmirror_files i now fs). tf_id f = j \<and> tf_drive_pair_id f = k) \<longleftrightarrow>
   (\<exists>f \<in> set fs. tf_id f = j \<and> tf_drive_pair_id f = k)"
  by (induction fs) (auto simp: unmirror_files_def)

lemma degrade_run:
  "seq_m (mark_drive_pair_unmirrored i)
     (seq_m (discard (fail_pending_sync_queue_for_drive_pair i msg)) k) w = k (degrade i msg w)"
  by (simp add: seq_m_ok [OF unmirror_run] fail_pending_sync_queue_for_drive_pair_def
      update_queue_counted_def update_queue_def fail_items_def file_of_pair_def unmirror_files_mem
      degrade_def)

lemma degrade_sel [simp]:
  "db_pairs (w_db (degrade i msg w)) = db_pairs (w_db w)"
  "db_folders (w_db (degrade i msg w)) = db_folders (w_db w)"
  "db_files (w_db (degrade i msg w)) = unmirror_files i (w_now w) (db_files (w_db w))"
  "db_queue (w_db (degrade i msg w)) =
     fail_items i msg (w_now w) (db_files (w_db w)) (db_queue (w_db w))"
  "pair_row j (degrade i msg w) = pair_row j w"
  by (simp_all add: degrade_def pair_row_def)

lemma tables_pair_row: "tables v = tables w \<Longrightarrow> pair_row i v = pair_row i w"
  using tables_eqD(1) [of v w] by (simp add: pair_row_def)

lemma tables_refresh [simp]: "tables (snd (refresh_pair_virtual_paths p w)) = tables w"
  by (simp add: tables_def refresh_pair_virtual_paths_def bind_m_def split: prod.splits sum.splits)
    (metis refresh_all_db snd_conv)

definition failover_ready :: "fs \<Rightarrow> drive_pair \<Rightarrow> bool" where
  "failover_ready f p \<longleftrightarrow>
     (\<not> path_is_available f (active_path p) \<or> missing_expected_root_marker f p (active_role_enum p)) \<and>
     role_state p Primary = Active \<and> role_state p Secondary = Active \<and>
     path_is_available f (standby_path p)"

definition failover_world :: "int \<Rightarrow> drive_pair \<Rightarrow> world \<Rightarrow> world" where
  "failover_world i p w = degrade i ''drive failover required after fatal root error''
     (put_role_row i (active_role_enum p) Failed None (Some (standby_role p)) w)"

lemma failover_ready_iff: "failover_ready f p \<longleftrightarrow>
     \<not> (path_is_available f (active_path p) \<and> \<not> missing_expected_root_marker f p (active_role_enum p)) \<and>
     role_state p (active_role_enum p) = Active \<and>
     \<not> (role_state p (opposite (active_role_enum p)) \<noteq> Active \<or>
        \<not> path_is_available f (path_for_role p (opposite (active_role_enum p))))"
  by (cases "active_role_enum p") (auto simp: failover_ready_def standby_path_def standby_role_def)

lemma tables_get_pair [simp]: "snd (get_drive_pair i w) = w"
  by (simp add: get_drive_pair_def split: option.splits)

lemma load_not_ready:
  assumes "pair_row i w = Some p" "\<not> failover_ready (w_fs w) p"
  shows "load_operational_pair i w = (Inr p, w)"
  using assms(2)
  unfolding load_operational_pair_def bind_get_pair [OF assms(1)]
  by (auto simp: maybe_emergency_failover_def Let_def failover_ready_iff)

lemma load_ready:
  assumes p: "pair_row i w = Some p" and r: "failover_ready (w_fs w) p"
  shows "fst (load_operational_pair i w) =
      Inr (role_row (active_role_enum p) Failed None (Some (standby_role p)) (w_now w) p)"
    "tables (snd (load_operational_pair i w)) = tables (failover_world i p w)"
proof -
  let ?q = "role_row (active_role_enum p) Failed None (Some (standby_role p)) (w_now w) p"
  have i: "dp_id p = i" using pair_row_id [OF p] .
  have step: "load_operational_pair i w =
      seq_m (discard (refresh_pair_virtual_paths ?q))
     (seq_m (discard (log_drive_failover i (role_str (active_role_enum p)) (role_str (standby_role p))
         (path_for_role p (active_role_enum p))))
     (get_drive_pair i)) (failover_world i p w)"
    using r unfolding load_operational_pair_def bind_get_pair [OF p] failover_ready_iff
    by (simp only: maybe_emergency_failover_def Let_def if_False simp_thms
        i bind_set_role [OF p] degrade_run failover_world_def standby_role_def)
  have "pair_row i (failover_world i p w) = Some ?q"
    by (simp add: failover_world_def pair_row_put p)
  then show "fst (load_operational_pair i w) = Inr ?q"
    unfolding step by (simp add: get_pair_run tables_pair_row [OF tables_log] tables_pair_row [OF tables_refresh])
  show "tables (snd (load_operational_pair i w)) = tables (failover_world i p w)"
    unfolding step by simp
qed

lemma load_row:
  assumes "pair_row i w = Some p"
  shows "pair_row i (snd (load_operational_pair i w)) = Some (if failover_ready (w_fs w) p
    then role_row (active_role_enum p) Failed None (Some (standby_role p)) (w_now w) p else p)"
  using load_not_ready [OF assms] tables_pair_row [OF load_ready(2) [OF assms]] assms
  by (simp add: failover_world_def pair_row_put)

definition confirm_blocked :: "fs \<Rightarrow> drive_pair \<Rightarrow> drive_role \<Rightarrow> bool" where
  "confirm_blocked f p r \<longleftrightarrow> r = active_role_enum p \<and> \<not> path_is_available f (path_for_role p (opposite r))"

definition next_active :: "drive_pair \<Rightarrow> drive_role \<Rightarrow> drive_role" where
  "next_active p r = (if active_role_enum p = r then opposite r else active_role_enum p)"

definition confirm_world :: "int \<Rightarrow> drive_role \<Rightarrow> drive_pair \<Rightarrow> world \<Rightarrow> world" where
  "confirm_world i r p w = degrade i ''drive replacement confirmed; rebuild required''
     (put_role_row i r Failed None (Some (next_active p r)) w)"

lemma confirm_refused:
  assumes "pair_row i w = Some p" "role_state p r \<noteq> Quiescing \<or> confirm_blocked (w_fs w) p r"
  shows "\<exists>msg. confirm_drive_failure i r w = (Inl (Bail msg), w)"
  using assms(2) unfolding confirm_drive_failure_def bind_get_pair [OF assms(1)]
  by (auto simp: Let_def confirm_blocked_def)

lemma confirm_step:
  assumes p: "pair_row i w = Some p" and r: "role_state p r = Quiescing \<and> \<not> confirm_blocked (w_fs w) p r"
  shows "confirm_drive_failure i r w =
      seq_m (discard (refresh_pair_virtual_paths (role_row r Failed None (Some (next_active p r)) (w_now w) p)))
     (seq_m (discard (log_drive_failure_confirmed i (role_str r)
        (dp_active_role (role_row r Failed None (Some (next_active p r)) (w_now w) p))
        (path_for_role (role_row r Failed None (Some (next_active p r)) (w_now w) p) r)))
     (return_m (role_row r Failed None (Some (next_active p r)) (w_now w) p))) (confirm_world i r p w)"
  using r unfolding confirm_drive_failure_def bind_get_pair [OF p]
  by (simp add: Let_def confirm_blocked_def bind_set_role [OF p] degrade_run confirm_world_def
      next_active_def del: seq_m_discard) auto

lemma confirm_ok:
  assumes p: "pair_row i w = Some p" and r: "role_state p r = Quiescing" "\<not> confirm_blocked (w_fs w) p r"
  shows "fst (confirm_drive_failure i r w) =
      Inr (role_row r Failed None (Some (next_active p r)) (w_now w) p)"
    "tables (snd (confirm_drive_failure i r w)) = tables (confirm_world i r p w)"
  using r by (simp_all add: confirm_step [OF p])

lemma confirm_row:
  assumes "pair_row i w = Some p"
  shows "pair_row i (snd (confirm_drive_failure i r w)) = Some
    (if role_state p r = Quiescing \<and> \<not> confirm_blocked (w_fs w) p r
     then role_row r Failed None (Some (next_active p r)) (w_now w) p else p)"
  using confirm_refused [OF assms, of r] tables_pair_row [OF confirm_ok(2) [OF assms, of r]] assms
  by (auto simp: confirm_world_def pair_row_put)


subsection \<open>Queueing a rebuild\<close>

definition enqueue_new :: "string \<Rightarrow> int \<Rightarrow> int \<Rightarrow> db \<Rightarrow> db" where
  "enqueue_new action now file_id d =
     (if find (dup_item file_id action None) (db_queue d) \<noteq> None then d
      else push_item (new_item (nx_queue d) file_id action None None now) d)"

lemma push_item_sel [simp]:
  "db_queue (push_item q d) = db_queue d @ [q]" "nx_queue (push_item q d) = nx_queue d + 1"
  "db_files (push_item q d) = db_files d" "db_pairs (push_item q d) = db_pairs d"
  "db_folders (push_item q d) = db_folders d" "db_sync_settings (push_item q d) = db_sync_settings d"
  by (simp_all add: push_item_def)

lemma enqueue_new_sel [simp]:
  "db_files (enqueue_new a now i d) = db_files d" "db_pairs (enqueue_new a now i d) = db_pairs d"
  "db_folders (enqueue_new a now i d) = db_folders d"
  by (simp_all add: enqueue_new_def)

lemma dedup_created_run:
  assumes a: "action \<in> set action_names" and f: "has_file i (w_db w)"
  shows "\<exists>q. create_sync_queue_item_dedup_with_created i action w =
    (Inr (q, find (dup_item i action None) (db_queue (w_db w)) = None),
     w\<lparr>w_db := enqueue_new action (w_now w) i (w_db w)\<rparr>)"
proof (cases "find (dup_item i action None) (db_queue (w_db w))")
  case None
  obtain q where "find (\<lambda>r. sq_id r = nx_queue (w_db w))
      (db_queue (w_db w) @ [new_item (nx_queue (w_db w)) i action None None (w_now w)]) = Some q"
    by (cases "find (\<lambda>r. sq_id r = nx_queue (w_db w)) (db_queue (w_db w))")
      (auto simp: find_append new_item_def)
  with None a f show ?thesis
    by (simp add: create_sync_queue_item_dedup_with_created_def enqueue_new_def
        create_sync_queue_item_dedup_with_reason_and_error_with_created_def
        create_sync_queue_item_with_reason_and_error_def Let_def bind_m_def queue.get_run)
next
  case (Some q)
  then have "q \<in> set (db_queue (w_db w))" by (auto dest: find_SomeD)
  then obtain q' where "get_sync_queue_item (sq_id q) w = (Inr q', w)"
    using queue.get_found by blast
  with Some show ?thesis
    by (simp add: create_sync_queue_item_dedup_with_created_def enqueue_new_def
        create_sync_queue_item_dedup_with_reason_and_error_with_created_def bind_m_def)
qed

fun enqueue_all :: "string \<Rightarrow> int \<Rightarrow> tracked_file list \<Rightarrow> db \<Rightarrow> db" where
  "enqueue_all action now [] d = d"
| "enqueue_all action now (f # fs) d = enqueue_all action now fs (enqueue_new action now (tf_id f) d)"

lemma enqueue_all_sel [simp]:
  "db_files (enqueue_all a now fs d) = db_files d" "db_pairs (enqueue_all a now fs d) = db_pairs d"
  "db_folders (enqueue_all a now fs d) = db_folders d"
  by (induction fs arbitrary: d) simp_all

lemma enqueue_all_grows:
  "\<exists>new. db_queue (enqueue_all action now fs d) = db_queue d @ new \<and>
     (\<forall>q \<in> set new. sq_action q = action \<and> sq_status q = ''pending'' \<and>
        sq_tracked_file_id q \<in> tf_id ` set fs)"
proof (induction fs arbitrary: d)
  case (Cons f fs)
  obtain new where new: "db_queue (enqueue_all action now fs (enqueue_new action now (tf_id f) d)) =
       db_queue (enqueue_new action now (tf_id f) d) @ new"
    "\<forall>q \<in> set new. sq_action q = action \<and> sq_status q = ''pending'' \<and> sq_tracked_file_id q \<in> tf_id ` set fs"
    using Cons.IH [of "enqueue_new action now (tf_id f) d"] by blast
  show ?case
  proof (cases "find (dup_item (tf_id f) action None) (db_queue d) = None")
    case True
    have "db_queue (enqueue_all action now (f # fs) d) =
        db_queue d @ (new_item (nx_queue d) (tf_id f) action None None now # new)"
      using new(1) True by (simp add: enqueue_new_def)
    with new(2) show ?thesis by (auto simp: new_item_def)
  next
    case False
    with new show ?thesis by (auto simp: enqueue_new_def)
  qed
qed simp

lemma enqueue_new_covers: "\<exists>q \<in> set (db_queue (enqueue_new action now i d)). dup_item i action None q"
proof (cases "find (dup_item i action None) (db_queue d)")
  case None
  then show ?thesis by (simp add: enqueue_new_def dup_item_def new_item_def is_active_def)
next
  case (Some q)
  then show ?thesis by (auto simp: enqueue_new_def dest: find_SomeD)
qed

lemma enqueue_all_covers:
  "f \<in> set fs \<Longrightarrow> \<exists>q \<in> set (db_queue (enqueue_all action now fs d)). dup_item (tf_id f) action None q"
proof (induction fs arbitrary: d)
  case (Cons g fs)
  show ?case
  proof (cases "f = g")
    case True
    obtain new where "db_queue (enqueue_all action now fs (enqueue_new action now (tf_id g) d)) =
        db_queue (enqueue_new action now (tf_id g) d) @ new"
      using enqueue_all_grows by blast
    with enqueue_new_covers [of action now "tf_id g" d] True show ?thesis by auto
  next
    case False
    with Cons show ?thesis by simp
  qed
qed simp

lemma enqueue_new_count:
  "length (db_queue (enqueue_new a now i d)) =
     length (db_queue d) + (if find (dup_item i a None) (db_queue d) = None then 1 else 0)"
  by (simp add: enqueue_new_def)

lemma queue_rebuild_run:
  assumes "action \<in> set action_names" "\<forall>f \<in> set fs. has_file (tf_id f) (w_db w)"
  shows "queue_rebuild action fs w =
    (Inr (length (db_queue (enqueue_all action (w_now w) fs (w_db w))) - length (db_queue (w_db w))),
     w\<lparr>w_db := enqueue_all action (w_now w) fs (w_db w)\<rparr>)"
  using assms(2)
proof (induction fs arbitrary: w)
  case Nil
  then show ?case by (simp add: queue_rebuild_def)
next
  case (Cons f fs)
  let ?v = "w\<lparr>w_db := enqueue_new action (w_now w) (tf_id f) (w_db w)\<rparr>"
  let ?n = "find (dup_item (tf_id f) action None) (db_queue (w_db w)) = None"
  obtain q where q: "create_sync_queue_item_dedup_with_created (tf_id f) action w = (Inr (q, ?n), ?v)"
    using dedup_created_run [OF assms(1), of "tf_id f" w] Cons.prems by auto
  have ih: "queue_rebuild action fs ?v =
      (Inr (length (db_queue (enqueue_all action (w_now w) fs (w_db ?v))) - length (db_queue (w_db ?v))),
       ?v\<lparr>w_db := enqueue_all action (w_now w) fs (w_db ?v)\<rparr>)"
    using Cons.IH [of ?v] Cons.prems by (simp add: has_file_def)
  obtain new where new: "db_queue (enqueue_all action (w_now w) fs (w_db ?v)) = db_queue (w_db ?v) @ new"
    using enqueue_all_grows by blast
  have "queue_rebuild action (f # fs) w =
      bind_m (queue_rebuild action fs) (\<lambda>n. return_m (if ?n then Suc n else n)) ?v"
    by (simp add: queue_rebuild_def bind_m_def q)
  then show ?case
    using ih new enqueue_new_count [of action "w_now w" "tf_id f" "w_db w"] by (simp add: bind_m_def)
qed


subsection \<open>Assigning a replacement and finishing a rebuild\<close>

definition pair_files :: "int \<Rightarrow> tracked_file list \<Rightarrow> tracked_file list" where
  "pair_files i fs = filter (\<lambda>f. tf_drive_pair_id f = i) fs"

lemma bind_list_pair_files:
  "bind_m (list_tracked_files (Some i) None None 1 i64_max) k w =
   k (pair_files i (db_files (w_db w)), int (length (pair_files i (db_files (w_db w))))) w"
  by (simp add: list_tracked_files_def pair_files_def Let_def)

lemma rebuild_action_known [simp]: "rebuild_action_for_role r \<in> set action_names"
  by (cases r) (simp_all add: rebuild_action_for_role_def action_names_def)

lemma rebuilt_role_iff: "rebuilt_role action = Some r \<longleftrightarrow> action = rebuild_action_for_role r"
  by (cases r) (auto simp: rebuilt_role_def rebuild_action_for_role_def)

definition assign_db :: "int \<Rightarrow> drive_role \<Rightarrow> string \<Rightarrow> world \<Rightarrow> db" where
  "assign_db i r path w = enqueue_all (rebuild_action_for_role r) (w_now w)
     (pair_files i (db_files (w_db w))) (w_db (put_role_row i r Rebuilding (Some path) None w))"

lemma assign_refused:
  assumes "pair_row i w = Some p" "role_state p r \<noteq> Failed"
  shows "\<exists>msg. assign_replacement_drive i r path w = (Inl (Bail msg), w)"
  using assms(2) unfolding assign_replacement_drive_def bind_get_pair [OF assms(1)] by auto

lemma assign_no_marker:
  assumes "pair_row i w = Some p" "role_state p r = Failed" "ensure_drive_root_marker path w = (Inl e, v)"
  shows "assign_replacement_drive i r path w = (Inl e, v)"
  using assms(2) unfolding assign_replacement_drive_def bind_get_pair [OF assms(1)]
  by (simp add: seq_m_def bind_m_def assms(3))

lemma assign_ok:
  assumes p: "pair_row i w = Some p" and r: "role_state p r = Failed"
    and m: "ensure_drive_root_marker path w = (Inr u, v)"
  shows "fst (assign_replacement_drive i r path w) =
      Inr (role_row r Rebuilding (Some path) None (w_now w) p,
           length (db_queue (assign_db i r path w)) - length (db_queue (w_db w)))"
    "tables (snd (assign_replacement_drive i r path w)) = tables (w\<lparr>w_db := assign_db i r path w\<rparr>)"
proof -
  let ?q = "role_row r Rebuilding (Some path) None (w_now w) p"
  let ?a = "rebuild_action_for_role r"
  let ?u = "put_role_row i r Rebuilding (Some path) None v"
  let ?fs = "pair_files i (db_files (w_db w))"
  have v: "w_db v = w_db w" "w_now v = w_now w"
    using ensure_marker_db [of path w] ensure_marker_now [of path w] m by simp_all
  have marker: "seq_m (ensure_drive_root_marker path) k w = k v" for k :: "(drive_pair \<times> nat) prog"
    by (simp add: seq_m_def bind_m_def m)
  have pv: "pair_row i v = Some p" using p v by (simp add: pair_row_def)
  have u: "w_db ?u = w_db (put_role_row i r Rebuilding (Some path) None w)"
    using v by (simp add: put_role_row_def put_pairs_def)
  have fs: "\<forall>f \<in> set ?fs. has_file (tf_id f) (w_db ?u)"
    by (auto simp: has_file_def pair_files_def v)
  have q: "queue_rebuild ?a ?fs ?u =
      (Inr (length (db_queue (assign_db i r path w)) - length (db_queue (w_db w))),
       ?u\<lparr>w_db := assign_db i r path w\<rparr>)"
    using queue_rebuild_run [OF rebuild_action_known [of r] fs] v
    by (simp add: u assign_db_def)
  have qq: "bind_m (queue_rebuild ?a ?fs) k ?u =
      k (length (db_queue (assign_db i r path w)) - length (db_queue (w_db w)))
        (?u\<lparr>w_db := assign_db i r path w\<rparr>)" for k :: "nat \<Rightarrow> (drive_pair \<times> nat) prog"
    by (simp add: bind_m_def q)
  have step: "assign_replacement_drive i r path w =
      seq_m (discard (log_drive_replacement_assigned i (role_str r) path
          (length (db_queue (assign_db i r path w)) - length (db_queue (w_db w)))))
        (return_m (?q, length (db_queue (assign_db i r path w)) - length (db_queue (w_db w))))
        (?u\<lparr>w_db := assign_db i r path w\<rparr>)"
    using r unfolding assign_replacement_drive_def bind_get_pair [OF p]
    by (simp add: marker bind_set_role [OF pv] bind_list_pair_files v(2) v(1) qq [unfolded v(2)]
        del: seq_m_discard)
  show "fst (assign_replacement_drive i r path w) =
      Inr (?q, length (db_queue (assign_db i r path w)) - length (db_queue (w_db w)))"
    "tables (snd (assign_replacement_drive i r path w)) = tables (w\<lparr>w_db := assign_db i r path w\<rparr>)"
    unfolding step by (simp_all add: tables_def [of "w_db_update f v" for f v])
qed

lemma assign_row:
  assumes "pair_row i w = Some p"
  shows "pair_row i (snd (assign_replacement_drive i r path w)) \<in>
    {Some p} \<union> (if role_state p r = Failed
                 then {Some (role_row r Rebuilding (Some path) None (w_now w) p)} else {})"
proof (cases "role_state p r = Failed")
  case True
  show ?thesis
  proof (cases "ensure_drive_root_marker path w")
    case (Pair res v)
    show ?thesis
    proof (cases res)
      case (Inl e)
      have "w_db v = w_db w" using ensure_marker_db [of path w] Pair by simp
      then show ?thesis
        using assign_no_marker [OF assms True] Pair Inl assms by (simp add: pair_row_def)
    next
      case (Inr u)
      have "pair_row i (w\<lparr>w_db := assign_db i r path w\<rparr>) =
          pair_row i (put_role_row i r Rebuilding (Some path) None w)"
        by (simp add: pair_row_def assign_db_def)
      then show ?thesis
        using tables_pair_row [OF assign_ok(2) [OF assms True]] Pair Inr True
        by (simp add: pair_row_put assms)
    qed
  qed
next
  case False
  then show ?thesis using assign_refused [OF assms False, of path] assms by auto
qed

text \<open>The end of a rebuild.\<close>

definition rebuild_remaining :: "int \<Rightarrow> string \<Rightarrow> world \<Rightarrow> bool" where
  "rebuild_remaining i action w = (\<exists>q \<in> set (db_queue (w_db w)). sq_action q = action \<and>
     file_of_pair (w_db w) i (sq_tracked_file_id q) \<and>
     sq_status q \<in> {''pending'', ''in_progress'', ''failed''})"

lemma bind_remaining:
  "bind_m (count_sync_queue_items_for_drive_pair_action i action [''pending'', ''in_progress'', ''failed''])
     (\<lambda>n. if n > 0 then a else b) w = (if rebuild_remaining i action w then a w else b w)"
  by (auto simp: count_sync_queue_items_for_drive_pair_action_def count_where_pos rebuild_remaining_def)

definition finalized_row :: "drive_role \<Rightarrow> int \<Rightarrow> drive_pair \<Rightarrow> drive_pair" where
  "finalized_row r now p = role_row r Active None (if r = Primary then Some Primary else None) now p"

definition mirror_listed :: "int \<Rightarrow> tracked_file list \<Rightarrow> tracked_file list \<Rightarrow> tracked_file list" where
  "mirror_listed now listed = upd_where (\<lambda>g. tf_id g \<in> tf_id ` set listed)
     (\<lambda>g. g\<lparr>tf_is_mirrored := True, tf_updated_at := now\<rparr>)"

lemma mirror_listed_Cons:
  "mirror_listed now fs (upd_where (\<lambda>g. tf_id g = tf_id f)
      (\<lambda>g. g\<lparr>tf_is_mirrored := True, tf_updated_at := now\<rparr>) gs) = mirror_listed now (f # fs) gs"
  by (induction gs) (auto simp: mirror_listed_def)

lemma mirror_all_run:
  "for_m fs (\<lambda>f. update_tracked_file_mirror_status (tf_id f) True) w =
   (Inr (), w\<lparr>w_db := (w_db w)\<lparr>db_files := mirror_listed (w_now w) fs (db_files (w_db w))\<rparr>\<rparr>)"
proof (induction fs arbitrary: w)
  case Nil
  have "mirror_listed now [] gs = gs" for now gs
    by (induction gs) (simp_all add: mirror_listed_def)
  then show ?case by simp
next
  case (Cons f fs)
  then show ?case
    by (simp add: seq_m_def bind_m_def update_tracked_file_mirror_status_def mirror_listed_Cons)
qed

lemma seq_mirror_all:
  "seq_m (bind_m (list_tracked_files (Some i) None None 1 i64_max) (\<lambda>(files, _).
      for_m files (\<lambda>f. update_tracked_file_mirror_status (tf_id f) True))) k w =
   k (w\<lparr>w_db := (w_db w)\<lparr>db_files :=
     mirror_listed (w_now w) (pair_files i (db_files (w_db w))) (db_files (w_db w))\<rparr>\<rparr>)"
  by (simp add: seq_m_def bind_m_assoc bind_list_pair_files) (simp add: bind_m_def mirror_all_run)

definition finalized_files :: "int \<Rightarrow> int \<Rightarrow> bool \<Rightarrow> tracked_file list \<Rightarrow> tracked_file list" where
  "finalized_files i now both fs =
     (let un = unmirror_files i now fs in if both then mirror_listed now (pair_files i un) un else un)"

definition finalize_world :: "int \<Rightarrow> drive_role \<Rightarrow> drive_pair \<Rightarrow> world \<Rightarrow> world" where
  "finalize_world i r p w =
     (let v = put_role_row i r Active None (if r = Primary then Some Primary else None) w in
      v\<lparr>w_db := (w_db v)\<lparr>db_files := finalized_files i (w_now w)
         (role_state p (opposite r) = Active) (db_files (w_db w))\<rparr>\<rparr>)"

lemma finalize_idle:
  assumes "pair_row i w = Some p"
    and "\<not> (\<exists>r. rebuilt_role action = Some r \<and> role_state p r = Rebuilding \<and> \<not> rebuild_remaining i action w)"
  shows "maybe_finalize_rebuild_for_action i action w = (Inr None, w)"
  using assms(2) unfolding maybe_finalize_rebuild_for_action_def bind_get_pair [OF assms(1)]
  by (auto simp: bind_remaining split: option.splits)

lemma finalize_ok:
  assumes p: "pair_row i w = Some p" and r: "rebuilt_role action = Some r" "role_state p r = Rebuilding"
    and n: "\<not> rebuild_remaining i action w"
  shows "fst (maybe_finalize_rebuild_for_action i action w) = Inr (Some (finalized_row r (w_now w) p))"
    "tables (snd (maybe_finalize_rebuild_for_action i action w)) = tables (finalize_world i r p w)"
proof -
  let ?q = "finalized_row r (w_now w) p"
  have both: "(role_state ?q Primary = Active \<and> role_state ?q Secondary = Active) =
      (role_state p (opposite r) = Active)"
    by (cases r) (simp_all add: finalized_row_def)
  have step: "maybe_finalize_rebuild_for_action i action w =
     seq_m (discard (refresh_pair_virtual_paths ?q))
    (seq_m (discard (log_drive_rebuild_completed i (role_str r) (dp_active_role ?q)))
    (return_m (Some ?q))) (finalize_world i r p w)"
    using r n unfolding maybe_finalize_rebuild_for_action_def bind_get_pair [OF p]
    by (simp add: bind_remaining bind_set_role [OF p] finalized_row_def [symmetric] both
        seq_m_ok [OF unmirror_run] seq_mirror_all
        finalize_world_def finalized_files_def Let_def del: seq_m_discard)
  show "fst (maybe_finalize_rebuild_for_action i action w) = Inr (Some ?q)"
    "tables (snd (maybe_finalize_rebuild_for_action i action w)) = tables (finalize_world i r p w)"
    unfolding step by simp_all
qed

lemma finalize_row:
  assumes "pair_row i w = Some p"
  shows "pair_row i (snd (maybe_finalize_rebuild_for_action i action w)) \<in>
    {Some p} \<union> {Some (finalized_row r (w_now w) p) |r. role_state p r = Rebuilding}"
proof (cases "\<exists>r. rebuilt_role action = Some r \<and> role_state p r = Rebuilding \<and> \<not> rebuild_remaining i action w")
  case True
  then obtain r where r: "rebuilt_role action = Some r" "role_state p r = Rebuilding"
    "\<not> rebuild_remaining i action w" by blast
  have "pair_row i (finalize_world i r p w) =
      pair_row i (put_role_row i r Active None (if r = Primary then Some Primary else None) w)"
    by (simp add: finalize_world_def Let_def pair_row_def)
  then show ?thesis
    using tables_pair_row [OF finalize_ok(2) [OF assms r]] r assms
    by (auto simp: pair_row_put finalized_row_def)
next
  case False
  then show ?thesis using finalize_idle [OF assms] assms by simp
qed


subsection \<open>Refinement of the state machine\<close>

fun call_event :: "drive_role \<Rightarrow> drive_call \<Rightarrow> pair_event" where
  "call_event _ CallLoad = Emergency"
| "call_event _ (CallQuiesce r) = Quiesce r"
| "call_event _ (CallCancel r) = Cancel r"
| "call_event _ (CallConfirm r) = Confirm r"
| "call_event _ (CallAssign r _) = Assign r"
| "call_event r (CallFinalize action) = Rebuilt r"

lemma abs_role_row [simp]:
  "abs_pair (role_row r s path act now p) = (abs_pair p)\<lparr>pa_state := (pa_state (abs_pair p))(r := s),
     pa_active := (case act of None \<Rightarrow> pa_active (abs_pair p) | Some q \<Rightarrow> q)\<rparr>"
  by (simp add: abs_pair_def split: option.splits)

lemma abs_pair_sel [simp]: "pa_state (abs_pair p) = role_state p" "pa_active (abs_pair p) = active_role_enum p"
  by (simp_all add: abs_pair_def)

lemma ready_states: "failover_ready f p \<Longrightarrow> role_state p r = Active"
  by (cases r) (simp_all add: failover_ready_def)

lemma run_call_row:
  assumes "pair_row i w = Some p"
  shows "\<exists>q. pair_row i (snd (run_call i c w)) = Some q \<and>
     (abs_pair q = abs_pair p \<or> (\<exists>r. pair_step (abs_pair p) (call_event r c) (abs_pair q)))"
proof (cases c)
  case CallLoad
  then show ?thesis using load_row [OF assms]
    by (cases "failover_ready (w_fs w) p") (auto simp: standby_role_def ready_states)
next
  case (CallQuiesce r)
  then show ?thesis using quiesce_row [OF assms, of r] by auto
next
  case (CallCancel r)
  then show ?thesis using cancel_row [OF assms, of r] by auto
next
  case (CallConfirm r)
  then show ?thesis using confirm_row [OF assms, of r] by (auto simp: next_active_def)
next
  case (CallAssign r path)
  then show ?thesis using assign_row [OF assms, of r path] by (auto split: if_splits)
next
  case (CallFinalize action)
  then show ?thesis using finalize_row [OF assms, of action] by (auto simp: finalized_row_def)
qed

lemma run_call_missing:
  assumes "pair_row i w = None"
  shows "run_call i c w = (Inr (), w)"
proof -
  have "get_drive_pair i w = (Inl QueryReturnedNoRows, w)"
    using assms by (simp add: pair_row_def get_drive_pair_def)
  then show ?thesis
    by (cases c) (simp_all add: load_operational_pair_def mark_drive_quiescing_def
        cancel_drive_quiescing_def confirm_drive_failure_def assign_replacement_drive_def
        maybe_finalize_rebuild_for_action_def bind_m_def)
qed

definition run_calls :: "(int \<times> drive_call) list \<Rightarrow> world \<Rightarrow> world" where
  "run_calls cs w = foldl (\<lambda>v (i, c). snd (run_call i c v)) w cs"


lemma run_call_other:
  assumes "j \<noteq> i"
  shows "pair_row j (snd (run_call i c w)) = pair_row j w"
proof (cases "pair_row i w")
  case None
  then show ?thesis by (simp add: run_call_missing)
next
  case (Some p)
  note put = pair_row_put [of j i, simplified assms if_False]
  show ?thesis
  proof (cases c)
    case CallLoad
    then show ?thesis
      using load_not_ready [OF Some] tables_pair_row [OF load_ready(2) [OF Some], of j]
      by (cases "failover_ready (w_fs w) p") (simp_all add: failover_world_def put)
  next
    case (CallQuiesce r)
    show ?thesis
    proof (cases "role_state p r = Active")
      case True
      then show ?thesis using CallQuiesce
        by (simp add: mark_drive_quiescing_def bind_get_pair [OF Some] bind_set_role [OF Some]
            after_pairs [OF keeps_pairs_log] put)
    qed (simp add: CallQuiesce mark_drive_quiescing_def bind_get_pair [OF Some])
  next
    case (CallCancel r)
    show ?thesis
    proof (cases "role_state p r = Quiescing")
      case True
      then show ?thesis using CallCancel
        by (simp add: cancel_drive_quiescing_def bind_get_pair [OF Some] bind_set_role [OF Some]
            after_pairs [OF keeps_pairs_log] put)
    qed (simp add: CallCancel cancel_drive_quiescing_def bind_get_pair [OF Some])
  next
    case (CallConfirm r)
    show ?thesis
    proof (cases "role_state p r = Quiescing \<and> \<not> confirm_blocked (w_fs w) p r")
      case True
      then show ?thesis using CallConfirm tables_pair_row [OF confirm_ok(2) [OF Some], of r j]
        by (simp add: confirm_world_def put)
    next
      case False
      then show ?thesis using CallConfirm confirm_refused [OF Some, of r] by auto
    qed
  next
    case (CallAssign r path)
    show ?thesis
    proof (cases "role_state p r = Failed")
      case True
      obtain res v where m: "ensure_drive_root_marker path w = (res, v)" by fastforce
      then have v: "w_db v = w_db w" using ensure_marker_db [of path w] by simp
      have "pair_row j (w\<lparr>w_db := assign_db i r path w\<rparr>) =
          pair_row j (put_role_row i r Rebuilding (Some path) None w)"
        by (simp add: pair_row_def assign_db_def)
      then show ?thesis
        using CallAssign assign_no_marker [OF Some True] m v
          tables_pair_row [OF assign_ok(2) [OF Some True], of path _ _ j]
        by (cases res) (auto simp: put, simp add: pair_row_def)
    next
      case False
      then show ?thesis using CallAssign assign_refused [OF Some, of r path] by auto
    qed
  next
    case (CallFinalize action)
    show ?thesis
    proof (cases "\<exists>r. rebuilt_role action = Some r \<and> role_state p r = Rebuilding \<and> \<not> rebuild_remaining i action w")
      case True
      then obtain r where r: "rebuilt_role action = Some r" "role_state p r = Rebuilding"
        "\<not> rebuild_remaining i action w" by blast
      have "pair_row j (finalize_world i r p w) =
          pair_row j (put_role_row i r Active None (if r = Primary then Some Primary else None) w)"
        by (simp add: finalize_world_def Let_def pair_row_def)
      then show ?thesis
        using CallFinalize tables_pair_row [OF finalize_ok(2) [OF Some r], of j] by (simp add: put)
    next
      case False
      then show ?thesis using CallFinalize finalize_idle [OF Some, of action] by simp
    qed
  qed
qed

fun careful_call :: "int \<Rightarrow> drive_call \<Rightarrow> world \<Rightarrow> bool" where
  "careful_call i (CallConfirm r) w = (case pair_row i w of
       None \<Rightarrow> True
     | Some p \<Rightarrow> r \<noteq> active_role_enum p \<or> role_state p (opposite r) = Active)"
| "careful_call i _ w = True"

fun careful_calls :: "(int \<times> drive_call) list \<Rightarrow> world \<Rightarrow> bool" where
  "careful_calls [] w = True"
| "careful_calls ((i, c) # cs) w = (careful_call i c w \<and> careful_calls cs (snd (run_call i c w)))"

lemma run_calls_simps [simp]:
  "run_calls [] w = w"
  "run_calls ((i, c) # cs) w = run_calls cs (snd (run_call i c w))"
  by (simp_all add: run_calls_def)

lemma careful_call_step:
  "pair_row i w = Some p \<Longrightarrow> careful_call i c w \<Longrightarrow> careful (abs_pair p) (call_event r c)"
  by (cases c) (auto simp: careful_def)

lemma call_keeps_live:
  assumes "pair_row i w = Some p" "careful_call i c w" "active_side_live (abs_pair p)"
  shows "\<exists>q. pair_row i (snd (run_call i c w)) = Some q \<and> active_side_live (abs_pair q)"
proof -
  obtain q where q: "pair_row i (snd (run_call i c w)) = Some q"
    "abs_pair q = abs_pair p \<or> (\<exists>r. pair_step (abs_pair p) (call_event r c) (abs_pair q))"
    using run_call_row [OF assms(1)] by blast
  then have "active_side_live (abs_pair q)"
    using step_keeps_live [OF _ careful_call_step [OF assms(1,2)] assms(3)] assms(3) by metis
  with q(1) show ?thesis by blast
qed

lemma calls_keep_live:
  "pair_row i w = Some p \<Longrightarrow> active_side_live (abs_pair p) \<Longrightarrow> careful_calls cs w \<Longrightarrow>
    \<exists>q. pair_row i (run_calls cs w) = Some q \<and> active_side_live (abs_pair q)"
proof (induction cs arbitrary: w p)
  case (Cons jc cs)
  obtain j c where jc: "jc = (j, c)" by fastforce
  have "\<exists>q. pair_row i (snd (run_call j c w)) = Some q \<and> active_side_live (abs_pair q)"
  proof (cases "j = i")
    case True
    then show ?thesis using call_keeps_live Cons.prems jc by simp
  next
    case False
    then show ?thesis using run_call_other [of i j c w] Cons.prems by simp
  qed
  then show ?case using Cons jc by auto
qed simp


subsection \<open>Properties\<close>

text \<open>A small installation the witnesses run on: pair 1 with roots \<open>/a\<close> and \<open>/b\<close>, of which \<open>/a\<close> is gone.\<close>

definition sample_pair :: drive_pair where
  "sample_pair = \<lparr>dp_id = 1, dp_name = ''p'', dp_primary_path = ''/a'', dp_secondary_path = ''/b'',
     dp_primary_state = ''active'', dp_secondary_state = ''active'', dp_active_role = ''primary'',
     dp_primary_media_type = ''hdd'', dp_secondary_media_type = ''hdd'', dp_created_at = 0, dp_updated_at = 0\<rparr>"

definition sample_file :: tracked_file where
  "sample_file = \<lparr>tf_id = 1, tf_drive_pair_id = 1, tf_relative_path = ''x'', tf_checksum = ''h'',
     tf_file_size = 3, tf_virtual_path = None, tf_is_mirrored = True, tf_tracked_direct = True,
     tf_tracked_via_folder = False, tf_last_integrity_check_at = None, tf_created_at = 0, tf_updated_at = 0\<rparr>"

definition sample_world :: "(key \<Rightarrow> node option) \<Rightarrow> drive_pair \<Rightarrow> world" where
  "sample_world nodes p =
     (let w = blank_world (empty_db\<lparr>db_pairs := [p], nx_pair := 2, db_files := [sample_file], nx_file := 2\<rparr>)
      in w\<lparr>w_fs := (w_fs w)\<lparr>fs_nodes := nodes\<rparr>\<rparr>)"

definition dirs :: "string list \<Rightarrow> key \<Rightarrow> node option" where
  "dirs ps k = (if k = [''/''] \<or> k \<in> path_key ` set ps then Some Directory else None)"

lemmas sample_world_eq = sample_world_def [unfolded Let_def] blank_world_def

lemma sample_sel [simp]:
  "pair_row i (sample_world ns p) = (if dp_id p = i then Some p else None)"
  "w_db (sample_world ns p) = empty_db\<lparr>db_pairs := [p], nx_pair := 2, db_files := [sample_file], nx_file := 2\<rparr>"
  "fs_nodes (w_fs (sample_world ns p)) = ns" "w_now (sample_world ns p) = 5"
  by (simp_all add: pair_row_def sample_world_eq)

lemma dirs_available:
  "path_is_available (w_fs (sample_world (dirs ps) p)) q = (path_key q = [''/''] \<or> path_key q \<in> path_key ` set ps)"
  by (simp add: path_is_available_def metadata_def target_def follow.simps read_dir_ok_def sample_world_eq dirs_def)

lemma sample_pair_sel [simp]:
  "dp_id sample_pair = 1" "role_state sample_pair r = Active" "active_role_enum sample_pair = Primary"
  "path_for_role sample_pair r = (if r = Primary then ''/a'' else ''/b'')"
  by (cases r; simp add: sample_pair_def role_state_def state_from_str_def active_role_enum_def
      role_from_str_def path_for_role_def)+

lemma sample_ready: "failover_ready (w_fs (sample_world (dirs [''/b'']) sample_pair)) sample_pair"
  by (simp add: failover_ready_def active_path_def standby_path_def standby_role_def dirs_available
      path_key_def is_absolute_def)

text \<open>C1: emergency failover. When the active root is gone (or its marker is missing while the other
  root has one), both drives are \<open>active\<close> and the standby root is available, loading the pair fails the
  active drive and activates the standby, clears the mirrored flag of exactly the pair's files, fails
  exactly the pair's pending or running queue items, answers with the row it stored, and touches no
  other pair and no folder.\<close>

theorem emergency_failover_effect:
  assumes "pair_row i w = Some p" "failover_ready (w_fs w) p"
  shows "\<exists>q v. load_operational_pair i w = (Inr q, v) \<and> pair_row i v = Some q
    \<and> role_state q = (role_state p)(active_role_enum p := Failed) \<and> active_role_enum q = standby_role p
    \<and> path_for_role q = path_for_role p
    \<and> db_files (w_db v) = unmirror_files i (w_now w) (db_files (w_db w))
    \<and> db_queue (w_db v) = fail_items i ''drive failover required after fatal root error'' (w_now w)
         (db_files (w_db w)) (db_queue (w_db w))
    \<and> db_folders (w_db v) = db_folders (w_db w) \<and> (\<forall>j. j \<noteq> i \<longrightarrow> pair_row j v = pair_row j w)"
proof -
  let ?q = "role_row (active_role_enum p) Failed None (Some (standby_role p)) (w_now w) p"
  obtain v where v: "load_operational_pair i w = (Inr ?q, v)" "tables v = tables (failover_world i p w)"
    using load_ready [OF assms] by (metis prod.collapse)
  have row: "pair_row j v = pair_row j (put_role_row i (active_role_enum p) Failed None (Some (standby_role p)) w)" for j
    by (simp add: tables_pair_row [OF v(2)] failover_world_def)
  have "path_for_role ?q = path_for_role p" by (rule ext) simp
  with v row show ?thesis
    by (intro exI [of _ ?q] exI [of _ v]) (simp add: tables_eqD [OF v(2)] failover_world_def pair_row_put assms(1))
qed

theorem emergency_failover_effect_witness:
  "\<exists>q v. load_operational_pair 1 (sample_world (dirs [''/b'']) sample_pair) = (Inr q, v) \<and>
     role_state q Primary = Failed \<and> active_role_enum q = Secondary"
  using emergency_failover_effect [of 1 "sample_world (dirs [''/b'']) sample_pair" sample_pair] sample_ready
  by (auto simp: standby_role_def)

text \<open>No spurious failover. Loading a pair changes its active role exactly when the failover
  conditions hold; otherwise it gives the stored row and leaves the whole world as it was.\<close>

theorem failover_only_when_ready:
  assumes "pair_row i w = Some p"
  shows "((\<exists>q v. load_operational_pair i w = (Inr q, v) \<and> active_role_enum q \<noteq> active_role_enum p)
      \<longleftrightarrow> failover_ready (w_fs w) p)
    \<and> (\<not> failover_ready (w_fs w) p \<longrightarrow> load_operational_pair i w = (Inr p, w))"
  using load_not_ready [OF assms] load_ready(1) [OF assms]
  by (cases "failover_ready (w_fs w) p"; cases "load_operational_pair i w") (auto simp: standby_role_def)

theorem failover_only_when_ready_witness:
  "load_operational_pair 1 (sample_world (dirs [''/a'', ''/b'']) sample_pair) =
     (Inr sample_pair, sample_world (dirs [''/a'', ''/b'']) sample_pair)"
proof -
  have "\<not> path_exists (w_fs (sample_world (dirs [''/a'', ''/b'']) sample_pair)) ''/b/.bitprotector-drive-root''"
    by (simp add: path_exists_def metadata_def target_def follow.simps sample_world_eq dirs_def
        path_key_def is_absolute_def)
  then have "\<not> failover_ready (w_fs (sample_world (dirs [''/a'', ''/b'']) sample_pair)) sample_pair"
    by (simp add: failover_ready_def active_path_def dirs_available missing_expected_root_marker_def
        drive_root_marker_path_def drive_root_marker_def path_join_def is_absolute_def)
  then show ?thesis
    using failover_only_when_ready [of 1 "sample_world (dirs [''/a'', ''/b'']) sample_pair" sample_pair] by simp
qed



text \<open>C3: the active drive stays usable. Over any sequence of calls on any pairs in which the active
  drive is confirmed as failed only while the other one is \<open>active\<close>, the active drive of a pair
  that starts \<open>active\<close> or \<open>quiescing\<close> is never a failed or a half-rebuilt one.\<close>

theorem active_side_stays_live:
  assumes "pair_row i w = Some p" "active_side_live (abs_pair p)" "careful_calls cs w"
  shows "\<exists>q. pair_row i (run_calls cs w) = Some q \<and>
    (role_state q (active_role_enum q) = Active \<or> role_state q (active_role_enum q) = Quiescing)"
  using calls_keep_live [OF assms] by (simp add: active_side_live_def)

theorem active_side_stays_live_witness:
  "\<exists>q. pair_row 1 (run_calls [(1, CallLoad), (1, CallAssign Primary ''/c'')]
       (sample_world (dirs [''/b'']) sample_pair)) = Some q \<and>
    (role_state q (active_role_enum q) = Active \<or> role_state q (active_role_enum q) = Quiescing)"
  by (rule active_side_stays_live [of _ _ sample_pair]) (simp_all add: active_side_live_def)

text \<open>Without virtual paths, the calls that only change rows leave the files alone.\<close>

definition no_virtual :: "world \<Rightarrow> bool" where
  "no_virtual w = ((\<forall>f \<in> set (db_files (w_db w)). tf_virtual_path f = None) \<and>
     (\<forall>f \<in> set (db_folders (w_db w)). fo_virtual_path f = None))"

lemma collect_none: "\<forall>x \<in> set xs. f x = None \<Longrightarrow> collect_r f xs = Inr []"
  by (induction xs) simp_all

lemma refresh_no_virtual:
  "no_virtual w \<Longrightarrow> w_fs (snd (refresh_pair_virtual_paths p w)) = w_fs w"
  by (simp add: no_virtual_def refresh_pair_virtual_paths_def refresh_all_virtual_paths_def
      bind_m_def collect_virtual_mappings_def mappings_of_def collect_none)

lemma no_virtual_degrade [simp]: "no_virtual (degrade i msg w) = no_virtual w"
proof -
  have "(\<forall>f \<in> set (unmirror_files i now fs). tf_virtual_path f = None) =
      (\<forall>f \<in> set fs. tf_virtual_path f = None)" for now fs
    by (induction fs) (simp_all add: unmirror_files_def)
  then show ?thesis by (simp add: no_virtual_def)
qed

lemma confirm_fs:
  assumes p: "pair_row i w = Some p" and n: "no_virtual w"
  shows "w_fs (snd (confirm_drive_failure i r w)) = w_fs w"
proof (cases "role_state p r = Quiescing \<and> \<not> confirm_blocked (w_fs w) p r")
  case True
  have "no_virtual (confirm_world i r p w)" using n by (simp add: confirm_world_def) (simp add: no_virtual_def)
  moreover have "w_fs (confirm_world i r p w) = w_fs w" by (simp add: confirm_world_def degrade_def)
  ultimately show ?thesis using True by (simp add: confirm_step [OF p] refresh_no_virtual)
next
  case False
  then show ?thesis using confirm_refused [OF p, of r] by auto
qed

lemma quiesce_fs: "pair_row i w = Some p \<Longrightarrow> w_fs (snd (mark_drive_quiescing i r w)) = w_fs w"
  by (simp add: mark_drive_quiescing_def bind_get_pair bind_set_role)

lemma quiesce_virtual:
  "pair_row i w = Some p \<Longrightarrow> no_virtual (snd (mark_drive_quiescing i r w)) = no_virtual w"
  by (simp add: mark_drive_quiescing_def bind_get_pair bind_set_role)
    (simp add: no_virtual_def)

text \<open>Without that care it does not hold. Both drives may be quiesced; confirming the first failure
  activates the second drive, and confirming the second one makes the failed first drive active
  again, because only the availability of its path is checked, not its state.\<close>

theorem confirm_can_activate_a_failed_drive:
  "\<exists>q. pair_row 1 (run_calls [(1, CallQuiesce Primary), (1, CallQuiesce Secondary),
         (1, CallConfirm Primary), (1, CallConfirm Secondary)]
       (sample_world (dirs [''/a'', ''/b'']) sample_pair)) = Some q \<and>
     active_role_enum q = Primary \<and> role_state q Primary = Failed \<and> role_state q Secondary = Failed"
proof -
  let ?w0 = "sample_world (dirs [''/a'', ''/b'']) sample_pair"
  define w1 where "w1 = snd (mark_drive_quiescing 1 Primary ?w0)"
  define w2 where "w2 = snd (mark_drive_quiescing 1 Secondary w1)"
  define w3 where "w3 = snd (confirm_drive_failure 1 Primary w2)"
  have p0: "pair_row 1 ?w0 = Some sample_pair" by simp
  obtain p1 where p1: "pair_row 1 w1 = Some p1" "role_state p1 = (\<lambda>_. Active)(Primary := Quiescing)"
    "active_role_enum p1 = Primary" "path_for_role p1 = path_for_role sample_pair"
    unfolding w1_def using quiesce_row [OF p0, of Primary] by (auto simp: fun_eq_iff)
  obtain p2 where p2: "pair_row 1 w2 = Some p2" "role_state p2 = (\<lambda>_. Quiescing)"
    "active_role_enum p2 = Primary" "path_for_role p2 = path_for_role sample_pair"
  proof (rule that)
    show "pair_row 1 w2 = Some (role_row Secondary Quiescing None None (w_now w1) p1)"
      unfolding w2_def using quiesce_row [OF p1(1), of Secondary] p1 by simp
    show "role_state (role_row Secondary Quiescing None None (w_now w1) p1) = (\<lambda>_. Quiescing)"
    proof
      fix x show "role_state (role_row Secondary Quiescing None None (w_now w1) p1) x = Quiescing"
        using p1(2) by (cases x) simp_all
    qed
    show "path_for_role (role_row Secondary Quiescing None None (w_now w1) p1) = path_for_role sample_pair"
      by (rule ext) (simp add: p1(4))
  qed (simp add: p1(3))
  have f2: "w_fs w2 = w_fs ?w0" "no_virtual w2"
    using quiesce_fs [OF p0, of Primary] quiesce_fs [OF p1(1), of Secondary]
      quiesce_virtual [OF p0, of Primary] quiesce_virtual [OF p1(1), of Secondary]
    by (simp_all add: w1_def w2_def no_virtual_def sample_file_def empty_db_def)
  have free: "\<not> confirm_blocked (w_fs ?w0) q r" if "path_for_role q = path_for_role sample_pair" for q r
    using that by (simp add: confirm_blocked_def dirs_available)
  obtain p3 where p3: "pair_row 1 w3 = Some p3" "role_state p3 = (\<lambda>_. Quiescing)(Primary := Failed)"
    "active_role_enum p3 = Secondary" "path_for_role p3 = path_for_role sample_pair"
    unfolding w3_def using confirm_row [OF p2(1), of Primary] p2 free [OF p2(4)] f2
    by (auto simp: fun_eq_iff next_active_def)
  have "w_fs w3 = w_fs ?w0" using confirm_fs [OF p2(1) f2(2)] f2(1) by (simp add: w3_def)
  then show ?thesis
    using confirm_row [OF p3(1), of Secondary] p3 free [OF p3(4)]
    by (auto simp: w1_def w2_def w3_def next_active_def)
qed


text \<open>C4: assigning a replacement. For a failed drive and a usable new root, the row gets the new path and
  the state \<open>rebuilding\<close>, the other drive and the active role stay, the queue only grows, by
  pending rebuild items for files of this pair, their number is the one answered, and afterwards every
  file of the pair has an unfinished rebuild item.\<close>

theorem assign_replacement_effect:
  assumes "pair_row i w = Some p" "role_state p r = Failed" "ensure_drive_root_marker path w = (Inr u, v0)"
  shows "\<exists>q new v. assign_replacement_drive i r path w = (Inr (q, length new), v) \<and> pair_row i v = Some q
    \<and> role_state q = (role_state p)(r := Rebuilding) \<and> path_for_role q = (path_for_role p)(r := path)
    \<and> active_role_enum q = active_role_enum p
    \<and> db_queue (w_db v) = db_queue (w_db w) @ new
    \<and> (\<forall>x \<in> set new. sq_action x = rebuild_action_for_role r \<and> sq_status x = ''pending'' \<and>
         sq_tracked_file_id x \<in> tf_id ` set (pair_files i (db_files (w_db w))))
    \<and> (\<forall>f \<in> set (pair_files i (db_files (w_db w))).
         \<exists>x \<in> set (db_queue (w_db v)). dup_item (tf_id f) (rebuild_action_for_role r) None x)"
proof -
  let ?q = "role_row r Rebuilding (Some path) None (w_now w) p"
  let ?a = "rebuild_action_for_role r"
  let ?fs = "pair_files i (db_files (w_db w))"
  let ?d = "w_db (put_role_row i r Rebuilding (Some path) None w)"
  obtain v where v: "assign_replacement_drive i r path w =
      (Inr (?q, length (db_queue (assign_db i r path w)) - length (db_queue (w_db w))), v)"
    "tables v = tables (w\<lparr>w_db := assign_db i r path w\<rparr>)"
    using assign_ok [OF assms] by (metis prod.collapse)
  obtain new where new: "db_queue (assign_db i r path w) = db_queue ?d @ new"
    "\<forall>x \<in> set new. sq_action x = ?a \<and> sq_status x = ''pending'' \<and> sq_tracked_file_id x \<in> tf_id ` set ?fs"
    unfolding assign_db_def using enqueue_all_grows by blast
  have cover: "\<forall>f \<in> set ?fs. \<exists>x \<in> set (db_queue (assign_db i r path w)). dup_item (tf_id f) ?a None x"
    unfolding assign_db_def using enqueue_all_covers by blast
  have row: "pair_row i v = Some ?q"
    using tables_pair_row [OF v(2), of i] pair_row_put [of i i r Rebuilding "Some path" None w] assms(1)
    by (simp add: pair_row_def assign_db_def)
  have path: "path_for_role ?q = (path_for_role p)(r := path)" by (rule ext) simp
  have "db_queue (w_db v) = db_queue (assign_db i r path w)" by (simp add: tables_eqD(4) [OF v(2)])
  with v new cover row path show ?thesis
    by (intro exI [of _ ?q] exI [of _ new] exI [of _ v]) simp
qed

definition failed_pair :: drive_pair where
  "failed_pair = sample_pair\<lparr>dp_primary_state := ''failed'', dp_active_role := ''secondary''\<rparr>"

lemma failed_pair_sel [simp]:
  "dp_id failed_pair = 1" "role_state failed_pair Primary = Failed" "role_state failed_pair Secondary = Active"
  by (simp_all add: failed_pair_def sample_pair_def role_state_def state_from_str_def)

lemma sample_marker:
  "\<exists>v. ensure_drive_root_marker ''/c'' (sample_world (dirs [''/b'', ''/c'']) p) = (Inr (), v)"
  by (simp add: ensure_drive_root_marker_def dirs_available path_key_def is_absolute_def)
    (simp add: fs_write_def file_create_def path_exists_def metadata_def target_def follow.simps
      sample_world_eq dirs_def path_key_def is_absolute_def drive_root_marker_path_def
      drive_root_marker_def path_join_def bind_m_def)

theorem assign_replacement_effect_witness:
  "\<exists>q n v. assign_replacement_drive 1 Primary ''/c'' (sample_world (dirs [''/b'', ''/c'']) failed_pair) =
      (Inr (q, n), v) \<and> role_state q Primary = Rebuilding \<and>
     (\<exists>x \<in> set (db_queue (w_db v)). dup_item 1 ''restore_master'' None x)"
proof -
  obtain v0 where "ensure_drive_root_marker ''/c'' (sample_world (dirs [''/b'', ''/c'']) failed_pair) = (Inr (), v0)"
    using sample_marker by blast
  from assign_replacement_effect [OF _ _ this, of 1 failed_pair Primary]
  show ?thesis
    by (auto simp: pair_files_def sample_file_def rebuild_action_for_role_def)
qed

text \<open>C5: finishing a rebuild. The rebuilt drive becomes \<open>active\<close> exactly when its role is
  \<open>rebuilding\<close> and no pending, running or failed rebuild item of the pair is left; otherwise nothing
  changes at all (so one rebuild item left in \<open>failed\<close> holds the drive in \<open>rebuilding\<close>). When it does,
  a rebuilt primary drive is also the active one, and if the other drive is \<open>active\<close> too every file of
  the pair is marked as mirrored.\<close>

theorem finalize_rebuild_effect:
  assumes "pair_row i w = Some p" "action = rebuild_action_for_role r"
  shows "(case maybe_finalize_rebuild_for_action i action w of
       (Inr (Some q), v) \<Rightarrow> role_state p r = Rebuilding \<and> \<not> rebuild_remaining i action w
         \<and> pair_row i v = Some q \<and> role_state q = (role_state p)(r := Active)
         \<and> active_role_enum q = (if r = Primary then Primary else active_role_enum p)
         \<and> (\<forall>f \<in> set (db_files (w_db v)). tf_drive_pair_id f = i \<longrightarrow>
              role_state p (opposite r) = Active \<longrightarrow> tf_is_mirrored f)
         \<and> db_queue (w_db v) = db_queue (w_db w)
     | (Inr None, v) \<Rightarrow> (role_state p r \<noteq> Rebuilding \<or> rebuild_remaining i action w) \<and> v = w
     | (Inl _, _) \<Rightarrow> False)"
proof (cases "role_state p r = Rebuilding \<and> \<not> rebuild_remaining i action w")
  case True
  have a: "rebuilt_role action = Some r" by (simp add: rebuilt_role_iff assms(2))
  obtain v where v: "maybe_finalize_rebuild_for_action i action w = (Inr (Some (finalized_row r (w_now w) p)), v)"
    "tables v = tables (finalize_world i r p w)"
    using finalize_ok [OF assms(1) a] True by (metis prod.collapse)
  have row: "pair_row i v = Some (finalized_row r (w_now w) p)"
    using tables_pair_row [OF v(2), of i] pair_row_put [of i i r Active None "if r = Primary then Some Primary else None" w] assms(1)
    by (simp add: pair_row_def finalize_world_def Let_def finalized_row_def)
  have files: "db_files (w_db v) = finalized_files i (w_now w) (role_state p (opposite r) = Active) (db_files (w_db w))"
    by (simp add: tables_eqD(2) [OF v(2)] finalize_world_def Let_def)
  have mirrored: "tf_is_mirrored f" if "f \<in> set (finalized_files i now True fs)" "tf_drive_pair_id f = i" for f now fs
  proof -
    have "\<forall>g \<in> set gs. g \<in> set ls \<or> tf_drive_pair_id g \<noteq> i \<Longrightarrow> f \<in> set (mirror_listed now ls gs) \<Longrightarrow>
        tf_is_mirrored f" for ls gs
      using that(2) by (induction gs) (auto simp: mirror_listed_def split: if_splits)
    from this [of "unmirror_files i now fs" "pair_files i (unmirror_files i now fs)"]
    show ?thesis using that(1) by (simp add: finalized_files_def Let_def pair_files_def)
  qed
  show ?thesis
    using True row files mirrored v by (auto simp: finalized_row_def tables_eqD(4) [OF v(2)] finalize_world_def Let_def)
next
  case False
  have "maybe_finalize_rebuild_for_action i action w = (Inr None, w)"
    using False assms(2) by (intro finalize_idle [OF assms(1)]) (auto simp: rebuilt_role_iff rebuild_action_for_role_def split: drive_role.splits)
  then show ?thesis using False by auto
qed

definition rebuilding_pair :: drive_pair where
  "rebuilding_pair = sample_pair\<lparr>dp_primary_state := ''rebuilding'', dp_active_role := ''secondary''\<rparr>"

theorem finalize_rebuild_effect_witness:
  "\<exists>q v. maybe_finalize_rebuild_for_action 1 ''restore_master''
      (sample_world (dirs [''/b'', ''/c'']) rebuilding_pair) = (Inr (Some q), v) \<and> active_role_enum q = Primary"
proof -
  let ?w = "sample_world (dirs [''/b'', ''/c'']) rebuilding_pair"
  have s: "role_state rebuilding_pair Primary = Rebuilding" "dp_id rebuilding_pair = 1"
    by (simp_all add: rebuilding_pair_def sample_pair_def role_state_def state_from_str_def)
  have n: "\<not> rebuild_remaining 1 ''restore_master'' ?w" by (simp add: rebuild_remaining_def empty_db_def)
  from finalize_rebuild_effect [of 1 ?w rebuilding_pair "''restore_master''" Primary] s n
  show ?thesis
    by (auto simp: rebuild_action_for_role_def split: prod.splits sum.splits option.splits)
qed

end
