(* ===== verification/Sync_Queue.thy ===== *)
theory Sync_Queue
  imports Integrity Sidecar Drive_Correct
begin

section \<open>The sync queue\<close>

text \<open>
  \<open>src/core/sync_queue.rs\<close>: the event bus and its throttle, the processing of one item, the processing of
  all pending items, the resolution of items that need the user, and the ways items are made.

  Threads. \<open>process_all_pending\<close> runs one thread per drive pair over one page of items. The model runs
  the threads item by item: \<open>pick\<close> says, turn after turn, which of the unfinished threads does its next
  item, so every theorem holds for every interleaving of whole items. Logging through \<open>tracing\<close> is
  left out. The drain loop may run forever, so it takes fuel: one unit per page, \<open>None\<close> when it runs out.
\<close>

subsection \<open>Results inside results\<close>

text \<open>\<open>f()?\<close> inside the \<open>match\<close> of \<open>process_item\<close> leaves the whole function; the value of the \<open>match\<close> is a \<open>Result\<close>.\<close>

definition as_result :: "'a prog \<Rightarrow> (err + unit) prog" where
  "as_result m = bind_m (try_m m) (\<lambda>r. return_m (map_sum id (\<lambda>_. ()) r))"

definition squoted :: "string \<Rightarrow> string" where
  "squoted s = fmt [[CHR 0x27], s, [CHR 0x27]]"

definition unit_m :: "'a prog \<Rightarrow> unit prog" where
  "unit_m m = bind_m m (\<lambda>_. return_m ())"

subsection \<open>The event bus\<close>

definition publish_interval :: int where
  "publish_interval = 1000000000"

definition should_publish_queue_progress :: "int option \<Rightarrow> int \<Rightarrow> bool" where
  "should_publish_queue_progress prev now = (case prev of
       None \<Rightarrow> True
     | Some l \<Rightarrow> max (now - l) 0 \<ge> publish_interval)"

definition snapshot_counts :: "bool \<Rightarrow> 64 word \<Rightarrow> db \<Rightarrow> sync_summary" where
  "snapshot_counts active revision d =
     (let n = (\<lambda>s. count_where (\<lambda>q. sq_status q = s) (db_queue d));
          act = count_where is_active (db_queue d);
          scanning = filter fo_scanning (db_folders d);
          deleting = filter fo_deleting (db_folders d)
      in \<lparr>su_total = act + n ''completed'' + n ''failed'', su_active_items = act,
          su_pending_items = n ''pending'', su_in_progress_items = n ''in_progress'',
          su_completed_items = n ''completed'', su_failed_items = n ''failed'',
          su_queue_paused = ss_queue_paused (db_sync_settings d), su_processing_active = active,
          su_scanning = (scanning \<noteq> []),
          su_scan_total_files = sum_list (map fo_scan_total_files scanning),
          su_scan_scanned_files = sum_list (map (\<lambda>f. min (fo_scan_scanned_files f) (fo_scan_total_files f)) scanning),
          su_scan_active_folders = int (length scanning), su_deleting = (deleting \<noteq> []),
          su_delete_active_folders = int (length deleting), su_revision = revision\<rparr>)"

definition snapshot :: "sync_summary prog" where
  "snapshot w = (let b = w_bus w; r = bus_revision b + 1
     in (Inr (snapshot_counts (bus_processing_active b) r (w_db w)), w\<lparr>w_bus := b\<lparr>bus_revision := r\<rparr>\<rparr>))"

definition publish_snapshot :: "unit prog" where
  "publish_snapshot = bind_m snapshot (\<lambda>s. modify_m (\<lambda>w. w\<lparr>w_bus := (w_bus w)\<lparr>bus_sent := bus_sent (w_bus w) @ [s]\<rparr>\<rparr>))"

text \<open>The time of the last publication is the state of the throttle; it is given back.\<close>

definition try_publish_queue_progress :: "int option \<Rightarrow> int option prog" where
  "try_publish_queue_progress prev = bind_m instant_now (\<lambda>now.
     if should_publish_queue_progress prev now
     then seq_m publish_snapshot (return_m (Some now))
     else return_m prev)"

subsection \<open>One item\<close>

definition adopt_mirror :: "digest \<Rightarrow> drive_pair \<Rightarrow> tracked_file \<Rightarrow> unit prog" where
  "adopt_mirror b3 p f w =
     (let standby = path_join (standby_path p) (tf_relative_path f) in
      if path_is_available (w_fs w) (standby_path p) \<and> path_exists (w_fs w) standby
      then bind_m (with_context ''Failed to checksum standby file'' (checksum_file b3 standby Streaming)) (\<lambda>s.
             if s \<noteq> tf_checksum f then unit_m (mirror_file b3 p (tf_relative_path f)) else return_m ()) w
      else unit_m (mirror_file b3 p (tf_relative_path f)) w)"

definition run_action :: "digest \<Rightarrow> string \<Rightarrow> drive_pair \<Rightarrow> tracked_file \<Rightarrow> (err + unit) prog" where
  "run_action b3 action p f =
     (if action = ''mirror'' then as_result (mirror_file b3 p (tf_relative_path f))
      else if action = ''adopt_mirror'' then seq_m (adopt_mirror b3 p f) (return_m (Inr ()))
      else if action = ''restore_master''
      then as_result (restore_from_mirror b3 p (tf_relative_path f) (tf_checksum f))
      else if action = ''restore_mirror''
      then as_result (restore_mirror_from_master b3 p (tf_relative_path f) (tf_checksum f))
      else if action = ''verify''
      then bind_m (check_file_integrity b3 p f Streaming Streaming) (\<lambda>res.
             if ic_status res = IOk then return_m (Inr ()) else bail ''Integrity check failed'')
      else bail (fmt [''Unknown action: '', action]))"

definition copying_actions :: "string list" where
  "copying_actions = [''mirror'', ''adopt_mirror'', ''restore_master'', ''restore_mirror'']"

definition finish_item :: "sync_item \<Rightarrow> tracked_file \<Rightarrow> drive_pair \<Rightarrow> err + unit \<Rightarrow> unit prog" where
  "finish_item item f p result =
     (let full_path = fmt [dp_primary_path p, ''/'', tf_relative_path f] in
      case result of
        Inr _ \<Rightarrow>
          seq_m (update_sync_queue_status (sq_id item) ''completed'' None)
         (seq_m (if sq_action item \<in> set copying_actions
                 then seq_m (update_tracked_file_mirror_status (tf_id f) True)
                        (discard (maybe_finalize_rebuild_for_action (dp_id p) (sq_action item)))
                 else return_m ())
         (seq_m (discard (log_sync_completed (tf_id f) (sq_action item) full_path))
         (if sq_action item = ''mirror'' \<or> sq_action item = ''adopt_mirror''
          then discard (log_file_mirrored (tf_id f) full_path (tf_checksum f))
          else return_m ())))
      | Inl e \<Rightarrow>
          seq_m (update_sync_queue_status (sq_id item) ''failed'' (Some (err_to_string e)))
         (discard (log_sync_failed (tf_id f) (sq_action item) (err_to_string e) full_path)))"

definition process_item :: "digest \<Rightarrow> sync_item \<Rightarrow> unit prog" where
  "process_item b3 item = bind_m (get_tracked_file (sq_tracked_file_id item)) (\<lambda>f.
     bind_m (load_operational_pair (tf_drive_pair_id f)) (\<lambda>p.
     if is_quiescing p then return_m ()
     else if sq_action item = ''user_action_required'' then return_m ()
     else seq_m (update_sync_queue_status (sq_id item) ''in_progress'' None)
         (bind_m (run_action b3 (sq_action item) p f) (\<lambda>result. finish_item item f p result))))"

subsection \<open>All pending items\<close>

definition lock_stale_after :: int where
  "lock_stale_after = 300"

definition queue_page_size :: int where
  "queue_page_size = 1000"

text \<open>
  \<open>group_by_pair\<close> is the \<open>HashMap\<close> of the page by drive pair: one group per pair, each in page order. The
  order of the groups does not matter under \<open>pick\<close>.
\<close>

definition group_by_pair :: "(int \<times> sync_item) list \<Rightarrow> sync_item list list" where
  "group_by_pair page = map (\<lambda>p. map snd (filter (\<lambda>x. fst x = p) page)) (remdups (map fst page))"

text \<open>What a thread does with its next item: skip it, leave the loop, or process it and go on.\<close>

datatype turn = Skip | Leave | Done

definition item_turn ::
    "digest \<Rightarrow> bool \<Rightarrow> int option \<Rightarrow> int option \<Rightarrow> sync_item \<Rightarrow> world \<Rightarrow> turn \<times> int option \<times> world" where
  "item_turn b3 has_bus stop_by prev item w =
     (if sq_action item = ''user_action_required'' then (Skip, prev, w)
      else if ss_queue_paused (db_sync_settings (w_db w)) then (Leave, prev, w)
      else (case past_deadline stop_by w of
          (Inr True, v) \<Rightarrow> (Leave, prev, v)
        | (_, v) \<Rightarrow>
            (let u = snd (process_item b3 item v) in
             if has_bus then (case try_publish_queue_progress prev u of
                 (Inr prev', x) \<Rightarrow> (Done, prev', x) | (Inl _, x) \<Rightarrow> (Done, prev, x))
             else (Done, prev, u))))"

definition drop_nth :: "nat \<Rightarrow> 'a list \<Rightarrow> 'a list" where
  "drop_nth k xs = take k xs @ drop (Suc k) xs"

lemma group_measure_drop:
  "k < length gs \<Longrightarrow> sum_list (map length (drop_nth k gs)) + length (drop_nth k gs) < sum_list (map length gs) + length gs"
  by (subst (3 4) id_take_nth_drop [of k gs]) (simp_all add: drop_nth_def)

lemma group_measure_next:
  "k < length gs \<Longrightarrow> gs ! k = i # is \<Longrightarrow>
    sum_list (map length (gs[k := is])) < sum_list (map length gs)"
  by (subst (2) id_take_nth_drop [of k gs]) (simp_all add: upd_conv_take_nth_drop)

function run_groups ::
    "digest \<Rightarrow> bool \<Rightarrow> int option \<Rightarrow> (nat \<Rightarrow> nat) \<Rightarrow> nat \<Rightarrow> sync_item list list \<Rightarrow> nat \<Rightarrow> int option \<Rightarrow> world
      \<Rightarrow> nat \<times> int option \<times> world" where
  "run_groups b3 has_bus stop_by pick n gs count prev w =
     (if gs = [] then (count, prev, w)
      else (let k = pick n mod length gs in
        case gs ! k of
          [] \<Rightarrow> run_groups b3 has_bus stop_by pick (Suc n) (drop_nth k gs) count prev w
        | i # is \<Rightarrow> (case item_turn b3 has_bus stop_by prev i w of (t, prev', v) \<Rightarrow>
            (case t of
               Leave \<Rightarrow> run_groups b3 has_bus stop_by pick (Suc n) (drop_nth k gs) count prev' v
             | Skip \<Rightarrow> run_groups b3 has_bus stop_by pick (Suc n) (gs[k := is]) count prev' v
             | Done \<Rightarrow> run_groups b3 has_bus stop_by pick (Suc n) (gs[k := is]) (Suc count) prev' v))))"
  by pat_completeness auto
termination
  by (relation "measure (\<lambda>(_, _, _, _, _, gs, _, _, _). sum_list (map length gs) + length gs)")
    (auto intro: group_measure_drop group_measure_next)

declare run_groups.simps [simp del]

text \<open>
  One round of the loop: the number of items processed and the throttle, with \<open>True\<close> when the loop goes
  on. The rounds take the successive pick functions \<open>picks 0\<close>, \<open>picks 1\<close>, and so on.
\<close>

definition drain_round ::
    "digest \<Rightarrow> bool \<Rightarrow> int option \<Rightarrow> (nat \<Rightarrow> nat) \<Rightarrow> int option \<Rightarrow> (bool \<times> nat \<times> int option) prog" where
  "drain_round b3 has_bus stop_by pick prev =
     seq_m heartbeat_sync_processing_lock
    (bind_m get_sync_queue_paused (\<lambda>paused.
       if paused then return_m (False, 0, prev)
       else bind_m (past_deadline stop_by) (\<lambda>late.
         if late then return_m (False, 0, prev)
         else bind_m (list_pending_sync_queue_with_drive_pair queue_page_size) (\<lambda>items.
           if items = [] then return_m (False, 0, prev)
           else (\<lambda>w. case run_groups b3 has_bus stop_by pick 0 (group_by_pair items) 0 prev w of
              (count, prev', v) \<Rightarrow>
                (Inr (\<not> list_all (\<lambda>(_, i). sq_action i = ''user_action_required'') items, count, prev'), v))))))"

fun drain :: "nat \<Rightarrow> digest \<Rightarrow> bool \<Rightarrow> int option \<Rightarrow> (nat \<Rightarrow> nat \<Rightarrow> nat) \<Rightarrow> nat \<Rightarrow> int option \<Rightarrow> nat \<Rightarrow> world
    \<Rightarrow> ((err + nat) \<times> world) option" where
  "drain 0 b3 has_bus stop_by picks r prev processed w = None"
| "drain (Suc n) b3 has_bus stop_by picks r prev processed w =
     (case drain_round b3 has_bus stop_by (picks r) prev w of
        (Inl e, v) \<Rightarrow> Some (Inl e, v)
      | (Inr (again, count, prev'), v) \<Rightarrow>
          (if again then drain n b3 has_bus stop_by picks (Suc r) prev' (processed + count) v
           else Some (Inr (processed + count), v)))"

text \<open>The guard releases the lock on every way out, also after an error.\<close>

definition process_all_pending ::
    "nat \<Rightarrow> digest \<Rightarrow> (nat \<Rightarrow> nat \<Rightarrow> nat) \<Rightarrow> int option \<Rightarrow> bool \<Rightarrow> world \<Rightarrow> ((err + nat) \<times> world) option" where
  "process_all_pending fuel b3 picks stop_by has_bus w =
     (case try_acquire_sync_processing_lock lock_stale_after w of
        (Inl e, v) \<Rightarrow> Some (Inl e, v)
      | (Inr False, v) \<Rightarrow> Some (Inr 0, v)
      | (Inr True, v) \<Rightarrow>
          (case requeue_in_progress_sync_queue v of
             (Inl e, u) \<Rightarrow> Some (Inl e, snd (release_sync_processing_lock u))
           | (Inr _, u) \<Rightarrow> map_option (\<lambda>(res, x). (res, snd (release_sync_processing_lock x)))
               (drain fuel b3 has_bus stop_by picks 0 None 0 u)))"

text \<open>The background worker: refused while one runs; the flag is set during the run and cleared after it.\<close>

definition set_processing_active :: "bool \<Rightarrow> world \<Rightarrow> world" where
  "set_processing_active b w = w\<lparr>w_bus := (w_bus w)\<lparr>bus_processing_active := b\<rparr>\<rparr>"

definition process_all_pending_async ::
    "nat \<Rightarrow> digest \<Rightarrow> (nat \<Rightarrow> nat \<Rightarrow> nat) \<Rightarrow> world \<Rightarrow> world option" where
  "process_all_pending_async fuel b3 picks w =
     (if bus_processing_active (w_bus w) then Some w
      else (let v = snd (publish_snapshot (set_processing_active True w)) in
        map_option (\<lambda>(_, u). snd (publish_snapshot (set_processing_active False u)))
          (process_all_pending fuel b3 picks None True v)))"

subsection \<open>Resolving an item\<close>

definition b3_sidecar_mismatch_reason :: string where
  "b3_sidecar_mismatch_reason = ''b3_sidecar_mismatch''"

text \<open>\<open>std::fs::copy\<close>: bytes and permissions of a regular file; the permissions are set before the bytes go.\<close>

definition fs_copy :: "string \<Rightarrow> string \<Rightarrow> unit prog" where
  "fs_copy src dst = bind_m (file_open src) (\<lambda>ks w.
     case fs_nodes (w_fs w) ks of
       Some (RegFile _ mode) \<Rightarrow>
         bind_m (file_create dst) (\<lambda>kd. seq_m (modify_m (set_mode kd mode))
          (bind_m (gets_m (\<lambda>w. Suc (length (node_bytes (w_fs w) ks)))) (\<lambda>n.
             unit_m (copy_stream n ks kd 0 [])))) w
     | _ \<Rightarrow> io ''the source path is neither a regular file nor a symlink to a regular file'' w)"

definition provide_new :: "drive_pair \<Rightarrow> tracked_file \<Rightarrow> string option \<Rightarrow> unit prog" where
  "provide_new p f new_file_path =
     (let master = path_join (dp_primary_path p) (tf_relative_path f);
          mirror = path_join (dp_secondary_path p) (tf_relative_path f) in
      case new_file_path of
        None \<Rightarrow> bail (fmt [''new_file_path is required for '', squoted ''provide_new''])
      | Some src \<Rightarrow> (\<lambda>w.
          if \<not> path_exists (w_fs w) src then bail (fmt [''provided path does not exist: '', src]) w
          else if \<not> path_is_file (w_fs w) src then bail (fmt [''provided path is not a regular file: '', src]) w
          else seq_m (create_dir_all (butlast (path_key master)))
              (seq_m (create_dir_all (butlast (path_key mirror)))
              (seq_m (fs_copy src master) (fs_copy src mirror))) w))"

definition accept_current :: "sync_item \<Rightarrow> drive_pair \<Rightarrow> tracked_file \<Rightarrow> sync_item prog" where
  "accept_current item p f = (case path_file_name (tf_relative_path f) of
       None \<Rightarrow> bail ''Unable to determine filename for sidecar write''
     | Some name \<Rightarrow>
         (let master = path_join (dp_primary_path p) (tf_relative_path f) in
          seq_m (fs_write (path_with_file_name master (name @ ''.b3'')) (string_bytes (sidecar_text (tf_checksum f) name)))
         (seq_m (update_sync_queue_status (sq_id item) ''completed'' None)
         (bind_m (create_sync_queue_item_dedup (tf_id f) ''adopt_mirror'') (\<lambda>_.
          seq_m (discard (log_sync_completed (tf_id f) ''accept_current''
                   (fmt [dp_primary_path p, ''/'', tf_relative_path f])))
          (get_sync_queue_item (sq_id item)))))))"

definition resolve_untrack :: "sync_item \<Rightarrow> drive_pair \<Rightarrow> tracked_file \<Rightarrow> sync_item prog" where
  "resolve_untrack item p f =
     seq_m (update_sync_queue_status (sq_id item) ''completed'' None)
    (bind_m (get_sync_queue_item (sq_id item)) (\<lambda>resolved.
     seq_m (discard (log_sync_completed (tf_id f) ''untrack''
              (fmt [dp_primary_path p, ''/'', tf_relative_path f])))
    (seq_m (delete_tracked_file (tf_id f)) (return_m resolved))))"

definition resolve_copies :: "digest \<Rightarrow> string \<Rightarrow> drive_pair \<Rightarrow> tracked_file \<Rightarrow> string option \<Rightarrow> unit prog" where
  "resolve_copies b3 resolution p f new_file_path =
     (if resolution = ''keep_master''
      then restore_mirror_from_master b3 p (tf_relative_path f) (tf_checksum f)
      else if resolution = ''keep_mirror''
      then restore_from_mirror b3 p (tf_relative_path f) (tf_checksum f)
      else if resolution = ''provide_new'' then provide_new p f new_file_path
      else bail (fmt [''Unknown resolution '', squoted resolution,
             ''; expected keep_master, keep_mirror, provide_new, accept_current, or untrack'']))"

definition resolve_queue_item :: "digest \<Rightarrow> int \<Rightarrow> string \<Rightarrow> string option \<Rightarrow> sync_item prog" where
  "resolve_queue_item b3 item_id resolution new_file_path = bind_m (get_sync_queue_item item_id) (\<lambda>item.
     if sq_action item \<noteq> ''user_action_required''
     then bail (fmt [''Queue item #'', dec item_id, '' has action '', squoted (sq_action item),
            ''; only '', squoted ''user_action_required'', '' items can be resolved''])
     else if sq_status item \<noteq> ''pending''
     then bail (fmt [''Queue item #'', dec item_id, '' has status '', squoted (sq_status item),
            ''; only '', squoted ''pending'', '' items can be resolved''])
     else bind_m (get_tracked_file (sq_tracked_file_id item)) (\<lambda>f.
       bind_m (load_operational_pair (tf_drive_pair_id f)) (\<lambda>p.
         let is_b3 = (sq_reason item = Some b3_sidecar_mismatch_reason);
             for_b3 = (resolution = ''accept_current'' \<or> resolution = ''untrack'') in
         if is_b3 \<and> \<not> for_b3
         then bail (fmt [''Reason '', squoted b3_sidecar_mismatch_reason, '' requires '', squoted ''accept_current'', '' or '', squoted ''untrack''])
         else if \<not> is_b3 \<and> for_b3
         then bail (fmt [''Resolution '', squoted resolution, '' is only valid when reason is '', squoted b3_sidecar_mismatch_reason])
         else if resolution = ''accept_current'' then accept_current item p f
         else if resolution = ''untrack'' then resolve_untrack item p f
         else seq_m (resolve_copies b3 resolution p f new_file_path)
             (seq_m (update_sync_queue_status item_id ''completed'' None)
             (seq_m (update_tracked_file_mirror_status (tf_id f) True)
             (seq_m (discard (log_sync_completed (tf_id f) resolution
                       (fmt [dp_primary_path p, ''/'', tf_relative_path f])))
             (get_sync_queue_item item_id)))))))"

subsection \<open>Making items\<close>

definition create_from_integrity_failure ::
    "tracked_file \<Rightarrow> integrity_check_result \<Rightarrow> sync_item option prog" where
  "create_from_integrity_failure f res = (case ic_status res of
       IOk \<Rightarrow> return_m None
     | PrimaryDriveUnavailable \<Rightarrow> return_m None
     | SecondaryDriveUnavailable \<Rightarrow> return_m None
     | BothCorrupted \<Rightarrow> create_sync_queue_item_dedup (tf_id f) ''user_action_required''
     | MirrorCorrupted \<Rightarrow> create_sync_queue_item_dedup (tf_id f) ''restore_mirror''
     | MirrorMissing \<Rightarrow> create_sync_queue_item_dedup (tf_id f) ''restore_mirror''
     | MasterCorrupted \<Rightarrow> create_sync_queue_item_dedup (tf_id f) ''restore_master''
     | MasterMissing \<Rightarrow> create_sync_queue_item_dedup (tf_id f) ''restore_master'')"

definition create_from_change :: "int \<Rightarrow> sync_item prog" where
  "create_from_change file_id = bind_m (create_sync_queue_item_dedup file_id ''mirror'') (\<lambda>item.
     case item of None \<Rightarrow> bail (fmt [''mirror action already pending for file #'', dec file_id])
     | Some q \<Rightarrow> return_m q)"

definition create_for_new_tracking :: "int \<Rightarrow> sync_item prog" where
  "create_for_new_tracking file_id =
     bind_m (create_sync_queue_item_dedup_with_created file_id ''adopt_mirror'') (\<lambda>(item, created).
       if created then return_m item
       else bail (fmt [''adopt_mirror action already pending for file #'', dec file_id]))"

definition create_user_action_required :: "int \<Rightarrow> string \<Rightarrow> string \<Rightarrow> sync_item prog" where
  "create_user_action_required file_id reason error_message =
     bind_m (create_sync_queue_item_dedup_with_reason_and_error_with_created file_id ''user_action_required''
       (Some reason) (Some error_message)) (\<lambda>(item, _). return_m item)"

end
