(* ===== verification/Queue_Frame.thy ===== *)
theory Queue_Frame
  imports Sync_Queue
begin

section \<open>The sync queue, proved\<close>

subsection \<open>What processing leaves alone\<close>

text \<open>
  \<open>queue_frame w v\<close>: between \<open>w\<close> and \<open>v\<close> the files kept their ids and pairs, the pairs their ids, the queue
  its items with their file and action, no item became pending, no pair became quiescing, the pause
  flag is the same and the clock was only read. Every step of the processing keeps this.
\<close>

definition item_step :: "sync_item \<Rightarrow> sync_item \<Rightarrow> bool" where
  "item_step a b = (sq_id b = sq_id a \<and> sq_tracked_file_id b = sq_tracked_file_id a \<and> sq_action b = sq_action a
     \<and> (sq_status b = ''pending'' \<longrightarrow> sq_status a = ''pending''))"

definition queue_frame :: "world \<Rightarrow> world \<Rightarrow> bool" where
  "queue_frame w v =
     (map (\<lambda>f. (tf_id f, tf_drive_pair_id f)) (db_files (w_db v)) = map (\<lambda>f. (tf_id f, tf_drive_pair_id f)) (db_files (w_db w))
      \<and> map dp_id (db_pairs (w_db v)) = map dp_id (db_pairs (w_db w))
      \<and> ((\<forall>p \<in> set (db_pairs (w_db w)). \<not> is_quiescing p) \<longrightarrow> (\<forall>p \<in> set (db_pairs (w_db v)). \<not> is_quiescing p))
      \<and> list_all2 item_step (db_queue (w_db w)) (db_queue (w_db v))
      \<and> ss_queue_paused (db_sync_settings (w_db v)) = ss_queue_paused (db_sync_settings (w_db w))
      \<and> w_instants v = w_instants w \<and> w_reads w \<le> w_reads v)"

lemma item_step_refl [simp]: "item_step q q"
  by (simp add: item_step_def)

lemma item_step_trans: "item_step a b \<Longrightarrow> item_step b c \<Longrightarrow> item_step a c"
  by (simp add: item_step_def)

lemma queue_frame_refl [simp]: "queue_frame w w"
  by (simp add: queue_frame_def list_all2_refl)

lemma queue_frame_trans: "queue_frame w v \<Longrightarrow> queue_frame v u \<Longrightarrow> queue_frame w u"
  unfolding queue_frame_def by (auto intro: list_all2_trans [OF item_step_trans])

lemma keepsI_frame: "(\<And>v. queue_frame v (snd (m v))) \<Longrightarrow> keeps (queue_frame w) m"
  by (rule keepsI) (blast intro: queue_frame_trans)

lemma frame_fs_put: "queue_frame w v \<Longrightarrow> queue_frame w (fs_put k n v)"
  by (simp add: queue_frame_def) (simp add: fs_put_def)

lemma frame_logs [keeps]: "logs_only m \<Longrightarrow> keeps (queue_frame w) m"
proof (rule keepsI_frame)
  fix v assume l: "logs_only m"
  then have f: "forget_events (snd (m v)) = forget_events v" by simp
  have c: "w_instants (forget_events x) = w_instants x" "w_reads (forget_events x) = w_reads x" for x
    by (simp_all add: forget_events_def)
  have "w_instants (snd (m v)) = w_instants v" "w_reads (snd (m v)) = w_reads v"
    using arg_cong [OF f, of w_instants] arg_cong [OF f, of w_reads] by (simp_all add: c)
  then show "queue_frame v (snd (m v))"
    using l by (simp add: queue_frame_def list_all2_refl)
qed

lemma frame_db:
  assumes "w_db u = w_db v" "w_instants u = w_instants v" "w_reads v \<le> w_reads u"
  shows "queue_frame v u"
  using assms by (simp add: queue_frame_def list_all2_refl)

lemma frame_update_files [keeps]:
  assumes "\<And>f. tf_id (g f) = tf_id f" "\<And>f. tf_drive_pair_id (g f) = tf_drive_pair_id f"
  shows "keeps (queue_frame w) (update_files P g)"
proof (rule keepsI_frame)
  fix v
  have "map (\<lambda>f. (tf_id f, tf_drive_pair_id f)) (upd_where P (\<lambda>f. (g f)\<lparr>tf_updated_at := t\<rparr>) fs) =
      map (\<lambda>f. (tf_id f, tf_drive_pair_id f)) fs" for t fs
    by (rule map_upd_where) (simp add: assms)
  then show "queue_frame v (snd (update_files P g v))"
    by (simp add: queue_frame_def list_all2_refl)
qed

lemma step_upd_where:
  "(\<And>q. P q \<Longrightarrow> item_step q (g q)) \<Longrightarrow> list_all2 item_step qs (upd_where P g qs)"
  by (induction qs) auto

lemma step_stamp: "s \<noteq> ''pending'' \<Longrightarrow> item_step q (stamp_status s e now q)"
  by (simp add: item_step_def stamp_status_def)

lemma frame_update_queue:
  "(\<And>q. P q \<Longrightarrow> item_step q (g q)) \<Longrightarrow> queue_frame v (update_queue P g v)"
  by (simp add: queue_frame_def update_queue_def step_upd_where)

lemma frame_status [keeps]: "s \<noteq> ''pending'' \<Longrightarrow> keeps (queue_frame w) (update_sync_queue_status i s e)"
  by (rule keepsI_frame) (simp add: update_sync_queue_status_def frame_update_queue step_stamp)

lemma frame_fail_pair [keeps]: "keeps (queue_frame w) (fail_pending_sync_queue_for_drive_pair i e)"
  by (rule keepsI_frame)
    (simp add: fail_pending_sync_queue_for_drive_pair_def update_queue_counted_def frame_update_queue step_stamp)

lemma frame_update_pair:
  assumes "\<And>p. dp_id (g p) = dp_id p" "\<And>p. is_quiescing (g p) \<Longrightarrow> is_quiescing p"
  shows "keeps (queue_frame w) (update_pair i g)"
proof (rule keepsI_frame)
  fix v :: world
  let ?h = "\<lambda>p. (g p)\<lparr>dp_updated_at := w_now v\<rparr>"
  have q: "is_quiescing (?h p) = is_quiescing (g p)" for p
    by (simp add: is_quiescing_def role_state_def)
  have "map dp_id (upd_where P ?h ps) = map dp_id ps" for P ps
    by (rule map_upd_where) (simp add: assms(1))
  moreover have "(\<forall>p \<in> set ps. \<not> is_quiescing p) \<Longrightarrow> \<forall>p \<in> set (upd_where P ?h ps). \<not> is_quiescing p" for P ps
    using q assms(2) by (induction ps) auto
  ultimately show "queue_frame v (snd (update_pair i g v))"
    by (simp add: queue_frame_def list_all2_refl)
qed

lemma opt_m_keeps_Some: "(\<And>x. v = Some x \<Longrightarrow> keeps P (f x)) \<Longrightarrow> keeps P (opt_m v f)"
  by (simp add: opt_m_def keeps_return split: option.splits)

definition calm_state :: "string option \<Rightarrow> bool" where
  "calm_state s = (case s of None \<Rightarrow> True | Some x \<Rightarrow> state_from_str x \<noteq> Quiescing)"

lemma quiescing_fields:
  "is_quiescing (p\<lparr>dp_primary_path := x\<rparr>) = is_quiescing p"
  "is_quiescing (p\<lparr>dp_secondary_path := x\<rparr>) = is_quiescing p"
  "is_quiescing (p\<lparr>dp_active_role := x\<rparr>) = is_quiescing p"
  "state_from_str x \<noteq> Quiescing \<Longrightarrow> is_quiescing (p\<lparr>dp_primary_state := x\<rparr>) \<Longrightarrow> is_quiescing p"
  "state_from_str x \<noteq> Quiescing \<Longrightarrow> is_quiescing (p\<lparr>dp_secondary_state := x\<rparr>) \<Longrightarrow> is_quiescing p"
  by (auto simp: is_quiescing_def role_state_def)

lemma frame_fields:
  "keeps (queue_frame w) (update_pair i (\<lambda>p. p\<lparr>dp_primary_path := x\<rparr>))"
  "keeps (queue_frame w) (update_pair i (\<lambda>p. p\<lparr>dp_secondary_path := x\<rparr>))"
  "keeps (queue_frame w) (update_pair i (\<lambda>p. p\<lparr>dp_active_role := x\<rparr>))"
  "calm_state (Some x) \<Longrightarrow> keeps (queue_frame w) (update_pair i (\<lambda>p. p\<lparr>dp_primary_state := x\<rparr>))"
  "calm_state (Some x) \<Longrightarrow> keeps (queue_frame w) (update_pair i (\<lambda>p. p\<lparr>dp_secondary_state := x\<rparr>))"
proof -
  show "keeps (queue_frame w) (update_pair i (\<lambda>p. p\<lparr>dp_primary_path := x\<rparr>))"
    "keeps (queue_frame w) (update_pair i (\<lambda>p. p\<lparr>dp_secondary_path := x\<rparr>))"
    "keeps (queue_frame w) (update_pair i (\<lambda>p. p\<lparr>dp_active_role := x\<rparr>))"
    by (rule frame_update_pair; simp add: quiescing_fields(1-3))+
  assume "calm_state (Some x)"
  then have c: "state_from_str x \<noteq> Quiescing" by (simp add: calm_state_def)
  show "keeps (queue_frame w) (update_pair i (\<lambda>p. p\<lparr>dp_primary_state := x\<rparr>))"
    by (rule frame_update_pair) (simp, rule quiescing_fields(4) [OF c])
  show "keeps (queue_frame w) (update_pair i (\<lambda>p. p\<lparr>dp_secondary_state := x\<rparr>))"
    by (rule frame_update_pair) (simp, rule quiescing_fields(5) [OF c])
qed

lemma frame_check [keeps]:
  "keeps P (bind_m (gets_m f) (\<lambda>h. check_m (c h) s))"
  by (intro keeps_bind keeps_gets check_m_keeps)

lemma frame_runtime [keeps]:
  assumes "calm_state ps" "calm_state ss"
  shows "keeps (queue_frame w) (update_drive_pair_runtime i pp sp ps ss ar)"
proof -
  have "ps = Some x \<Longrightarrow> calm_state (Some x)" "ss = Some x \<Longrightarrow> calm_state (Some x)" for x
    using assms by simp_all
  then show ?thesis
    unfolding update_drive_pair_runtime_def
    by (intro keeps_seq opt_m_keeps_Some frame_check pairs.keeps_get frame_fields)
qed

lemma frame_refresh [keeps]: "keeps (queue_frame w) (refresh_pair_virtual_paths p)"
  unfolding refresh_pair_virtual_paths_def
  by (intro keeps_bind keeps_return refresh_all_keeps frame_fs_put)

lemma frame_unmirror [keeps]: "keeps (queue_frame w) (mark_drive_pair_unmirrored i)"
  unfolding mark_drive_pair_unmirrored_def by (rule frame_update_files) simp_all

lemma frame_mirror_status [keeps]: "keeps (queue_frame w) (update_tracked_file_mirror_status i b)"
  unfolding update_tracked_file_mirror_status_def by (rule frame_update_files) simp_all

lemma frame_list [keeps]: "keeps P (list_tracked_files o1 o2 o3 n1 n2)"
  "keeps P (count_sync_queue_items_for_drive_pair_action i a s)"
  by (simp_all add: keeps_def list_tracked_files_def count_sync_queue_items_for_drive_pair_action_def)

lemma calm_simps [simp]:
  "calm_state None" "calm_state (if b then Some (state_str Failed) else None)"
  "calm_state (if b then Some (state_str Active) else None)"
  by (simp_all add: calm_state_def)

lemma frame_failover [keeps]: "keeps (queue_frame w) (maybe_emergency_failover p)"
proof (rule keepsI)
  fix v assume v: "queue_frame w v"
  let ?act = "active_role_enum p"
  have "keeps (queue_frame w) (bind_m (update_drive_pair_runtime (dp_id p) None None
             (if ?act = Primary then Some (state_str Failed) else None)
             (if ?act = Secondary then Some (state_str Failed) else None)
             (Some (role_str (opposite ?act)))) (\<lambda>updated.
           seq_m (mark_drive_pair_unmirrored (dp_id p))
          (seq_m (discard (fail_pending_sync_queue_for_drive_pair (dp_id p)
             ''drive failover required after fatal root error''))
          (seq_m (discard (refresh_pair_virtual_paths updated))
          (seq_m (discard (log_drive_failover (dp_id p) (role_str ?act) (role_str (opposite ?act)) (path_for_role p ?act)))
          (get_drive_pair (dp_id p)))))))"
    by (intro keeps_bind keeps_seq keeps_discard frame_runtime frame_unmirror frame_fail_pair frame_refresh
        frame_logs pairs.keeps_get) simp_all
  from keepsD [OF this v] v show "queue_frame w (snd (maybe_emergency_failover p v))"
    by (simp add: maybe_emergency_failover_def Let_def)
qed

lemma frame_load [keeps]: "keeps (queue_frame w) (load_operational_pair i)"
  unfolding load_operational_pair_def by (intro keeps_bind pairs.keeps_get frame_failover)

lemma frame_finalize [keeps]: "keeps (queue_frame w) (maybe_finalize_rebuild_for_action i a)"
  unfolding maybe_finalize_rebuild_for_action_def
  by (intro keeps_bind pairs.keeps_get keeps_option keeps_if keeps_return frame_list frame_runtime frame_unmirror
      keeps_seq keeps_prod keeps_for frame_mirror_status keeps_discard frame_refresh frame_logs) simp_all

lemma frame_copies [keeps]:
  "keeps (queue_frame w) (mirror_file b3 p rel)"
  "keeps (queue_frame w) (restore_from_mirror b3 p rel e)"
  "keeps (queue_frame w) (restore_mirror_from_master b3 p rel e)"
  "keeps (queue_frame w) (checksum_file b3 path st)"
  by (rule mirror_keeps master_restore.restore_keeps mirror_restore.restore_keeps keeps_pure [OF checksum_pure];
      rule frame_fs_put; assumption?)+


lemma frame_as_result [keeps]: "keeps P m \<Longrightarrow> keeps P (as_result m)"
  unfolding as_result_def by (intro keeps_bind keeps_try keeps_return)

lemma frame_unit_m [keeps]: "keeps P m \<Longrightarrow> keeps P (unit_m m)"
  unfolding unit_m_def by (intro keeps_bind keeps_return)

lemma frame_adopt [keeps]: "keeps (queue_frame w) (adopt_mirror b3 p f)"
proof (rule keepsI)
  fix v assume v: "queue_frame w v"
  have 1: "keeps (queue_frame w) (bind_m (with_context ''Failed to checksum standby file''
      (checksum_file b3 s Streaming)) (\<lambda>s. if s \<noteq> tf_checksum f then unit_m (mirror_file b3 p (tf_relative_path f)) else return_m ()))" for s
    by (intro keeps_bind keeps_with_context keeps_if keeps_return frame_unit_m frame_copies)
  have 2: "keeps (queue_frame w) (unit_m (mirror_file b3 p (tf_relative_path f)))"
    by (intro frame_unit_m frame_copies)
  show "queue_frame w (snd (adopt_mirror b3 p f v))"
    using keepsD [OF 1 v] keepsD [OF 2 v] by (simp add: adopt_mirror_def Let_def)
qed

lemma frame_run_action [keeps]: "keeps (queue_frame w) (run_action b3 a p f)"
  unfolding run_action_def
  by (intro keeps_if frame_as_result frame_copies keeps_seq frame_adopt keeps_return keeps_bind check_keeps keeps_bail)

lemma frame_finish [keeps]: "keeps (queue_frame w) (finish_item item f p r)"
  unfolding finish_item_def Let_def
  by (intro keeps_sum keeps_seq keeps_if keeps_discard keeps_return frame_status frame_mirror_status frame_finalize
      frame_logs) simp_all

lemma frame_process [keeps]: "keeps (queue_frame w) (process_item b3 item)"
  unfolding process_item_def
  by (intro keeps_bind files.keeps_get frame_load keeps_if keeps_return keeps_seq frame_status frame_run_action
      frame_finish) simp_all

subsection \<open>Every processed item leaves the pending ones\<close>

definition not_pending :: "int \<Rightarrow> world \<Rightarrow> bool" where
  "not_pending i v = (\<forall>q \<in> set (db_queue (w_db v)). sq_id q = i \<longrightarrow> sq_status q \<noteq> ''pending'')"

lemma not_pending_frame: "queue_frame v u \<Longrightarrow> not_pending i v \<Longrightarrow> not_pending i u"
proof -
  have l: "list_all2 item_step qs rs \<Longrightarrow> \<forall>q \<in> set qs. sq_id q = i \<longrightarrow> sq_status q \<noteq> ''pending'' \<Longrightarrow>
      \<forall>q \<in> set rs. sq_id q = i \<longrightarrow> sq_status q \<noteq> ''pending''" for qs rs
    by (induction rule: list_all2_induct) (auto simp: item_step_def)
  assume "queue_frame v u" "not_pending i v"
  then show "not_pending i u"
    using l [of "db_queue (w_db v)" "db_queue (w_db u)"] by (simp add: not_pending_def queue_frame_def)
qed

lemma not_pending_status:
  "s \<in> set status_names \<Longrightarrow> s \<noteq> ''pending'' \<Longrightarrow>
     fst (update_sync_queue_status i s e v) = Inr () \<and> not_pending i (snd (update_sync_queue_status i s e v))"
proof -
  assume s: "s \<in> set status_names" "s \<noteq> ''pending''"
  have "\<forall>q \<in> set (upd_where (\<lambda>q. sq_id q = i) (stamp_status s e now) qs). sq_id q = i \<longrightarrow> sq_status q \<noteq> ''pending''" for now qs
    using s(2) by (induction qs) (simp_all add: stamp_status_def)
  then show ?thesis using s(1) by (simp add: update_sync_queue_status_def update_queue_def not_pending_def)
qed

definition item_known :: "world \<Rightarrow> sync_item \<Rightarrow> bool" where
  "item_known w item = (\<exists>f. find (\<lambda>f. tf_id f = sq_tracked_file_id item) (db_files (w_db w)) = Some f \<and>
     tf_drive_pair_id f \<in> dp_id ` set (db_pairs (w_db w)))"

definition no_quiescing :: "world \<Rightarrow> bool" where
  "no_quiescing w = (\<forall>p \<in> set (db_pairs (w_db w)). \<not> is_quiescing p)"

lemma load_known:
  assumes "i \<in> dp_id ` set (db_pairs (w_db w))" "no_quiescing w"
  obtains p v where "load_operational_pair i w = (Inr p, v)" "\<not> is_quiescing p"
proof -
  obtain p where p: "pair_row i w = Some p" "p \<in> set (db_pairs (w_db w))"
    using assms(1) by (cases "pair_row i w") (auto simp: pair_row_def find_None dest: find_SomeD)
  show thesis
  proof (cases "failover_ready (w_fs w) p")
    case True
    have "\<not> is_quiescing (role_row (active_role_enum p) Failed None (Some (standby_role p)) (w_now w) p)"
      using True by (simp add: not_quiescing_iff ready_states)
    with load_ready(1) [OF p(1) True] that show thesis by (metis prod.collapse)
  next
    case False
    with load_not_ready [OF p(1) False] that p(2) assms(2) show thesis by (auto simp: no_quiescing_def)
  qed
qed

lemma process_strict:
  assumes "item_known w item" "no_quiescing w" "sq_action item \<noteq> ''user_action_required''"
  shows "not_pending (sq_id item) (snd (process_item b3 item w))"
proof -
  obtain f where f: "find (\<lambda>f. tf_id f = sq_tracked_file_id item) (db_files (w_db w)) = Some f"
    "tf_drive_pair_id f \<in> dp_id ` set (db_pairs (w_db w))" using assms(1) by (auto simp: item_known_def)
  obtain p v where p: "load_operational_pair (tf_drive_pair_id f) w = (Inr p, v)" "\<not> is_quiescing p"
    using load_known [OF f(2) assms(2)] by blast
  let ?u = "snd (update_sync_queue_status (sq_id item) ''in_progress'' None v)"
  have s: "update_sync_queue_status (sq_id item) ''in_progress'' None v = (Inr (), ?u)" "not_pending (sq_id item) ?u"
    using not_pending_status [of "''in_progress''" "sq_id item" None v]
    by (simp_all add: status_names_def prod_eq_iff)
  have "process_item b3 item w =
      bind_m (run_action b3 (sq_action item) p f) (\<lambda>result. finish_item item f p result) ?u"
    using f(1) p(2) assms(3)
    by (simp add: process_item_def files.bind_get bind_m_ok [where m = "load_operational_pair i" for i, OF p(1)]
        seq_m_ok [where m = "update_sync_queue_status i s e" for i s e, OF s(1)])
  moreover have "keeps (queue_frame ?u) (bind_m (run_action b3 (sq_action item) p f) (\<lambda>result. finish_item item f p result))"
    by (intro keeps_bind frame_run_action frame_finish)
  ultimately have "queue_frame ?u (snd (process_item b3 item w))"
    using keepsD by fastforce
  with s(2) show ?thesis by (rule not_pending_frame [rotated])
qed

lemma known_frame:
  assumes "queue_frame w v" "item_known w item"
  shows "item_known v item"
proof -
  have files: "map (\<lambda>f. (tf_id f, tf_drive_pair_id f)) gs = map (\<lambda>f. (tf_id f, tf_drive_pair_id f)) fs \<Longrightarrow>
      find (\<lambda>f. tf_id f = i) fs = Some f \<Longrightarrow>
      \<exists>g. find (\<lambda>f. tf_id f = i) gs = Some g \<and> tf_drive_pair_id g = tf_drive_pair_id f" for i f fs gs
    by (induction fs arbitrary: gs) (auto split: if_splits)
  have "set (map dp_id (db_pairs (w_db v))) = set (map dp_id (db_pairs (w_db w)))"
    using assms(1) by (simp add: queue_frame_def)
  then have pairs: "dp_id ` set (db_pairs (w_db v)) = dp_id ` set (db_pairs (w_db w))" by simp
  obtain f where f: "find (\<lambda>f. tf_id f = sq_tracked_file_id item) (db_files (w_db w)) = Some f"
    "tf_drive_pair_id f \<in> dp_id ` set (db_pairs (w_db w))" using assms(2) by (auto simp: item_known_def)
  have "map (\<lambda>f. (tf_id f, tf_drive_pair_id f)) (db_files (w_db v)) = map (\<lambda>f. (tf_id f, tf_drive_pair_id f)) (db_files (w_db w))"
    using assms(1) by (simp add: queue_frame_def)
  from files [OF this f(1)] f(2) pairs show ?thesis by (auto simp: item_known_def)
qed

lemma no_quiescing_frame: "queue_frame w v \<Longrightarrow> no_quiescing w \<Longrightarrow> no_quiescing v"
  by (simp add: queue_frame_def no_quiescing_def)


end
