(* ===== verification/Queue_Drain.thy ===== *)
theory Queue_Drain
  imports Queue_Frame
begin

section \<open>The processing loop ends\<close>

subsection \<open>Turns, groups, rounds\<close>

definition late_seen :: "int option \<Rightarrow> world \<Rightarrow> bool" where
  "late_seen stop_by v = (\<exists>d r. stop_by = Some d \<and> r < w_reads v \<and> d \<le> w_instants v r)"

lemma late_frame:
  assumes "queue_frame v u" "late_seen d v"
  shows "late_seen d u"
proof -
  have "w_instants u = w_instants v" "w_reads v \<le> w_reads u"
    using assms(1) by (simp_all add: queue_frame_def)
  then show ?thesis
    using assms(2) unfolding late_seen_def by (metis less_le_trans)
qed

lemma past_deadline_spec:
  assumes "past_deadline d w = (r, v)"
  shows "queue_frame w v" "r = Inr True \<Longrightarrow> late_seen d v" "\<exists>b. r = Inr b"
proof -
  have "w_db v = w_db w \<and> w_instants v = w_instants w \<and> w_reads w \<le> w_reads v"
    using assms by (auto simp: past_deadline_def instant_now_def bind_m_def split: option.splits)
  then show "queue_frame w v" by (simp add: frame_db)
  show "r = Inr True \<Longrightarrow> late_seen d v"
    using assms by (auto simp: past_deadline_def instant_now_def bind_m_def late_seen_def split: option.splits)
  show "\<exists>b. r = Inr b" using past_deadline_Inr [of d w] assms by simp
qed

lemma frame_publish [keeps]: "keeps (queue_frame w) publish_snapshot"
  by (rule keepsI_frame)
    (simp add: publish_snapshot_def snapshot_def bind_m_def Let_def frame_db)

lemma frame_try_publish [keeps]: "keeps (queue_frame w) (try_publish_queue_progress prev)"
proof -
  have "keeps (queue_frame w) instant_now"
    by (rule keepsI_frame) (simp add: instant_now_def frame_db)
  then show ?thesis
    unfolding try_publish_queue_progress_def by (intro keeps_bind keeps_if keeps_seq frame_publish keeps_return)
qed

lemma item_turn_spec:
  assumes "item_turn b3 has_bus stop_by prev item w = (t, prev', v)"
  shows "queue_frame w v"
    "t = Skip \<Longrightarrow> sq_action item = ''user_action_required''"
    "t = Leave \<Longrightarrow> \<not> ss_queue_paused (db_sync_settings (w_db w)) \<Longrightarrow> late_seen stop_by v"
    "t = Done \<Longrightarrow> item_known w item \<Longrightarrow> no_quiescing w \<Longrightarrow> not_pending (sq_id item) v"
proof -
  obtain r u where r: "past_deadline stop_by w = (r, u)" by fastforce
  obtain b where b: "r = Inr b" using past_deadline_spec(3) [OF r] by blast
  note pd = past_deadline_spec(1,2) [OF r]
  let ?x = "snd (process_item b3 item u)"
  have px: "queue_frame u ?x" using keepsD [OF frame_process queue_frame_refl] .
  obtain l y where y: "try_publish_queue_progress prev ?x = (l, y)" by fastforce
  have py: "queue_frame ?x y" using keepsD [OF frame_try_publish queue_frame_refl, of ?x prev] y by simp
  have run: "item_turn b3 has_bus stop_by prev item w =
     (if sq_action item = ''user_action_required'' then (Skip, prev, w)
      else if ss_queue_paused (db_sync_settings (w_db w)) then (Leave, prev, w)
      else if b then (Leave, prev, u)
      else if has_bus then (Done, (case l of Inr p \<Rightarrow> p | Inl _ \<Rightarrow> prev), y) else (Done, prev, ?x))"
    using b y by (cases b; cases l) (simp_all add: item_turn_def r Let_def)
  have fr: "queue_frame w ?x" "queue_frame w y"
    using pd(1) px py queue_frame_trans by blast+
  show "queue_frame w v" using assms fr pd(1) unfolding run by (auto split: if_splits)
  show "t = Skip \<Longrightarrow> sq_action item = ''user_action_required''"
    using assms unfolding run by (auto split: if_splits)
  show "t = Leave \<Longrightarrow> \<not> ss_queue_paused (db_sync_settings (w_db w)) \<Longrightarrow> late_seen stop_by v"
    using assms pd(2) b unfolding run by (auto split: if_splits)
  assume d: "t = Done" "item_known w item" "no_quiescing w"
  then have "not_pending (sq_id item) ?x"
    using process_strict [OF known_frame [OF pd(1)] no_quiescing_frame [OF pd(1)], of item b3] assms
    unfolding run by (auto split: if_splits)
  then show "not_pending (sq_id item) v"
    using assms d(1) not_pending_frame [OF py] unfolding run by (auto split: if_splits)
qed

lemma set_drop_or: "g \<in> set gs \<Longrightarrow> k < length gs \<Longrightarrow> g = gs ! k \<or> g \<in> set (drop_nth k gs)"
  by (subst (asm) id_take_nth_drop [of k gs]) (auto simp: drop_nth_def)

lemma set_update_or: "g \<in> set gs \<Longrightarrow> k < length gs \<Longrightarrow> g = gs ! k \<or> g \<in> set (gs[k := x])"
  by (metis in_set_conv_nth length_list_update nth_list_update_neq nth_mem)

definition settled :: "int option \<Rightarrow> sync_item \<Rightarrow> world \<Rightarrow> bool" where
  "settled stop_by i v = (sq_action i = ''user_action_required'' \<or> not_pending (sq_id i) v \<or> late_seen stop_by v)"

lemma settled_frame: "queue_frame v u \<Longrightarrow> settled d i v \<Longrightarrow> settled d i u"
  unfolding settled_def using not_pending_frame late_frame by blast

lemma run_groups_spec:
  "run_groups b3 has_bus stop_by pick n gs count prev w = (c, prev', v) \<Longrightarrow>
     queue_frame w v \<and>
     (\<not> ss_queue_paused (db_sync_settings (w_db w)) \<longrightarrow> no_quiescing w \<longrightarrow>
       (\<forall>g \<in> set gs. \<forall>i \<in> set g. item_known w i \<longrightarrow> settled stop_by i v))"
proof (induction b3 has_bus stop_by pick n gs count prev w arbitrary: c prev' v rule: run_groups.induct)
  case (1 b3 has_bus stop_by pick n gs count prev w)
  let ?k = "pick n mod length gs"
  note unf = run_groups.simps [of b3 has_bus stop_by pick n gs count prev w]
  show ?case
  proof (cases "gs = []")
    case True
    then show ?thesis using "1.prems" unfolding unf by simp
  next
    case ne: False
    then have k: "?k < length gs" by simp
    show ?thesis
    proof (cases "gs ! ?k")
      case Nil
      have "run_groups b3 has_bus stop_by pick (Suc n) (drop_nth ?k gs) count prev w = (c, prev', v)"
        using "1.prems" ne Nil by (simp add: unf Let_def)
      from "1.IH"(1) [OF ne refl Nil this] show ?thesis
        using set_drop_or [OF _ k] Nil by fastforce
    next
      case (Cons i rest)
      obtain t p u where t: "item_turn b3 has_bus stop_by prev i w = (t, p, u)" by (metis prod_cases3)
      note turn = item_turn_spec [OF t]
      have calm: "\<not> ss_queue_paused (db_sync_settings (w_db u))" "no_quiescing u"
        if "\<not> ss_queue_paused (db_sync_settings (w_db w))" "no_quiescing w"
        using turn(1) that no_quiescing_frame [OF turn(1)] by (auto simp: queue_frame_def)
      show ?thesis
      proof (cases t)
        case Leave
        have "run_groups b3 has_bus stop_by pick (Suc n) (drop_nth ?k gs) count p u = (c, prev', v)"
          using "1.prems" ne Cons t Leave by (simp add: unf Let_def)
        note ih = "1.IH"(3) [OF ne refl Cons t [symmetric] refl Leave this]
        then have fr: "queue_frame w v" using turn(1) queue_frame_trans by blast
        have "settled stop_by j v" if "\<not> ss_queue_paused (db_sync_settings (w_db w))" for j
          using turn(3) [OF Leave that] late_frame ih by (auto simp: settled_def)
        with fr show ?thesis by blast
      next
        case Skip
        have "run_groups b3 has_bus stop_by pick (Suc n) (gs[?k := rest]) count p u = (c, prev', v)"
          using "1.prems" ne Cons t Skip by (simp add: unf Let_def)
        note ih = "1.IH"(2) [OF ne refl Cons t [symmetric] refl Skip this]
        have i: "settled stop_by i v" using turn(2) [OF Skip] by (simp add: settled_def)
        have upd: "rest \<in> set (gs[?k := rest])" using k by (simp add: set_update_memI)
        show ?thesis
          using ih turn(1) queue_frame_trans calm i upd known_frame [OF turn(1)] set_update_or [OF _ k] Cons
          by (metis set_ConsD)
      next
        case Done
        have "run_groups b3 has_bus stop_by pick (Suc n) (gs[?k := rest]) (Suc count) p u = (c, prev', v)"
          using "1.prems" ne Cons t Done by (simp add: unf Let_def)
        note ih = "1.IH"(4) [OF ne refl Cons t [symmetric] refl Done this]
        have i: "settled stop_by i v" if "item_known w i" "no_quiescing w"
          using turn(4) [OF Done that] ih not_pending_frame by (auto simp: settled_def)
        have upd: "rest \<in> set (gs[?k := rest])" using k by (simp add: set_update_memI)
        show ?thesis
          using ih turn(1) queue_frame_trans calm i upd known_frame [OF turn(1)] set_update_or [OF _ k] Cons
          by (metis set_ConsD)
      qed
    qed
  qed
qed


subsection \<open>The loop ends\<close>

definition pending_count :: "world \<Rightarrow> nat" where
  "pending_count w = length (filter (\<lambda>q. sq_status q = ''pending'') (db_queue (w_db w)))"

lemma pending_steps:
  "list_all2 item_step qs rs \<Longrightarrow>
     length (filter (\<lambda>q. sq_status q = ''pending'') rs) \<le> length (filter (\<lambda>q. sq_status q = ''pending'') qs)"
  by (induction rule: list_all2_induct) (auto simp: item_step_def)

lemma pending_steps_strict:
  "list_all2 item_step qs rs \<Longrightarrow> q \<in> set qs \<Longrightarrow> sq_status q = ''pending'' \<Longrightarrow>
     \<forall>r \<in> set rs. sq_id r = sq_id q \<longrightarrow> sq_status r \<noteq> ''pending'' \<Longrightarrow>
     length (filter (\<lambda>q. sq_status q = ''pending'') rs) < length (filter (\<lambda>q. sq_status q = ''pending'') qs)"
proof (induction rule: list_all2_induct)
  case (Cons a as b bs)
  show ?case
  proof (cases "q = a")
    case True
    then show ?thesis
      using Cons pending_steps [OF Cons(2)] by (auto simp: item_step_def)
  next
    case False
    then show ?thesis using Cons by (auto simp: item_step_def)
  qed
qed simp

lemma group_member:
  assumes "x \<in> set page"
  shows "\<exists>g \<in> set (group_by_pair page). snd x \<in> set g"
  using assms unfolding group_by_pair_def by (intro bexI [of _ "map snd (filter (\<lambda>y. fst y = fst x) page)"]) auto

lemma late_past: "late_seen d w \<Longrightarrow> mono (w_instants w) \<Longrightarrow> \<exists>v. past_deadline d w = (Inr True, v)"
  by (auto simp: late_seen_def past_deadline_def instant_now_def bind_m_def)
    (metis less_imp_le monoD order_trans)

lemma page_pending: "x \<in> set (fair_page n (pending_with_pair d)) \<Longrightarrow>
    snd x \<in> set (db_queue d) \<and> sq_status (snd x) = ''pending''"
  using fair_order_set [of "pending_with_pair d"] set_take_subset [of n "map snd (fair_order (pending_with_pair d))"]
  by (auto simp: fair_page_def pending_with_pair_def)

text \<open>One round, in the order of its tests.\<close>

lemma drain_round_run:
  "drain_round b3 has_bus stop_by pick prev w =
     (let h = snd (heartbeat_sync_processing_lock w); late = past_deadline stop_by h;
          page = fair_page 1000 (pending_with_pair (w_db w)) in
      if ss_queue_paused (db_sync_settings (w_db w)) then (Inr (False, 0, prev), h)
      else if fst late = Inr True then (Inr (False, 0, prev), snd late)
      else if page = [] then (Inr (False, 0, prev), snd late)
      else (case run_groups b3 has_bus stop_by pick 0 (group_by_pair page) 0 prev (snd late) of
         (count, prev', v) \<Rightarrow> (Inr (\<not> list_all (\<lambda>(_, i). sq_action i = ''user_action_required'') page, count, prev'), v)))"
proof -
  have pd: "pending_with_pair (w_db (snd (past_deadline stop_by (snd (heartbeat_sync_processing_lock w))))) =
      pending_with_pair (w_db w)"
    by (simp add: heartbeat_sync_processing_lock_def pending_with_pair_def item_pair_def cong: map_cong)
  obtain b v where b: "past_deadline stop_by (snd (heartbeat_sync_processing_lock w)) = (Inr b, v)"
    using past_deadline_Inr [of stop_by "snd (heartbeat_sync_processing_lock w)"] by (metis prod.collapse)
  have h: "heartbeat_sync_processing_lock w = (Inr (), snd (heartbeat_sync_processing_lock w))"
    "ss_queue_paused (db_sync_settings (w_db (snd (heartbeat_sync_processing_lock w)))) =
       ss_queue_paused (db_sync_settings (w_db w))"
    by (simp_all add: heartbeat_sync_processing_lock_def)
  show ?thesis
    using pd unfolding drain_round_def seq_m_ok [where m = heartbeat_sync_processing_lock, OF h(1)]
    by (simp add: get_sync_queue_paused_def h(2) b bind_m_ok [where m = "past_deadline stop_by", OF b] Let_def
        bind_m_ok [where m = "list_pending_sync_queue_with_drive_pair n" for n, OF list_pending_run] queue_page_size_def
        split: if_splits)
qed

lemma frame_heartbeat: "queue_frame w (snd (heartbeat_sync_processing_lock w))"
  by (simp add: heartbeat_sync_processing_lock_def queue_frame_def list_all2_refl)


definition all_known :: "world \<Rightarrow> bool" where
  "all_known w = (\<forall>q \<in> set (db_queue (w_db w)). sq_status q = ''pending'' \<longrightarrow> item_known w q)"

lemma item_known_cong: "sq_tracked_file_id a = sq_tracked_file_id b \<Longrightarrow> item_known w a = item_known w b"
  by (simp add: item_known_def)

lemma all_known_frame:
  assumes "queue_frame w v" "all_known w"
  shows "all_known v"
proof -
  have "list_all2 item_step qs rs \<Longrightarrow> r \<in> set rs \<Longrightarrow> sq_status r = ''pending'' \<Longrightarrow>
      \<exists>q \<in> set qs. sq_status q = ''pending'' \<and> sq_tracked_file_id q = sq_tracked_file_id r" for qs rs r
    by (induction rule: list_all2_induct) (auto simp: item_step_def)
  then show ?thesis
    using assms known_frame [OF assms(1)] item_known_cong unfolding all_known_def queue_frame_def by metis
qed

lemma drain_round_frame:
  assumes "drain_round b3 has_bus stop_by pick prev w = (r, v)"
  shows "queue_frame w v" "\<exists>x. r = Inr x"
proof -
  let ?h = "snd (heartbeat_sync_processing_lock w)"
  obtain a u where u: "past_deadline stop_by ?h = (a, u)" by fastforce
  obtain c p x where x: "run_groups b3 has_bus stop_by pick 0
      (group_by_pair (fair_page 1000 (pending_with_pair (w_db w)))) 0 prev u = (c, p, x)" by (metis prod_cases3)
  have fr: "queue_frame w ?h" "queue_frame w u" "queue_frame w x"
    using frame_heartbeat past_deadline_spec(1) [OF u] run_groups_spec [OF x] queue_frame_trans by blast+
  show "queue_frame w v" "\<exists>x. r = Inr x"
    using assms fr unfolding drain_round_run by (auto simp: Let_def u x split: if_splits)
qed

lemma drain_round_progress:
  assumes "drain_round b3 has_bus stop_by pick prev w = (Inr (True, c, p), v)" "no_quiescing w" "all_known w"
  shows "pending_count v < pending_count w \<or> late_seen stop_by v"
proof -
  let ?h = "snd (heartbeat_sync_processing_lock w)"
  let ?page = "fair_page 1000 (pending_with_pair (w_db w))"
  obtain a u where u: "past_deadline stop_by ?h = (a, u)" by fastforce
  have r: "run_groups b3 has_bus stop_by pick 0 (group_by_pair ?page) 0 prev u = (c, p, v)"
    "\<not> list_all (\<lambda>(_, i). sq_action i = ''user_action_required'') ?page" "\<not> ss_queue_paused (db_sync_settings (w_db w))"
    using assms(1) unfolding drain_round_run by (auto simp: Let_def u split: if_splits prod.splits)
  obtain x where x: "x \<in> set ?page" "sq_action (snd x) \<noteq> ''user_action_required''"
    using r(2) by (auto simp: list_all_iff)
  note pend = page_pending [OF x(1)]
  have fr: "queue_frame w u"
    using frame_heartbeat past_deadline_spec(1) [OF u] queue_frame_trans by blast
  have "\<not> ss_queue_paused (db_sync_settings (w_db u))" "no_quiescing u" "item_known u (snd x)"
    using fr r(3) assms(2,3) pend no_quiescing_frame [OF fr] known_frame [OF fr]
    by (auto simp: queue_frame_def all_known_def)
  then have "settled stop_by (snd x) v" and uv: "queue_frame u v"
    using run_groups_spec [OF r(1)] group_member [OF x(1)] by auto
  then have "not_pending (sq_id (snd x)) v \<or> late_seen stop_by v"
    using x(2) by (simp add: settled_def)
  moreover have "list_all2 item_step (db_queue (w_db w)) (db_queue (w_db v))"
    using queue_frame_trans [OF fr uv] by (simp add: queue_frame_def)
  ultimately show ?thesis
    using pending_steps_strict [of _ _ "snd x"] pend by (auto simp: pending_count_def not_pending_def)
qed

lemma pending_frame: "queue_frame w v \<Longrightarrow> pending_count v \<le> pending_count w"
  by (simp add: pending_count_def queue_frame_def pending_steps)

text \<open>
  The rounds left: one per pending item, one to find the page empty, and one more once the deadline has
  been seen. A finished loop with no deadline stopped on a page that only holds items for the user.
\<close>

definition only_user_items :: "world \<Rightarrow> bool" where
  "only_user_items v = list_all (\<lambda>(_, i). sq_action i = ''user_action_required'') (fair_page 1000 (pending_with_pair (w_db v)))"

lemma drain_late:
  assumes "late_seen stop_by w" "mono (w_instants w)"
  shows "\<exists>v. drain (Suc n) b3 has_bus stop_by picks r prev k w = Some (Inr k, v) \<and> queue_frame w v"
proof -
  let ?h = "snd (heartbeat_sync_processing_lock w)"
  have "late_seen stop_by ?h" "mono (w_instants ?h)"
    using assms late_frame [OF frame_heartbeat] by (simp_all add: heartbeat_sync_processing_lock_def)
  then obtain u where u: "past_deadline stop_by ?h = (Inr True, u)" using late_past by blast
  have fr: "queue_frame w ?h" "queue_frame w u"
    using frame_heartbeat past_deadline_spec(1) [OF u] queue_frame_trans by blast+
  then show ?thesis by (simp add: drain_round_run Let_def u)
qed

lemma drain_ends:
  assumes "no_quiescing w" "all_known w" "mono (w_instants w)" "pending_count w + 2 \<le> fuel"
  shows "\<exists>n v. drain fuel b3 has_bus stop_by picks r prev k w = Some (Inr n, v) \<and> queue_frame w v"
  using assms
proof (induction fuel arbitrary: w r prev k)
  case (Suc fuel)
  obtain res v where d: "drain_round b3 has_bus stop_by (picks r) prev w = (res, v)" by fastforce
  note fr = drain_round_frame [OF d]
  obtain again c p where res: "res = Inr (again, c, p)" using fr(2) by (metis prod_cases3)
  show ?case
  proof (cases again)
    case False
    then show ?thesis using d res fr(1) by simp
  next
    case True
    have "drain_round b3 has_bus stop_by (picks r) prev w = (Inr (True, c, p), v)"
      using d res True by simp
    note step = drain_round_progress [OF this Suc.prems(1,2)]
    have inv: "no_quiescing v" "all_known v" "mono (w_instants v)"
      using Suc.prems fr(1) no_quiescing_frame all_known_frame by (blast, blast, simp add: queue_frame_def)
    have "\<exists>n u. drain fuel b3 has_bus stop_by picks (Suc r) p (k + c) v = Some (Inr n, u) \<and> queue_frame v u"
    proof (cases "late_seen stop_by v")
      case True
      obtain f where "fuel = Suc f" using Suc.prems(4) by (cases fuel) auto
      then show ?thesis using drain_late [OF True inv(3)] by blast
    next
      case False
      then show ?thesis using step Suc.IH [OF inv] Suc.prems(4) by auto
    qed
    then show ?thesis using d res True fr(1) queue_frame_trans by fastforce
  qed
qed simp


lemma run_groups_skip:
  "\<forall>g \<in> set gs. \<forall>i \<in> set g. sq_action i = ''user_action_required'' \<Longrightarrow>
     run_groups b3 has_bus stop_by pick n gs count prev w = (count, prev, w)"
proof (induction b3 has_bus stop_by pick n gs count prev w rule: run_groups.induct)
  case (1 b3 has_bus stop_by pick n gs count prev w)
  let ?k = "pick n mod length gs"
  note unf = run_groups.simps [of b3 has_bus stop_by pick n gs count prev w]
  show ?case
  proof (cases "gs = []")
    case True
    then show ?thesis unfolding unf by simp
  next
    case ne: False
    then have k: "?k < length gs" by simp
    show ?thesis
    proof (cases "gs ! ?k")
      case Nil
      have "set (drop_nth ?k gs) \<subseteq> set gs"
        using set_take_subset set_drop_subset by (fastforce simp: drop_nth_def)
      then show ?thesis
        using "1.IH"(1) [OF ne refl Nil] "1.prems" ne Nil unfolding unf by (auto simp: Let_def)
    next
      case (Cons i rest)
      have i: "item_turn b3 has_bus stop_by prev i w = (Skip, prev, w)"
        using "1.prems" nth_mem [OF k] Cons by (auto simp: item_turn_def)
      have "\<forall>g \<in> set (gs[?k := rest]). \<forall>i \<in> set g. sq_action i = ''user_action_required''"
        using "1.prems" nth_mem [OF k] Cons by (fastforce dest: set_update_subset_insert [THEN subsetD])
      then show ?thesis
        using "1.IH"(2) [OF ne refl Cons i [symmetric] refl refl] ne Cons i unfolding unf by (simp add: Let_def)
    qed
  qed
qed

lemma group_items: "g \<in> set (group_by_pair page) \<Longrightarrow> i \<in> set g \<Longrightarrow> i \<in> snd ` set page"
  by (auto simp: group_by_pair_def)

lemma drain_round_stop:
  assumes "drain_round b3 has_bus None pick prev w = (Inr (False, c, p), v)" "\<not> ss_queue_paused (db_sync_settings (w_db w))"
  shows "only_user_items v"
proof -
  let ?h = "snd (heartbeat_sync_processing_lock w)"
  let ?page = "fair_page 1000 (pending_with_pair (w_db w))"
  have pd: "pending_with_pair (w_db ?h) = pending_with_pair (w_db w)"
    by (simp add: heartbeat_sync_processing_lock_def pending_with_pair_def item_pair_def cong: map_cong)
  show ?thesis
  proof (cases "?page = []")
    case True
    then have "v = ?h" using assms unfolding drain_round_run by (simp add: Let_def)
    then show ?thesis using True pd by (simp add: only_user_items_def)
  next
    case False
    then have r: "run_groups b3 has_bus None pick 0 (group_by_pair ?page) 0 prev ?h = (c, p, v)"
      "list_all (\<lambda>(_, i). sq_action i = ''user_action_required'') ?page"
      using assms unfolding drain_round_run by (auto simp: Let_def split: prod.splits)
    have "run_groups b3 has_bus None pick 0 (group_by_pair ?page) 0 prev ?h = (0, prev, ?h)"
      by (rule run_groups_skip) (use r(2) in \<open>auto dest!: group_items simp: list_all_iff\<close>)
    then show ?thesis using r pd by (simp add: only_user_items_def)
  qed
qed

lemma drain_result_user:
  "drain fuel b3 has_bus None picks r prev k w = Some (Inr n, v) \<Longrightarrow>
     \<not> ss_queue_paused (db_sync_settings (w_db w)) \<Longrightarrow> only_user_items v"
proof (induction fuel arbitrary: w r prev k)
  case (Suc fuel)
  obtain res u where d: "drain_round b3 has_bus None (picks r) prev w = (res, u)" by fastforce
  note fr = drain_round_frame [OF d]
  obtain again c p where res: "res = Inr (again, c, p)" using fr(2) by (metis prod_cases3)
  have "\<not> ss_queue_paused (db_sync_settings (w_db u))" using fr(1) Suc.prems(2) by (simp add: queue_frame_def)
  then show ?case
    using Suc.IH [of "Suc r" p "k + c" u] Suc.prems drain_round_stop [of b3 has_bus "picks r" prev w c p u] d res
    by (cases again) simp_all
qed simp

lemma release_run: "release_sync_processing_lock w = (Inr (), snd (release_sync_processing_lock w))"
  by (simp add: release_sync_processing_lock_def)

lemma release_pending:
  "pending_with_pair (w_db (snd (release_sync_processing_lock w))) = pending_with_pair (w_db w)"
  "ss_processing_locked_at (db_sync_settings (w_db (snd (release_sync_processing_lock w)))) = None"
  "ss_processing_locked_by_pid (db_sync_settings (w_db (snd (release_sync_processing_lock w)))) = None"
  by (simp_all add: release_sync_processing_lock_def pending_with_pair_def item_pair_def cong: map_cong)

text \<open>The start of a run: the lock taken, the items left in progress pending again.\<close>

definition run_start :: "world \<Rightarrow> world" where
  "run_start w = snd (requeue_in_progress_sync_queue (snd (try_acquire_sync_processing_lock 300 w)))"

lemma process_all_pending_run:
  "process_all_pending fuel b3 picks d has_bus w =
     (if fst (try_acquire_sync_processing_lock 300 w) = Inr True
      then map_option (\<lambda>(res, x). (res, snd (release_sync_processing_lock x)))
          (drain fuel b3 has_bus d picks 0 None 0 (run_start w))
      else Some (Inr 0, w))"
proof -
  have "(\<exists>v. try_acquire_sync_processing_lock 300 w = (Inr True, v)) \<or>
      try_acquire_sync_processing_lock 300 w = (Inr False, w)"
    by (simp add: try_acquire_sync_processing_lock_def Let_def)
  then show ?thesis
    by (elim disjE exE) (simp_all add: process_all_pending_def lock_stale_after_def run_start_def
        requeue_in_progress_sync_queue_def update_queue_counted_def)
qed

lemma run_start_parts:
  "db_pairs (w_db (run_start w)) = db_pairs (w_db w)" "db_files (w_db (run_start w)) = db_files (w_db w)"
  "ss_queue_paused (db_sync_settings (w_db (run_start w))) = ss_queue_paused (db_sync_settings (w_db w))"
  "w_instants (run_start w) = w_instants w"
  "db_queue (w_db (run_start w)) = upd_where (\<lambda>q. sq_status q = ''in_progress'')
     (\<lambda>q. q\<lparr>sq_status := ''pending'', sq_error_message := None, sq_completed_at := None\<rparr>) (db_queue (w_db w))"
  by (simp_all add: run_start_def requeue_in_progress_sync_queue_def update_queue_counted_def update_queue_def
      try_acquire_sync_processing_lock_def Let_def)

lemma run_start_pending: "int (pending_count (run_start w)) = count_where is_active (db_queue (w_db w))"
proof -
  have "length (filter (\<lambda>q. sq_status q = ''pending'') (upd_where (\<lambda>q. sq_status q = ''in_progress'')
     (\<lambda>q. q\<lparr>sq_status := ''pending'', sq_error_message := None, sq_completed_at := None\<rparr>) qs)) = length (filter is_active qs)" for qs
    by (induction qs) (auto simp: is_active_def)
  then show ?thesis by (simp add: pending_count_def run_start_parts count_where_def)
qed

lemma run_start_known:
  assumes "\<forall>q \<in> set (db_queue (w_db w)). is_active q \<longrightarrow> item_known w q" 
  shows "all_known (run_start w)"
proof -
  let ?g = "\<lambda>q. q\<lparr>sq_status := ''pending'', sq_error_message := None, sq_completed_at := None\<rparr> :: sync_item"
  have k: "item_known w (?g q) = item_known w q" "item_known (run_start w) q = item_known w q" for q
    by (simp_all add: item_known_def run_start_parts)
  show ?thesis unfolding all_known_def run_start_parts set_upd_where k(2)
  proof (intro ballI impI)
    fix x assume "x \<in> (\<lambda>q. if sq_status q = ''in_progress'' then ?g q else q) ` set (db_queue (w_db w))"
      and p: "sq_status x = ''pending''"
    then obtain q where q: "q \<in> set (db_queue (w_db w))" "x = (if sq_status q = ''in_progress'' then ?g q else q)" by blast
    have "is_active q" using q(2) p by (auto simp: is_active_def split: if_splits)
    then show "item_known w x" using assms q k(1) by auto
  qed
qed

end
