(* ===== verification/Queue_Loop.thy ===== *)
theory Queue_Loop
  imports Queue_Drain
begin

section \<open>When the processing loop ends\<close>

subsection \<open>Items of a quiescing pair\<close>

lemma quiescing_not_ready: "is_quiescing p \<Longrightarrow> \<not> failover_ready f p"
  using ready_states [of f p Primary] ready_states [of f p Secondary] by (auto simp: is_quiescing_def)

lemma process_quiescing:
  assumes "find (\<lambda>f. tf_id f = sq_tracked_file_id item) (db_files (w_db w)) = Some f"
    "pair_row (tf_drive_pair_id f) w = Some p" "is_quiescing p"
  shows "process_item b3 item w = (Inr (), w)"
  using assms
  by (simp add: process_item_def files.bind_get
      bind_m_ok [where m = "load_operational_pair i" for i, OF load_not_ready [OF assms(2) quiescing_not_ready [OF assms(3)]]])

lemma fair_page_length: "length (fair_page n xs) = min n (length xs)"
  using arg_cong [OF ranked_snd [of "[]" xs], of length] by (simp add: fair_page_def fair_order_def)

text \<open>The file of the item belongs to a pair that is quiescing.\<close>

definition held_back :: "db \<Rightarrow> sync_item \<Rightarrow> bool" where
  "held_back d i = (case find (\<lambda>f. tf_id f = sq_tracked_file_id i) (db_files d) of
       None \<Rightarrow> False
     | Some f \<Rightarrow> (case find (\<lambda>p. dp_id p = tf_drive_pair_id f) (db_pairs d) of
         None \<Rightarrow> False | Some p \<Rightarrow> is_quiescing p))"

lemma process_held_back: "held_back (w_db w) i \<Longrightarrow> process_item b3 i w = (Inr (), w)"
  by (auto simp: held_back_def pair_row_def intro!: process_quiescing split: option.splits)

lemma held_back_cong:
  "db_files d = db_files e \<Longrightarrow> db_pairs d = db_pairs e \<Longrightarrow> held_back d i = held_back e i"
  unfolding held_back_def by (simp cong: option.case_cong)

lemma publish_db: "w_db (snd (try_publish_queue_progress prev w)) = w_db w"
  by (simp add: try_publish_queue_progress_def instant_now_def bind_m_def seq_m_def publish_snapshot_def snapshot_def Let_def)

lemma publish_now: "w_now (snd (try_publish_queue_progress prev w)) = w_now w"
  by (simp add: try_publish_queue_progress_def instant_now_def bind_m_def seq_m_def publish_snapshot_def snapshot_def Let_def)

lemma run_groups_held_back:
  "\<forall>g \<in> set gs. \<forall>i \<in> set g. held_back (w_db w) i \<Longrightarrow>
     run_groups b3 has_bus None pick n gs count prev w = (c, prev', v) \<Longrightarrow>
     w_db v = w_db w \<and> w_now v = w_now w"
proof (induction b3 has_bus "None :: int option" pick n gs count prev w arbitrary: c prev' v rule: run_groups.induct)
  case (1 b3 has_bus pick n gs count prev w)
  let ?k = "pick n mod length gs"
  note unf = run_groups.simps [of b3 has_bus None pick n gs count prev w]
  show ?case
  proof (cases "gs = []")
    case True
    then show ?thesis using "1.prems" unfolding unf by simp
  next
    case ne: False
    then have k: "?k < length gs" by simp
    have drop: "set (drop_nth ?k gs) \<subseteq> set gs"
      using set_take_subset set_drop_subset by (fastforce simp: drop_nth_def)
    show ?thesis
    proof (cases "gs ! ?k")
      case Nil
      then show ?thesis
        using "1.hyps"(1) [OF ne refl Nil] "1.prems" ne drop unfolding unf by (auto simp: Let_def)
    next
      case (Cons i rest)
      have i: "held_back (w_db w) i" using "1.prems"(1) nth_mem [OF k] Cons by auto
      obtain t p u where t: "item_turn b3 has_bus None prev i w = (t, p, u)" by (metis prod_cases3)
      obtain l y where y: "try_publish_queue_progress prev w = (l, y)" by fastforce
      have u: "w_db u = w_db w" "w_now u = w_now w"
        using t publish_db [of prev w] publish_now [of prev w] unfolding item_turn_def
        by (auto simp: process_held_back [OF i] y split: if_splits sum.splits)
      have sub: "\<forall>g \<in> set (gs[?k := rest]). \<forall>i \<in> set g. held_back (w_db w) i"
        using "1.prems"(1) nth_mem [OF k] Cons by (fastforce dest: set_update_subset_insert [THEN subsetD])
      show ?thesis
      proof (cases t)
        case Leave
        have r: "run_groups b3 has_bus None pick (Suc n) (drop_nth ?k gs) count p u = (c, prev', v)"
          using "1.prems"(2) ne Cons t Leave unfolding unf by (simp add: Let_def)
        have "\<forall>g \<in> set (drop_nth ?k gs). \<forall>i \<in> set g. held_back (w_db u) i"
          using "1.prems"(1) drop u by auto
        then show ?thesis using "1.hyps"(3) [OF ne refl Cons t [symmetric] refl Leave _ r] u by simp
      next
        case Skip
        have r: "run_groups b3 has_bus None pick (Suc n) (gs[?k := rest]) count p u = (c, prev', v)"
          using "1.prems"(2) ne Cons t Skip unfolding unf by (simp add: Let_def)
        then show ?thesis using "1.hyps"(2) [OF ne refl Cons t [symmetric] refl Skip _ r] sub u by simp
      next
        case Done
        have r: "run_groups b3 has_bus None pick (Suc n) (gs[?k := rest]) (Suc count) p u = (c, prev', v)"
          using "1.prems"(2) ne Cons t Done unfolding unf by (simp add: Let_def)
        then show ?thesis using "1.hyps"(4) [OF ne refl Cons t [symmetric] refl Done _ r] sub u by simp
      qed
    qed
  qed
qed

definition stuck :: "world \<Rightarrow> bool" where
  "stuck w = (\<not> ss_queue_paused (db_sync_settings (w_db w)) \<and> \<not> only_user_items w
     \<and> (\<forall>q \<in> set (db_queue (w_db w)). sq_status q = ''pending'' \<longrightarrow> held_back (w_db w) q))"

lemma beat_parts:
  "db_queue (w_db (snd (heartbeat_sync_processing_lock w))) = db_queue (w_db w)"
  "db_files (w_db (snd (heartbeat_sync_processing_lock w))) = db_files (w_db w)"
  "db_pairs (w_db (snd (heartbeat_sync_processing_lock w))) = db_pairs (w_db w)"
  "ss_queue_paused (db_sync_settings (w_db (snd (heartbeat_sync_processing_lock w)))) = ss_queue_paused (db_sync_settings (w_db w))"
  by (simp_all add: heartbeat_sync_processing_lock_def)

lemma stuck_cong:
  assumes "db_queue (w_db v) = db_queue (w_db w)" "db_files (w_db v) = db_files (w_db w)"
    "db_pairs (w_db v) = db_pairs (w_db w)"
    "ss_queue_paused (db_sync_settings (w_db v)) = ss_queue_paused (db_sync_settings (w_db w))"
  shows "stuck v = stuck w"
  using assms held_back_cong [OF assms(2,3)]
  by (simp add: stuck_def only_user_items_def pending_with_pair_def item_pair_def)

lemma stuck_round:
  assumes "stuck w" "drain_round b3 has_bus None pick prev w = (r, v)"
  shows "(\<exists>c p. r = Inr (True, c, p)) \<and> stuck v"
proof -
  let ?h = "snd (heartbeat_sync_processing_lock w)"
  let ?page = "fair_page 1000 (pending_with_pair (w_db w))"
  obtain c p x where x: "run_groups b3 has_bus None pick 0 (group_by_pair ?page) 0 prev ?h = (c, p, x)" by (metis prod_cases3)
  have "\<forall>g \<in> set (group_by_pair ?page). \<forall>i \<in> set g. held_back (w_db ?h) i"
  proof (intro ballI)
    fix g i assume "g \<in> set (group_by_pair ?page)" "i \<in> set g"
    then obtain y where y: "y \<in> set ?page" "i = snd y" using group_items by blast
    from page_pending [OF y(1)] assms(1) have "held_back (w_db w) i" by (simp add: stuck_def y(2))
    then show "held_back (w_db ?h) i" using held_back_cong [of "w_db ?h" "w_db w" i] by (simp add: beat_parts)
  qed
  from run_groups_held_back [OF this x] have "w_db x = w_db ?h" by simp
  then have "stuck x" using assms(1) by (subst stuck_cong [of _ w]) (simp_all add: beat_parts)
  moreover have "?page \<noteq> []" "\<not> list_all (\<lambda>(_, i). sq_action i = ''user_action_required'') ?page"
    using assms(1) by (auto simp: stuck_def only_user_items_def)
  ultimately show ?thesis
    using assms x unfolding drain_round_run by (auto simp: Let_def stuck_def)
qed

lemma stuck_drain: "stuck w \<Longrightarrow> drain fuel b3 has_bus None picks r prev k w = None"
proof (induction fuel arbitrary: w r prev k)
  case (Suc fuel)
  obtain res v where d: "drain_round b3 has_bus None (picks r) prev w = (res, v)" by fastforce
  show ?case using stuck_round [OF Suc.prems d] Suc.IH d by auto
qed simp

text \<open>A quiescing pair makes the loop run for ever. When the lock can be taken, the queue is not paused,
  there is no deadline, and every unfinished item belongs to a quiescing pair, processing returns for no
  number of rounds: items of such a pair are skipped and stay pending, and the test that ends the loop
  only knows the items that wait for the user.\<close>

theorem quiescing_pair_blocks_the_loop:
  assumes "fst (try_acquire_sync_processing_lock 300 w) = Inr True"
    "\<not> ss_queue_paused (db_sync_settings (w_db w))"
    "\<forall>q \<in> set (db_queue (w_db w)). is_active q \<longrightarrow> held_back (w_db w) q \<and> sq_action q \<noteq> ''user_action_required''"
    "\<exists>q \<in> set (db_queue (w_db w)). is_active q"
  shows "process_all_pending fuel b3 picks None has_bus w = None"
proof -
  let ?u = "run_start w"
  let ?g = "\<lambda>q. q\<lparr>sq_status := ''pending'', sq_error_message := None, sq_completed_at := None\<rparr> :: sync_item"
  have h: "held_back (w_db ?u) (?g q) = held_back (w_db w) q" "held_back (w_db ?u) q = held_back (w_db w) q" for q
    by (simp_all add: held_back_def run_start_parts cong: option.case_cong)
  have all: "held_back (w_db ?u) x \<and> sq_action x \<noteq> ''user_action_required''"
    if x: "x \<in> set (db_queue (w_db ?u))" "sq_status x = ''pending''" for x
  proof -
    obtain q where q: "q \<in> set (db_queue (w_db w))" "x = (if sq_status q = ''in_progress'' then ?g q else q)"
      using x(1) unfolding run_start_parts set_upd_where by blast
    have "is_active q" using q(2) x(2) by (auto simp: is_active_def split: if_splits)
    then show ?thesis using assms(3) q h by auto
  qed
  have "0 < pending_count ?u"
    using run_start_pending [of w] assms(4) count_where_pos [of is_active "db_queue (w_db w)"] by simp
  then have "pending_with_pair (w_db ?u) \<noteq> []" by (auto simp: pending_count_def pending_with_pair_def)
  then have "0 < length (fair_page 1000 (pending_with_pair (w_db ?u)))" by (simp add: fair_page_length)
  then obtain y where y: "y \<in> set (fair_page 1000 (pending_with_pair (w_db ?u)))" using nth_mem by blast
  from all page_pending [OF y] have "\<not> only_user_items ?u"
    using y by (cases y) (auto simp: only_user_items_def list_all_iff)
  then have "stuck ?u" using all assms(2) by (simp add: stuck_def run_start_parts)
  then show ?thesis using assms(1) by (simp add: process_all_pending_run stuck_drain)
qed


text \<open>A world with one pending item for the file of one pair.\<close>

definition queued :: "drive_pair \<Rightarrow> string \<Rightarrow> world" where
  "queued p action = (let w = sample_world (dirs [''/a'', ''/b'']) p in
     w\<lparr>w_db := push_item (new_item 1 1 action None None 0) (w_db w)\<rparr>)"

lemma queued_sel:
  "w_instants (queued p a) = int" "db_queue (w_db (queued p a)) = [new_item 1 1 a None None 0]"
  "db_files (w_db (queued p a)) = [sample_file]" "db_pairs (w_db (queued p a)) = [p]"
  "\<not> ss_queue_paused (db_sync_settings (w_db (queued p a)))"
  "ss_processing_locked_at (db_sync_settings (w_db (queued p a))) = None"
  by (simp_all add: queued_def Let_def sample_world_eq push_item_def empty_db_def)

lemma queued_lock: "fst (try_acquire_sync_processing_lock 300 (queued p a)) = Inr True"
  by (simp add: try_acquire_sync_processing_lock_def queued_sel)

definition quiescing_pair :: drive_pair where
  "quiescing_pair = sample_pair\<lparr>dp_secondary_state := ''quiescing''\<rparr>"

lemma queued_rows:
  "\<not> is_quiescing sample_pair" "is_quiescing quiescing_pair" "dp_id sample_pair = 1" "dp_id quiescing_pair = 1"
  "tf_id sample_file = 1" "tf_drive_pair_id sample_file = 1"
  "sq_tracked_file_id (new_item k i a r e now) = i" "is_active (new_item k i a r e now)"
  "sq_action (new_item k i a r e now) = a"
  by (simp_all add: is_quiescing_def role_state_def sample_pair_def quiescing_pair_def state_from_str_def
      sample_file_def new_item_def is_active_def)

lemmas queued_simps = queued_sel queued_rows queued_lock no_quiescing_def item_known_def mono_def count_where_def
  held_back_def

text \<open>C14: the processing loop ends. With no quiescing pair, every unfinished item of a tracked file whose
  pair exists, and a monotone clock, processing returns an answer, never an error, for every interleaving of
  the threads, every deadline and with or without the bus: one round per unfinished item, and two more, are
  enough. If the run got the lock, the lock is free afterwards.\<close>

theorem drain_terminates:
  assumes "no_quiescing w" "\<forall>q \<in> set (db_queue (w_db w)). is_active q \<longrightarrow> item_known w q"
    "mono (w_instants w)" "nat (count_where is_active (db_queue (w_db w))) + 2 \<le> fuel"
  shows "\<exists>n v. process_all_pending fuel b3 picks stop_by has_bus w = Some (Inr n, v)
    \<and> (fst (try_acquire_sync_processing_lock 300 w) = Inr True \<longrightarrow>
         ss_processing_locked_at (db_sync_settings (w_db v)) = None
       \<and> ss_processing_locked_by_pid (db_sync_settings (w_db v)) = None)"
proof -
  have st: "no_quiescing (run_start w)" "all_known (run_start w)" "mono (w_instants (run_start w))"
    "pending_count (run_start w) + 2 \<le> fuel"
    using assms run_start_known [OF assms(2)] run_start_pending [of w]
    by (simp_all add: no_quiescing_def run_start_parts)
  from drain_ends [OF st] show ?thesis
    by (fastforce simp: process_all_pending_run release_pending)
qed

theorem drain_terminates_witness:
  "\<exists>n v. process_all_pending 3 plain_digest (\<lambda>_ _. 0) (Some 4) True (queued sample_pair ''mirror'') = Some (Inr n, v)"
proof -
  have "\<exists>n v. process_all_pending 3 plain_digest (\<lambda>_ _. 0) (Some 4) True (queued sample_pair ''mirror'') = Some (Inr n, v)
    \<and> (fst (try_acquire_sync_processing_lock 300 (queued sample_pair ''mirror'')) = Inr True \<longrightarrow>
         ss_processing_locked_at (db_sync_settings (w_db v)) = None
       \<and> ss_processing_locked_by_pid (db_sync_settings (w_db v)) = None)"
    by (rule drain_terminates)
      (simp_all add: queued_simps)
  then show ?thesis by blast
qed

text \<open>C15: nothing that can be processed is left behind. Under the same conditions, when the lock can be
  taken, the queue is not paused and there is no deadline, the page the run leaves pending holds only
  items that wait for the user.\<close>

theorem drain_finishes_everything:
  assumes "no_quiescing w" "\<forall>q \<in> set (db_queue (w_db w)). is_active q \<longrightarrow> item_known w q"
    "mono (w_instants w)" "nat (count_where is_active (db_queue (w_db w))) + 2 \<le> fuel"
    "fst (try_acquire_sync_processing_lock 300 w) = Inr True" "\<not> ss_queue_paused (db_sync_settings (w_db w))"
  shows "\<exists>n v. process_all_pending fuel b3 picks None has_bus w = Some (Inr n, v) \<and> only_user_items v"
proof -
  obtain n v where v: "process_all_pending fuel b3 picks None has_bus w = Some (Inr n, v)"
    using drain_terminates [OF assms(1-4)] by blast
  then obtain x where x: "drain fuel b3 has_bus None picks 0 None 0 (run_start w) = Some (Inr n, x)"
    "v = snd (release_sync_processing_lock x)"
    using assms(5) by (auto simp: process_all_pending_run)
  have "only_user_items x"
    using drain_result_user [OF x(1)] assms(6) by (simp add: run_start_parts)
  then show ?thesis using v x(2) by (simp add: only_user_items_def release_pending)
qed

theorem drain_finishes_everything_witness:
  "\<exists>n v. process_all_pending 3 plain_digest (\<lambda>_ _. 0) None False (queued sample_pair ''mirror'') = Some (Inr n, v)
     \<and> only_user_items v"
  by (rule drain_finishes_everything)
    (simp_all add: queued_simps)

theorem quiescing_pair_blocks_the_loop_witness:
  "process_all_pending 1000000 plain_digest (\<lambda>_ _. 0) None False (queued quiescing_pair ''mirror'') = None"
  by (rule quiescing_pair_blocks_the_loop)
    (simp_all add: queued_simps)

end
