(* ===== verification/Queue_Items.thy ===== *)
theory Queue_Items
  imports Queue_Drain
begin

section \<open>What processing an item does\<close>


subsection \<open>What one item does\<close>

definition item_status :: "int \<Rightarrow> world \<Rightarrow> string option" where
  "item_status i w = map_option sq_status (find (\<lambda>q. sq_id q = i) (db_queue (w_db w)))"

definition item_known_id :: "int \<Rightarrow> world \<Rightarrow> bool" where
  "item_known_id i w = (\<exists>q \<in> set (db_queue (w_db w)). sq_id q = i)"

lemma status_after:
  assumes "item_known_id i w" "s \<in> set status_names"
  shows "fst (update_sync_queue_status i s e w) = Inr ()" "item_status i (snd (update_sync_queue_status i s e w)) = Some s"
    "item_known_id i (snd (update_sync_queue_status i s e w))"
proof -
  have f: "find (\<lambda>q. sq_id q = i) (upd_where (\<lambda>q. sq_id q = i) (stamp_status s e now) qs) =
      map_option (stamp_status s e now) (find (\<lambda>q. sq_id q = i) qs)" for now qs
    by (induction qs) (auto simp: stamp_status_def)
  obtain q where q: "find (\<lambda>q. sq_id q = i) (db_queue (w_db w)) = Some q"
    using assms(1) by (cases "find (\<lambda>q. sq_id q = i) (db_queue (w_db w))") (auto simp: item_known_id_def find_None)
  show "fst (update_sync_queue_status i s e w) = Inr ()" "item_status i (snd (update_sync_queue_status i s e w)) = Some s"
    using assms q by (simp_all add: update_sync_queue_status_def update_queue_def item_status_def f stamp_status_def)
  have "find (\<lambda>q. sq_id q = i) (db_queue (w_db (snd (update_sync_queue_status i s e w)))) \<noteq> None"
    using assms q by (simp add: update_sync_queue_status_def update_queue_def f)
  then show "item_known_id i (snd (update_sync_queue_status i s e w))"
    by (auto simp: item_known_id_def find_None)
qed

text \<open>The queue stays as it is under everything an action and its bookkeeping do besides the status.\<close>

definition queue_is :: "sync_item list \<Rightarrow> world \<Rightarrow> bool" where
  "queue_is qs w = (db_queue (w_db w) = qs)"

lemma queue_is_put: "queue_is qs w \<Longrightarrow> queue_is qs (fs_put k n w)"
  by (simp add: queue_is_def)

lemma queue_is_logs [keeps]: "logs_only m \<Longrightarrow> keeps (queue_is qs) m"
  by (rule keepsI) (simp add: queue_is_def)

lemma queue_is_files [keeps]: "keeps (queue_is qs) (update_files P g)"
  by (simp add: keeps_def queue_is_def update_files_def)

lemma queue_is_runtime [keeps]: "keeps (queue_is qs) (update_drive_pair_runtime i pp sp ps ss ar)"
proof -
  have "keeps (queue_is qs) (update_pair i g)" for g
    by (simp add: keeps_def queue_is_def update_pair_def)
  then show ?thesis unfolding update_drive_pair_runtime_def
    by (intro keeps_seq opt_m_keeps_Some frame_check pairs.keeps_get)
qed

lemma queue_is_refresh [keeps]: "keeps (queue_is qs) (refresh_pair_virtual_paths p)"
  unfolding refresh_pair_virtual_paths_def
  by (intro keeps_bind keeps_return refresh_all_keeps queue_is_put)

lemma queue_is_finalize [keeps]: "keeps (queue_is qs) (maybe_finalize_rebuild_for_action i a)"
  unfolding maybe_finalize_rebuild_for_action_def mark_drive_pair_unmirrored_def update_tracked_file_mirror_status_def
  by (intro keeps_bind pairs.keeps_get keeps_option keeps_if keeps_return frame_list queue_is_runtime queue_is_files
      keeps_seq keeps_prod keeps_for keeps_discard queue_is_refresh queue_is_logs) simp_all

lemma queue_is_copies [keeps]:
  "keeps (queue_is qs) (mirror_file b3 p rel)"
  "keeps (queue_is qs) (restore_from_mirror b3 p rel e)"
  "keeps (queue_is qs) (restore_mirror_from_master b3 p rel e)"
  "keeps (queue_is qs) (checksum_file b3 path st)"
  by (rule mirror_keeps master_restore.restore_keeps mirror_restore.restore_keeps keeps_pure [OF checksum_pure];
      rule queue_is_put; assumption?)+

lemma queue_is_adopt [keeps]: "keeps (queue_is qs) (adopt_mirror b3 p f)"
proof (rule keepsI)
  fix v assume v: "queue_is qs v"
  have 1: "keeps (queue_is qs) (bind_m (with_context ''Failed to checksum standby file''
      (checksum_file b3 s Streaming)) (\<lambda>s. if s \<noteq> tf_checksum f then unit_m (mirror_file b3 p (tf_relative_path f)) else return_m ()))" for s
    by (intro keeps_bind keeps_with_context keeps_if keeps_return frame_unit_m queue_is_copies)
  have 2: "keeps (queue_is qs) (unit_m (mirror_file b3 p (tf_relative_path f)))"
    by (intro frame_unit_m queue_is_copies)
  show "queue_is qs (snd (adopt_mirror b3 p f v))"
    using keepsD [OF 1 v] keepsD [OF 2 v] by (simp add: adopt_mirror_def Let_def)
qed

lemma queue_is_action [keeps]: "keeps (queue_is qs) (run_action b3 a p f)"
  unfolding run_action_def
  by (intro keeps_if frame_as_result queue_is_copies keeps_seq queue_is_adopt keeps_return keeps_bind check_keeps keeps_bail)

lemma status_queue: "queue_is (db_queue (w_db v)) u \<Longrightarrow> item_status i u = item_status i v"
  by (simp add: item_status_def queue_is_def)

lemma known_queue: "queue_is (db_queue (w_db v)) u \<Longrightarrow> item_known_id i u = item_known_id i v"
  by (simp add: item_known_id_def queue_is_def)

lemma finish_status:
  assumes "item_known_id (sq_id item) w"
  shows "item_status (sq_id item) (snd (finish_item item f p r w)) =
    Some (case r of Inr _ \<Rightarrow> ''completed'' | Inl _ \<Rightarrow> ''failed'')"
proof -
  have tail: "item_status i (snd (seq_m (update_sync_queue_status i s e) m w)) = Some s"
    if k: "item_known_id i w" and "s \<in> set status_names" and m: "\<And>qs. keeps (queue_is qs) m" for i s e m
  proof -
    let ?v = "snd (update_sync_queue_status i s e w)"
    note st = status_after [OF k that(2)]
    have "seq_m (update_sync_queue_status i s e) m w = m ?v"
      using st(1) by (metis prod.collapse seq_m_ok)
    moreover have "queue_is (db_queue (w_db ?v)) (snd (m ?v))"
      by (rule keepsD [OF m]) (simp add: queue_is_def)
    ultimately show ?thesis using status_queue [of ?v "snd (m ?v)" i] st(2) [of e] by simp
  qed
  have ok: "keeps (queue_is qs) (seq_m (if sq_action item \<in> set copying_actions
                 then seq_m (update_tracked_file_mirror_status (tf_id f) True)
                        (discard (maybe_finalize_rebuild_for_action (dp_id p) (sq_action item)))
                 else return_m ())
         (seq_m (discard (log_sync_completed (tf_id f) (sq_action item) path))
         (if sq_action item = ''mirror'' \<or> sq_action item = ''adopt_mirror''
          then discard (log_file_mirrored (tf_id f) path (tf_checksum f))
          else return_m ())))" for path qs
    unfolding update_tracked_file_mirror_status_def
    by (intro keeps_seq keeps_if keeps_discard keeps_return queue_is_files queue_is_finalize queue_is_logs) simp_all
  have bad: "keeps (queue_is qs) (discard (log_sync_failed (tf_id f) (sq_action item) x path))" for x path qs
    by (intro keeps_discard queue_is_logs) simp_all
  show ?thesis
    using tail [OF assms _ ok] tail [OF assms _ bad]
    by (cases r) (simp_all add: finish_item_def Let_def status_names_def)
qed

text \<open>C16: what an item becomes. When the action answers Ok the item ends completed, when the copy of the
  action fails it ends failed; but when the action returns early (a failed verification, an unreadable
  standby copy, a failed mirroring of an adopted file) processing returns that error at once and the item
  stays in progress, to be requeued by every later run.\<close>

theorem process_item_outcome:
  assumes "find (\<lambda>f. tf_id f = sq_tracked_file_id item) (db_files (w_db w)) = Some f"
    "load_operational_pair (tf_drive_pair_id f) w = (Inr p, v)" "\<not> is_quiescing p"
    "sq_action item \<noteq> ''user_action_required''" "\<exists>q \<in> set (db_queue (w_db v)). sq_id q = sq_id item"
  shows "(case run_action b3 (sq_action item) p f (snd (update_sync_queue_status (sq_id item) ''in_progress'' None v)) of
      (Inr (Inr _), _) \<Rightarrow> item_status (sq_id item) (snd (process_item b3 item w)) = Some ''completed''
    | (Inr (Inl e), _) \<Rightarrow> item_status (sq_id item) (snd (process_item b3 item w)) = Some ''failed''
    | (Inl e, x) \<Rightarrow> process_item b3 item w = (Inl e, x)
        \<and> item_status (sq_id item) (snd (process_item b3 item w)) = Some ''in_progress'')"
proof -
  let ?i = "sq_id item"
  let ?u = "snd (update_sync_queue_status ?i ''in_progress'' None v)"
  have k: "item_known_id ?i v" using assms(5) by (simp add: item_known_id_def)
  note st = status_after [OF k, of "''in_progress''" None]
  have s: "update_sync_queue_status ?i ''in_progress'' None v = (Inr (), ?u)"
    using st(1) by (simp add: status_names_def prod_eq_iff)
  have st2: "item_status ?i ?u = Some ''in_progress''" "item_known_id ?i ?u"
    using st(2,3) by (simp_all add: status_names_def)
  obtain r x where r: "run_action b3 (sq_action item) p f ?u = (r, x)" by fastforce
  have "queue_is (db_queue (w_db ?u)) x"
    using keepsD [OF queue_is_action, of "db_queue (w_db ?u)" ?u b3 "sq_action item" p f] r by (simp add: queue_is_def)
  then have x: "item_status ?i x = Some ''in_progress''" "item_known_id ?i x"
    using st2 by (simp_all add: status_queue known_queue)
  have start: "process_item b3 item w = bind_m (run_action b3 (sq_action item) p f) (finish_item item f p) ?u"
    using assms(1,3,4)
    by (simp add: process_item_def files.bind_get bind_m_ok [where m = "load_operational_pair i" for i, OF assms(2)]
        seq_m_ok [where m = "update_sync_queue_status i s e" for i s e, OF s])
  have run: "process_item b3 item w = (case r of Inl e \<Rightarrow> (Inl e, x) | Inr res \<Rightarrow> finish_item item f p res x)"
    using r unfolding start by (simp add: bind_m_def)
  show ?thesis
    using r x finish_status [OF x(2)] by (auto simp: run split: sum.splits)
qed


subsection \<open>What success of an action means\<close>

lemma as_result_Inr: "as_result m w = (Inr (Inr ()), v) \<longleftrightarrow> (\<exists>x. m w = (Inr x, v))"
  by (auto simp: as_result_def try_m_def bind_m_def map_sum_def split: prod.splits sum.splits)

lemma verify_ok:
  assumes "streaming_hash b3" "check_file_integrity b3 p f s1 s2 w = (Inr res, v)" "ic_status res = IOk" "\<not> is_degraded p"
  shows "v = w \<and> copy_valid b3 w p Primary f \<and> copy_valid b3 w p Secondary f"
proof -
  have "role_state p r = Active \<Longrightarrow> path_is_available (w_fs w) (path_for_role p r)" for r
    using assms(2,3) by (cases r) (auto simp: check_file_integrity_def Let_def unavailable_result_def split: if_splits)
  from check_Inr [OF assms(1,2) this] assms(3,4) show ?thesis
    by (auto simp: classify_def split: if_splits)
qed

text \<open>Adopting copies, or finds a copy that is valid already.\<close>

lemma adopt_ok:
  assumes "streaming_hash b3" "adopt_mirror b3 p f w = (Inr (), v)"
  shows "w_db v = w_db w \<and> ((\<exists>s. sides_agree b3 p (tf_relative_path f) s v) \<or> v = w \<and> copy_valid b3 w p (standby_role p) f)"
proof (cases "\<exists>u s. mirror_file b3 p (tf_relative_path f) u = (Inr s, v) \<and> w_db u = w_db w")
  case True
  then obtain u s where r: "mirror_file b3 p (tf_relative_path f) u = (Inr s, v)" "w_db u = w_db w" by blast
  then show ?thesis using mirror_ok [OF assms(1) r(1)] mirror_db [of b3 p "tf_relative_path f" u] by auto
next
  case False
  let ?s = "path_join (standby_path p) (tf_relative_path f)"
  have seen: "path_is_available (w_fs w) (standby_path p) \<and> path_exists (w_fs w) ?s"
    using assms(2) False by (auto simp: adopt_mirror_def Let_def unit_m_def split: if_splits)
  then obtain x u where x: "checksum_file b3 ?s Streaming w = (Inr x, u)"
    using assms(2) by (auto simp: adopt_mirror_def Let_def)
  have u: "u = w" using checksum_pure [of b3 ?s Streaming] x by (metis pure_m_def snd_conv)
  have c: "x = tf_checksum f \<and> v = w"
    using assms(2) False seen x u by (auto simp: adopt_mirror_def Let_def unit_m_def split: if_splits)
  have "copy_valid b3 w p (standby_role p) f"
    using checksum_file_eq [OF assms(1), where w = w and p = ?s and st = Streaming] x c seen
    by (cases "readable_bytes (w_fs w) ?s")
      (auto simp: copy_valid_def copy_seen_def side_file_def standby_path_def)
  then show ?thesis using c by simp
qed

text \<open>C17: what a successful action means. Only the five known actions succeed, and none touches the database.
  After a restore both copies hold the same bytes with the stored checksum; after a mirror both hold the
  same bytes; an adopted mirror was either copied or already held the stored checksum on the standby side;
  a verification of an undegraded pair found both copies valid and changed nothing.\<close>

theorem action_success_sound:
  assumes "streaming_hash b3" "run_action b3 action p f w = (Inr (Inr ()), v)"
  shows "w_db v = w_db w
    \<and> (action \<in> {''restore_master'', ''restore_mirror''} \<longrightarrow> sides_agree b3 p (tf_relative_path f) (tf_checksum f) v)
    \<and> (action = ''mirror'' \<longrightarrow> (\<exists>s. sides_agree b3 p (tf_relative_path f) s v))
    \<and> (action = ''adopt_mirror'' \<longrightarrow> (\<exists>s. sides_agree b3 p (tf_relative_path f) s v)
         \<or> v = w \<and> copy_valid b3 w p (standby_role p) f)
    \<and> (action = ''verify'' \<longrightarrow> v = w \<and> (\<not> is_degraded p \<longrightarrow> copy_valid b3 w p Primary f \<and> copy_valid b3 w p Secondary f))
    \<and> action \<in> {''mirror'', ''adopt_mirror'', ''restore_master'', ''restore_mirror'', ''verify''}"
proof -
  have "action = ''restore_master'' \<or> action = ''restore_mirror'' \<or> action = ''mirror'' \<or> action = ''adopt_mirror'' \<or> action = ''verify''"
    using assms(2) by (simp add: run_action_def split: if_splits)
  then show ?thesis
  proof (elim disjE)
    assume a: "action = ''restore_master''"
    with assms(2) have r: "restore_from_mirror b3 p (tf_relative_path f) (tf_checksum f) w = (Inr (), v)"
      by (simp add: run_action_def as_result_Inr)
    show ?thesis
      using a master_restore.restore_ok [OF assms(1) r] master_restore.restore_db [of b3 p "tf_relative_path f" "tf_checksum f" w] r
      by simp
  next
    assume a: "action = ''restore_mirror''"
    with assms(2) have r: "restore_mirror_from_master b3 p (tf_relative_path f) (tf_checksum f) w = (Inr (), v)"
      by (simp add: run_action_def as_result_Inr)
    show ?thesis
      using a mirror_restore.restore_ok [OF assms(1) r] mirror_restore.restore_db [of b3 p "tf_relative_path f" "tf_checksum f" w] r
      by simp
  next
    assume a: "action = ''mirror''"
    with assms(2) obtain s where r: "mirror_file b3 p (tf_relative_path f) w = (Inr s, v)"
      by (auto simp: run_action_def as_result_Inr)
    show ?thesis using a mirror_ok [OF assms(1) r] mirror_db [of b3 p "tf_relative_path f" w] r by auto
  next
    assume a: "action = ''verify''"
    then obtain res u where r: "check_file_integrity b3 p f Streaming Streaming w = (Inr res, u)" "ic_status res = IOk" "u = v"
      using assms(2) by (auto simp: run_action_def split: if_splits)
    have "u = w" using check_state [of b3 p f Streaming Streaming w] r by simp
    then show ?thesis using a r verify_ok [OF assms(1) r(1,2)] by auto
  next
    assume a: "action = ''adopt_mirror''"
    then have run: "adopt_mirror b3 p f w = (Inr (), v)" using assms(2) by (auto simp: run_action_def)
    show ?thesis using a adopt_ok [OF assms(1) run] by auto
  qed
qed

subsection \<open>Witnesses\<close>

text \<open>A pair whose secondary drive failed and whose primary root \<open>/a\<close> is there or not, with one queue item.\<close>

definition lone_pair :: drive_pair where
  "lone_pair = sample_pair\<lparr>dp_secondary_state := ''failed''\<rparr>"

definition lone_world :: "string list \<Rightarrow> string \<Rightarrow> string option \<Rightarrow> world" where
  "lone_world ds action reason = (let w = sample_world (dirs ds) lone_pair in
     w\<lparr>w_db := push_item (new_item 1 1 action reason None 0) (w_db w)\<rparr>)"

lemma lone_sel [simp]:
  "db_queue (w_db (lone_world ds a r)) = [new_item 1 1 a r None 0]"
  "db_files (w_db (lone_world ds a r)) = [sample_file]" "db_pairs (w_db (lone_world ds a r)) = [lone_pair]"
  "fs_nodes (w_fs (lone_world ds a r)) = dirs ds" "\<not> fs_nostat (w_fs (lone_world ds a r)) k"
  "\<not> fs_noread (w_fs (lone_world ds a r)) k" "\<not> fs_nowrite (w_fs (lone_world ds a r)) k"
  "fs_bad_at (w_fs (lone_world ds a r)) k = None" "fs_full_at (w_fs (lone_world ds a r)) k = None"
  by (simp_all add: lone_world_def Let_def sample_world_eq push_item_def empty_db_def)

lemma lone_roles [simp]:
  "role_state lone_pair Secondary = Failed" "role_state lone_pair Primary = Active" "\<not> is_quiescing lone_pair"
  "dp_primary_path lone_pair = ''/a''" "dp_id lone_pair = 1"
  by (simp_all add: lone_pair_def sample_pair_def role_state_def is_quiescing_def state_from_str_def)

lemma lone_load [simp]: "load_operational_pair 1 (lone_world ds a r) = (Inr lone_pair, lone_world ds a r)"
  by (rule load_not_ready) (simp_all add: pair_row_def failover_ready_def)

lemma lone_rows [simp]:
  "tf_id sample_file = 1" "tf_drive_pair_id sample_file = 1" "tf_relative_path sample_file = ''x''"
  "sq_tracked_file_id (new_item k i a r e now) = i" "sq_id (new_item k i a r e now) = k"
  "sq_action (new_item k i a r e now) = a" "sq_status (new_item k i a r e now) = ''pending''"
  "sq_reason (new_item k i a r e now) = r"
  by (simp_all add: sample_file_def new_item_def)

text \<open>A \<open>verify\<close> item whose drive is unplugged stays \<open>in_progress\<close>.\<close>

theorem process_item_outcome_witness:
  "item_status 1 (snd (process_item plain_digest (new_item 1 1 ''verify'' None None 0) (lone_world [] ''verify'' None)))
     = Some ''in_progress''"
proof -
  let ?q = "new_item 1 1 ''verify'' None None 0" and ?w = "lone_world [] ''verify'' None"
  let ?u = "snd (update_sync_queue_status 1 ''in_progress'' None ?w)"
  have fs: "w_fs ?u = w_fs ?w" by (simp add: update_sync_queue_status_def update_queue_def)
  have "\<not> path_is_available (w_fs ?w) ''/a''"
    by (simp add: path_is_available_def path_exists_def metadata_def read_dir_ok_def target_def follow.simps
        path_key_def is_absolute_def dirs_def)
  then have "\<exists>e. run_action plain_digest ''verify'' lone_pair sample_file ?u = (Inl e, ?u)"
    by (simp add: run_action_def bind_m_def check_file_integrity_def Let_def fs unavailable_result_def)
  then show ?thesis
    using process_item_outcome [where item = ?q and w = ?w and f = sample_file and p = lone_pair and v = ?w and ?b3.0 = plain_digest]
    by auto
qed

theorem action_success_sound_witness:
  "\<exists>v. run_action plain_digest ''restore_mirror'' ab_pair (x_file (plain_digest [[65]])) (two_copies [65] [66]) = (Inr (Inr ()), v)
     \<and> sides_agree plain_digest ab_pair ''x'' (plain_digest [[65]]) v"
proof -
  let ?v = "fs_put [''/'', ''b'', ''x''] (Some (RegFile [65] 416)) (two_copies [65] [66])"
  have x: "tf_relative_path (x_file s) = ''x''" "tf_checksum (x_file s) = s" for s
    by (simp_all add: x_file_def blank_file_def)
  have r: "run_action plain_digest ''restore_mirror'' ab_pair (x_file (plain_digest [[65]])) (two_copies [65] [66]) = (Inr (Inr ()), ?v)"
    using two_restore [OF plain_streaming refl, of "[65]" "[66]"]
    by (simp add: run_action_def as_result_Inr x)
  show ?thesis using action_success_sound [OF plain_streaming r] r x by auto
qed

end
