(* ===== verification/Queue_Resolve.thy ===== *)
theory Queue_Resolve
  imports Queue_Items
begin


section \<open>Resolving items\<close>

definition status_is :: "int \<Rightarrow> string \<Rightarrow> world \<Rightarrow> bool" where
  "status_is i s w = (item_status i w = Some s)"

definition checksums_are :: "(int \<times> string) list \<Rightarrow> world \<Rightarrow> bool" where
  "checksums_are cs w = (map (\<lambda>f. (tf_id f, tf_checksum f)) (db_files (w_db w)) = cs)"

lemma status_is_queue:
  assumes "\<And>qs. keeps (queue_is qs) m"
  shows "keeps (status_is i s) m"
proof (rule keepsI)
  fix w assume "status_is i s w"
  moreover have "queue_is (db_queue (w_db w)) (snd (m w))" by (rule keepsD [OF assms]) (simp add: queue_is_def)
  ultimately show "status_is i s (snd (m w))" by (simp add: status_is_def status_queue)
qed

lemma status_is_push: "status_is i s w \<Longrightarrow> status_is i s (w\<lparr>w_db := push_item q (w_db w)\<rparr>)"
  by (auto simp: status_is_def item_status_def push_item_def find_append split: option.splits)

lemma status_is_dedup: "keeps (status_is i s) (create_sync_queue_item_dedup f a)"
  unfolding create_sync_queue_item_dedup_def create_sync_queue_item_dedup_with_created_def
    create_sync_queue_item_dedup_with_reason_def
  by (intro keeps_bind keeps_prod keeps_return create_item_dedup_keeps status_is_push keeps_if)

lemma checksums_put: "checksums_are cs w \<Longrightarrow> checksums_are cs (fs_put k n w)"
  by (simp add: checksums_are_def)

lemma checksums_db:
  "db_files d = db_files (w_db w) \<Longrightarrow> checksums_are cs w \<Longrightarrow> checksums_are cs (w\<lparr>w_db := d\<rparr>)"
  by (simp add: checksums_are_def)

lemma checksums_logs [keeps]: "logs_only m \<Longrightarrow> keeps (checksums_are cs) m"
  by (rule keepsI) (simp add: checksums_are_def)

lemma checksums_files [keeps]:
  assumes "\<And>f. tf_id (g f) = tf_id f" "\<And>f. tf_checksum (g f) = tf_checksum f"
  shows "keeps (checksums_are cs) (update_files P g)"
proof (rule keepsI)
  fix v assume "checksums_are cs v"
  moreover have "map (\<lambda>f. (tf_id f, tf_checksum f)) (upd_where P (\<lambda>f. (g f)\<lparr>tf_updated_at := t\<rparr>) fs) =
      map (\<lambda>f. (tf_id f, tf_checksum f)) fs" for t fs
    by (rule map_upd_where) (simp add: assms)
  ultimately show "checksums_are cs (snd (update_files P g v))" by (simp add: checksums_are_def)
qed

lemma checksums_runtime [keeps]: "keeps (checksums_are cs) (update_drive_pair_runtime i pp sp ps ss ar)"
proof -
  have "keeps (checksums_are cs) (update_pair i g)" for g
    by (simp add: keeps_def checksums_are_def update_pair_def)
  then show ?thesis unfolding update_drive_pair_runtime_def
    by (intro keeps_seq opt_m_keeps_Some frame_check pairs.keeps_get)
qed

lemma checksums_queue [keeps]:
  "keeps (checksums_are cs) (update_sync_queue_status i s e)"
  "keeps (checksums_are cs) (fail_pending_sync_queue_for_drive_pair i msg)"
  by (simp_all add: keeps_def checksums_are_def update_sync_queue_status_def update_queue_def
      fail_pending_sync_queue_for_drive_pair_def update_queue_counted_def)

lemma checksums_load [keeps]: "keeps (checksums_are cs) (load_operational_pair i)"
proof -
  have "keeps (checksums_are cs) (maybe_emergency_failover p)" for p
  proof (rule keepsI)
    fix v assume v: "checksums_are cs v"
    have "keeps (checksums_are cs) (bind_m (update_drive_pair_runtime (dp_id p) None None x y z) (\<lambda>updated.
             seq_m (mark_drive_pair_unmirrored (dp_id p))
            (seq_m (discard (fail_pending_sync_queue_for_drive_pair (dp_id p) msg))
            (seq_m (discard (refresh_pair_virtual_paths updated))
            (seq_m (discard (log_drive_failover (dp_id p) r1 r2 r3))
            (get_drive_pair (dp_id p)))))))" for x y z msg r1 r2 r3
      unfolding mark_drive_pair_unmirrored_def refresh_pair_virtual_paths_def
      by (intro keeps_bind keeps_seq keeps_discard checksums_runtime checksums_files checksums_queue keeps_return
          checksums_logs refresh_all_keeps checksums_put pairs.keeps_get) simp_all
    from keepsD [OF this v] v show "checksums_are cs (snd (maybe_emergency_failover p v))"
      by (simp add: maybe_emergency_failover_def Let_def)
  qed
  then show ?thesis unfolding load_operational_pair_def by (intro keeps_bind pairs.keeps_get)
qed

lemma checksums_dedup: "keeps (checksums_are cs) (create_sync_queue_item_dedup f a)"
  unfolding create_sync_queue_item_dedup_def create_sync_queue_item_dedup_with_created_def
    create_sync_queue_item_dedup_with_reason_def
  by (intro keeps_bind keeps_prod keeps_return create_item_dedup_keeps checksums_db keeps_if) (simp_all add: push_item_def)

subsection \<open>Replacing both copies\<close>

lemma fs_copy_keeps:
  assumes P: "\<And>k n w. P w \<Longrightarrow> P (fs_put k n w)"
  shows "keeps P (fs_copy src dst)"
proof -
  have m: "keeps P (modify_m (set_mode k n))" for k n
    using P by (simp add: keeps_def set_mode_def split: option.splits node.splits)
  have "keeps P (bind_m (file_create dst) (\<lambda>kd. seq_m (modify_m (set_mode kd mode))
          (bind_m (gets_m g) (\<lambda>n. unit_m (copy_stream n ks kd 0 [])))))" for mode g ks
    by (intro keeps_bind keeps_seq m keeps_gets frame_unit_m copy_stream_keeps file_create_keeps P)
  note c = keepsD [OF this]
  show ?thesis unfolding fs_copy_def
    by (intro keeps_bind reads_keep_all keepsI) (auto simp: io_def intro: c split: option.splits node.splits)
qed

lemma provide_new_keeps:
  assumes P: "\<And>k n w. P w \<Longrightarrow> P (fs_put k n w)"
  shows "keeps P (provide_new p f src)"
proof (rule keepsI)
  fix w assume w: "P w"
  have "keeps P (seq_m (create_dir_all a) (seq_m (create_dir_all b) (seq_m (fs_copy s m) (fs_copy s n))))" for a b s m n
    by (intro keeps_seq mkdirs_keeps_m fs_copy_keeps P)
  from keepsD [OF this w] w show "P (snd (provide_new p f src w))"
    by (simp add: provide_new_def Let_def split: option.splits)
qed

lemma resolve_copies_keeps:
  assumes P: "\<And>k n w. P w \<Longrightarrow> P (fs_put k n w)"
  shows "keeps P (resolve_copies b3 res p f src)"
  unfolding resolve_copies_def
  by (intro keeps_if keeps_bail master_restore.restore_keeps mirror_restore.restore_keeps provide_new_keeps P)


subsection \<open>What a successful resolution did\<close>

lemma completed_known:
  assumes "item_known_id i w" "update_sync_queue_status i ''completed'' e w = (Inr u, v)"
  shows "status_is i ''completed'' v"
  using status_after(2) [OF assms(1), of "''completed''" e] assms(2) by (simp add: status_is_def status_names_def)

lemma get_completed:
  assumes "get_sync_queue_item i w = (Inr q, v)" "status_is i s w"
  shows "sq_id q = i \<and> sq_status q = s \<and> v = w"
  using assms queue.get_Inr [of i w q v] by (auto simp: status_is_def item_status_def dest: find_SomeD)

lemma known_frame_id: "queue_frame w v \<Longrightarrow> item_known_id i w \<Longrightarrow> item_known_id i v"
proof -
  have "list_all2 item_step qs rs \<Longrightarrow> \<exists>q \<in> set qs. sq_id q = i \<Longrightarrow> \<exists>q \<in> set rs. sq_id q = i" for qs rs
    by (induction rule: list_all2_induct) (auto simp: item_step_def)
  note l = this
  assume "queue_frame w v" "item_known_id i w"
  then show "item_known_id i v"
    using l [of "db_queue (w_db w)" "db_queue (w_db v)"] by (simp add: queue_frame_def item_known_id_def)
qed

lemma accept_steps:
  assumes "accept_current item p f w = (Inr q, v)"
  obtains name a b c x where "path_file_name (tf_relative_path f) = Some name"
    "fs_write (path_with_file_name (path_join (dp_primary_path p) (tf_relative_path f)) (name @ ''.b3''))
       (string_bytes (sidecar_text (tf_checksum f) name)) w = (Inr (), a)"
    "update_sync_queue_status (sq_id item) ''completed'' None a = (Inr (), b)"
    "create_sync_queue_item_dedup (tf_id f) ''adopt_mirror'' b = (Inr x, c)"
    "get_sync_queue_item (sq_id item) (snd (log_sync_completed (tf_id f) ''accept_current''
       (fmt [dp_primary_path p, ''/'', tf_relative_path f]) c)) = (Inr q, v)"
proof -
  obtain name where name: "path_file_name (tf_relative_path f) = Some name"
    using assms by (cases "path_file_name (tf_relative_path f)") (simp_all add: accept_current_def)
  with assms that show thesis unfolding accept_current_def name by (auto simp: Let_def)
qed

lemma accept_done:
  assumes "item_known_id (sq_id item) w" "accept_current item p f w = (Inr q, v)"
  shows "sq_id q = sq_id item \<and> sq_status q = ''completed''" "checksums_are cs w \<Longrightarrow> checksums_are cs v"
proof -
  from accept_steps [OF assms(2)] obtain name a b c x where
    a: "fs_write (path_with_file_name (path_join (dp_primary_path p) (tf_relative_path f)) (name @ ''.b3''))
       (string_bytes (sidecar_text (tf_checksum f) name)) w = (Inr (), a)" and
    b: "update_sync_queue_status (sq_id item) ''completed'' None a = (Inr (), b)" and
    c: "create_sync_queue_item_dedup (tf_id f) ''adopt_mirror'' b = (Inr x, c)" and
    g: "get_sync_queue_item (sq_id item) (snd (log_sync_completed (tf_id f) ''accept_current''
       (fmt [dp_primary_path p, ''/'', tf_relative_path f]) c)) = (Inr q, v)" by metis
  let ?d = "snd (log_sync_completed (tf_id f) ''accept_current'' (fmt [dp_primary_path p, ''/'', tf_relative_path f]) c)"
  have fw: "(\<And>k n w. P w \<Longrightarrow> P (fs_put k n w)) \<Longrightarrow> P w \<Longrightarrow> P a" for P
    using keepsD [OF fs_write_keeps, of P w] a by (metis snd_conv)
  have "item_known_id (sq_id item) a"
    by (rule fw) (use assms(1) in \<open>simp_all add: item_known_id_def\<close>)
  from completed_known [OF this b] have "status_is (sq_id item) ''completed'' b" .
  then have "status_is (sq_id item) ''completed'' c"
    using keepsD [OF status_is_dedup, of "sq_id item" "''completed''" b] c by (metis snd_conv)
  then have "status_is (sq_id item) ''completed'' ?d"
    by (rule keepsD [OF status_is_queue, rotated]) (rule queue_is_logs, simp)
  from get_completed [OF g this] show "sq_id q = sq_id item \<and> sq_status q = ''completed''" by simp
  assume "checksums_are cs w"
  then have "checksums_are cs a" by (rule fw [rotated]) (rule checksums_put)
  then have "checksums_are cs b" using keepsD [OF checksums_queue(1), of cs a] b by (metis snd_conv)
  then have "checksums_are cs c" using keepsD [OF checksums_dedup, of cs b] c by (metis snd_conv)
  then have "checksums_are cs ?d" by (rule keepsD [OF checksums_logs, rotated]) simp
  then show "checksums_are cs v" using g queue.get_state by (metis snd_conv)
qed


lemma untrack_done:
  assumes "item_known_id (sq_id item) w" "resolve_untrack item p f w = (Inr q, v)"
  shows "sq_id q = sq_id item \<and> sq_status q = ''completed''" "\<forall>g \<in> set (db_files (w_db v)). tf_id g \<noteq> tf_id f"
proof -
  obtain b c x where
    b: "update_sync_queue_status (sq_id item) ''completed'' None w = (Inr (), b)" and
    g: "get_sync_queue_item (sq_id item) b = (Inr q, c)" and
    d: "delete_tracked_file (tf_id f) x = (Inr (), v)"
    using assms(2) unfolding resolve_untrack_def by auto
  from get_completed [OF g completed_known [OF assms(1) b]]
  show "sq_id q = sq_id item \<and> sq_status q = ''completed''" by simp
  show "\<forall>g \<in> set (db_files (w_db v)). tf_id g \<noteq> tf_id f"
    using d by (auto simp: delete_tracked_file_def drop_file_rows_def)
qed

lemma copies_done:
  assumes "item_known_id i w" "checksums_are cs w"
    "seq_m (resolve_copies b3 res p f src)
             (seq_m (update_sync_queue_status i ''completed'' None)
             (seq_m (update_tracked_file_mirror_status (tf_id f) True)
             (seq_m (discard (log_sync_completed (tf_id f) res path))
             (get_sync_queue_item i)))) w = (Inr q, v)"
  shows "sq_id q = i \<and> sq_status q = ''completed''" "checksums_are cs v" "w_fs v = w_fs (snd (resolve_copies b3 res p f src w))"
    "fst (resolve_copies b3 res p f src w) = Inr ()"
proof -
  obtain a b c where
    a: "resolve_copies b3 res p f src w = (Inr (), a)" and
    b: "update_sync_queue_status i ''completed'' None a = (Inr (), b)" and
    c: "update_tracked_file_mirror_status (tf_id f) True b = (Inr (), c)" and
    g: "get_sync_queue_item i (snd (log_sync_completed (tf_id f) res path c)) = (Inr q, v)"
    using assms(3) by auto
  let ?d = "snd (log_sync_completed (tf_id f) res path c)"
  have fw: "(\<And>k n w. P w \<Longrightarrow> P (fs_put k n w)) \<Longrightarrow> P w \<Longrightarrow> P a" for P
    using keepsD [OF resolve_copies_keeps, of P w] a by (metis snd_conv)
  have "item_known_id i a" by (rule fw) (use assms(1) in \<open>simp_all add: item_known_id_def\<close>)
  from completed_known [OF this b] have "status_is i ''completed'' b" .
  then have "status_is i ''completed'' (snd (update_tracked_file_mirror_status (tf_id f) True b))"
    by (rule keepsD [OF status_is_queue, rotated]) (unfold update_tracked_file_mirror_status_def, rule queue_is_files)
  then have "status_is i ''completed'' c" using c by simp
  then have "status_is i ''completed'' ?d"
    by (rule keepsD [OF status_is_queue, rotated]) (rule queue_is_logs, simp)
  from get_completed [OF g this] show "sq_id q = i \<and> sq_status q = ''completed''" by simp
  have "checksums_are cs a" by (rule fw [OF checksums_put assms(2)])
  then have "checksums_are cs b" using keepsD [OF checksums_queue(1), of cs a] b by (metis snd_conv)
  moreover have "keeps (checksums_are cs) (update_tracked_file_mirror_status (tf_id f) True)"
    unfolding update_tracked_file_mirror_status_def by (rule checksums_files) simp_all
  ultimately have "checksums_are cs c" using keepsD c by (metis snd_conv)
  then have "checksums_are cs ?d" by (rule keepsD [OF checksums_logs, rotated]) simp
  then show "checksums_are cs v" using g queue.get_state by (metis snd_conv)
  have "w_fs b = w_fs a" using b by (auto simp: update_sync_queue_status_def update_queue_def split: if_splits)
  moreover have "w_fs c = w_fs b" using c by (auto simp: update_tracked_file_mirror_status_def update_files_def)
  moreover have "w_fs v = w_fs c"
  proof -
    have "v = ?d" using g queue.get_state by (metis snd_conv)
    then show ?thesis by simp
  qed
  ultimately show "w_fs v = w_fs (snd (resolve_copies b3 res p f src w))" using a by simp
  show "fst (resolve_copies b3 res p f src w) = Inr ()" using a by simp
qed


lemma kept_sides:
  assumes "streaming_hash b3" "res \<in> {''keep_master'', ''keep_mirror''}" "resolve_copies b3 res p f src u = (Inr (), x)"
  shows "sides_agree b3 p (tf_relative_path f) (tf_checksum f) x"
proof -
  from assms(2) consider "res = ''keep_master''" | "res = ''keep_mirror''" by blast
  then show ?thesis
  proof cases
    case 1
    with assms(3) have "restore_mirror_from_master b3 p (tf_relative_path f) (tf_checksum f) u = (Inr (), x)"
      by (simp add: resolve_copies_def)
    from mirror_restore.restore_ok [OF assms(1) this] show ?thesis by simp
  next
    case 2
    with assms(3) have "restore_from_mirror b3 p (tf_relative_path f) (tf_checksum f) u = (Inr (), x)"
      by (simp add: resolve_copies_def)
    from master_restore.restore_ok [OF assms(1) this] show ?thesis by simp
  qed
qed

text \<open>The three ways a resolution goes on, once its item, file and pair are found.\<close>

definition resolve_by :: "digest \<Rightarrow> string \<Rightarrow> string option \<Rightarrow> sync_item \<Rightarrow> drive_pair \<Rightarrow> tracked_file \<Rightarrow> sync_item prog" where
  "resolve_by b3 res src item p f =
     (if res = ''accept_current'' then accept_current item p f
      else if res = ''untrack'' then resolve_untrack item p f
      else seq_m (resolve_copies b3 res p f src)
          (seq_m (update_sync_queue_status (sq_id item) ''completed'' None)
          (seq_m (update_tracked_file_mirror_status (tf_id f) True)
          (seq_m (discard (log_sync_completed (tf_id f) res (fmt [dp_primary_path p, ''/'', tf_relative_path f])))
          (get_sync_queue_item (sq_id item))))))"

lemma resolve_found:
  assumes "resolve_queue_item b3 i res src w = (Inr q, v)"
  obtains item f p u where "find (\<lambda>x. sq_id x = i) (db_queue (w_db w)) = Some item" "sq_id item = i"
    "find (\<lambda>f. tf_id f = sq_tracked_file_id item) (db_files (w_db w)) = Some f"
    "load_operational_pair (tf_drive_pair_id f) w = (Inr p, u)"
    "sq_action item = ''user_action_required''" "sq_status item = ''pending''"
    "sq_reason item = Some ''b3_sidecar_mismatch'' \<longleftrightarrow> res \<in> {''accept_current'', ''untrack''}"
    "resolve_by b3 res src item p f u = (Inr q, v)"
proof -
  from assms obtain item f p u where
    item: "find (\<lambda>x. sq_id x = i) (db_queue (w_db w)) = Some item" and
    f: "find (\<lambda>f. tf_id f = sq_tracked_file_id item) (db_files (w_db w)) = Some f" and
    p: "load_operational_pair (tf_drive_pair_id f) w = (Inr p, u)" and
    ok: "sq_action item = ''user_action_required''" "sq_status item = ''pending''"
      "sq_reason item = Some ''b3_sidecar_mismatch'' \<longleftrightarrow> res \<in> {''accept_current'', ''untrack''}" and
    run: "(if res = ''accept_current'' then accept_current item p f
         else if res = ''untrack'' then resolve_untrack item p f
         else seq_m (resolve_copies b3 res p f src)
             (seq_m (update_sync_queue_status i ''completed'' None)
             (seq_m (update_tracked_file_mirror_status (tf_id f) True)
             (seq_m (discard (log_sync_completed (tf_id f) res
                       (fmt [dp_primary_path p, ''/'', tf_relative_path f])))
             (get_sync_queue_item i))))) u = (Inr q, v)"
    unfolding resolve_queue_item_def
    by (auto simp: queue.bind_get files.bind_get Let_def b3_sidecar_mismatch_reason_def split: option.splits if_splits)
  have i: "sq_id item = i" using item by (auto dest: find_SomeD)
  show ?thesis by (rule that [OF item i f p ok]) (use run in \<open>simp only: resolve_by_def i\<close>)
qed

lemma resolve_by_done:
  assumes "resolve_by b3 res src item p f u = (Inr q, v)" "item_known_id (sq_id item) u" "checksums_are cs u"
  shows "sq_id q = sq_id item \<and> sq_status q = ''completed''
    \<and> (res = ''untrack'' \<longrightarrow> (\<forall>g \<in> set (db_files (w_db v)). tf_id g \<noteq> tf_id f))
    \<and> (res \<noteq> ''untrack'' \<longrightarrow> checksums_are cs v)
    \<and> (streaming_hash b3 \<longrightarrow> res \<in> {''keep_master'', ''keep_mirror''} \<longrightarrow>
         sides_agree b3 p (tf_relative_path f) (tf_checksum f) v)"
proof -
  consider (accept) "res = ''accept_current''" | (untrack) "res = ''untrack''" | (copies) "res \<notin> {''accept_current'', ''untrack''}" by blast
  then show ?thesis
  proof cases
    case accept
    then have r: "accept_current item p f u = (Inr q, v)" using assms(1) by (simp add: resolve_by_def)
    show ?thesis using accept_done [OF assms(2) r] assms(3) accept by simp
  next
    case untrack
    then have r: "resolve_untrack item p f u = (Inr q, v)" using assms(1) by (simp add: resolve_by_def)
    show ?thesis using untrack_done [OF assms(2) r] untrack by simp
  next
    case copies
    then have r: "seq_m (resolve_copies b3 res p f src)
             (seq_m (update_sync_queue_status (sq_id item) ''completed'' None)
             (seq_m (update_tracked_file_mirror_status (tf_id f) True)
             (seq_m (discard (log_sync_completed (tf_id f) res (fmt [dp_primary_path p, ''/'', tf_relative_path f])))
             (get_sync_queue_item (sq_id item))))) u = (Inr q, v)" using assms(1) by (simp add: resolve_by_def)
    note d = copies_done [OF assms(2,3) r]
    obtain x where x: "resolve_copies b3 res p f src u = (Inr (), x)" using d(4) by (metis prod.collapse)
    have sides: "sides_agree b3 p (tf_relative_path f) (tf_checksum f) v"
      if h: "streaming_hash b3" and res: "res \<in> {''keep_master'', ''keep_mirror''}"
      using kept_sides [OF h res x] d(3) x by (simp add: sides_agree_def)
    then show ?thesis using d(1,2) copies by simp
  qed
qed

text \<open>C18: what a resolution did when it answers Ok. The item was a pending one that waits for the user, the
  resolution was one its reason allows, and the answer is the item, now completed. Untracking removed the
  file; every other resolution left every stored checksum as it was (also the replacement of both copies
  by a new file, whose checksum is then wrong); keeping one side left both copies with the stored checksum.\<close>

theorem resolve_contract:
  assumes "resolve_queue_item b3 i res src w = (Inr q, v)"
  shows "\<exists>item f p u. find (\<lambda>x. sq_id x = i) (db_queue (w_db w)) = Some item
    \<and> find (\<lambda>f. tf_id f = sq_tracked_file_id item) (db_files (w_db w)) = Some f
    \<and> load_operational_pair (tf_drive_pair_id f) w = (Inr p, u)
    \<and> sq_action item = ''user_action_required'' \<and> sq_status item = ''pending''
    \<and> (sq_reason item = Some ''b3_sidecar_mismatch'' \<longleftrightarrow> res \<in> {''accept_current'', ''untrack''})
    \<and> sq_id q = i \<and> sq_status q = ''completed''
    \<and> (res = ''untrack'' \<longrightarrow> (\<forall>g \<in> set (db_files (w_db v)). tf_id g \<noteq> tf_id f))
    \<and> (res \<noteq> ''untrack'' \<longrightarrow> map (\<lambda>f. (tf_id f, tf_checksum f)) (db_files (w_db v)) =
         map (\<lambda>f. (tf_id f, tf_checksum f)) (db_files (w_db w)))
    \<and> (streaming_hash b3 \<longrightarrow> res \<in> {''keep_master'', ''keep_mirror''} \<longrightarrow>
         sides_agree b3 p (tf_relative_path f) (tf_checksum f) v)"
proof -
  obtain item f p u where
    item: "find (\<lambda>x. sq_id x = i) (db_queue (w_db w)) = Some item" "sq_id item = i" and
    f: "find (\<lambda>f. tf_id f = sq_tracked_file_id item) (db_files (w_db w)) = Some f" and
    p: "load_operational_pair (tf_drive_pair_id f) w = (Inr p, u)" and
    ok: "sq_action item = ''user_action_required''" "sq_status item = ''pending''"
      "sq_reason item = Some ''b3_sidecar_mismatch'' \<longleftrightarrow> res \<in> {''accept_current'', ''untrack''}" and
    run: "resolve_by b3 res src item p f u = (Inr q, v)"
    using resolve_found [OF assms] by blast
  have "item_known_id i w" using item by (auto simp: item_known_id_def dest: find_SomeD)
  moreover have "queue_frame w u" using keepsD [OF frame_load queue_frame_refl] p by (metis snd_conv)
  ultimately have k: "item_known_id (sq_id item) u" using known_frame_id item(2) by blast
  have c: "checksums_are (map (\<lambda>f. (tf_id f, tf_checksum f)) (db_files (w_db w))) u"
    using keepsD [OF checksums_load, of _ w "tf_drive_pair_id f"] p by (metis checksums_are_def snd_conv)
  show ?thesis using item f p ok resolve_by_done [OF run k c]
    by (intro exI [of _ item] exI [of _ f] exI [of _ p] exI [of _ u]) (simp add: checksums_are_def)
qed


subsection \<open>The accepted sidecar\<close>

lemma split_on_snoc: "split_on c (xs @ c # ys) = split_on c xs @ split_on c ys"
proof (induction xs)
  case (Cons x xs)
  then show ?case by (cases "split_on c xs") auto
qed simp

lemma path_comps_join: "path_comps (path_join base p) = (if is_absolute p then path_comps p else path_comps base @ path_comps p)"
proof (cases "is_absolute p \<or> base = []")
  case True
  then show ?thesis by (auto simp: path_join_def path_comps_def)
next
  case False
  show ?thesis
  proof (cases "last base = CHR ''/''")
    case True
    then obtain b where b: "base = b @ ''/''" using False by (metis append_butlast_last_id)
    then have "base @ p = b @ CHR ''/'' # p" by simp
    then show ?thesis
      using False True b split_on_snoc [of "CHR ''/''" b p] split_on_snoc [of "CHR ''/''" b "[]"]
      by (simp add: path_join_def path_comps_def)
  next
    case 2: False
    then show ?thesis using False split_on_snoc [of "CHR ''/''" base p]
      by (simp add: path_join_def path_comps_def)
  qed
qed

lemma file_name_join: "path_file_name p = Some n \<Longrightarrow> path_file_name (path_join base p) = Some n"
  by (auto simp: path_file_name_def path_comps_join Let_def split: if_splits)

lemma utf8_ascii: "list_all (\<lambda>b. b < 128) xs \<Longrightarrow> utf8_ok (xs @ ys) = utf8_ok ys"
  by (induction xs) auto

lemma utf8_append:
  assumes y: "utf8_ok ys"
  shows "utf8_ok xs \<Longrightarrow> utf8_ok (xs @ ys)"
proof (induction xs rule: measure_induct_rule [of length])
  case (less xs)
  note IH = less.IH
  show ?case
  proof (cases xs)
    case 1: (Cons a bs)
    show ?thesis
    proof (cases "a < 128")
      case True
      then show ?thesis using less.prems 1 IH [of bs] by simp
    next
      case a: False
      obtain b cs where 2: "bs = b # cs" using less.prems 1 a by (cases bs) auto
      show ?thesis
      proof (cases "194 \<le> a \<and> a \<le> 223")
        case True
        then show ?thesis using less.prems 1 2 a IH [of cs] by simp
      next
        case a2: False
        obtain c ds where 3: "cs = c # ds" using less.prems 1 2 a a2 by (cases cs) auto
        show ?thesis
        proof (cases "225 \<le> a \<and> a \<le> 239 \<or> a = 224")
          case True
          then show ?thesis using less.prems 1 2 3 a a2 IH [of ds] by (simp split: if_splits)
        next
          case a3: False
          obtain d es where 4: "ds = d # es" using less.prems 1 2 3 a a2 a3 by (cases ds) (auto split: if_splits)
          show ?thesis using less.prems 1 2 3 4 a a2 a3 IH [of es] by (simp split: if_splits)
        qed
      qed
    qed
  qed (simp add: y)
qed

lemma fs_write_read:
  assumes "fs_write sp c w = (Inr (), v)"
    "\<And>k. \<not> fs_nostat (w_fs w) k \<and> \<not> fs_noread (w_fs w) k \<and> fs_bad_at (w_fs w) k = None"
  shows "\<exists>m. metadata (w_fs v) sp = Some (RegFile c m)" "readable_bytes (w_fs v) sp = Some c"
proof -
  from file_create_cases [of sp w] assms(1) obtain k m where
    k: "file_create sp w = (Inr k, fs_put k (Some (RegFile [] m)) w)" "target (w_fs w) sp = Some k"
    by (auto simp: fs_write_def)
  have v: "v = fs_put k (Some (RegFile c m)) w"
    using assms(1) k(1) by (auto simp: fs_write_def set_bytes_def split: option.splits if_splits)
  have t: "target (w_fs v) sp = Some k" using target_put [OF k(2)] v by simp
  show "\<exists>m. metadata (w_fs v) sp = Some (RegFile c m)" "readable_bytes (w_fs v) sp = Some c"
    using t assms(2) [of k] by (simp_all add: metadata_def readable_bytes_def v)
qed

text \<open>C19: an accepted checksum is read back. After a mismatch was accepted for a file with a proper name and a
  BLAKE3 checksum, on a disk without faults, reading the sidecar of the master gives the stored checksum.\<close>

theorem accepted_sidecar_reads_back:
  assumes "accept_current item p f w = (Inr q, v)" "path_file_name (tf_relative_path f) = Some name"
    "b3_hex (tf_checksum f)" "CHR 0x0A \<notin> set name" "utf8_ok (string_bytes name)" "length name \<le> 4000"
    "\<forall>k. \<not> fs_nostat (w_fs w) k \<and> \<not> fs_noread (w_fs w) k \<and> fs_bad_at (w_fs w) k = None"
  shows "read_b3_sidecar (path_join (dp_primary_path p) (tf_relative_path f)) v = (Inr (Some (tf_checksum f)), v)"
proof -
  let ?m = "path_join (dp_primary_path p) (tf_relative_path f)"
  let ?sp = "path_with_file_name ?m (name @ ''.b3'')"
  let ?t = "string_bytes (sidecar_text (tf_checksum f) name)"
  from accept_steps [OF assms(1)] assms(2) obtain a b c x where
    a: "fs_write ?sp ?t w = (Inr (), a)" and
    b: "update_sync_queue_status (sq_id item) ''completed'' None a = (Inr (), b)" and
    c: "create_sync_queue_item_dedup (tf_id f) ''adopt_mirror'' b = (Inr x, c)" and
    g: "get_sync_queue_item (sq_id item) (snd (log_sync_completed (tf_id f) ''accept_current''
       (fmt [dp_primary_path p, ''/'', tf_relative_path f]) c)) = (Inr q, v)" by (metis option.inject)
  have "w_fs b = w_fs a" using b by (auto simp: update_sync_queue_status_def update_queue_def split: if_splits)
  moreover have "w_fs c = w_fs b"
  proof -
    have "keeps (\<lambda>u. w_fs u = w_fs b) (create_sync_queue_item_dedup (tf_id f) ''adopt_mirror'')"
      unfolding create_sync_queue_item_dedup_def create_sync_queue_item_dedup_with_created_def
        create_sync_queue_item_dedup_with_reason_def
      by (intro keeps_bind keeps_prod keeps_return create_item_dedup_keeps keeps_if) simp
    from keepsD [OF this, of b] c show ?thesis by simp
  qed
  moreover have "w_fs v = w_fs c" using g queue.get_state by (metis logs_only_sel(12) log_only snd_conv)
  ultimately have fs: "w_fs v = w_fs a" by simp
  note r = fs_write_read [OF a assms(7) [rule_format], folded fs]
  have asc: "list_all (\<lambda>b. b < 128) (string_bytes (tf_checksum f @ ''  ''))"
    using assms(3) by (auto simp: b3_hex_def list_all_iff string_bytes_def is_hex_def Let_def)
  have "?t = string_bytes (tf_checksum f @ ''  '') @ string_bytes name @ [10]"
    by (simp add: sidecar_text_def string_bytes_def)
  then have u: "utf8_ok ?t"
    using utf8_ascii [OF asc, of "string_bytes name @ [10]"] utf8_append [OF _ assms(5), of "[10]"] by simp
  have len: "length ?t \<le> max_sidecar_bytes"
    using assms(3,6) by (simp add: sidecar_text_def string_bytes_def b3_hex_def max_sidecar_bytes_def)
  have sp: "sidecar_path_for ?m = Inr ?sp"
    by (simp add: sidecar_path_for_def file_name_join [OF assms(2)])
  show ?thesis
    using r sp len parse_sidecar_text [OF assms(3,4) u] by (auto simp: read_b3_sidecar_def)
qed


subsection \<open>Witnesses\<close>

theorem resolve_contract_witness:
  "\<exists>q v. resolve_queue_item plain_digest 1 ''untrack'' None
      (lone_world [''/a''] ''user_action_required'' (Some ''b3_sidecar_mismatch'')) = (Inr q, v)
     \<and> sq_status q = ''completed'' \<and> (\<forall>g \<in> set (db_files (w_db v)). tf_id g \<noteq> 1)"
proof -
  let ?w = "lone_world [''/a''] ''user_action_required'' (Some ''b3_sidecar_mismatch'')"
  have "\<exists>q v. resolve_queue_item plain_digest 1 ''untrack'' None ?w = (Inr q, v)"
    by (simp add: resolve_queue_item_def queue.bind_get files.bind_get Let_def b3_sidecar_mismatch_reason_def bind_m_ok
        resolve_untrack_def update_sync_queue_status_def status_names_def update_queue_def stamp_status_def
        queue.get_run delete_tracked_file_def)
  then obtain q v where r: "resolve_queue_item plain_digest 1 ''untrack'' None ?w = (Inr q, v)" by blast
  from resolve_contract [OF r] r show ?thesis by auto
qed


definition hex_file :: tracked_file where
  "hex_file = sample_file\<lparr>tf_checksum := replicate 64 (CHR ''a'')\<rparr>"

lemma accept_runs:
  "\<exists>q v. accept_current (new_item 1 1 ''user_action_required'' None None 0) lone_pair hex_file
     (lone_world [''/a''] ''user_action_required'' None) = (Inr q, v)"
proof -
  let ?w = "lone_world [''/a''] ''user_action_required'' None"
  let ?sp = "path_with_file_name (path_join ''/a'' ''x'') ''x.b3''"
  let ?c = "string_bytes (sidecar_text (tf_checksum hex_file) ''x'')"
  let ?k = "[''/'', ''a'', ''x.b3'']"
  have f: "tf_relative_path hex_file = ''x''" "tf_id hex_file = 1" by (simp_all add: hex_file_def)
  have n: "path_file_name ''x'' = Some ''x''" by (simp add: path_file_name_def path_comps_def)
  have sp: "?sp = ''/a/x.b3''"
    by (simp add: path_with_file_name_def path_file_name_def path_comps_def path_join_def is_absolute_def)
  have a: "fs_write ''/a/x.b3'' ?c ?w = (Inr (), set_bytes ?k ?c (fs_put ?k (Some (RegFile [] 420)) ?w))"
    by (simp add: fs_write_def file_create_def target_def follow.simps path_key_def is_absolute_def dirs_def bind_m_def
        image_iff fs_put_def)
  let ?a = "set_bytes ?k ?c (fs_put ?k (Some (RegFile [] 420)) ?w)"
  have da: "w_db ?a = w_db ?w" by (simp add: set_bytes_def split: option.splits node.splits)
  obtain b where b: "update_sync_queue_status 1 ''completed'' None ?a = (Inr (), b)"
    "b = snd (update_sync_queue_status 1 ''completed'' None ?a)"
    by (simp add: update_sync_queue_status_def status_names_def)
  have db: "db_queue (w_db b) = [stamp_status ''completed'' None (w_now ?a) (new_item 1 1 ''user_action_required'' None None 0)]"
    "db_files (w_db b) = [sample_file]"
    by (simp_all add: b(2) update_sync_queue_status_def status_names_def update_queue_def da)
  have nx: "nx_queue (w_db b) = nx_queue (w_db ?w)"
    by (simp add: b(2) update_sync_queue_status_def status_names_def update_queue_def da)
  have "nx_queue (w_db ?w) = 2" by (simp add: lone_world_def Let_def push_item_def empty_db_def)
  then have "\<exists>x. fst (create_sync_queue_item_dedup 1 ''adopt_mirror'' b) = Inr x"
    by (simp add: create_sync_queue_item_dedup_def bind_m_def dedup_run db nx dup_item_iff stamp_status_def is_active_def
        action_names_def has_file_def new_item_def Let_def)
  then obtain x c where c: "create_sync_queue_item_dedup 1 ''adopt_mirror'' b = (Inr x, c)" by (metis prod.collapse)
  have "item_known_id 1 b" by (simp add: item_known_id_def db stamp_status_def)
  let ?d = "snd (log_sync_completed 1 ''accept_current'' (fmt [dp_primary_path lone_pair, ''/'', ''x'']) c)"
  have "status_is 1 ''completed'' b" by (simp add: status_is_def item_status_def db stamp_status_def)
  then have "status_is 1 ''completed'' c"
    using keepsD [OF status_is_dedup, of 1 "''completed''" b] c by (metis snd_conv)
  then have "status_is 1 ''completed'' ?d"
    by (rule keepsD [OF status_is_queue, rotated]) (rule queue_is_logs, simp)
  then obtain q where "get_sync_queue_item 1 ?d = (Inr q, ?d)"
    by (auto simp: status_is_def item_status_def queue.get_run)
  then show ?thesis
    by (simp add: accept_current_def f n sp Let_def a b(1) c)
qed

theorem accepted_sidecar_reads_back_witness:
  "\<exists>q v. accept_current (new_item 1 1 ''user_action_required'' None None 0) lone_pair hex_file
     (lone_world [''/a''] ''user_action_required'' None) = (Inr q, v)
     \<and> read_b3_sidecar (path_join ''/a'' ''x'') v = (Inr (Some (replicate 64 (CHR ''a''))), v)"
proof -
  obtain q v where r: "accept_current (new_item 1 1 ''user_action_required'' None None 0) lone_pair hex_file
     (lone_world [''/a''] ''user_action_required'' None) = (Inr q, v)" using accept_runs by blast
  have h: "b3_hex (tf_checksum hex_file)"
    by (simp add: hex_file_def b3_hex_def list_all_iff is_hex_def ascii_lower_def map_replicate)
  have n: "path_file_name (tf_relative_path hex_file) = Some ''x''"
    by (simp add: hex_file_def path_file_name_def path_comps_def)
  have "read_b3_sidecar (path_join (dp_primary_path lone_pair) (tf_relative_path hex_file)) v = (Inr (Some (tf_checksum hex_file)), v)"
    by (rule accepted_sidecar_reads_back [OF r n h]) (simp_all add: string_bytes_def)
  with r show ?thesis by (simp add: hex_file_def)
qed

end
