(* ===== verification/Repo_Runs.thy ===== *)
theory Repo_Runs
  imports Repo_Queue
begin

section \<open>Repository: integrity runs and their results\<close>

text \<open>
  The statements of \<open>src/db/repository.rs\<close> on \<open>integrity_runs\<close> and \<open>integrity_run_results\<close>, and the reset of
  the folder flags at start-up, under the constraints of \<open>src/db/schema.rs\<close>.
\<close>

subsection \<open>Runs\<close>

definition run_status_names :: "string list" where
  "run_status_names = [''running'', ''stopping'', ''stopped'', ''completed'', ''failed'']"

definition get_integrity_run :: "int \<Rightarrow> integrity_run prog" where
  "get_integrity_run i w = (case find (\<lambda>r. ir_id r = i) (db_runs (w_db w)) of
       None \<Rightarrow> (Inl QueryReturnedNoRows, w) | Some r \<Rightarrow> (Inr r, w))"

definition create_integrity_run :: "int option \<Rightarrow> bool \<Rightarrow> string \<Rightarrow> int \<Rightarrow> integrity_run prog" where
  "create_integrity_run scope recover trigger total_files w =
     (let d = w_db w; i = nx_run d in
      if (case scope of None \<Rightarrow> False | Some p \<Rightarrow> \<not> has_pair p w)
      then raise_m (Constraint ''FOREIGN KEY integrity_runs'') w
      else get_integrity_run i (w\<lparr>w_db := d\<lparr>
        db_runs := db_runs d @
          [\<lparr>ir_id = i, ir_scope_drive_pair_id = scope, ir_recover = recover, ir_trigger = trigger,
            ir_status = ''running'', ir_total_files = total_files, ir_processed_files = 0,
            ir_attention_files = 0, ir_recovered_files = 0, ir_active_workers = 0,
            ir_stop_requested = False, ir_started_at = w_now w, ir_ended_at = None,
            ir_error_message = None\<rparr>],
        nx_run := i + 1\<rparr>\<rparr>))"

text \<open>\<open>ORDER BY started_at DESC, id DESC LIMIT 1\<close>\<close>

definition latest_run :: "integrity_run list \<Rightarrow> integrity_run option" where
  "latest_run rs = (case rev (sort_key ir_started_at (sort_key ir_id rs)) of [] \<Rightarrow> None | r # _ \<Rightarrow> Some r)"

definition run_is_active :: "integrity_run \<Rightarrow> bool" where
  "run_is_active r = (ir_status r = ''running'' \<or> ir_status r = ''stopping'')"

definition get_active_integrity_run :: "integrity_run option prog" where
  "get_active_integrity_run = gets_m (\<lambda>w. latest_run (filter run_is_active (db_runs (w_db w))))"

definition get_latest_integrity_run :: "integrity_run option prog" where
  "get_latest_integrity_run = gets_m (\<lambda>w. latest_run (db_runs (w_db w)))"

definition update_runs :: "(integrity_run \<Rightarrow> bool) \<Rightarrow> (integrity_run \<Rightarrow> integrity_run) \<Rightarrow> unit prog" where
  "update_runs P f = db_do (\<lambda>d. d\<lparr>db_runs := upd_where P f (db_runs d)\<rparr>)"

definition set_integrity_run_active_workers :: "int \<Rightarrow> int \<Rightarrow> unit prog" where
  "set_integrity_run_active_workers run_id n =
     update_runs (\<lambda>r. ir_id r = run_id) (\<lambda>r. r\<lparr>ir_active_workers := n\<rparr>)"

definition request_integrity_run_stop :: "int \<Rightarrow> unit prog" where
  "request_integrity_run_stop i = update_runs (\<lambda>r. ir_id r = i)
     (\<lambda>r. r\<lparr>ir_stop_requested := True, ir_status := (if ir_status r = ''running'' then ''stopping'' else ir_status r)\<rparr>)"

definition finish_integrity_run :: "int \<Rightarrow> string \<Rightarrow> string option \<Rightarrow> unit prog" where
  "finish_integrity_run i status error_message w =
     (if status \<notin> set run_status_names \<and> (\<exists>r \<in> set (db_runs (w_db w)). ir_id r = i)
      then raise_m (Constraint ''CHECK integrity_runs.status'') w
      else update_runs (\<lambda>r. ir_id r = i) (\<lambda>r. r\<lparr>ir_status := status, ir_ended_at := Some (w_now w),
             ir_error_message := error_message, ir_active_workers := 0\<rparr>) w)"

definition cleanup_stale_integrity_runs :: "int prog" where
  "cleanup_stale_integrity_runs w = bind_m (gets_m (\<lambda>w. count_where run_is_active (db_runs (w_db w)))) (\<lambda>n.
     seq_m (update_runs run_is_active (\<lambda>r. r\<lparr>ir_status := ''failed'', ir_ended_at := Some (w_now w),
              ir_active_workers := 0, ir_error_message := Some ''Interrupted by service restart''\<rparr>))
       (return_m n)) w"

definition reset_stale_folder_flags :: "int prog" where
  "reset_stale_folder_flags = (let busy = (\<lambda>f. fo_scanning f \<or> fo_mirroring f \<or> fo_deleting f) in
     bind_m (gets_m (\<lambda>w. count_where busy (db_folders (w_db w)))) (\<lambda>n.
       seq_m (db_do (\<lambda>d. d\<lparr>db_folders := upd_where busy
                (\<lambda>f. f\<lparr>fo_scanning := False, fo_mirroring := False, fo_deleting := False\<rparr>) (db_folders d)\<rparr>))
         (return_m n)))"

subsection \<open>Results\<close>

definition has_run :: "int \<Rightarrow> db \<Rightarrow> bool" where
  "has_run i d = (\<exists>r \<in> set (db_runs d). ir_id r = i)"

definition append_integrity_run_result ::
    "int \<Rightarrow> int \<Rightarrow> int \<Rightarrow> string \<Rightarrow> string \<Rightarrow> bool \<Rightarrow> bool \<Rightarrow> integrity_run_result prog" where
  "append_integrity_run_result run_id file_id pair_id relative_path status recovered needs_attention w =
     (let d = w_db w; i = nx_result d;
          row = \<lparr>rr_id = i, rr_run_id = run_id, rr_file_id = file_id, rr_drive_pair_id = pair_id,
            rr_relative_path = relative_path, rr_status = status, rr_recovered = recovered,
            rr_needs_attention = needs_attention, rr_checked_at = w_now w\<rparr>
      in if \<not> has_run run_id d \<or> \<not> has_file file_id d \<or> \<not> has_pair pair_id w
         then raise_m (Constraint ''FOREIGN KEY integrity_run_results'') w
         else (let rows = db_results d @ [row]; v = w\<lparr>w_db := d\<lparr>db_results := rows, nx_result := i + 1\<rparr>\<rparr> in
           case find (\<lambda>r. rr_id r = i) rows of None \<Rightarrow> (Inl QueryReturnedNoRows, v) | Some r \<Rightarrow> (Inr r, v)))"

definition increment_integrity_run_progress :: "int \<Rightarrow> int \<Rightarrow> int \<Rightarrow> unit prog" where
  "increment_integrity_run_progress run_id attention_delta recovered_delta =
     update_runs (\<lambda>r. ir_id r = run_id)
       (\<lambda>r. r\<lparr>ir_processed_files := ir_processed_files r + 1,
              ir_attention_files := ir_attention_files r + attention_delta,
              ir_recovered_files := ir_recovered_files r + recovered_delta\<rparr>)"

definition list_integrity_run_results ::
    "int \<Rightarrow> bool \<Rightarrow> int \<Rightarrow> int \<Rightarrow> (integrity_run_result list \<times> int) prog" where
  "list_integrity_run_results run_id issues_only page per_page = gets_m (\<lambda>w.
     let sel = filter (\<lambda>r. rr_run_id r = run_id \<and> (issues_only \<longrightarrow> rr_needs_attention r)) (db_results (w_db w))
     in (paginate (max page 1) (max 1 (min per_page 200)) sel, int (length sel)))"

interpretation runs: row_table db_runs ir_id get_integrity_run
  by unfold_locales (simp add: get_integrity_run_def)

lemma update_runs_run [run, simp]:
  "update_runs P f w = (Inr (), w\<lparr>w_db := (w_db w)\<lparr>db_runs := upd_where P f (db_runs (w_db w))\<rparr>\<rparr>)"
  by (simp add: update_runs_def)

end
