(* ===== verification/Integrity_Runs.thy ===== *)
theory Integrity_Runs
  imports Integrity Repo_Runs
begin

section \<open>Integrity runs\<close>

text \<open>
  \<open>src/core/integrity_runs.rs\<close>: one run checks the files of one drive pair or of all, page by page, recovers
  what it may and records a result per file.

  The run is a thread of its own. \<open>others n\<close> is what the other threads do to the world before turn \<open>n\<close> of
  the page loop (a stop request, a new file); within a turn the run is alone. The pages may go on for
  ever when files are added faster than they are checked, so the loop takes fuel, one unit per page, and
  is \<open>None\<close> when it runs out. Building a thread pool of \<open>n\<close> threads succeeds when \<open>pool_ok n\<close>. A batch is
  checked in parallel and read-only; the results are recorded one by one, in the order of the page.
\<close>

definition status_str :: "integrity_status \<Rightarrow> string" where
  "status_str s = (case s of
       IOk \<Rightarrow> ''ok''
     | MasterCorrupted \<Rightarrow> ''master_corrupted''
     | MirrorCorrupted \<Rightarrow> ''mirror_corrupted''
     | BothCorrupted \<Rightarrow> ''both_corrupted''
     | MirrorMissing \<Rightarrow> ''mirror_missing''
     | MasterMissing \<Rightarrow> ''master_missing''
     | PrimaryDriveUnavailable \<Rightarrow> ''primary_drive_unavailable''
     | SecondaryDriveUnavailable \<Rightarrow> ''secondary_drive_unavailable'')"

subsection \<open>Stopping\<close>

definition stop_now :: "int \<Rightarrow> bool prog" where
  "stop_now run_id = seq_m (set_integrity_run_active_workers run_id 0)
     (seq_m (finish_integrity_run run_id ''stopped'' None) (return_m True))"

definition check_should_stop :: "int \<Rightarrow> int option \<Rightarrow> bool prog" where
  "check_should_stop run_id deadline = bind_m (get_integrity_run run_id) (\<lambda>current.
     if ir_stop_requested current then stop_now run_id
     else bind_m (past_deadline deadline) (\<lambda>late.
       if late then stop_now run_id else return_m False))"

subsection \<open>One page\<close>

definition runs_per_page :: int where
  "runs_per_page = 100"

definition check_batch :: "digest \<Rightarrow> string option \<Rightarrow> drive_pair \<Rightarrow> tracked_file list
    \<Rightarrow> (tracked_file \<times> (err + integrity_check_result)) list prog" where
  "check_batch b3 meminfo p files = (let
       primary_media = media_from_str (dp_primary_media_type p);
       secondary_media = media_from_str (dp_secondary_media_type p) in
     gets_m (\<lambda>w. map (\<lambda>f. (f, fst (check_file_integrity b3 p f
       (for_drive meminfo primary_media (of_int (tf_file_size f)))
       (for_drive meminfo secondary_media (of_int (tf_file_size f))) w))) files))"

definition log_issue :: "drive_pair \<Rightarrow> tracked_file \<Rightarrow> integrity_check_result \<Rightarrow> unit prog" where
  "log_issue p f res = (let full_path = fmt [dp_primary_path p, ''/'', tf_relative_path f];
       failed = discard (log_integrity_fail (tf_id f) full_path (status_str (ic_status res))) in
     case ic_status res of
       IOk \<Rightarrow> return_m ()
     | BothCorrupted \<Rightarrow> seq_m (discard (log_both_corrupted (tf_id f) full_path (ic_master_checksum res)
         (ic_mirror_checksum res) (ic_stored_checksum res))) failed
     | _ \<Rightarrow> failed)"

definition record_result :: "int \<Rightarrow> tracked_file \<Rightarrow> string \<Rightarrow> bool \<Rightarrow> bool \<Rightarrow> unit prog" where
  "record_result run_id f status recovered needs_attention =
     seq_m (update_tracked_file_last_integrity_check_at (tf_id f))
    (seq_m (append_integrity_run_result run_id (tf_id f) (tf_drive_pair_id f) (tf_relative_path f) status
              recovered needs_attention)
    (increment_integrity_run_progress run_id (if needs_attention then 1 else 0) (if recovered then 1 else 0)))"

definition process_result :: "digest \<Rightarrow> int \<Rightarrow> bool \<Rightarrow> drive_pair
    \<Rightarrow> tracked_file \<times> (err + integrity_check_result) \<Rightarrow> unit prog" where
  "process_result b3 run_id recover p fr = (case fr of (f, result) \<Rightarrow>
     (case result of
        Inl _ \<Rightarrow> record_result run_id f ''internal_error'' False True
      | Inr res \<Rightarrow>
          bind_m (if recover \<and> ic_status res \<noteq> IOk
                  then bind_m (try_m (attempt_recovery_with_reconciliation b3 p f res)) (\<lambda>r.
                    return_m (case r of Inl _ \<Rightarrow> False | Inr b \<Rightarrow> b))
                  else return_m False) (\<lambda>recovered.
          seq_m (log_issue p f res)
         (record_result run_id f (status_str (ic_status res)) recovered (ic_status res \<noteq> IOk \<and> \<not> recovered)))))"

text \<open>One pass through the body of the page loop after the stop test; \<open>True\<close> when there is a next page.\<close>

definition run_page :: "digest \<Rightarrow> string option \<Rightarrow> int \<Rightarrow> bool \<Rightarrow> drive_pair \<Rightarrow> int \<Rightarrow> bool prog" where
  "run_page b3 meminfo run_id recover p page =
     bind_m (list_tracked_files_oldest_integrity_first (Some (dp_id p)) page runs_per_page) (\<lambda>(files, total).
       if files = [] then return_m False
       else bind_m (check_batch b3 meminfo p files) (\<lambda>results.
         seq_m (for_m results (process_result b3 run_id recover p))
               (return_m (\<not> page * runs_per_page \<ge> total))))"

subsection \<open>The whole run\<close>

text \<open>The pages of a pair: \<open>True\<close> when the run was stopped; and the number of the next turn.\<close>

fun run_pages :: "nat \<Rightarrow> digest \<Rightarrow> string option \<Rightarrow> (nat \<Rightarrow> world \<Rightarrow> world) \<Rightarrow> int \<Rightarrow> bool \<Rightarrow> int option
    \<Rightarrow> drive_pair \<Rightarrow> int \<Rightarrow> nat \<Rightarrow> world \<Rightarrow> ((err + bool \<times> nat) \<times> world) option" where
  "run_pages 0 b3 meminfo others run_id recover deadline p page turn w = None"
| "run_pages (Suc n) b3 meminfo others run_id recover deadline p page turn w =
     (case check_should_stop run_id deadline (others turn w) of
        (Inl e, v) \<Rightarrow> Some (Inl e, v)
      | (Inr True, v) \<Rightarrow> Some (seq_m (set_integrity_run_active_workers run_id 0) (return_m (True, Suc turn)) v)
      | (Inr False, v) \<Rightarrow>
          (case run_page b3 meminfo run_id recover p page v of
             (Inl e, u) \<Rightarrow> Some (Inl e, u)
           | (Inr again, u) \<Rightarrow>
               (if again
                then run_pages n b3 meminfo others run_id recover deadline p (page + 1) (Suc turn) u
                else Some (Inr (False, Suc turn), u))))"

definition pool_workers :: "(nat \<Rightarrow> bool) \<Rightarrow> checksum_config \<Rightarrow> drive_pair \<Rightarrow> int prog" where
  "pool_workers pool_ok cfg p = (let n = max 1 (pool_size_for_pair (media_from_str (dp_primary_media_type p))
       (media_from_str (dp_secondary_media_type p)) cfg) in
     if pool_ok n then return_m (int n) else if pool_ok 1 then return_m 1 else bail ''thread pool'')"

fun run_pairs :: "nat \<Rightarrow> digest \<Rightarrow> string option \<Rightarrow> (nat \<Rightarrow> bool) \<Rightarrow> (nat \<Rightarrow> world \<Rightarrow> world) \<Rightarrow> int \<Rightarrow> bool \<Rightarrow> int option
    \<Rightarrow> checksum_config \<Rightarrow> drive_pair list \<Rightarrow> nat \<Rightarrow> world \<Rightarrow> ((err + bool) \<times> world) option" where
  "run_pairs fuel b3 meminfo pool_ok others run_id recover deadline cfg [] turn w = Some (Inr False, w)"
| "run_pairs fuel b3 meminfo pool_ok others run_id recover deadline cfg (p # ps) turn w =
     (case bind_m (pool_workers pool_ok cfg p) (set_integrity_run_active_workers run_id) w of
        (Inl e, v) \<Rightarrow> Some (Inl e, v)
      | (Inr _, v) \<Rightarrow>
          (case run_pages fuel b3 meminfo others run_id recover deadline p 1 turn v of
             None \<Rightarrow> None
           | Some (Inl e, u) \<Rightarrow> Some (Inl e, u)
           | Some (Inr (True, _), u) \<Rightarrow> Some (Inr True, u)
           | Some (Inr (False, turn'), u) \<Rightarrow>
               run_pairs fuel b3 meminfo pool_ok others run_id recover deadline cfg ps turn'
                 (snd (set_integrity_run_active_workers run_id 0 u))))"

definition pairs_in_scope :: "int option \<Rightarrow> drive_pair list prog" where
  "pairs_in_scope scope = (case scope of
       Some i \<Rightarrow> bind_m (get_drive_pair i) (\<lambda>p. return_m [p])
     | None \<Rightarrow> list_drive_pairs)"

definition finish_run :: "int \<Rightarrow> unit prog" where
  "finish_run run_id = bind_m (get_integrity_run run_id) (\<lambda>final.
     let status = (if ir_stop_requested final then ''stopped'' else ''completed'') in
     seq_m (finish_integrity_run run_id status None)
           (discard (log_integrity_run_completed run_id status (ir_attention_files final) (ir_recovered_files final))))"

definition process_run :: "nat \<Rightarrow> digest \<Rightarrow> string option \<Rightarrow> (nat \<Rightarrow> bool) \<Rightarrow> (nat \<Rightarrow> world \<Rightarrow> world) \<Rightarrow> int
    \<Rightarrow> int option \<Rightarrow> checksum_config \<Rightarrow> world \<Rightarrow> ((err + unit) \<times> world) option" where
  "process_run fuel b3 meminfo pool_ok others run_id deadline cfg w =
     (case get_integrity_run run_id w of
        (Inl e, v) \<Rightarrow> Some (Inl e, v)
      | (Inr run, v) \<Rightarrow>
          (case seq_m (discard (log_integrity_run_started run_id (ir_total_files run) (ir_trigger run)))
                  (pairs_in_scope (ir_scope_drive_pair_id run)) v of
             (Inl e, u) \<Rightarrow> Some (Inl e, u)
           | (Inr ps, u) \<Rightarrow>
               (case run_pairs fuel b3 meminfo pool_ok others run_id (ir_recover run) deadline cfg ps 0 u of
                  None \<Rightarrow> None
                | Some (Inl e, x) \<Rightarrow> Some (Inl e, x)
                | Some (Inr True, x) \<Rightarrow> Some (Inr (), x)
                | Some (Inr False, x) \<Rightarrow> Some (finish_run run_id x))))"

subsection \<open>Starting a run\<close>

definition open_run :: "int option \<Rightarrow> bool \<Rightarrow> string \<Rightarrow> integrity_run prog" where
  "open_run scope recover trigger = bind_m get_active_integrity_run (\<lambda>active.
     if active \<noteq> None then bail ''Another integrity run is already active''
     else bind_m (count_tracked_files scope) (\<lambda>total. create_integrity_run scope recover trigger total))"

text \<open>What the spawned thread does with its run: an error marks the run as failed.\<close>

definition run_thread :: "nat \<Rightarrow> digest \<Rightarrow> string option \<Rightarrow> (nat \<Rightarrow> bool) \<Rightarrow> (nat \<Rightarrow> world \<Rightarrow> world) \<Rightarrow> int
    \<Rightarrow> int option \<Rightarrow> checksum_config \<Rightarrow> world \<Rightarrow> ((err + unit) \<times> world) option" where
  "run_thread fuel b3 meminfo pool_ok others run_id deadline cfg w =
     map_option (\<lambda>(r, v). case r of
         Inl e \<Rightarrow> (Inl e, snd (finish_integrity_run run_id ''failed'' (Some (err_to_string e)) v))
       | Inr x \<Rightarrow> (Inr x, v))
     (process_run fuel b3 meminfo pool_ok others run_id deadline cfg w)"

text \<open>The answer of \<open>start_run_async\<close> and, apart from it, the world once the thread is done.\<close>

definition start_run_async :: "nat \<Rightarrow> digest \<Rightarrow> string option \<Rightarrow> (nat \<Rightarrow> bool) \<Rightarrow> (nat \<Rightarrow> world \<Rightarrow> world) \<Rightarrow> int option
    \<Rightarrow> bool \<Rightarrow> string \<Rightarrow> int option \<Rightarrow> checksum_config \<Rightarrow> world \<Rightarrow> (err + integrity_run) \<times> world option" where
  "start_run_async fuel b3 meminfo pool_ok others scope recover trigger deadline cfg w =
     (case open_run scope recover trigger w of
        (Inl e, v) \<Rightarrow> (Inl e, Some v)
      | (Inr run, v) \<Rightarrow> (Inr run,
          map_option snd (run_thread fuel b3 meminfo pool_ok others (ir_id run) deadline cfg v)))"

definition run_sync :: "nat \<Rightarrow> digest \<Rightarrow> string option \<Rightarrow> (nat \<Rightarrow> bool) \<Rightarrow> (nat \<Rightarrow> world \<Rightarrow> world) \<Rightarrow> int option
    \<Rightarrow> bool \<Rightarrow> string \<Rightarrow> int option \<Rightarrow> checksum_config \<Rightarrow> world \<Rightarrow> ((err + integrity_run) \<times> world) option" where
  "run_sync fuel b3 meminfo pool_ok others scope recover trigger deadline cfg w =
     (case open_run scope recover trigger w of
        (Inl e, v) \<Rightarrow> Some (Inl e, v)
      | (Inr run, v) \<Rightarrow>
          (case run_thread fuel b3 meminfo pool_ok others (ir_id run) deadline cfg v of
             None \<Rightarrow> None
           | Some (Inl e, u) \<Rightarrow> Some (Inl e, u)
           | Some (Inr _, u) \<Rightarrow> Some (get_integrity_run (ir_id run) u)))"

end
