(* ===== verification/Integrity_Runs_Correct.thy ===== *)
theory Integrity_Runs_Correct
  imports Integrity_Runs "HOL-Library.Multiset"
begin

section \<open>Integrity runs, proved\<close>

text \<open>
  What a run does, seen through a view of the world that holds what the runs read and write: the ids, pairs
  and check times of the files, the ids of the pairs, the runs and their results. Recording a result
  changes the view in one way, every other statement of a page leaves it alone (\<open>keeps (view_is c)\<close>); from that
  the effect of a batch, a page and all pages follows. The two properties say when a run checks every
  file, and that with more than one page it does not.
\<close>

subsection \<open>What recording a result changes\<close>

text \<open>A file as the runs see it: its id, its pair and when it was last checked.\<close>

type_synonym mark = "int \<times> int \<times> int option"

definition mark_of :: "tracked_file \<Rightarrow> mark" where
  "mark_of f = (tf_id f, tf_drive_pair_id f, tf_last_integrity_check_at f)"

definition mark_checked :: "int set \<Rightarrow> int \<Rightarrow> mark list \<Rightarrow> mark list" where
  "mark_checked ids now = map (\<lambda>(i, p, c). (i, p, if i \<in> ids then Some now else c))"

text \<open>The number of workers is only displayed; the runs are compared without it.\<close>

definition idle :: "integrity_run \<Rightarrow> integrity_run" where
  "idle r = r\<lparr>ir_active_workers := 0\<rparr>"

record run_view =
  rv_marks :: "mark list"
  rv_pairs :: "int list"
  rv_runs :: "integrity_run list"
  rv_results :: "integrity_run_result list"
  rv_now :: int

definition view :: "world \<Rightarrow> run_view" where
  "view w = \<lparr>rv_marks = map mark_of (db_files (w_db w)), rv_pairs = map dp_id (db_pairs (w_db w)),
     rv_runs = map idle (db_runs (w_db w)), rv_results = db_results (w_db w), rv_now = w_now w\<rparr>"

definition view_is :: "run_view \<Rightarrow> world \<Rightarrow> bool" where
  "view_is c w = (view w = c)"

lemma view_is_refl: "view_is (view w) w"
  by (simp add: view_is_def)

lemma view_put: "view_is c w \<Longrightarrow> view_is c (fs_put k n w)"
  by (simp add: view_is_def view_def)

lemma view_logs [keeps]: "logs_only m \<Longrightarrow> keeps (view_is c) m"
  by (rule keepsI) (simp add: view_is_def view_def)

lemma view_mirrored [keeps]: "keeps (view_is c) (update_tracked_file_mirror_status i b)"
proof -
  have "map mark_of (upd_where P (\<lambda>f. f\<lparr>tf_is_mirrored := b, tf_updated_at := t\<rparr>) fs) = map mark_of fs" for P t fs
    by (rule map_upd_where) (simp add: mark_of_def)
  then show ?thesis by (simp add: keeps_def view_is_def view_def update_tracked_file_mirror_status_def)
qed

lemma view_complete [keeps]: "keeps (view_is c) (complete_pending_mirror_queue_for_file i)"
  by (simp add: keeps_def view_is_def view_def complete_pending_mirror_queue_for_file_def update_queue_counted_def
      update_queue_def)

lemma view_recovery [keeps]: "keeps (view_is c) (attempt_recovery_with_reconciliation b3 p f res)"
proof -
  have "keeps (view_is c) (case r of
         Inr True \<Rightarrow>
           seq_m (update_tracked_file_mirror_status (tf_id f) True)
          (bind_m (complete_pending_mirror_queue_for_file (tf_id f)) (\<lambda>reconciled.
           seq_m (discard (log_recovery (tf_id f) a True))
          (seq_m (if reconciled > 0 then discard (log_sync_completed (tf_id f) ''mirror'' path) else return_m ())
          (return_m True))))
       | Inr False \<Rightarrow> seq_m (discard (log_recovery (tf_id f) b False)) (return_m False)
       | Inl e \<Rightarrow> seq_m (discard (log_recovery (tf_id f) b False)) (raise_m e))" for r a b path
  proof -
    have 1: "keeps (view_is c) (seq_m (update_tracked_file_mirror_status (tf_id f) True)
          (bind_m (complete_pending_mirror_queue_for_file (tf_id f)) (\<lambda>reconciled.
           seq_m (discard (log_recovery (tf_id f) a True))
          (seq_m (if reconciled > 0 then discard (log_sync_completed (tf_id f) ''mirror'' path) else return_m ())
          (return_m True)))))"
      by (intro keeps_seq keeps_bind keeps_if keeps_discard keeps_return view_mirrored view_complete view_logs) simp_all
    have 2: "keeps (view_is c) (seq_m (discard (log_recovery (tf_id f) b False)) (return_m False))"
      "keeps (view_is c) (seq_m (discard (log_recovery (tf_id f) b False)) (raise_m e))" for e
      by (intro keeps_seq keeps_discard keeps_return keeps_raise view_logs; simp)+
    show ?thesis
    proof (cases r)
      case (Inr x)
      then show ?thesis using 1 2 by (cases x) simp_all
    qed (use 2 in simp)
  qed
  then show ?thesis
    unfolding attempt_recovery_with_reconciliation_def Let_def
    by (intro keeps_bind keeps_try attempt_keeps view_put)
qed

lemma view_log_issue [keeps]: "keeps (view_is c) (log_issue p f res)"
proof -
  have "keeps (view_is c) (discard (log_integrity_fail i x y))" "keeps (view_is c) (discard (log_both_corrupted i x a b y))" for i x y a b
    by (intro keeps_discard view_logs; simp)+
  then show ?thesis
    unfolding log_issue_def Let_def by (cases "ic_status res") (simp_all add: keeps_return keeps_seq)
qed

definition bump_by :: "int \<Rightarrow> int \<Rightarrow> int \<Rightarrow> int \<Rightarrow> integrity_run list \<Rightarrow> integrity_run list" where
  "bump_by run_id n a k = upd_where (\<lambda>r. ir_id r = run_id)
     (\<lambda>r. r\<lparr>ir_processed_files := ir_processed_files r + n, ir_attention_files := ir_attention_files r + a,
            ir_recovered_files := ir_recovered_files r + k\<rparr>)"

lemma bump_zero [simp]: "bump_by run_id 0 0 0 rs = rs"
  by (induction rs) (auto simp: bump_by_def)

lemma bump_add: "bump_by run_id m a k (bump_by run_id n b l rs) = bump_by run_id (n + m) (b + a) (l + k) rs"
  by (induction rs) (auto simp: bump_by_def)

lemma idle_bump: "map idle (bump_by run_id n a k rs) = bump_by run_id n a k (map idle rs)"
  by (induction rs) (auto simp: bump_by_def idle_def)

lemma bump_ids: "map ir_id (bump_by run_id n a k rs) = map ir_id rs"
  unfolding bump_by_def by (rule map_upd_where) simp

lemma mark_checked_twice:
  "mark_checked X t (mark_checked Y t ms) = mark_checked (X \<union> Y) t ms"
  by (induction ms) (auto simp: mark_checked_def)

lemma mark_checked_none [simp]: "mark_checked {} t ms = ms"
  by (induction ms) (auto simp: mark_checked_def)

text \<open>A result can be recorded when the run, the file and the pair are there.\<close>

definition recordable :: "int \<Rightarrow> int \<Rightarrow> int \<Rightarrow> run_view \<Rightarrow> bool" where
  "recordable run_id file_id pair_id c = ((\<exists>r \<in> set (rv_runs c). ir_id r = run_id)
     \<and> file_id \<in> fst ` set (rv_marks c) \<and> pair_id \<in> set (rv_pairs c))"

lemma record_result_view:
  assumes "recordable run_id (tf_id f) (tf_drive_pair_id f) (view w)"
  shows "\<exists>v row. record_result run_id f s rec att w = (Inr (), v) \<and> rr_file_id row = tf_id f
    \<and> rr_run_id row = run_id \<and> rr_status row = s \<and> rr_needs_attention row = att
    \<and> view v = (view w)\<lparr>rv_marks := mark_checked {tf_id f} (w_now w) (rv_marks (view w)),
         rv_runs := bump_by run_id 1 (if att then 1 else 0) (if rec then 1 else 0) (rv_runs (view w)), rv_results := rv_results (view w) @ [row]\<rparr>"
proof -
  let ?i = "tf_id f"
  let ?u = "snd (update_tracked_file_last_integrity_check_at ?i w)"
  let ?row = "\<lparr>rr_id = nx_result (w_db w), rr_run_id = run_id, rr_file_id = ?i, rr_drive_pair_id = tf_drive_pair_id f,
            rr_relative_path = tf_relative_path f, rr_status = s, rr_recovered = rec,
            rr_needs_attention = att, rr_checked_at = w_now w\<rparr>"
  have m: "map mark_of (upd_where (\<lambda>f. tf_id f = i) (\<lambda>f. f\<lparr>tf_last_integrity_check_at := Some t, tf_updated_at := t\<rparr>) fs) =
      mark_checked {i} t (map mark_of fs)" for i t fs
    by (induction fs) (auto simp: mark_of_def mark_checked_def)
  have ids: "has_file i (w_db ?u) = has_file i (w_db w)" for i
  proof -
    have "map tf_id (db_files (w_db ?u)) = map tf_id (db_files (w_db w))"
      unfolding update_tracked_file_last_integrity_check_at_def by simp
    then have "tf_id ` set (db_files (w_db ?u)) = tf_id ` set (db_files (w_db w))" by (metis set_map)
    then show ?thesis unfolding has_file_def by (metis (mono_tags, lifting) imageE imageI)
  qed
  have ok: "has_run run_id (w_db ?u)" "has_file ?i (w_db ?u)" "has_pair (tf_drive_pair_id f) ?u"
    using assms unfolding ids
    by (auto simp: recordable_def view_def idle_def has_run_def has_file_def has_pair_def mark_of_def
        update_tracked_file_last_integrity_check_at_def)
  have nx: "nx_result (w_db ?u) = nx_result (w_db w)" "w_now ?u = w_now w" "db_results (w_db ?u) = db_results (w_db w)"
    by (simp_all add: update_tracked_file_last_integrity_check_at_def)
  let ?x = "?u\<lparr>w_db := (w_db ?u)\<lparr>db_results := db_results (w_db w) @ [?row], nx_result := nx_result (w_db w) + 1\<rparr>\<rparr>"
  have "find (\<lambda>r. rr_id r = nx_result (w_db w)) (db_results (w_db w) @ [?row]) \<noteq> None"
    by (auto simp: find_None)
  then obtain r where "find (\<lambda>r. rr_id r = nx_result (w_db w)) (db_results (w_db w) @ [?row]) = Some r" by blast
  then have app: "append_integrity_run_result run_id ?i (tf_drive_pair_id f) (tf_relative_path f) s rec att ?u = (Inr r, ?x)"
    using ok nx by (simp add: append_integrity_run_result_def Let_def)
  have st: "update_tracked_file_last_integrity_check_at ?i w = (Inr (), ?u)"
    by (simp add: update_tracked_file_last_integrity_check_at_def)
  let ?v = "?x\<lparr>w_db := (w_db ?x)\<lparr>db_runs := bump_by run_id 1 (if att then 1 else 0) (if rec then 1 else 0) (db_runs (w_db ?x))\<rparr>\<rparr>"
  have "record_result run_id f s rec att w = (Inr (), ?v)"
    unfolding record_result_def
    by (simp add: seq_m_ok [where m = "update_tracked_file_last_integrity_check_at i" for i, OF st]
        seq_m_ok [where m = "append_integrity_run_result a b c d e g h" for a b c d e g h, OF app]
        increment_integrity_run_progress_def bump_by_def)
  moreover have "view ?v = (view w)\<lparr>rv_marks := mark_checked {?i} (w_now w) (rv_marks (view w)),
         rv_runs := bump_by run_id 1 (if att then 1 else 0) (if rec then 1 else 0) (rv_runs (view w)), rv_results := rv_results (view w) @ [?row]\<rparr>"
    by (simp add: view_def update_tracked_file_last_integrity_check_at_def m idle_bump)
  ultimately show ?thesis by (intro exI [of _ ?v] exI [of _ ?row]) simp
qed


subsection \<open>What checking files changes\<close>

text \<open>
  \<open>checked_effect run_id ids c d\<close>: from view \<open>c\<close> to view \<open>d\<close> the files \<open>ids\<close> were checked in this order: their time
  of check is now, each has one new result, the run counted them, and the counts of files that need
  attention and of recovered files grew together by no more than the number of files.
\<close>

definition checked_effect :: "int \<Rightarrow> int list \<Rightarrow> run_view \<Rightarrow> run_view \<Rightarrow> bool" where
  "checked_effect run_id ids c d = (\<exists>rows a k. d = c\<lparr>rv_marks := mark_checked (set ids) (rv_now c) (rv_marks c),
       rv_runs := bump_by run_id (int (length ids)) a k (rv_runs c), rv_results := rv_results c @ rows\<rparr>
     \<and> map rr_file_id rows = ids \<and> (\<forall>r \<in> set rows. rr_run_id r = run_id)
     \<and> a = count_where rr_needs_attention rows \<and> 0 \<le> k \<and> a + k \<le> int (length ids))"

lemma effect_refl [simp]: "checked_effect run_id [] c c"
  unfolding checked_effect_def
  by (intro exI [of _ "[]"] exI [of _ 0]) (simp add: count_where_def)

lemma effect_trans:
  assumes "checked_effect run_id xs c d" "checked_effect run_id ys d e"
  shows "checked_effect run_id (xs @ ys) c e"
proof -
  obtain r1 k1 where 1: "d = c\<lparr>rv_marks := mark_checked (set xs) (rv_now c) (rv_marks c),
       rv_runs := bump_by run_id (int (length xs)) (count_where rr_needs_attention r1) k1 (rv_runs c), rv_results := rv_results c @ r1\<rparr>"
    "map rr_file_id r1 = xs" "\<forall>r \<in> set r1. rr_run_id r = run_id" "0 \<le> k1"
    "count_where rr_needs_attention r1 + k1 \<le> int (length xs)"
    using assms(1) unfolding checked_effect_def by blast
  obtain r2 k2 where 2: "e = d\<lparr>rv_marks := mark_checked (set ys) (rv_now d) (rv_marks d),
       rv_runs := bump_by run_id (int (length ys)) (count_where rr_needs_attention r2) k2 (rv_runs d), rv_results := rv_results d @ r2\<rparr>"
    "map rr_file_id r2 = ys" "\<forall>r \<in> set r2. rr_run_id r = run_id" "0 \<le> k2"
    "count_where rr_needs_attention r2 + k2 \<le> int (length ys)"
    using assms(2) unfolding checked_effect_def by blast
  have "count_where rr_needs_attention (r1 @ r2) = count_where rr_needs_attention r1 + count_where rr_needs_attention r2"
    by (simp add: count_where_def)
  then show ?thesis
    unfolding checked_effect_def
    by (intro exI [of _ "r1 @ r2"] exI [of _ "count_where rr_needs_attention (r1 @ r2)"] exI [of _ "k1 + k2"])
      (use 1 2 in \<open>auto simp: bump_add mark_checked_twice Un_commute\<close>)
qed

lemma effect_parts:
  assumes "checked_effect run_id ids c d"
  shows "rv_pairs d = rv_pairs c" "rv_now d = rv_now c" "map ir_id (rv_runs d) = map ir_id (rv_runs c)"
    "map (\<lambda>(i, p, _). (i, p)) (rv_marks d) = map (\<lambda>(i, p, _). (i, p)) (rv_marks c)"
    "rv_marks d = mark_checked (set ids) (rv_now c) (rv_marks c)"
  using assms by (auto simp: checked_effect_def bump_ids mark_checked_def case_prod_beta)

lemma recordable_effect:
  assumes "checked_effect run_id ids c d"
  shows "recordable run_id i p d = recordable run_id i p c"
proof -
  note e = effect_parts [OF assms]
  have "set (map ir_id (rv_runs d)) = set (map ir_id (rv_runs c))" by (simp only: e(3))
  moreover have "map fst (rv_marks d) = map fst (rv_marks c)"
    using arg_cong [OF e(4), of "map fst"] by (simp add: case_prod_beta comp_def)
  then have "fst ` set (rv_marks d) = fst ` set (rv_marks c)" by (metis set_map)
  moreover have m: "(\<exists>r \<in> set rs. ir_id r = run_id) = (run_id \<in> set (map ir_id rs))" for rs by auto
  ultimately show ?thesis unfolding recordable_def e(1) m by simp
qed

lemma process_result_effect:
  assumes "recordable run_id (tf_id f) (tf_drive_pair_id f) (view w)"
  shows "\<exists>v. process_result b3 run_id recover p (f, r) w = (Inr (), v) \<and> checked_effect run_id [tf_id f] (view w) (view v)"
proof -
  have step: "\<exists>v. record_result run_id f s rec att u = (Inr (), v) \<and> checked_effect run_id [tf_id f] (view w) (view v)"
    if u: "view_is (view w) u" and x: "\<not> (rec \<and> att)" for u s rec att
  proof -
    have vu: "view u = view w" and now: "w_now u = w_now w" using u by (simp_all add: view_is_def view_def)
    from record_result_view [of run_id f u s rec att] assms vu obtain v row where
      v: "record_result run_id f s rec att u = (Inr (), v)" "rr_file_id row = tf_id f" "rr_run_id row = run_id"
      "rr_needs_attention row = att"
      "view v = (view w)\<lparr>rv_marks := mark_checked {tf_id f} (w_now w) (rv_marks (view w)),
         rv_runs := bump_by run_id 1 (if att then 1 else 0) (if rec then 1 else 0) (rv_runs (view w)),
         rv_results := rv_results (view w) @ [row]\<rparr>" by (auto simp: now)
    have "rv_now (view w) = w_now w" by (simp add: view_def)
    then have "checked_effect run_id [tf_id f] (view w) (view v)"
      unfolding checked_effect_def
      by (intro exI [of _ "[row]"] exI [of _ "if att then 1 else 0"] exI [of _ "if rec then 1 else 0"])
        (use v x in \<open>auto simp: count_where_def\<close>)
    then show ?thesis using v(1) by blast
  qed
  show ?thesis
  proof (cases r)
    case (Inl e)
    then show ?thesis using step [OF view_is_refl, of False True] by (simp add: process_result_def)
  next
    case (Inr res)
    let ?attempt = "if recover \<and> ic_status res \<noteq> IOk
                  then bind_m (try_m (attempt_recovery_with_reconciliation b3 p f res)) (\<lambda>r.
                    return_m (case r of Inl _ \<Rightarrow> False | Inr b \<Rightarrow> b))
                  else return_m False"
    have k: "keeps (view_is (view w)) ?attempt" by (intro keeps_if keeps_bind keeps_try view_recovery keeps_return)
    obtain rec u where u: "?attempt w = (Inr rec, u)" "ic_status res = IOk \<longrightarrow> \<not> rec"
    proof (cases "recover \<and> ic_status res \<noteq> IOk")
      case True
      obtain a x where "attempt_recovery_with_reconciliation b3 p f res w = (a, x)" by fastforce
      then have "?attempt w = (Inr (case a of Inl _ \<Rightarrow> False | Inr b \<Rightarrow> b), x)" using True by (simp add: bind_m_def try_m_def)
      then show thesis using that True by blast
    qed (use that [of False w] in auto)
    let ?x = "snd (log_issue p f res u)"
    have "view_is (view w) u" using keepsD [OF k view_is_refl] u(1) by simp
    then have x: "view_is (view w) ?x" by (rule keepsD [OF view_log_issue])
    have li: "log_issue p f res u = (Inr (), ?x)"
      by (cases "ic_status res") (simp_all add: log_issue_def Let_def)
    have run: "process_result b3 run_id recover p (f, r) w =
        record_result run_id f (status_str (ic_status res)) rec (ic_status res \<noteq> IOk \<and> \<not> rec) ?x"
      using Inr by (simp add: process_result_def bind_m_ok [where m = ?attempt, OF u(1)]
          seq_m_ok [where m = "log_issue p f res" for p f res, OF li] del: seq_m_discard)
    show ?thesis unfolding run by (rule step [OF x]) auto
  qed
qed

lemma batch_effect:
  assumes "\<forall>(f, r) \<in> set frs. recordable run_id (tf_id f) (tf_drive_pair_id f) (view w)"
  shows "\<exists>v. for_m frs (process_result b3 run_id recover p) w = (Inr (), v)
    \<and> checked_effect run_id (map (\<lambda>(f, r). tf_id f) frs) (view w) (view v)"
  using assms
proof (induction frs arbitrary: w)
  case (Cons fr frs)
  obtain f r where fr: "fr = (f, r)" by fastforce
  obtain u where u: "process_result b3 run_id recover p fr w = (Inr (), u)" "checked_effect run_id [tf_id f] (view w) (view u)"
    using process_result_effect [of run_id f w b3 recover p r] Cons.prems fr by auto
  have "\<forall>(f, r) \<in> set frs. recordable run_id (tf_id f) (tf_drive_pair_id f) (view u)"
    using Cons.prems recordable_effect [OF u(2)] by auto
  from Cons.IH [OF this] obtain v where
    v: "for_m frs (process_result b3 run_id recover p) u = (Inr (), v)"
      "checked_effect run_id (map (\<lambda>(f, r). tf_id f) frs) (view u) (view v)" by blast
  show ?case using u v effect_trans [OF u(2) v(2)] fr
    by (auto simp: seq_m_ok [where m = "process_result a b c d e" for a b c d e, OF u(1)] intro!: exI [of _ v])
qed simp


subsection \<open>One page\<close>

lemma insort_map: "map f (insort_key (\<lambda>x. g (f x)) x xs) = insort_key g (f x) (map f xs)"
  by (induction xs) auto

lemma sort_map: "map f (sort_key (\<lambda>x. g (f x)) xs) = sort_key g (map f xs)"
  by (induction xs) (simp_all add: insort_map)

definition due :: "int \<Rightarrow> mark list \<Rightarrow> mark list" where
  "due pair ms = (let mine = filter (\<lambda>(i, p, c). p = pair) ms in
     filter (\<lambda>(i, p, c). c = None) mine @ sort_key (\<lambda>(i, p, c). the c) (filter (\<lambda>(i, p, c). c \<noteq> None) mine))"

lemma mine_marks:
  "filter (\<lambda>(i, p, c). p = pair) (map mark_of fs) = map mark_of (filter (\<lambda>f. tf_drive_pair_id f = pair) fs)"
  by (induction fs) (auto simp: mark_of_def)

lemma due_marks: "map mark_of (oldest_check_first (filter (\<lambda>f. tf_drive_pair_id f = pair) fs)) = due pair (map mark_of fs)"
proof -
  have n: "filter (\<lambda>(i, p, c). c = None) (map mark_of gs) = map mark_of (filter (\<lambda>f. tf_last_integrity_check_at f = None) gs)"
    "filter (\<lambda>(i, p, c). c \<noteq> None) (map mark_of gs) = map mark_of (filter (\<lambda>f. tf_last_integrity_check_at f \<noteq> None) gs)" for gs
    by (induction gs) (auto simp: mark_of_def)
  have k: "(\<lambda>f. the (tf_last_integrity_check_at f)) = (\<lambda>f. (\<lambda>(i, p, c). the c) (mark_of f))"
    by (simp add: mark_of_def)
  show ?thesis
    unfolding due_def Let_def mine_marks n oldest_check_first_def map_append k sort_map by simp
qed

lemma set_due: "set (due pair ms) = {m \<in> set ms. fst (snd m) = pair}"
  by (auto simp: due_def Let_def)

lemma mset_due: "mset (due pair ms) = mset (filter (\<lambda>(i, p, c). p = pair) ms)"
proof -
  have "mset (filter (\<lambda>(i, p, c). c = None) xs) + mset (filter (\<lambda>(i, p, c). c \<noteq> None) xs) = mset xs" for xs :: "mark list"
    by (induction xs) auto
  from this [of "filter (\<lambda>(i, p, c). p = pair) ms"] show ?thesis
    by (simp only: due_def Let_def mset_append mset_sort)
qed

lemma length_due: "length (due pair ms) = length (filter (\<lambda>(i, p, c). p = pair) ms)"
  using arg_cong [OF mset_due, of size pair ms] by (simp only: size_mset)

definition page_ids :: "int \<Rightarrow> nat \<Rightarrow> mark list \<Rightarrow> int list" where
  "page_ids pair k ms = map fst (take 100 (drop (k * 100) (due pair ms)))"

definition ready :: "int \<Rightarrow> run_view \<Rightarrow> bool" where
  "ready run_id c = ((\<exists>r \<in> set (rv_runs c). ir_id r = run_id) \<and> (\<forall>(i, p, x) \<in> set (rv_marks c). p \<in> set (rv_pairs c)))"

lemma check_run: "check_batch b3 meminfo p files w = (Inr (map (\<lambda>f. (f, fst (check_file_integrity b3 p f
       (for_drive meminfo (media_from_str (dp_primary_media_type p)) (of_int (tf_file_size f)))
       (for_drive meminfo (media_from_str (dp_secondary_media_type p)) (of_int (tf_file_size f))) w))) files), w)"
  by (simp add: check_batch_def Let_def)

lemma run_page_effect:
  assumes "ready run_id (view w)"
  shows "\<exists>v. run_page b3 meminfo run_id recover p (int k + 1) w =
       (Inr (page_ids (dp_id p) k (rv_marks (view w)) \<noteq> [] \<and>
             (k + 1) * 100 < length (due (dp_id p) (rv_marks (view w)))), v)
    \<and> checked_effect run_id (page_ids (dp_id p) k (rv_marks (view w))) (view w) (view v)"
proof -
  let ?fs = "filter (\<lambda>f. tf_drive_pair_id f = dp_id p) (db_files (w_db w))"
  let ?all = "oldest_check_first ?fs"
  let ?files = "take 100 (drop (k * 100) ?all)"
  have due: "map mark_of ?all = due (dp_id p) (rv_marks (view w))" by (simp add: view_def due_marks)
  have ids: "map tf_id ?files = page_ids (dp_id p) k (rv_marks (view w))"
    unfolding page_ids_def due [symmetric] by (simp add: take_map [symmetric] drop_map [symmetric] mark_of_def comp_def)
  have len: "length ?fs = length (due (dp_id p) (rv_marks (view w)))"
    by (simp add: length_due view_def mine_marks)
  have page: "list_tracked_files_oldest_integrity_first (Some (dp_id p)) (int k + 1) runs_per_page w =
      (Inr (?files, int (length ?fs)), w)"
    by (simp add: list_tracked_files_oldest_integrity_first_def Let_def paginate_def runs_per_page_def i64_max_def nat_mult_distrib)
  show ?thesis
  proof (cases "?files = []")
    case True
    then have "page_ids (dp_id p) k (rv_marks (view w)) = []" using ids by simp
    then show ?thesis
      using True by (simp add: run_page_def bind_m_ok [where m = "list_tracked_files_oldest_integrity_first a b c" for a b c, OF page])
  next
    case False
    obtain rs where rs: "check_batch b3 meminfo p ?files w = (Inr (map (\<lambda>f. (f, rs f)) ?files), w)"
      using that [OF check_run] by blast
    have "set ?files \<subseteq> set (db_files (w_db w))"
      using set_take_subset [of 100 "drop (k * 100) ?all"] set_drop_subset [of "k * 100" ?all]
      by (auto simp: oldest_check_first_def)
    then have "\<forall>(f, r) \<in> set (map (\<lambda>f. (f, rs f)) ?files). recordable run_id (tf_id f) (tf_drive_pair_id f) (view w)"
      using assms unfolding ready_def recordable_def by (force simp: view_def mark_of_def)
    from batch_effect [OF this, of b3 recover p] obtain v where
      v: "for_m (map (\<lambda>f. (f, rs f)) ?files) (process_result b3 run_id recover p) w = (Inr (), v)"
      "checked_effect run_id (map tf_id ?files) (view w) (view v)" by (auto simp: comp_def)
    have "run_page b3 meminfo run_id recover p (int k + 1) w = (Inr (\<not> int (length ?fs) \<le> (int k + 1) * 100), v)"
      using False by (simp add: run_page_def runs_per_page_def
        bind_m_ok [where m = "list_tracked_files_oldest_integrity_first a b c" for a b c, OF page [unfolded runs_per_page_def]]
        bind_m_ok [where m = "check_batch a b c d" for a b c d, OF rs]
        seq_m_ok [where m = "for_m a b" for a b, OF v(1)])
    moreover have "page_ids (dp_id p) k (rv_marks (view w)) \<noteq> []" using False ids by (metis map_is_Nil_conv)
    moreover have "(\<not> int (length ?fs) \<le> (int k + 1) * 100) = ((k + 1) * 100 < length (due (dp_id p) (rv_marks (view w))))"
      unfolding len by presburger
    ultimately show ?thesis using v(2) ids by simp
  qed
qed


subsection \<open>All pages, all pairs\<close>

definition open_view :: "int \<Rightarrow> run_view \<Rightarrow> bool" where
  "open_view run_id c = (ready run_id c \<and> (\<forall>r \<in> set (rv_runs c). ir_id r = run_id \<longrightarrow> \<not> ir_stop_requested r))"

lemma open_effect: "checked_effect run_id ids c d \<Longrightarrow> open_view run_id c \<Longrightarrow> open_view run_id d"
proof -
  assume e: "checked_effect run_id ids c d" and o: "open_view run_id c"
  have "ready run_id d"
  proof -
    have "run_id \<in> set (map ir_id (rv_runs d))" using o effect_parts(3) [OF e] by (auto simp: open_view_def ready_def)
    moreover have "\<forall>(i, p) \<in> set (map (\<lambda>(i, p, _). (i, p)) (rv_marks d)). p \<in> set (rv_pairs d)"
      unfolding effect_parts(4) [OF e] effect_parts(1) [OF e] using o by (auto simp: open_view_def ready_def)
    ultimately show ?thesis by (fastforce simp: ready_def)
  qed
  moreover have "\<forall>r \<in> set (rv_runs d). ir_id r = run_id \<longrightarrow> \<not> ir_stop_requested r"
  proof -
    have "\<forall>r \<in> set rs. ir_id r = run_id \<longrightarrow> \<not> ir_stop_requested r \<Longrightarrow>
       \<forall>r \<in> set (bump_by run_id n a k rs). ir_id r = run_id \<longrightarrow> \<not> ir_stop_requested r" for rs n a k
      by (induction rs) (auto simp: bump_by_def)
    then show ?thesis using e o by (auto simp: checked_effect_def open_view_def)
  qed
  ultimately show "open_view run_id d" by (simp add: open_view_def)
qed

lemma view_workers: "view (snd (set_integrity_run_active_workers i n w)) = view w"
proof -
  have "map idle (upd_where P (\<lambda>r. r\<lparr>ir_active_workers := n\<rparr>) rs) = map idle rs" for P rs
    by (rule map_upd_where) (simp add: idle_def)
  then show ?thesis by (simp add: set_integrity_run_active_workers_def view_def)
qed

lemma not_stopped:
  assumes "open_view run_id (view w)"
  shows "check_should_stop run_id None w = (Inr False, w)"
proof -
  obtain r where r: "find (\<lambda>r. ir_id r = run_id) (db_runs (w_db w)) = Some r"
    using assms by (cases "find (\<lambda>r. ir_id r = run_id) (db_runs (w_db w))")
      (auto simp: open_view_def ready_def view_def idle_def find_None)
  then have "\<not> ir_stop_requested r" using assms by (auto simp: open_view_def view_def idle_def dest: find_SomeD)
  then show ?thesis using r by (simp add: check_should_stop_def runs.bind_get) (auto intro: exI [of _ False])
qed

lemma run_pages_step:
  assumes "open_view run_id (view w)"
  shows "\<exists>v. run_pages (Suc n) b3 meminfo (\<lambda>_ w. w) run_id recover None p (int k + 1) turn w =
      (if page_ids (dp_id p) k (rv_marks (view w)) \<noteq> [] \<and> (k + 1) * 100 < length (due (dp_id p) (rv_marks (view w)))
       then run_pages n b3 meminfo (\<lambda>_ w. w) run_id recover None p (int (Suc k) + 1) (Suc turn) v
       else Some (Inr (False, Suc turn), v))
    \<and> checked_effect run_id (page_ids (dp_id p) k (rv_marks (view w))) (view w) (view v)"
proof -
  have "ready run_id (view w)" using assms by (simp add: open_view_def)
  from run_page_effect [OF this, of b3 meminfo recover p k] show ?thesis
    by (auto simp: not_stopped [OF assms] add.commute)
qed

declare run_pages.simps [simp del]

text \<open>The keys of the files, and those of the files of some pairs.\<close>

definition ids_of :: "int set \<Rightarrow> run_view \<Rightarrow> int multiset" where
  "ids_of ps c = mset (map fst (filter (\<lambda>(i, p). p \<in> ps) (map (\<lambda>(i, p, _). (i, p)) (rv_marks c))))"

lemma ids_of_effect: "checked_effect run_id ids c d \<Longrightarrow> ids_of ps d = ids_of ps c"
  unfolding ids_of_def by (simp only: effect_parts(4))

lemma ids_of_insert: "p \<notin> ps \<Longrightarrow> ids_of (insert p ps) c = ids_of {p} c + ids_of ps c"
proof -
  assume p: "p \<notin> ps"
  have "mset (map fst (filter (\<lambda>(i, q). q \<in> insert p ps) ks)) =
      mset (map fst (filter (\<lambda>(i, q). q \<in> {p}) ks)) + mset (map fst (filter (\<lambda>(i, q). q \<in> ps) ks))" for ks :: "(int \<times> int) list"
    using p by (induction ks) auto
  then show ?thesis by (simp only: ids_of_def)
qed

lemma ids_of_due: "mset (map fst (due p (rv_marks c))) = ids_of {p} c"
proof -
  have "map fst (filter (\<lambda>(i, q, c). q = p) ms) = map fst (filter (\<lambda>(i, q). q \<in> {p}) (map (\<lambda>(i, q, _). (i, q)) ms))" for ms :: "mark list"
    by (induction ms) auto
  then show ?thesis unfolding ids_of_def using mset_due by (metis mset_map)
qed

lemma due_length_effect: "checked_effect run_id ids c d \<Longrightarrow> length (due p (rv_marks d)) = length (due p (rv_marks c))"
  using ids_of_due [of p c] ids_of_due [of p d] ids_of_effect [of run_id ids c d "{p}"]
  by (metis length_map size_mset)

lemma run_pages_small:
  assumes "open_view run_id (view w)" "length (due (dp_id p) (rv_marks (view w))) \<le> 100"
  shows "\<exists>v ids. run_pages (Suc n) b3 meminfo (\<lambda>_ w. w) run_id recover None p 1 turn w = Some (Inr (False, Suc turn), v)
    \<and> checked_effect run_id ids (view w) (view v) \<and> mset ids = ids_of {dp_id p} (view w)"
proof -
  have "page_ids (dp_id p) 0 (rv_marks (view w)) = map fst (due (dp_id p) (rv_marks (view w)))"
    using assms(2) by (simp add: page_ids_def)
  moreover have "mset (map fst (due (dp_id p) (rv_marks (view w)))) = ids_of {dp_id p} (view w)" by (rule ids_of_due)
  ultimately show ?thesis
    using run_pages_step [OF assms(1), of n b3 meminfo recover p 0 turn] assms(2) by fastforce
qed

lemma pool_runs: "pool_ok 1 \<Longrightarrow> \<exists>m. pool_workers pool_ok cfg p w = (Inr m, w)"
proof -
  let ?n = "max 1 (pool_size_for_pair (media_from_str (dp_primary_media_type p)) (media_from_str (dp_secondary_media_type p)) cfg)"
  assume "pool_ok 1"
  then have "pool_workers pool_ok cfg p w = (Inr (if pool_ok ?n then int ?n else 1), w)"
    unfolding pool_workers_def Let_def by (simp del: One_nat_def)
  then show ?thesis by blast
qed

lemma run_pairs_small:
  assumes "open_view run_id (view w)" "\<forall>p. length (due p (rv_marks (view w))) \<le> 100" "distinct (map dp_id ps)" "pool_ok 1"
  shows "\<exists>v ids. run_pairs (Suc n) b3 meminfo pool_ok (\<lambda>_ w. w) run_id recover None cfg ps turn w = Some (Inr False, v)
    \<and> checked_effect run_id ids (view w) (view v) \<and> mset ids = ids_of (dp_id ` set ps) (view w)"
  using assms
proof (induction ps arbitrary: w turn)
  case Nil
  have "ids_of {} (view w) = {#}" by (simp add: ids_of_def)
  then show ?case by (intro exI [of _ w] exI [of _ "[]"]) simp
next
  case (Cons p ps)
  obtain m where m: "pool_workers pool_ok cfg p w = (Inr m, w)" using pool_runs [of pool_ok cfg p w] Cons.prems(4) by blast
  let ?w = "snd (set_integrity_run_active_workers run_id m w)"
  have w: "bind_m (pool_workers pool_ok cfg p) (set_integrity_run_active_workers run_id) w = (Inr (), ?w)"
    by (simp add: bind_m_ok [where m = "pool_workers a b c" for a b c, OF m] set_integrity_run_active_workers_def)
  from run_pages_small [of run_id ?w p n b3 meminfo recover turn] Cons.prems(1,2) obtain u ids where
    u: "run_pages (Suc n) b3 meminfo (\<lambda>_ w. w) run_id recover None p 1 turn ?w = Some (Inr (False, Suc turn), u)"
    "checked_effect run_id ids (view w) (view u)" "mset ids = ids_of {dp_id p} (view w)" by (auto simp: view_workers)
  let ?u = "snd (set_integrity_run_active_workers run_id 0 u)"
  have "open_view run_id (view ?u)" "\<forall>p. length (due p (rv_marks (view ?u))) \<le> 100"
    using Cons.prems open_effect [OF u(2)] due_length_effect [OF u(2)] by (simp_all add: view_workers)
  from Cons.IH [OF this, of "Suc turn"] Cons.prems(3,4) have
    "\<exists>v ids'. run_pairs (Suc n) b3 meminfo pool_ok (\<lambda>_ w. w) run_id recover None cfg ps (Suc turn) ?u = Some (Inr False, v)
      \<and> checked_effect run_id ids' (view u) (view v) \<and> mset ids' = ids_of (dp_id ` set ps) (view u)" by (simp add: view_workers)
  then obtain v ids' where
    v: "run_pairs (Suc n) b3 meminfo pool_ok (\<lambda>_ w. w) run_id recover None cfg ps (Suc turn) ?u = Some (Inr False, v)"
    "checked_effect run_id ids' (view u) (view v)" "mset ids' = ids_of (dp_id ` set ps) (view u)" by blast
  have "mset (ids @ ids') = ids_of (dp_id ` set (p # ps)) (view w)"
    using u(3) v(3) ids_of_effect [OF u(2)] Cons.prems(3) ids_of_insert [of "dp_id p" "dp_id ` set ps" "view w"] by simp
  moreover have "run_pairs (Suc n) b3 meminfo pool_ok (\<lambda>_ w. w) run_id recover None cfg (p # ps) turn w = Some (Inr False, v)"
    by (simp only: run_pairs.simps w u(1) v(1) prod.case sum.case option.case if_False bool.case)
  ultimately show ?case using effect_trans [OF u(2) v(2)] by blast
qed


lemma find_idle: "find (\<lambda>r. ir_id r = i) (map idle rs) = map_option idle (find (\<lambda>r. ir_id r = i) rs)"
  by (induction rs) (auto simp: idle_def)

lemma find_bump: "find (\<lambda>r. ir_id r = i) (bump_by i n a k rs) = map_option (\<lambda>r. r\<lparr>ir_processed_files := ir_processed_files r + n,
    ir_attention_files := ir_attention_files r + a, ir_recovered_files := ir_recovered_files r + k\<rparr>) (find (\<lambda>r. ir_id r = i) rs)"
  by (induction rs) (auto simp: bump_by_def)

lemma finish_run_view:
  assumes "find (\<lambda>r. ir_id r = run_id) (rv_runs (view w)) = Some r" "\<not> ir_stop_requested r"
  shows "\<exists>v. finish_run run_id w = (Inr (), v) \<and> map mark_of (db_files (w_db v)) = rv_marks (view w)
    \<and> db_results (w_db v) = rv_results (view w) \<and> db_files (w_db v) = db_files (w_db w)
    \<and> (\<exists>r'. find (\<lambda>r. ir_id r = run_id) (db_runs (w_db v)) = Some r' \<and> ir_status r' = ''completed''
         \<and> ir_processed_files r' = ir_processed_files r \<and> ir_attention_files r' = ir_attention_files r
         \<and> ir_recovered_files r' = ir_recovered_files r)"
proof -
  obtain x where x: "find (\<lambda>r. ir_id r = run_id) (db_runs (w_db w)) = Some x" "r = idle x"
    using assms(1) by (auto simp: view_def find_idle)
  then have s: "\<not> ir_stop_requested x" using assms(2) by (simp add: idle_def)
  let ?g = "\<lambda>r. r\<lparr>ir_status := ''completed'', ir_ended_at := Some (w_now w), ir_error_message := None, ir_active_workers := 0\<rparr>"
  let ?u = "w\<lparr>w_db := (w_db w)\<lparr>db_runs := upd_where (\<lambda>r. ir_id r = run_id) ?g (db_runs (w_db w))\<rparr>\<rparr>"
  let ?v = "snd (log_integrity_run_completed run_id ''completed'' (ir_attention_files x) (ir_recovered_files x) ?u)"
  have run: "finish_run run_id w = (Inr (), ?v)"
    using x(1) s by (simp add: finish_run_def runs.bind_get finish_integrity_run_def run_status_names_def Let_def)
  have "find (\<lambda>r. ir_id r = run_id) (db_runs (w_db ?v)) = Some (?g x)"
    using x(1) by (simp add: find_upd_where) (auto dest: find_SomeD)
  then show ?thesis
    using run x(2) by (intro exI [of _ ?v]) (simp add: view_def idle_def)
qed

definition in_scope :: "int option \<Rightarrow> tracked_file \<Rightarrow> bool" where
  "in_scope scope f = (case scope of None \<Rightarrow> True | Some i \<Rightarrow> tf_drive_pair_id f = i)"

subsection \<open>From the first page to the last\<close>

lemma opened_view:
  assumes "find (\<lambda>r. ir_id r = run_id) (db_runs (w_db w)) = Some run"
    "\<forall>r \<in> set (db_runs (w_db w)). ir_id r = run_id \<longrightarrow> \<not> ir_stop_requested r"
    "\<forall>f \<in> set (db_files (w_db w)). tf_drive_pair_id f \<in> dp_id ` set (db_pairs (w_db w))"
  shows "open_view run_id (view w)"
  using assms by (fastforce simp: open_view_def ready_def view_def idle_def mark_of_def dest: find_SomeD)

lemma view_started: "view (snd (log_integrity_run_started i n t w)) = view w"
  using keepsD [OF view_logs view_is_refl, of "log_integrity_run_started i n t" w] by (simp add: view_is_def)

text \<open>Finishing a run that has checked the files \<open>ids\<close>.\<close>

lemma finish_checked:
  assumes "find (\<lambda>r. ir_id r = run_id) (db_runs (w_db w)) = Some run"
    "\<forall>r \<in> set (db_runs (w_db w)). ir_id r = run_id \<longrightarrow> \<not> ir_stop_requested r"
    "checked_effect run_id ids (view w) (view u)"
  shows "\<exists>v run' rows. finish_run run_id u = (Inr (), v) \<and> find (\<lambda>r. ir_id r = run_id) (db_runs (w_db v)) = Some run'
    \<and> ir_status run' = ''completed'' \<and> ir_processed_files run' = ir_processed_files run + int (length ids)
    \<and> map mark_of (db_files (w_db v)) = mark_checked (set ids) (w_now w) (map mark_of (db_files (w_db w)))
    \<and> db_results (w_db v) = db_results (w_db w) @ rows \<and> map rr_file_id rows = ids"
proof -
  have ms: "rv_marks (view w) = map mark_of (db_files (w_db w))" "rv_now (view w) = w_now w"
    "rv_runs (view w) = map idle (db_runs (w_db w))" "rv_results (view w) = db_results (w_db w)"
    by (simp_all add: view_def)
  from assms(3) obtain rows a k where
    e: "view u = (view w)\<lparr>rv_marks := mark_checked (set ids) (w_now w) (map mark_of (db_files (w_db w))),
       rv_runs := bump_by run_id (int (length ids)) a k (map idle (db_runs (w_db w))), rv_results := db_results (w_db w) @ rows\<rparr>"
    "map rr_file_id rows = ids" by (auto simp: checked_effect_def ms)
  let ?r = "(idle run)\<lparr>ir_processed_files := ir_processed_files run + int (length ids),
    ir_attention_files := ir_attention_files run + a, ir_recovered_files := ir_recovered_files run + k\<rparr>"
  have "find (\<lambda>r. ir_id r = run_id) (rv_runs (view u)) = Some ?r"
    using assms(1) by (simp add: e(1) find_bump find_idle) (simp add: idle_def)
  moreover have "\<not> ir_stop_requested ?r" using assms(1,2) by (auto simp: idle_def dest: find_SomeD)
  ultimately obtain v run' where
    "finish_run run_id u = (Inr (), v)" "map mark_of (db_files (w_db v)) = rv_marks (view u)"
      "db_results (w_db v) = rv_results (view u)" "find (\<lambda>r. ir_id r = run_id) (db_runs (w_db v)) = Some run'"
      "ir_status run' = ''completed''" "ir_processed_files run' = ir_processed_files ?r"
    using finish_run_view [of run_id u ?r] by blast
  then show ?thesis using e by (intro exI [of _ v] exI [of _ run'] exI [of _ rows]) simp
qed

text \<open>A run that gets through its pages.\<close>

lemma process_run_through:
  assumes "find (\<lambda>r. ir_id r = run_id) (db_runs (w_db w)) = Some run"
    "u = snd (log_integrity_run_started run_id (ir_total_files run) (ir_trigger run) w)"
    "pairs_in_scope (ir_scope_drive_pair_id run) u = (Inr ps, u)"
    "run_pairs fuel b3 meminfo pool_ok others run_id (ir_recover run) d cfg ps 0 u = Some (Inr False, x)"
    "finish_run run_id x = (Inr (), v)"
  shows "process_run fuel b3 meminfo pool_ok others run_id d cfg w = Some (Inr (), v)"
  using assms by (simp add: process_run_def runs.get_run)

lemma scope_pairs:
  assumes "distinct (map dp_id (db_pairs (w_db w)))" "\<forall>i. scope = Some i \<longrightarrow> i \<in> dp_id ` set (db_pairs (w_db w))"
  obtains ps where "pairs_in_scope scope w = (Inr ps, w)" "distinct (map dp_id ps)"
    "dp_id ` set ps = (case scope of None \<Rightarrow> dp_id ` set (db_pairs (w_db w)) | Some i \<Rightarrow> {i})"
proof (cases scope)
  case None
  then show thesis using that [of "db_pairs (w_db w)"] assms(1) by (simp add: pairs_in_scope_def list_drive_pairs_def)
next
  case (Some i)
  then obtain p where "find (\<lambda>p. dp_id p = i) (db_pairs (w_db w)) = Some p"
    using assms(2) by (cases "find (\<lambda>p. dp_id p = i) (db_pairs (w_db w))") (auto simp: find_None)
  then show thesis using that [of "[p]"] Some by (auto simp: pairs_in_scope_def pairs.bind_get dest: find_SomeD)
qed

lemma ids_in_scope:
  assumes "\<forall>f \<in> set (db_files (w_db w)). tf_drive_pair_id f \<in> dp_id ` set (db_pairs (w_db w))"
    "P = (case scope of None \<Rightarrow> dp_id ` set (db_pairs (w_db w)) | Some i \<Rightarrow> {i})"
  shows "ids_of P (view w) = mset (map tf_id (filter (in_scope scope) (db_files (w_db w))))"
proof -
  have "filter (\<lambda>(i, p). p \<in> P) (map (\<lambda>(i, p, _). (i, p)) (map mark_of fs)) =
      map (\<lambda>f. (tf_id f, tf_drive_pair_id f)) (filter (\<lambda>f. tf_drive_pair_id f \<in> P) fs)" for P fs
    by (induction fs) (auto simp: mark_of_def)
  moreover have "filter (\<lambda>f. tf_drive_pair_id f \<in> P) (db_files (w_db w)) = filter (in_scope scope) (db_files (w_db w))"
    using assms by (intro filter_cong refl) (auto simp: in_scope_def split: option.splits)
  ultimately show ?thesis by (simp add: ids_of_def view_def comp_def)
qed

text \<open>C20: 
  When no pair has more than 100 files, a run that no other thread disturbs ends \<open>completed\<close>, checks every
  file in its scope exactly once, records one result for each and counts them.
\<close>

theorem run_checks_every_file:
  assumes "find (\<lambda>r. ir_id r = run_id) (db_runs (w_db w)) = Some run"
    "\<forall>r \<in> set (db_runs (w_db w)). ir_id r = run_id \<longrightarrow> \<not> ir_stop_requested r"
    "\<forall>f \<in> set (db_files (w_db w)). tf_drive_pair_id f \<in> dp_id ` set (db_pairs (w_db w))"
    "distinct (map dp_id (db_pairs (w_db w)))"
    "\<forall>i. ir_scope_drive_pair_id run = Some i \<longrightarrow> i \<in> dp_id ` set (db_pairs (w_db w))"
    "\<forall>i. length (filter (\<lambda>f. tf_drive_pair_id f = i) (db_files (w_db w))) \<le> 100"
    "pool_ok 1" "0 < fuel"
  shows "\<exists>v rows run'. process_run fuel b3 meminfo pool_ok (\<lambda>_ w. w) run_id None cfg w = Some (Inr (), v)
    \<and> find (\<lambda>r. ir_id r = run_id) (db_runs (w_db v)) = Some run' \<and> ir_status run' = ''completed''
    \<and> ir_processed_files run' = ir_processed_files run
         + int (length (filter (in_scope (ir_scope_drive_pair_id run)) (db_files (w_db w))))
    \<and> (\<forall>f \<in> set (db_files (w_db v)). in_scope (ir_scope_drive_pair_id run) f \<longrightarrow>
         tf_last_integrity_check_at f = Some (w_now w))
    \<and> db_results (w_db v) = db_results (w_db w) @ rows
    \<and> mset (map rr_file_id rows) = mset (map tf_id (filter (in_scope (ir_scope_drive_pair_id run)) (db_files (w_db w))))"
proof -
  let ?scope = "ir_scope_drive_pair_id run"
  let ?w = "snd (log_integrity_run_started run_id (ir_total_files run) (ir_trigger run) w)"
  obtain n where n: "fuel = Suc n" using assms(8) by (cases fuel) auto
  have db: "db_pairs (w_db ?w) = db_pairs (w_db w)" by simp
  from assms(4,5) obtain ps where ps: "pairs_in_scope ?scope ?w = (Inr ps, ?w)" "distinct (map dp_id ps)"
    "dp_id ` set ps = (case ?scope of None \<Rightarrow> dp_id ` set (db_pairs (w_db w)) | Some i \<Rightarrow> {i})"
    using scope_pairs [of ?w ?scope] unfolding db by blast
  have ov: "open_view run_id (view ?w)" unfolding view_started by (rule opened_view [OF assms(1-3)])
  have small: "\<forall>p. length (due p (rv_marks (view ?w))) \<le> 100"
    unfolding view_started using assms(6) by (simp add: length_due view_def mine_marks)
  obtain u ids where
    u: "run_pairs fuel b3 meminfo pool_ok (\<lambda>_ w. w) run_id (ir_recover run) None cfg ps 0 ?w = Some (Inr False, u)"
    "checked_effect run_id ids (view w) (view u)" "mset ids = ids_of (dp_id ` set ps) (view w)"
    using run_pairs_small [where w = ?w and pool_ok = pool_ok and run_id = run_id and ps = ps and n = n and ?b3.0 = b3 and meminfo = meminfo and
      recover = "ir_recover run" and cfg = cfg and turn = 0, OF ov small ps(2) assms(7)] unfolding view_started n by blast
  have ids: "mset ids = mset (map tf_id (filter (in_scope ?scope) (db_files (w_db w))))"
    using u(3) ids_in_scope [OF assms(3) ps(3)] by simp
  obtain v run' rows where v: "finish_run run_id u = (Inr (), v)" "find (\<lambda>r. ir_id r = run_id) (db_runs (w_db v)) = Some run'"
    "ir_status run' = ''completed''" "ir_processed_files run' = ir_processed_files run + int (length ids)"
    "map mark_of (db_files (w_db v)) = mark_checked (set ids) (w_now w) (map mark_of (db_files (w_db w)))"
    "db_results (w_db v) = db_results (w_db w) @ rows" "map rr_file_id rows = ids"
    using finish_checked [OF assms(1,2) u(2)] by blast
  have "tf_last_integrity_check_at f = Some (w_now w)" if f: "f \<in> set (db_files (w_db v))" "in_scope ?scope f" for f
  proof -
    have "mark_of f \<in> set (mark_checked (set ids) (w_now w) (map mark_of (db_files (w_db w))))"
      using f(1) unfolding v(5) [symmetric] set_map by (rule imageI)
    then obtain g where g: "g \<in> set (db_files (w_db w))" "tf_id f = tf_id g" "tf_drive_pair_id f = tf_drive_pair_id g"
      "tf_last_integrity_check_at f = (if tf_id g \<in> set ids then Some (w_now w) else tf_last_integrity_check_at g)"
      by (auto simp: mark_checked_def mark_of_def)
    have "in_scope ?scope g" using f(2) g(3) by (simp add: in_scope_def split: option.splits)
    then have "tf_id g \<in> set_mset (mset ids)" unfolding ids using g(1) by simp
    then show ?thesis using g(4) by simp
  qed
  moreover have "length ids = length (filter (in_scope ?scope) (db_files (w_db w)))"
    using mset_eq_length [OF ids] by simp
  ultimately show ?thesis
    using process_run_through [OF assms(1) refl ps(1) u(1) v(1)] v ids
    by (intro exI [of _ v] exI [of _ rows] exI [of _ run']) simp
qed

subsection \<open>More than one page\<close>

text \<open>
  A pair with more than 100 and at most 200 files, none ever checked. The first page checks the first 100,
  which moves them behind the others; the second page, which skips 100 rows, starts beyond every file
  that is still unchecked.
\<close>

lemma sort_same: "\<forall>x \<in> set xs. k x = c \<Longrightarrow> sort_key k xs = xs"
  by (rule sort_key_id_if_sorted) (simp add: sorted_iff_nth_mono)

lemma mark_checked_append: "mark_checked X now (xs @ ys) = mark_checked X now xs @ mark_checked X now ys"
  by (simp add: mark_checked_def)

lemma filter_checked:
  "filter (\<lambda>(i, p, c). p = pair) (mark_checked X now ms) = mark_checked X now (filter (\<lambda>(i, p, c). p = pair) ms)"
  by (induction ms) (auto simp: mark_checked_def)

lemma second_page:
  fixes pair :: int and ms :: "mark list" and now :: int
  defines "L \<equiv> filter (\<lambda>(i, p, c). p = pair) ms"
  assumes none: "\<forall>(i, p, c) \<in> set L. c = None" and d: "distinct (map fst L)" and n: "100 < length L" "length L \<le> 200"
  shows "page_ids pair 0 ms = map fst (take 100 L)"
    "set (page_ids pair 1 (mark_checked (set (map fst (take 100 L))) now ms)) \<subseteq> set (map fst (take 100 L))"
    "length (page_ids pair 1 (mark_checked (set (map fst (take 100 L))) now ms)) = length L - 100"
proof -
  have fn: "filter (\<lambda>(i, p, c). c = None) L = L" "filter (\<lambda>(i, p, c). c \<noteq> None) L = []"
    using none by (auto simp: filter_id_conv filter_empty_conv)
  then show "page_ids pair 0 ms = map fst (take 100 L)" by (simp add: page_ids_def due_def Let_def L_def)
  let ?X = "set (map fst (take 100 L))"
  let ?g = "\<lambda>(i, p, c). (i, p, Some now) :: mark"
  have "filter (\<lambda>(i, p, c). p = pair) (mark_checked ?X now ms) = mark_checked ?X now L"
    unfolding L_def by (rule filter_checked)
  also have "\<dots> = mark_checked ?X now (take 100 L) @ mark_checked ?X now (drop 100 L)"
    unfolding mark_checked_def map_append [symmetric] by simp
  also have "mark_checked ?X now (take 100 L) = map ?g (take 100 L)"
    unfolding mark_checked_def by (intro map_cong refl) force
  also have "mark_checked ?X now (drop 100 L) = drop 100 L"
  proof -
    have "distinct (map fst (take 100 L) @ map fst (drop 100 L))" using d by (simp flip: map_append)
    then have "fst m \<notin> ?X" if "m \<in> set (drop 100 L)" for m
    proof -
      have "fst m \<in> set (map fst (drop 100 L))" unfolding set_map using that by (rule imageI)
      moreover have "set (map fst (take 100 L)) \<inter> set (map fst (drop 100 L)) = {}"
        using \<open>distinct (map fst (take 100 L) @ map fst (drop 100 L))\<close> unfolding distinct_append by blast
      ultimately show ?thesis by blast
    qed
    then show ?thesis unfolding mark_checked_def by (intro map_idI) auto
  qed
  finally have mine: "filter (\<lambda>(i, p, c). p = pair) (mark_checked ?X now ms) = map ?g (take 100 L) @ drop 100 L" .
  have nd: "\<forall>(i, p, c) \<in> set (drop 100 L). c = None" using none set_drop_subset by fastforce
  have a: "filter (\<lambda>(i, p, c). c = None) (map ?g xs @ ys) = ys"
    "filter (\<lambda>(i, p, c). c \<noteq> None) (map ?g xs @ ys) = map ?g xs" if ys: "\<forall>(i, p, c) \<in> set ys. c = None" for xs ys
  proof -
    have "filter (\<lambda>(i, p, c). c = None) ys = ys" "filter (\<lambda>(i, p, c). c \<noteq> None) ys = []"
      using ys by (auto simp: filter_id_conv filter_empty_conv)
    moreover have "filter (\<lambda>(i, p, c). c = None) (map ?g xs) = []" "filter (\<lambda>(i, p, c). c \<noteq> None) (map ?g xs) = map ?g xs"
      by (induction xs) auto
    ultimately show "filter (\<lambda>(i, p, c). c = None) (map ?g xs @ ys) = ys"
      "filter (\<lambda>(i, p, c). c \<noteq> None) (map ?g xs @ ys) = map ?g xs" by (simp_all only: filter_append append_Nil append_Nil2)
  qed
  have s: "sort_key (\<lambda>(i, p, c). the c) (map ?g xs) = map ?g xs" for xs
    by (rule sort_same [of _ _ now]) auto
  have due: "due pair (mark_checked ?X now ms) = drop 100 L @ map ?g (take 100 L)"
    unfolding due_def Let_def mine a [OF nd] s ..
  have e: "page_ids pair 1 (mark_checked ?X now ms) = take 100 (drop (200 - length L) (map fst (take 100 L)))"
    using n unfolding page_ids_def due by (simp add: take_map drop_map case_prod_beta comp_def)
  have "set (take 100 (drop k xs)) \<subseteq> set xs" for k and xs :: "int list"
    by (meson order_trans set_drop_subset set_take_subset)
  then show "set (page_ids pair 1 (mark_checked ?X now ms)) \<subseteq> ?X" unfolding e .
  show "length (page_ids pair 1 (mark_checked ?X now ms)) = length L - 100"
    unfolding e using n by simp
qed


lemma two_pages:
  assumes "open_view run_id (view x)" "filter (\<lambda>(i, q, c). q = dp_id p) (rv_marks (view x)) = map mark_of files"
    "distinct (map tf_id files)" "\<forall>f \<in> set files. tf_last_integrity_check_at f = None" "100 < length files" "length files \<le> 200"
  shows "\<exists>u ids. run_pages (Suc (Suc n)) b3 meminfo (\<lambda>_ w. w) run_id recover None p 1 0 x = Some (Inr (False, Suc (Suc 0)), u)
    \<and> checked_effect run_id ids (view x) (view u) \<and> set ids = set (map tf_id (take 100 files)) \<and> length ids = length files"
proof -
  let ?ms = "rv_marks (view x)" and ?X = "map tf_id (take 100 files)"
  have ids: "map fst (map mark_of fs) = map tf_id fs" for fs by (simp add: mark_of_def)
  have "distinct (map fst (map mark_of files))" using assms(3) unfolding ids .
  note sp = second_page [of "dp_id p" ?ms, unfolded assms(2), OF _ this]
  have sp: "page_ids (dp_id p) 0 ?ms = ?X"
    "set (page_ids (dp_id p) 1 (mark_checked (set ?X) t ?ms)) \<subseteq> set ?X"
    "length (page_ids (dp_id p) 1 (mark_checked (set ?X) t ?ms)) = length files - 100" for t
    using sp(1) sp(2,3) [of t] assms(4-6) by (auto simp: take_map ids mark_of_def simp del: map_map)
  have due: "length (due (dp_id p) ?ms) = length files" by (simp add: length_due assms(2))
  have c: "page_ids (dp_id p) 0 ?ms \<noteq> []" "(0 + 1) * 100 < length (due (dp_id p) ?ms)"
    unfolding due sp(1) using assms(5) by auto
  from run_pages_step [OF assms(1), of "Suc n" b3 meminfo recover p 0 0] obtain y where
    y: "run_pages (Suc (Suc n)) b3 meminfo (\<lambda>_ w. w) run_id recover None p (int 0 + 1) 0 x =
        run_pages (Suc n) b3 meminfo (\<lambda>_ w. w) run_id recover None p (int (Suc 0) + 1) (Suc 0) y"
      "checked_effect run_id ?X (view x) (view y)"
    using c unfolding sp(1) by (simp only: simp_thms if_True) blast
  have "length (due (dp_id p) (rv_marks (view y))) = length files"
    using due_length_effect [OF y(2)] due by simp
  then have c2: "\<not> ((Suc 0 + 1) * 100 < length (due (dp_id p) (rv_marks (view y))))" using assms(6) by simp
  from run_pages_step [OF open_effect [OF y(2) assms(1)], of n b3 meminfo recover p "Suc 0" "Suc 0"] obtain u where
    u: "run_pages (Suc n) b3 meminfo (\<lambda>_ w. w) run_id recover None p (int (Suc 0) + 1) (Suc 0) y = Some (Inr (False, Suc (Suc 0)), u)"
      "checked_effect run_id (page_ids (dp_id p) 1 (rv_marks (view y))) (view y) (view u)"
    using c2 unfolding One_nat_def by (simp only: simp_thms if_False) blast
  have "set (page_ids (dp_id p) 1 (rv_marks (view y))) \<subseteq> set ?X"
    "length (page_ids (dp_id p) 1 (rv_marks (view y))) = length files - 100"
    unfolding effect_parts(5) [OF y(2)] by (rule sp)+
  then show ?thesis
    using effect_trans [OF y(2) u(2)] y(1) u(1) assms(5)
    by (intro exI [of _ u] exI [of _ "?X @ page_ids (dp_id p) 1 (rv_marks (view y))"]) auto
qed

lemma marks_after:
  assumes "distinct (map tf_id files)" "\<forall>f \<in> set files. tf_last_integrity_check_at f = None"
  shows "map (\<lambda>(i, p, c). (i, c)) (mark_checked (set (map tf_id (take k files))) t (map mark_of files)) =
    map (\<lambda>f. (tf_id f, Some t)) (take k files) @ map (\<lambda>f. (tf_id f, None)) (drop k files)"
proof -
  let ?X = "set (map tf_id (take k files))"
  have dis: "distinct (map tf_id (take k files) @ map tf_id (drop k files))"
    using assms(1) unfolding map_append [symmetric] append_take_drop_id .
  have "tf_id f \<notin> ?X \<and> tf_last_integrity_check_at f = None" if f: "f \<in> set (drop k files)" for f
  proof -
    have "tf_id f \<in> set (map tf_id (drop k files))" using f unfolding set_map by (rule imageI)
    moreover have "f \<in> set files" using f set_drop_subset by fastforce
    ultimately show ?thesis using dis assms(2) unfolding distinct_append by blast
  qed
  then have "map (\<lambda>(i, p, c). (i, c)) (mark_checked ?X t (map mark_of (drop k files))) = map (\<lambda>f. (tf_id f, None)) (drop k files)"
    by (auto simp: mark_checked_def mark_of_def)
  moreover have "map (\<lambda>(i, p, c). (i, c)) (mark_checked ?X t (map mark_of (take k files))) = map (\<lambda>f. (tf_id f, Some t)) (take k files)"
    by (auto simp: mark_checked_def mark_of_def)
  moreover have "mark_checked ?X t (map mark_of files) =
      mark_checked ?X t (map mark_of (take k files)) @ mark_checked ?X t (map mark_of (drop k files))"
    unfolding mark_checked_append [symmetric] map_append [symmetric] append_take_drop_id ..
  ultimately show ?thesis by (simp only: map_append)
qed

text \<open>When a pair has more than 100 and at most 200 files, none ever checked, a run of this pair ends \<open>completed\<close> and
  counts as many files as the pair has, but only the first 100 were checked (some of them twice): each of the
  others still has no time of check.
\<close>

theorem run_skips_files:
  assumes "find (\<lambda>r. ir_id r = run_id) (db_runs (w_db w)) = Some run" "ir_scope_drive_pair_id run = Some pair"
    "\<forall>r \<in> set (db_runs (w_db w)). ir_id r = run_id \<longrightarrow> \<not> ir_stop_requested r"
    "\<forall>f \<in> set (db_files (w_db w)). tf_drive_pair_id f \<in> dp_id ` set (db_pairs (w_db w))"
    "pair \<in> dp_id ` set (db_pairs (w_db w))" "distinct (map tf_id (db_files (w_db w)))"
    "files = filter (\<lambda>f. tf_drive_pair_id f = pair) (db_files (w_db w))"
    "\<forall>f \<in> set files. tf_last_integrity_check_at f = None" "100 < length files" "length files \<le> 200"
    "pool_ok 1" "2 \<le> fuel"
  shows "\<exists>v run'. process_run fuel b3 meminfo pool_ok (\<lambda>_ w. w) run_id None cfg w = Some (Inr (), v)
    \<and> find (\<lambda>r. ir_id r = run_id) (db_runs (w_db v)) = Some run' \<and> ir_status run' = ''completed''
    \<and> ir_processed_files run' = ir_processed_files run + int (length files)
    \<and> map (\<lambda>f. (tf_id f, tf_last_integrity_check_at f)) (filter (\<lambda>f. tf_drive_pair_id f = pair) (db_files (w_db v))) =
        map (\<lambda>f. (tf_id f, Some (w_now w))) (take 100 files) @ map (\<lambda>f. (tf_id f, None)) (drop 100 files)"
proof -
  let ?w = "snd (log_integrity_run_started run_id (ir_total_files run) (ir_trigger run) w)"
  obtain n where n: "fuel = Suc (Suc n)" using assms(12) by (metis add_2_eq_Suc le_Suc_ex)
  obtain p where p: "find (\<lambda>p. dp_id p = pair) (db_pairs (w_db w)) = Some p" "dp_id p = pair"
    using assms(5) by (cases "find (\<lambda>p. dp_id p = pair) (db_pairs (w_db w))") (auto simp: find_None dest: find_SomeD)
  have ps: "pairs_in_scope (ir_scope_drive_pair_id run) ?w = (Inr [p], ?w)"
    using p by (simp add: pairs_in_scope_def assms(2) pairs.bind_get)
  obtain m where m: "pool_workers pool_ok cfg p ?w = (Inr m, ?w)"
    using pool_runs [of pool_ok cfg p ?w] assms(11) by blast
  let ?x = "snd (set_integrity_run_active_workers run_id m ?w)"
  have x: "bind_m (pool_workers pool_ok cfg p) (set_integrity_run_active_workers run_id) ?w = (Inr (), ?x)"
    by (simp add: bind_m_ok [where m = "pool_workers a b c" for a b c, OF m] set_integrity_run_active_workers_def)
  have vx: "view ?x = view w" by (simp only: view_workers view_started)
  have "filter (\<lambda>(i, q, c). q = dp_id p) (rv_marks (view w)) = map mark_of files"
    by (simp add: view_def mine_marks assms(7) p(2))
  moreover have dis: "distinct (map tf_id files)" using assms(6) unfolding assms(7) by (simp add: distinct_map inj_on_def)
  ultimately obtain u ids where
    u: "run_pages fuel b3 meminfo (\<lambda>_ w. w) run_id (ir_recover run) None p 1 0 ?x = Some (Inr (False, Suc (Suc 0)), u)"
      "checked_effect run_id ids (view w) (view u)" "set ids = set (map tf_id (take 100 files))" "length ids = length files"
    using two_pages [of run_id ?x p files n b3 meminfo "ir_recover run"] opened_view [OF assms(1,3,4)] assms(8-10)
    unfolding vx n by blast
  let ?u = "snd (set_integrity_run_active_workers run_id 0 u)"
  obtain v run' where v: "finish_run run_id ?u = (Inr (), v)" "find (\<lambda>r. ir_id r = run_id) (db_runs (w_db v)) = Some run'"
    "ir_status run' = ''completed''" "ir_processed_files run' = ir_processed_files run + int (length ids)"
    "map mark_of (db_files (w_db v)) = mark_checked (set ids) (w_now w) (map mark_of (db_files (w_db w)))"
    using finish_checked [OF assms(1,3), of ids ?u] u(2) unfolding view_workers by blast
  have "run_pairs fuel b3 meminfo pool_ok (\<lambda>_ w. w) run_id (ir_recover run) None cfg [p] 0 ?w = Some (Inr False, ?u)"
    by (simp only: run_pairs.simps x u(1) prod.case sum.case option.case bool.case)
  note run = process_run_through [OF assms(1) refl ps this v(1)]
  have "map mark_of (filter (\<lambda>f. tf_drive_pair_id f = pair) (db_files (w_db v))) =
      mark_checked (set (map tf_id (take 100 files))) (w_now w) (map mark_of files)"
    unfolding mine_marks [symmetric] v(5) filter_checked u(3) by (simp add: mine_marks assms(7))
  from arg_cong [OF this, of "map (\<lambda>(i, p, c). (i, c))"] marks_after [OF dis assms(8)]
  show ?thesis using run v(2,3,4) u(4) by (intro exI [of _ v] exI [of _ run']) (simp add: mark_of_def comp_def)
qed

subsection \<open>Concrete runs\<close>

text \<open>A database with \<open>n\<close> files of one pair, none checked, and a run on it that has just been opened.\<close>

definition run_pair :: drive_pair where
  "run_pair = \<lparr>dp_id = 1, dp_name = ''d'', dp_primary_path = ''/p'', dp_secondary_path = ''/s'',
     dp_primary_state = ''active'', dp_secondary_state = ''active'', dp_active_role = ''primary'',
     dp_primary_media_type = ''hdd'', dp_secondary_media_type = ''hdd'', dp_created_at = 0, dp_updated_at = 0\<rparr>"

definition opened_run :: integrity_run where
  "opened_run = \<lparr>ir_id = 1, ir_scope_drive_pair_id = Some 1, ir_recover = True, ir_trigger = ''manual'', ir_status = ''running'',
     ir_total_files = 0, ir_processed_files = 0, ir_attention_files = 0, ir_recovered_files = 0, ir_active_workers = 0,
     ir_stop_requested = False, ir_started_at = 4, ir_ended_at = None, ir_error_message = None\<rparr>"

definition run_world :: "nat \<Rightarrow> world" where
  "run_world n = blank_world (empty_db\<lparr>db_pairs := [run_pair], db_files := map (\<lambda>i. blank_file (int i) 1) [0..<n],
     db_runs := [opened_run], nx_pair := 2, nx_file := int n, nx_run := 2\<rparr>)"

lemma run_world_parts [simp]:
  "db_pairs (w_db (run_world n)) = [run_pair]" "db_files (w_db (run_world n)) = map (\<lambda>i. blank_file (int i) 1) [0..<n]"
  "db_runs (w_db (run_world n)) = [opened_run]" "w_now (run_world n) = 5" "db_results (w_db (run_world n)) = []"
  "dp_id run_pair = 1" "ir_id opened_run = 1" "ir_scope_drive_pair_id opened_run = Some 1" "\<not> ir_stop_requested opened_run"
  "ir_processed_files opened_run = 0"
  by (simp_all add: run_world_def blank_world_def empty_db_def run_pair_def opened_run_def)

lemma blank_file_parts [simp]:
  "tf_id (blank_file i p) = i" "tf_drive_pair_id (blank_file i p) = p" "tf_last_integrity_check_at (blank_file i p) = None"
  by (simp_all add: blank_file_def)

lemma run_world_sizes:
  "length (filter P (map (\<lambda>i. blank_file (int i) 1) [0..<n])) \<le> n"
  by (metis diff_zero length_filter_le length_map length_upt)

theorem run_checks_every_file_witness:
  "\<exists>v run'. process_run 1 plain_digest (Some ''m'') (\<lambda>n. n = 1) (\<lambda>_ w. w) 1 None (default_checksum_config 4) (run_world 100) = Some (Inr (), v)
    \<and> find (\<lambda>r. ir_id r = 1) (db_runs (w_db v)) = Some run' \<and> ir_processed_files run' = 100"
proof -
  have "filter (in_scope (Some 1)) (db_files (w_db (run_world 100))) = db_files (w_db (run_world 100))"
    by (simp add: filter_id_conv in_scope_def)
  then have n: "length (filter (in_scope (Some 1)) (db_files (w_db (run_world 100)))) = 100" by simp
  show ?thesis
    using run_checks_every_file [where w = "run_world 100" and run_id = 1 and run = opened_run and fuel = 1
      and pool_ok = "\<lambda>n. n = 1" and ?b3.0 = plain_digest and cfg = "default_checksum_config 4" and meminfo = "Some ''m''"]
      run_world_sizes [where n = 100] n
    by (simp del: filter_map) blast
qed

theorem run_skips_files_witness:
  "\<exists>v. process_run 2 plain_digest None (\<lambda>_. True) (\<lambda>_ w. w) 1 None (default_checksum_config 4) (run_world 150) = Some (Inr (), v)
    \<and> map (\<lambda>f. (tf_id f, tf_last_integrity_check_at f)) (filter (\<lambda>f. tf_drive_pair_id f = 1) (db_files (w_db v))) =
        map (\<lambda>i. (int i, Some 5)) [0..<100] @ map (\<lambda>i. (int i, None)) [100..<150]"
proof -
  have "filter (\<lambda>f. tf_drive_pair_id f = 1) (db_files (w_db (run_world 150))) = db_files (w_db (run_world 150))"
    by (simp add: filter_id_conv)
  moreover have "take 100 (map (\<lambda>i. blank_file (int i) 1) [0..<150]) = map (\<lambda>i. blank_file (int i) 1) [0..<100]"
    "drop 100 (map (\<lambda>i. blank_file (int i) 1) [0..<150]) = map (\<lambda>i. blank_file (int i) 1) [100..<150]"
    by (simp_all only: take_map drop_map take_upt drop_upt) simp_all
  moreover have "distinct (map tf_id (db_files (w_db (run_world 150))))" by (simp add: distinct_map inj_on_def)
  ultimately show ?thesis
    using run_skips_files [where w = "run_world 150" and run_id = 1 and run = opened_run and fuel = 2 and pair = 1
      and files = "db_files (w_db (run_world 150))" and pool_ok = "\<lambda>_. True" and ?b3.0 = plain_digest and cfg = "default_checksum_config 4" and meminfo = None]
    by (simp add: comp_def) blast
qed

end
