(* ===== verification/Integrity_Runs_Frame.thy ===== *)
theory Integrity_Runs_Frame
  imports Integrity_Runs
begin

section \<open>What a run keeps\<close>

text \<open>
  A run is turns between which the other threads change the world. \<open>run_frame\<close> is the contract of a predicate with the
  statements of a turn; inside it the loops over pages and pairs and the whole run keep the predicate, when the
  other threads do.
\<close>

locale run_frame =
  fixes I :: "world \<Rightarrow> bool"
  assumes keeps_page: "keeps I (run_page b3 meminfo run_id recover p page)"
    and keeps_stop: "keeps I (check_should_stop run_id d)"
    and keeps_workers: "keeps I (set_integrity_run_active_workers run_id n)"
    and keeps_started: "keeps I (log_integrity_run_started run_id m trigger)"
    and keeps_finish: "keeps I (finish_run run_id)"
begin

lemma inv_pages:
  assumes "\<And>k w. I w \<Longrightarrow> I (others k w)"
  shows "I w \<Longrightarrow> run_pages n b3 meminfo others run_id recover d p page turn w = Some (r, v) \<Longrightarrow> I v"
proof (induction n arbitrary: page turn w)
  case (Suc n)
  obtain a x where a: "check_should_stop run_id d (others turn w) = (a, x)" by fastforce
  have x: "I x" using keepsD [where P = I, OF keeps_stop assms [OF Suc.prems(1)]] a by (metis snd_conv)
  obtain b y where b: "run_page b3 meminfo run_id recover p page x = (b, y)" by fastforce
  have y: "I y" using keepsD [where P = I, OF keeps_page x] b by (metis snd_conv)
  have z: "I (snd (seq_m (set_integrity_run_active_workers run_id 0) (return_m (True, Suc turn)) x))"
    by (rule keepsD [where P = I, OF _ x]) (intro keeps_seq keeps_workers keeps_return)
  show ?case
    using Suc.prems(2) Suc.IH [OF y] x y z a b
    by (auto simp: run_pages.simps split: sum.splits bool.splits if_splits)
qed (simp add: run_pages.simps)

lemma inv_workers: "keeps I (bind_m (pool_workers pool_ok cfg p) (set_integrity_run_active_workers run_id))"
proof -
  have "pure_m (pool_workers pool_ok cfg p)" by (simp add: pool_workers_def pure_m_def Let_def)
  then show ?thesis by (intro keeps_bind keeps_pure keeps_workers)
qed

lemma inv_scope: "keeps I (seq_m (discard (log_integrity_run_started run_id n trigger)) (pairs_in_scope s))"
proof -
  have "pure_m (pairs_in_scope s)"
    by (cases s) (simp_all add: pure_m_def pairs_in_scope_def list_drive_pairs_def pairs.bind_get split: option.splits)
  then have "keeps I (pairs_in_scope s)" by (rule keeps_pure)
  moreover have "keeps I (discard (log_integrity_run_started i a b))" for i a b
    by (rule keeps_discard) (rule keeps_started)
  ultimately show ?thesis by (intro keeps_seq)
qed

lemma inv_pairs:
  assumes "\<And>k w. I w \<Longrightarrow> I (others k w)"
  shows "I w \<Longrightarrow> run_pairs n b3 meminfo pool_ok others run_id recover d cfg ps turn w = Some (r, v) \<Longrightarrow> I v"
proof (induction ps arbitrary: turn w)
  case (Cons p ps)
  let ?m = "bind_m (pool_workers pool_ok cfg p) (set_integrity_run_active_workers run_id)"
  have m: "I (snd (?m w))" by (rule keepsD [OF inv_workers Cons.prems(1)])
  obtain a x where a: "?m w = (a, x)" by fastforce
  have x: "I x" using m a by simp
  show ?case
  proof (cases "run_pages n b3 meminfo others run_id recover d p 1 turn x")
    case None
    then show ?thesis using Cons.prems(2) a x by (auto split: sum.splits)
  next
    case (Some ru)
    obtain q u where ru: "ru = (q, u)" by fastforce
    have u: "I u" using inv_pages [OF assms x] Some ru by simp
    have "I (snd (set_integrity_run_active_workers run_id 0 u))" by (rule keepsD [where P = I, OF keeps_workers u])
    note ih = Cons.IH [OF this]
    show ?thesis
      using Cons.prems(2) a x Some ru u ih
      by (cases a; cases q) (auto split: bool.splits)
  qed
qed simp

lemma inv_run:
  assumes "\<And>k w. I w \<Longrightarrow> I (others k w)" "I w"
    "process_run n b3 meminfo pool_ok others run_id d cfg w = Some (r, v)"
  shows "I v"
proof -
  obtain a x where a: "get_integrity_run run_id w = (a, x)" by fastforce
  have x: "x = w" using runs.get_state [of run_id w] a by simp
  show ?thesis
  proof (cases a)
    case (Inl e)
    then show ?thesis using assms a x by (simp add: process_run_def)
  next
    case (Inr run)
    let ?m = "seq_m (discard (log_integrity_run_started run_id (ir_total_files run) (ir_trigger run)))
                  (pairs_in_scope (ir_scope_drive_pair_id run))"
    have m: "I (snd (?m w))" by (rule keepsD [OF inv_scope assms(2)])
    obtain b u where b: "?m w = (b, u)" by fastforce
    have u: "I u" using m b by simp
    note fin = keeps_finish [of run_id]
    show ?thesis
    proof (cases b)
      case (Inl e)
      then show ?thesis using assms(3) a x Inr b u by (simp add: process_run_def)
    next
      case b2: (Inr ps)
      show ?thesis
      proof (cases "run_pairs n b3 meminfo pool_ok others run_id (ir_recover run) d cfg ps 0 u")
        case None
        then show ?thesis using assms(3) a x Inr b b2 by (simp add: process_run_def)
      next
        case (Some ru)
        obtain q y where ru: "ru = (q, y)" by fastforce
        have y: "I y" using inv_pairs [OF assms(1) u] Some ru by simp
        show ?thesis
          using assms(3) a x Inr b b2 Some ru y keepsD [where P = I, OF fin y]
          by (auto simp: process_run_def split: sum.splits bool.splits)
      qed
    qed
  qed
qed

end

end
