(* ===== verification/Integrity_Runs_Invariant.thy ===== *)
theory Integrity_Runs_Invariant
  imports Integrity_Runs_Correct Integrity_Runs_Frame
begin

section \<open>Integrity runs: invariants, stopping, termination\<close>

text \<open>
  What holds of a run whatever the other threads do between two pages. The locale \<open>run_invariant\<close> states
  what a predicate on worlds must satisfy to be kept by every statement of a run; it is interpreted on three: the
  counters of the runs are in bounds, there are at most \<open>n\<close> files, at most one run is active. The bound on the files
  gives termination.
\<close>

subsection \<open>Stopping\<close>

text \<open>C21: 
  A stop request is honoured at the next turn: whatever page the run is at, when another thread has set the
  request it ends \<open>stopped\<close> with no worker left, and checks, records and recovers nothing more.
\<close>

theorem stop_request_honoured:
  assumes "find (\<lambda>r. ir_id r = run_id) (db_runs (w_db (others turn w))) = Some r" "ir_stop_requested r"
  shows "\<exists>v r'. run_pages (Suc n) b3 meminfo others run_id recover deadline p page turn w = Some (Inr (True, Suc turn), v)
    \<and> w_fs v = w_fs (others turn w) \<and> db_files (w_db v) = db_files (w_db (others turn w))
    \<and> db_results (w_db v) = db_results (w_db (others turn w)) \<and> db_queue (w_db v) = db_queue (w_db (others turn w))
    \<and> find (\<lambda>r. ir_id r = run_id) (db_runs (w_db v)) = Some r' \<and> ir_status r' = ''stopped'' \<and> ir_active_workers r' = 0
    \<and> ir_processed_files r' = ir_processed_files r"
proof -
  let ?u = "others turn w"
  let ?f = "\<lambda>r. r\<lparr>ir_active_workers := 0\<rparr>"
  let ?g = "\<lambda>r. r\<lparr>ir_status := ''stopped'', ir_ended_at := Some (w_now ?u), ir_error_message := None, ir_active_workers := 0\<rparr>"
  let ?P = "\<lambda>r. ir_id r = run_id"
  let ?rs = "upd_where ?P ?f (upd_where ?P ?g (upd_where ?P ?f (db_runs (w_db ?u))))"
  let ?v = "?u\<lparr>w_db := (w_db ?u)\<lparr>db_runs := ?rs\<rparr>\<rparr>"
  have i: "ir_id r = run_id" using assms(1) by (auto dest: find_SomeD)
  have f: "find ?P (upd_where ?P h xs) = map_option (\<lambda>r. if ?P r then h r else r) (find ?P xs)"
    if "\<And>r. ir_id (h r) = ir_id r" for h xs
    by (rule find_upd_where) (simp add: that)
  have run: "run_pages (Suc n) b3 meminfo others run_id recover deadline p page turn w = Some (Inr (True, Suc turn), ?v)"
  proof -
    have "check_should_stop run_id deadline ?u = (Inr True, ?u\<lparr>w_db := (w_db ?u)\<lparr>db_runs :=
        upd_where ?P ?g (upd_where ?P ?f (db_runs (w_db ?u)))\<rparr>\<rparr>)"
      using assms by (simp add: check_should_stop_def runs.bind_get stop_now_def set_integrity_run_active_workers_def
        finish_integrity_run_def run_status_names_def)
    then show ?thesis by (simp add: run_pages.simps set_integrity_run_active_workers_def seq_m_def bind_m_def return_m_def)
  qed
  have "find ?P ?rs = Some (?f (?g (?f r)))" using assms(1) i by (simp add: f)
  then show ?thesis using run by (intro exI [of _ ?v] exI [of _ "?f (?g (?f r))"]) simp
qed

subsection \<open>Runs end\<close>

text \<open>There are at most \<open>n\<close> files.\<close>

definition at_most_files :: "nat \<Rightarrow> world \<Rightarrow> bool" where
  "at_most_files n w = (length (db_files (w_db w)) \<le> n)"

text \<open>Counters of a run: never negative, and no file counts twice.\<close>

definition counters_ok :: "world \<Rightarrow> bool" where
  "counters_ok w = (\<forall>r \<in> set (db_runs (w_db w)). 0 \<le> ir_attention_files r \<and> 0 \<le> ir_recovered_files r \<and>
     ir_attention_files r + ir_recovered_files r \<le> ir_processed_files r)"

lemma counters_rows:
  assumes "db_runs (w_db v) = upd_where P f (db_runs (w_db w))" "counters_ok w"
    "\<And>r. 0 \<le> ir_attention_files r \<and> 0 \<le> ir_recovered_files r \<and> ir_attention_files r + ir_recovered_files r \<le> ir_processed_files r
    \<Longrightarrow> 0 \<le> ir_attention_files (f r) \<and> 0 \<le> ir_recovered_files (f r) \<and> ir_attention_files (f r) + ir_recovered_files (f r) \<le> ir_processed_files (f r)"
  shows "counters_ok v"
  using assms(2,3) by (auto simp: counters_ok_def assms(1) set_upd_where)

lemma counters_view:
  assumes "view v = view w" "counters_ok w"
  shows "counters_ok v"
proof -
  have "counters_ok w = (\<forall>r \<in> set (rv_runs (view w)). 0 \<le> ir_attention_files r \<and> 0 \<le> ir_recovered_files r \<and>
     ir_attention_files r + ir_recovered_files r \<le> ir_processed_files r)" for w
    by (simp add: counters_ok_def view_def idle_def)
  then show ?thesis using assms by simp
qed

text \<open>A predicate on worlds that every statement of a run keeps.\<close>

locale run_invariant =
  fixes I :: "world \<Rightarrow> bool"
  assumes by_view: "view v = view w \<Longrightarrow> I w \<Longrightarrow> I v"
    and by_record: "\<not> (rec \<and> att) \<Longrightarrow> keeps I (record_result run_id f s rec att)"
    and by_workers: "keeps I (set_integrity_run_active_workers run_id n)"
    and by_finish: "s = ''stopped'' \<or> s = ''completed'' \<Longrightarrow> keeps I (finish_integrity_run run_id s e)"
    and by_clock: "keeps I (past_deadline d)"
begin

lemma view_keeps: "(\<And>c. keeps (view_is c) m) \<Longrightarrow> keeps I m"
proof (rule keepsI)
  fix w assume m: "\<And>c. keeps (view_is c) m" and w: "I w"
  have "view (snd (m w)) = view w" using keepsD [OF m view_is_refl] by (simp add: view_is_def)
  then show "I (snd (m w))" using w by (rule by_view)
qed

lemma inv_result: "keeps I (process_result b3 run_id recover p fr)"
proof -
  have "keeps I (bind_m (attempt) (\<lambda>recovered. seq_m (log_issue p f res)
       (record_result run_id f s recovered (ic_status res \<noteq> IOk \<and> \<not> recovered))))"
    if "\<And>c. keeps (view_is c) attempt" for attempt res f s
    proof (intro keeps_bind keeps_seq)
      show "keeps I attempt" by (rule view_keeps) (rule that)
      show "keeps I (log_issue p f res)" by (rule view_keeps) (rule view_log_issue)
      show "keeps I (record_result run_id f s recovered (ic_status res \<noteq> IOk \<and> \<not> recovered))" for recovered
        by (rule by_record) simp
    qed
  moreover have "keeps (view_is c) (if b then bind_m (try_m (attempt_recovery_with_reconciliation b3 p f res))
      (\<lambda>r. return_m (case r of Inl _ \<Rightarrow> False | Inr b \<Rightarrow> b)) else return_m False)" for c b f res
    by (intro keeps_if keeps_bind keeps_try view_recovery keeps_return)
  ultimately show ?thesis
    unfolding process_result_def by (intro keeps_prod keeps_sum by_record) (auto split: if_splits)
qed

lemma inv_page: "keeps I (run_page b3 meminfo run_id recover p page)"
proof -
  have "keeps I (list_tracked_files_oldest_integrity_first a b c)" "keeps I (check_batch b3 meminfo p fs)" for a b c fs
    by (simp_all add: list_tracked_files_oldest_integrity_first_def keeps_gets keeps_def check_run)
  then show ?thesis unfolding run_page_def
    by (intro keeps_bind keeps_prod keeps_if keeps_return keeps_seq keeps_for inv_result)
qed

lemma inv_stop: "keeps I (check_should_stop run_id d)"
  unfolding check_should_stop_def stop_now_def
  by (intro keeps_bind runs.keeps_get keeps_if keeps_seq by_workers by_finish by_clock keeps_return) simp_all

lemma inv_finish: "keeps I (finish_run run_id)"
  unfolding finish_run_def Let_def
proof (intro keeps_bind runs.keeps_get keeps_seq by_finish keeps_discard)
  show "(if ir_stop_requested x then ''stopped'' else ''completed'') = ''stopped'' \<or>
    (if ir_stop_requested x then ''stopped'' else ''completed'') = ''completed''" for x by simp
  show "keeps I (log_integrity_run_completed i s a b)" for i s a b by (rule view_keeps, rule view_logs) simp
qed

lemma inv_started: "keeps I (log_integrity_run_started i a b)"
  by (rule view_keeps, rule view_logs) simp

end

sublocale run_invariant \<subseteq> run_frame I
  by unfold_locales (rule inv_page inv_stop by_workers inv_started inv_finish)+

text \<open>How recording a result changes the runs and the files.\<close>

lemma record_runs:
  "\<exists>b. db_runs (w_db (snd (record_result run_id g s rec att w))) = upd_where (\<lambda>r. b \<and> ir_id r = run_id)
     (\<lambda>r. r\<lparr>ir_processed_files := ir_processed_files r + 1, ir_attention_files := ir_attention_files r + (if att then 1 else 0),
            ir_recovered_files := ir_recovered_files r + (if rec then 1 else 0)\<rparr>) (db_runs (w_db w))"
proof -
  let ?u = "snd (update_tracked_file_last_integrity_check_at (tf_id g) w)"
  have st: "update_tracked_file_last_integrity_check_at (tf_id g) w = (Inr (), ?u)" "db_runs (w_db ?u) = db_runs (w_db w)"
    by (simp_all add: update_tracked_file_last_integrity_check_at_def)
  obtain a x where a: "append_integrity_run_result run_id (tf_id g) (tf_drive_pair_id g) (tf_relative_path g) s rec att ?u = (a, x)" by fastforce
  have x: "db_runs (w_db x) = db_runs (w_db w)"
    using a st(2) by (auto simp: append_integrity_run_result_def Let_def split: if_splits option.splits)
  show ?thesis
  proof (cases a)
    case (Inl e)
    then show ?thesis
      unfolding record_result_def
      by (intro exI [of _ False]) (simp add: seq_m_ok [where m = "update_tracked_file_last_integrity_check_at i" for i, OF st(1)]
          seq_m_err [where m = "append_integrity_run_result b c d e f h i" for b c d e f h i, OF a [unfolded Inl]] x upd_where_def)
  next
    case (Inr row)
    then show ?thesis
      unfolding record_result_def
      by (intro exI [of _ True]) (simp add: seq_m_ok [where m = "update_tracked_file_last_integrity_check_at i" for i, OF st(1)]
          seq_m_ok [where m = "append_integrity_run_result b c d e f h i" for b c d e f h i, OF a [unfolded Inr]] x
          increment_integrity_run_progress_def)
  qed
qed

lemma finish_keeps:
  assumes "\<And>v w t. db_runs (w_db v) = upd_where (\<lambda>r. ir_id r = i)
      (\<lambda>r. r\<lparr>ir_status := s, ir_ended_at := Some t, ir_error_message := e, ir_active_workers := 0\<rparr>) (db_runs (w_db w)) \<Longrightarrow>
      db_files (w_db v) = db_files (w_db w) \<Longrightarrow> P w \<Longrightarrow> P v"
  shows "keeps P (finish_integrity_run i s e)"
  unfolding keeps_def finish_integrity_run_def using assms by (auto simp: raise_m_def)

lemma clock_view: "view (snd (past_deadline d w)) = view w"
  by (simp add: view_def past_deadline_def bind_m_def instant_now_def split: option.splits)

interpretation counted: run_invariant counters_ok
proof unfold_locales
  show "view v = view w \<Longrightarrow> counters_ok w \<Longrightarrow> counters_ok v" for v w by (rule counters_view)
  show "keeps counters_ok (record_result run_id f s rec att)" if "\<not> (rec \<and> att)" for rec att run_id f s
  proof (rule keepsI)
    fix w assume w: "counters_ok w"
    obtain b where "db_runs (w_db (snd (record_result run_id f s rec att w))) = upd_where (\<lambda>r. b \<and> ir_id r = run_id)
       (\<lambda>r. r\<lparr>ir_processed_files := ir_processed_files r + 1, ir_attention_files := ir_attention_files r + (if att then 1 else 0),
              ir_recovered_files := ir_recovered_files r + (if rec then 1 else 0)\<rparr>) (db_runs (w_db w))"
      using record_runs by blast
    then show "counters_ok (snd (record_result run_id f s rec att w))" using w by (rule counters_rows) (use that in auto)
  qed
  show "keeps counters_ok (set_integrity_run_active_workers i n)" for i n
    unfolding set_integrity_run_active_workers_def
    by (rule keepsI, rule counters_rows [where f = "\<lambda>r. r\<lparr>ir_active_workers := n\<rparr>" and P = "\<lambda>r. ir_id r = i"]) simp_all
  show "keeps counters_ok (finish_integrity_run i s e)" for i s e
    by (rule finish_keeps, erule counters_rows) simp_all
  show "keeps counters_ok (past_deadline d)" for d
    by (rule keepsI, rule counters_view) (rule clock_view)
qed

interpretation bounded: run_invariant "at_most_files n"
proof unfold_locales
  show "at_most_files n v" if "view v = view w" "at_most_files n w" for v w
  proof -
    have "at_most_files n w = (length (rv_marks (view w)) \<le> n)" for w by (simp add: at_most_files_def view_def)
    then show ?thesis using that by simp
  qed
  show "keeps (at_most_files n) (record_result run_id f s rec att)" for rec att run_id f s
  proof -
    have "keeps (at_most_files n) (append_integrity_run_result a b c d e g h)" for a b c d e g h
      by (simp add: keeps_def at_most_files_def append_integrity_run_result_def Let_def split: option.splits)
    moreover have "keeps (at_most_files n) (increment_integrity_run_progress a b c)" for a b c
      by (simp add: keeps_def at_most_files_def increment_integrity_run_progress_def)
    moreover have "keeps (at_most_files n) (update_tracked_file_last_integrity_check_at a)" for a
      by (simp add: keeps_def at_most_files_def update_tracked_file_last_integrity_check_at_def)
    ultimately show ?thesis unfolding record_result_def by (intro keeps_seq)
  qed
  show "keeps (at_most_files n) (set_integrity_run_active_workers i k)" for i k
    by (simp add: keeps_def at_most_files_def set_integrity_run_active_workers_def)
  show "keeps (at_most_files n) (finish_integrity_run i s e)" for i s e
    by (rule finish_keeps) (simp add: at_most_files_def)
  show "keeps (at_most_files n) (past_deadline d)" for d
    by (simp add: keeps_def at_most_files_def)
qed

lemma next_page:
  assumes "run_page b3 meminfo run_id recover p page w = (Inr True, v)"
  shows "page * 100 < int (length (db_files (w_db w)))"
proof -
  let ?n = "length (filter (\<lambda>f. tf_drive_pair_id f = dp_id p) (db_files (w_db w)))"
  obtain fs where fs: "list_tracked_files_oldest_integrity_first (Some (dp_id p)) page runs_per_page w = (Inr (fs, int ?n), w)"
    by (simp add: list_tracked_files_oldest_integrity_first_def Let_def)
  have "page * 100 < int ?n"
    using assms unfolding run_page_def
      bind_m_ok [where m = "list_tracked_files_oldest_integrity_first a b c" for a b c, OF fs]
    by (auto simp: runs_per_page_def split: if_splits)
  moreover have "int ?n \<le> int (length (db_files (w_db w)))" by simp
  ultimately show ?thesis by linarith
qed

lemma pages_end:
  assumes "\<And>k w. at_most_files n w \<Longrightarrow> at_most_files n (others k w)"
  shows "at_most_files n w \<Longrightarrow> n \<le> (k + fuel) * 100 \<Longrightarrow> 0 < fuel \<Longrightarrow>
    run_pages fuel b3 meminfo others run_id recover d p (int k + 1) turn w \<noteq> None"
proof (induction fuel arbitrary: k turn w)
  case (Suc fuel)
  obtain a x where a: "check_should_stop run_id d (others turn w) = (a, x)" by fastforce
  have x: "at_most_files n x"
    using keepsD [where P = "at_most_files n", OF bounded.inv_stop assms [OF Suc.prems(1)]] a by (metis snd_conv)
  obtain b y where b: "run_page b3 meminfo run_id recover p (int k + 1) x = (b, y)" by fastforce
  have y: "at_most_files n y" using keepsD [where P = "at_most_files n", OF bounded.inv_page x] b by (metis snd_conv)
  have "run_pages fuel b3 meminfo others run_id recover d p (int k + 1 + 1) (Suc turn) y \<noteq> None" if "b = Inr True"
  proof -
    have "(k + 1) * 100 < n" using next_page [OF b [unfolded that]] x by (simp add: at_most_files_def)
    then have "0 < fuel" "n \<le> (Suc k + fuel) * 100" using Suc.prems(2) by (cases fuel; simp)+
    from Suc.IH [OF y this(2,1)] show ?thesis by (simp add: add.commute)
  qed
  then show ?case using a b by (auto simp: run_pages.simps split: sum.splits bool.splits)
qed simp

lemma pairs_end:
  assumes "\<And>k w. at_most_files n w \<Longrightarrow> at_most_files n (others k w)" "n \<le> fuel * 100" "0 < fuel"
  shows "at_most_files n w \<Longrightarrow> run_pairs fuel b3 meminfo pool_ok others run_id recover d cfg ps turn w \<noteq> None"
proof (induction ps arbitrary: turn w)
  case (Cons p ps)
  let ?m = "bind_m (pool_workers pool_ok cfg p) (set_integrity_run_active_workers run_id)"
  have x: "at_most_files n (snd (?m w))" by (rule keepsD [OF bounded.inv_workers Cons.prems])
  obtain a x where a: "?m w = (a, x)" by fastforce
  have ax: "at_most_files n x" using x a by simp
  have "run_pages fuel b3 meminfo others run_id recover d p (int 0 + 1) turn x \<noteq> None"
    by (rule pages_end [where others = others, OF assms(1) ax]) (use assms in auto)
  then obtain q u where u: "run_pages fuel b3 meminfo others run_id recover d p 1 turn x = Some (q, u)" by auto
  have "at_most_files n u" by (rule bounded.inv_pages [OF assms(1) ax u])
  then have "at_most_files n (snd (set_integrity_run_active_workers run_id 0 u))" by (rule keepsD [OF bounded.by_workers])
  note ih = Cons.IH [OF this]
  show ?case unfolding run_pairs.simps a by (cases a; cases q) (use ih u in \<open>auto split: bool.splits\<close>)
qed simp

text \<open>No two runs are active at once.\<close>

definition one_active :: "world \<Rightarrow> bool" where
  "one_active w = (length (filter run_is_active (db_runs (w_db w))) \<le> 1)"

lemma one_active_rows:
  assumes "db_runs (w_db v) = upd_where P f (db_runs (w_db w))" "one_active w" "\<And>r. run_is_active (f r) \<Longrightarrow> run_is_active r"
  shows "one_active v"
proof -
  have "length (filter run_is_active (upd_where P f rs)) \<le> length (filter run_is_active rs)" for rs
    using assms(3) by (induction rs) (auto simp: le_SucI)
  then show ?thesis using assms(2) unfolding one_active_def assms(1) by (meson order_trans)
qed

lemma one_active_finish: "s \<noteq> ''running'' \<Longrightarrow> s \<noteq> ''stopping'' \<Longrightarrow> keeps one_active (finish_integrity_run i s e)"
  by (rule finish_keeps, erule one_active_rows) (simp_all add: run_is_active_def)

lemma length_active_idle: "length (filter run_is_active (map idle rs)) = length (filter run_is_active rs)"
  by (induction rs) (auto simp: run_is_active_def idle_def)

interpretation single: run_invariant one_active
proof unfold_locales
  show view: "one_active v" if "view v = view w" "one_active w" for v w
  proof -
    have "one_active w = (length (filter run_is_active (rv_runs (view w))) \<le> 1)" for w
      unfolding one_active_def by (simp only: view_def run_view.select_convs length_active_idle)
    then show ?thesis using that by simp
  qed
  show "keeps one_active (record_result run_id f s rec att)" for rec att run_id f s
  proof (rule keepsI)
    fix w assume w: "one_active w"
    obtain b where "db_runs (w_db (snd (record_result run_id f s rec att w))) = upd_where (\<lambda>r. b \<and> ir_id r = run_id)
       (\<lambda>r. r\<lparr>ir_processed_files := ir_processed_files r + 1, ir_attention_files := ir_attention_files r + (if att then 1 else 0),
              ir_recovered_files := ir_recovered_files r + (if rec then 1 else 0)\<rparr>) (db_runs (w_db w))"
      using record_runs by blast
    then show "one_active (snd (record_result run_id f s rec att w))"
      using w by (rule one_active_rows) (simp add: run_is_active_def)
  qed
  show "keeps one_active (set_integrity_run_active_workers i n)" for i n
    unfolding set_integrity_run_active_workers_def
    by (rule keepsI, rule one_active_rows [where f = "\<lambda>r. r\<lparr>ir_active_workers := n\<rparr>" and P = "\<lambda>r. ir_id r = i"]) (simp_all add: run_is_active_def)
  show "s = ''stopped'' \<or> s = ''completed'' \<Longrightarrow> keeps one_active (finish_integrity_run i s e)" for i s e
    by (rule one_active_finish) auto
  show "keeps one_active (past_deadline d)" for d
    by (rule keepsI, rule view) (rule clock_view)
qed

lemma latest_None: "latest_run rs = None \<longleftrightarrow> rs = []"
proof -
  have "latest_run rs = None \<longleftrightarrow> length (rev (sort_key ir_started_at (sort_key ir_id rs))) = 0"
    unfolding latest_run_def by (cases "rev (sort_key ir_started_at (sort_key ir_id rs))") auto
  then show ?thesis by simp
qed

lemma open_run_one_active: "keeps one_active (open_run scope recover trigger)"
proof (rule keepsI)
  fix w assume w: "one_active w"
  show "one_active (snd (open_run scope recover trigger w))"
  proof (cases "filter run_is_active (db_runs (w_db w)) = []")
    case True
    have "db_runs (w_db (snd (create_integrity_run scope recover trigger n w))) = db_runs (w_db w) \<or>
      (\<exists>r. db_runs (w_db (snd (create_integrity_run scope recover trigger n w))) = db_runs (w_db w) @ [r])" for n
      by (auto simp: create_integrity_run_def Let_def get_integrity_run_def split: option.splits)
    moreover have "length (filter run_is_active [r]) \<le> 1" for r by simp
    ultimately have "one_active (snd (create_integrity_run scope recover trigger n w))" for n
      unfolding one_active_def using True by (metis append_Nil filter_append le_numeral_extra(3) list.size(3) zero_le_one)
    moreover have "latest_run [] = None" by (simp only: latest_None)
    ultimately show ?thesis using True
      by (simp add: open_run_def get_active_integrity_run_def bind_m_def count_tracked_files_def gets_m_def)
  next
    case False
    then show ?thesis using w
      by (simp add: open_run_def get_active_integrity_run_def latest_None bind_m_def gets_m_def bail_def raise_m_def)
  qed
qed

lemma process_run_ends:
  assumes "\<And>k w. at_most_files n w \<Longrightarrow> at_most_files n (others k w)" "at_most_files n w"
    "n \<le> fuel * 100" "0 < fuel"
  shows "process_run fuel b3 meminfo pool_ok others run_id deadline cfg w \<noteq> None"
proof -
  obtain a x where a: "get_integrity_run run_id w = (a, x)" by fastforce
  have x: "x = w" using runs.get_state [of run_id w] a by simp
  show ?thesis
  proof (cases a)
    case (Inl e)
    then show ?thesis using a by (simp add: process_run_def)
  next
    case (Inr run)
    let ?m = "seq_m (discard (log_integrity_run_started run_id (ir_total_files run) (ir_trigger run)))
                  (pairs_in_scope (ir_scope_drive_pair_id run))"
    obtain b u where b: "?m w = (b, u)" by fastforce
    have u: "at_most_files n u" using keepsD [OF bounded.inv_scope assms(2)] b by (metis snd_conv)
    have "run_pairs fuel b3 meminfo pool_ok others run_id (ir_recover run) deadline cfg ps 0 u \<noteq> None" for ps
      by (rule pairs_end [where others = others, OF assms(1,3,4) u])
    then show ?thesis using a b x Inr by (cases b) (auto simp: process_run_def split: sum.splits bool.splits option.splits)
  qed
qed

lemma run_sync_ends:
  assumes "\<And>k w. at_most_files n w \<Longrightarrow> at_most_files n (others k w)" "at_most_files n w"
    "n \<le> fuel * 100" "0 < fuel"
  shows "\<exists>r v. run_sync fuel b3 meminfo pool_ok others scope recover trigger deadline cfg w = Some (r, v)"
proof -
  obtain a x where a: "open_run scope recover trigger w = (a, x)" by fastforce
  have "db_files (w_db (snd (open_run scope recover trigger w))) = db_files (w_db w)"
    by (simp add: open_run_def bind_m_def get_active_integrity_run_def gets_m_def bail_def raise_m_def count_tracked_files_def
        create_integrity_run_def Let_def get_integrity_run_def split: option.splits)
  then have x: "at_most_files n x" using assms(2) a by (simp add: at_most_files_def)
  show ?thesis
  proof (cases a)
    case (Inr run)
    have "process_run fuel b3 meminfo pool_ok others (ir_id run) deadline cfg x \<noteq> None"
      by (rule process_run_ends [where others = others, OF assms(1) x assms(3,4)])
    then obtain q y where "process_run fuel b3 meminfo pool_ok others (ir_id run) deadline cfg x = Some (q, y)" by auto
    then show ?thesis using a Inr by (cases q) (simp_all add: run_sync_def run_thread_def)
  qed (use a in \<open>simp add: run_sync_def\<close>)
qed

subsection \<open>Properties\<close>

text \<open>C22: 
  Whatever other threads do that keeps this so, a run leaves every run's counters in bounds: attention and
  recovered are never negative and together never exceed the processed files (no file counts as both).
\<close>

theorem run_counters_bounded:
  assumes "\<And>k w. counters_ok w \<Longrightarrow> counters_ok (others k w)" "counters_ok w"
    "process_run fuel b3 meminfo pool_ok others run_id deadline cfg w = Some (r, v)"
  shows "counters_ok v"
  using assms by (rule counted.inv_run)


text \<open>C23: 
  A run ends: while there are at most \<open>n\<close> files, whatever else the other threads do, it turns at most
  \<open>n div 100 + 1\<close> pages of a pair, so fuel for that many pages is enough.
\<close>

theorem run_terminates:
  assumes "\<And>k w. at_most_files n w \<Longrightarrow> at_most_files n (others k w)" "at_most_files n w"
    "n \<le> fuel * 100" "0 < fuel"
  shows "process_run fuel b3 meminfo pool_ok others run_id deadline cfg w \<noteq> None"
  using assms by (rule process_run_ends)

theorem stop_request_honoured_witness:
  "\<exists>v. run_pages (Suc 0) plain_digest None (\<lambda>_ w. snd (request_integrity_run_stop 1 w)) 1 True None run_pair 1 0 (run_world 3) = Some (Inr (True, Suc 0), v)
    \<and> db_results (w_db v) = []"
  using stop_request_honoured [where w = "run_world 3" and run_id = 1 and others = "\<lambda>_ w. snd (request_integrity_run_stop 1 w)" and turn = 0
      and n = 0 and ?b3.0 = plain_digest and meminfo = None and recover = True and deadline = None and p = run_pair and page = 1
      and r = "opened_run\<lparr>ir_stop_requested := True, ir_status := ''stopping''\<rparr>"]
  by (auto simp: request_integrity_run_stop_def opened_run_def)

theorem run_counters_bounded_witness:
  "\<exists>r v. process_run 1 plain_digest None (\<lambda>_. True) (\<lambda>_ w. w) 1 None (default_checksum_config 4) (run_world 100) = Some (r, v)
    \<and> counters_ok v"
proof -
  have "process_run 1 plain_digest None (\<lambda>_. True) (\<lambda>_ w. w) 1 None (default_checksum_config 4) (run_world 100) \<noteq> None"
    by (rule process_run_ends [where n = 100]) (simp_all add: at_most_files_def)
  then obtain r v where v: "process_run 1 plain_digest None (\<lambda>_. True) (\<lambda>_ w. w) 1 None (default_checksum_config 4) (run_world 100) = Some (r, v)"
    by auto
  have "counters_ok v" by (rule run_counters_bounded [OF _ _ v]) (simp_all add: counters_ok_def opened_run_def)
  then show ?thesis using v by blast
qed

theorem run_terminates_witness:
  "process_run 3 plain_digest None (\<lambda>_. True) (\<lambda>_ w. snd (request_integrity_run_stop 1 w)) 1 (Some 4) (default_checksum_config 4)
     (run_world 250) \<noteq> None"
  by (rule run_terminates [where n = 300]) (simp_all add: at_most_files_def request_integrity_run_stop_def)


end
