(* ===== verification/Change_Detection.thy ===== *)
theory Change_Detection
  imports Sync_Queue
begin

section \<open>Detecting changes\<close>

text \<open>
  \<open>src/core/change_detection.rs\<close>: the files of a pair are hashed again, page by page, and those whose digest is not the
  stored one are recorded: new checksum and size, no longer mirrored, an event, and a mirror item when the standby
  side takes part. The file-system watcher is not modelled.
\<close>

definition detect_change :: "digest \<Rightarrow> string \<Rightarrow> string \<Rightarrow> string \<Rightarrow> string option prog" where
  "detect_change b3 primary_path relative_path stored_checksum w =
     (let full_path = path_join primary_path relative_path in
      if \<not> path_exists (w_fs w) full_path then (Inr None, w)
      else bind_m (checksum_file b3 full_path Streaming) (\<lambda>current.
        if current \<noteq> stored_checksum then return_m (Some current) else return_m None) w)"

fun detect_changes :: "digest \<Rightarrow> drive_pair \<Rightarrow> tracked_file list \<Rightarrow> (tracked_file \<times> string) list prog" where
  "detect_changes b3 p [] = return_m []"
| "detect_changes b3 p (f # fs) =
     bind_m (detect_change b3 (active_path p) (tf_relative_path f) (tf_checksum f)) (\<lambda>new_hash.
     bind_m (detect_changes b3 p fs) (\<lambda>rest.
       return_m (case new_hash of None \<Rightarrow> rest | Some h \<Rightarrow> (f, h) # rest)))"

definition changes_per_page :: int where
  "changes_per_page = 200"

lemma detect_change_state [simp]: "snd (detect_change b3 a r s w) = w"
proof -
  have "keeps (\<lambda>v. v = w) (bind_m (checksum_file b3 (path_join a r) Streaming)
      (\<lambda>current. if current \<noteq> s then return_m (Some current) else return_m None))"
    by (intro keeps_bind keeps_pure [OF checksum_pure] keeps_if keeps_return)
  from keepsD [OF this refl] show ?thesis by (simp add: detect_change_def Let_def)
qed

lemma detect_changes_state [simp]: "snd (detect_changes b3 p fs w) = w"
proof -
  have "keeps (\<lambda>v. v = w) (detect_change b3 a r s)" for a r s by (simp add: keeps_def)
  then have "keeps (\<lambda>v. v = w) (detect_changes b3 p fs)"
    by (induction fs) (simp_all add: keeps_return keeps_bind)
  from keepsD [OF this refl] show ?thesis .
qed

text \<open>The loop over the pages, which ends because a page is only turned while files are left.\<close>

function scan_pages ::
    "digest \<Rightarrow> drive_pair \<Rightarrow> int \<Rightarrow> (tracked_file \<times> string) list \<Rightarrow> world \<Rightarrow> (err + (tracked_file \<times> string) list) \<times> world" where
  "scan_pages b3 p page changes w =
     (case list_tracked_files (Some (dp_id p)) None None page changes_per_page w of
        (Inl e, v) \<Rightarrow> (Inl e, v)
      | (Inr (files, count), v) \<Rightarrow>
          (if files = [] then (Inr changes, v)
           else (case detect_changes b3 p files v of
               (Inl e, u) \<Rightarrow> (Inl e, u)
             | (Inr cs, u) \<Rightarrow>
                 (if page * changes_per_page \<ge> count then (Inr (changes @ cs), u)
                  else scan_pages b3 p (page + 1) (changes @ cs) u))))"
  by pat_completeness auto
termination
proof (relation "measure (\<lambda>(b3, p, page, changes, w). nat (int (length (db_files (w_db w))) - page * changes_per_page))")
  fix b3 p page changes and w :: world and r v z files count s u cs
  assume a: "(r, v) = list_tracked_files (Some (dp_id p)) None None page changes_per_page w" "r = Inr z" "(files, count) = z"
    "files \<noteq> []" "(s, u) = detect_changes b3 p files v" "s = Inr cs" "\<not> count \<le> page * changes_per_page"
  have "v = w" "count \<le> int (length (db_files (w_db w)))" using a(1-3) by (auto simp: list_tracked_files_def Let_def)
  moreover have "u = v" using a(5) detect_changes_state [of b3 p files v] by (metis snd_conv)
  ultimately show "((b3, p, page + 1, changes @ cs, u), b3, p, page, changes, w)
      \<in> measure (\<lambda>(b3, p, page, changes, w). nat (int (length (db_files (w_db w))) - page * changes_per_page))"
    using a(7) by (simp add: changes_per_page_def)
qed simp

declare scan_pages.simps [simp del]

definition scan_all_changes :: "digest \<Rightarrow> drive_pair \<Rightarrow> (tracked_file \<times> string) list prog" where
  "scan_all_changes b3 p = scan_pages b3 p 1 []"

text \<open>\<open>metadata()?.len()\<close>; the length of a directory is never asked for.\<close>

definition metadata_len :: "string \<Rightarrow> int prog" where
  "metadata_len path w = (case metadata (w_fs w) path of
       None \<Rightarrow> io ''metadata'' w
     | Some n \<Rightarrow> (Inr (case n of RegFile c _ \<Rightarrow> int (length c) | _ \<Rightarrow> 0), w))"

definition change_message :: "drive_pair \<Rightarrow> string \<Rightarrow> string" where
  "change_message p relative_path = fmt [''Change detected on active '', dp_active_role p, '' drive: '',
     dp_primary_path p, ''/'', relative_path]"

definition record_change :: "drive_pair \<Rightarrow> tracked_file \<times> string \<Rightarrow> unit prog" where
  "record_change p fh = (case fh of (file, new_hash) \<Rightarrow>
     bind_m (metadata_len (path_join (active_path p) (tf_relative_path file))) (\<lambda>new_size.
     seq_m (update_tracked_file_checksum (tf_id file) new_hash new_size)
    (seq_m (update_tracked_file_mirror_status (tf_id file) False)
    (seq_m (discard (log_event ''change_detected'' (Some (tf_id file))
              (change_message p (tf_relative_path file)) (Some new_hash)))
    (\<lambda>w. (if standby_accepts_sync (w_fs w) p
          then bind_m (create_from_change (tf_id file)) (\<lambda>_. return_m ())
          else return_m ()) w)))))"

definition scan_and_record_changes :: "digest \<Rightarrow> drive_pair \<Rightarrow> (tracked_file \<times> string) list prog" where
  "scan_and_record_changes b3 p = bind_m (scan_all_changes b3 p) (\<lambda>changes.
     seq_m (for_m changes (record_change p)) (return_m changes))"

subsection \<open>Paging loses no file\<close>

lemma detect_changes_append:
  "detect_changes b3 p (fs @ gs) w = bind_m (detect_changes b3 p fs) (\<lambda>cs. bind_m (detect_changes b3 p gs)
     (\<lambda>ds. return_m (cs @ ds))) w"
proof (induction fs)
  case Nil
  show ?case by (auto simp: bind_m_def split: prod.splits sum.splits)
next
  case (Cons f fs)
  let ?d = "detect_change b3 (active_path p) (tf_relative_path f) (tf_checksum f)"
  have "snd (?d w) = w" "snd (detect_changes b3 p fs w) = w" "snd (detect_changes b3 p gs w) = w" by simp_all
  then show ?case using Cons
    by (cases "?d w"; cases "detect_changes b3 p fs w"; cases "detect_changes b3 p gs w")
      (auto simp: bind_m_def split: sum.splits option.splits)
qed

lemma scan_pages_from:
  assumes "(k::nat) * 200 < length fs" "fs = filter (\<lambda>f. tf_drive_pair_id f = dp_id p) (db_files (w_db w))"
  shows "scan_pages b3 p (int k + 1) acc w = bind_m (detect_changes b3 p (drop (k * 200) fs)) (\<lambda>cs. return_m (acc @ cs)) w"
  using assms(1)
proof (induction "length fs - k * 200" arbitrary: k acc rule: less_induct)
  case less
  let ?page = "take 200 (drop (k * 200) fs)"
  have l: "list_tracked_files (Some (dp_id p)) None None (int k + 1) changes_per_page w = (Inr (?page, int (length fs)), w)"
    by (simp add: list_tracked_files_def Let_def paginate_def changes_per_page_def i64_max_def assms(2) nat_mult_distrib)
  have ne: "?page \<noteq> []" using less.prems by simp
  have split: "drop (k * 200) fs = ?page @ drop (Suc k * 200) fs"
    by (metis append_take_drop_id drop_drop mult_Suc)
  have app: "detect_changes b3 p (drop (k * 200) fs) w = bind_m (detect_changes b3 p ?page)
      (\<lambda>cs. bind_m (detect_changes b3 p (drop (Suc k * 200) fs)) (\<lambda>ds. return_m (cs @ ds))) w"
    by (subst split) (rule detect_changes_append)
  obtain r u where d: "detect_changes b3 p ?page w = (r, u)" by fastforce
  have u: "u = w" using d detect_changes_state [of b3 p ?page w] by simp
  show ?case
  proof (cases r)
    case (Inl e)
    then show ?thesis
      using ne d by (subst scan_pages.simps) (simp add: l bind_m_def app)
  next
    case (Inr cs)
    show ?thesis
    proof (cases "length fs \<le> Suc k * 200")
      case True
      then have "drop (Suc k * 200) fs = []" "int (length fs) \<le> (int k + 1) * changes_per_page"
        by (simp_all add: changes_per_page_def)
      then show ?thesis
        using ne d Inr u unfolding bind_m_def app by (subst scan_pages.simps) (simp add: l bind_m_def return_m_def)
    next
      case False
      then have "\<not> int (length fs) \<le> (int k + 1) * changes_per_page" by (simp add: changes_per_page_def)
      moreover have "scan_pages b3 p (int (Suc k) + 1) (acc @ cs) w =
          bind_m (detect_changes b3 p (drop (Suc k * 200) fs)) (\<lambda>ds. return_m ((acc @ cs) @ ds)) w"
        by (rule less.hyps) (use False less.prems in auto)
      moreover have "int (Suc k) + 1 = int k + 1 + 1" by simp
      ultimately show ?thesis
        using ne d Inr u unfolding bind_m_def app
        by (subst scan_pages.simps) (simp add: l bind_m_def return_m_def split: prod.splits sum.splits)
    qed
  qed
qed

text \<open>C26: 
  Hashing the files of a pair in pages of 200 gives what hashing them all at once would: the same changes in the
  same order, or the same error; no file is lost or hashed twice at a page boundary, however many there are.
\<close>

theorem paged_scan_is_whole_scan:
  "scan_all_changes b3 p w = detect_changes b3 p (filter (\<lambda>f. tf_drive_pair_id f = dp_id p) (db_files (w_db w))) w"
proof (cases "filter (\<lambda>f. tf_drive_pair_id f = dp_id p) (db_files (w_db w)) = []")
  case True
  then have "list_tracked_files (Some (dp_id p)) None None 1 changes_per_page w = (Inr ([], 0), w)"
    by (simp add: list_tracked_files_def Let_def paginate_def changes_per_page_def)
  then show ?thesis using True unfolding scan_all_changes_def by (subst scan_pages.simps) (simp add: return_m_def)
next
  case False
  let ?fs = "filter (\<lambda>f. tf_drive_pair_id f = dp_id p) (db_files (w_db w))"
  have "scan_pages b3 p (int 0 + 1) [] w = bind_m (detect_changes b3 p (drop (0 * 200) ?fs)) (\<lambda>cs. return_m ([] @ cs)) w"
    by (rule scan_pages_from) (use False in auto)
  then show ?thesis
    by (cases "detect_changes b3 p ?fs w") (auto simp: scan_all_changes_def bind_m_def return_m_def split: sum.splits)
qed

end
