(* ===== verification/Repo_Folders.thy ===== *)
theory Repo_Folders
  imports Virtual_Links Repo_Runs
begin

section \<open>Repository: tracked folders and the provenance of files\<close>

text \<open>
  The statements of \<open>src/db/repository.rs\<close> on \<open>tracked_folders\<close>, the queries that find the files below a folder, the
  recomputation of how a file came to be tracked (directly, or through a folder), and the deletion of a
  folder with its files. A folder is busy with at most one of scanning, mirroring and deleting: the three
  \<open>start_\<dots>\<close> statements claim it in one \<open>UPDATE\<close> whose \<open>WHERE\<close> asks for none of the three.
\<close>

subsection \<open>Rows\<close>

definition get_tracked_folder :: "int \<Rightarrow> tracked_folder prog" where
  "get_tracked_folder i w = (case find (\<lambda>f. fo_id f = i) (db_folders (w_db w)) of
       None \<Rightarrow> (Inl QueryReturnedNoRows, w) | Some f \<Rightarrow> (Inr f, w))"

definition create_tracked_folder_with_sidecars ::
    "int \<Rightarrow> string \<Rightarrow> string option \<Rightarrow> bool \<Rightarrow> tracked_folder prog" where
  "create_tracked_folder_with_sidecars pair_id folder_path virtual_path include_sidecars w =
     (let d = w_db w; i = nx_folder d in
      if (\<exists>f \<in> set (db_folders d). fo_drive_pair_id f = pair_id \<and> fo_folder_path f = folder_path)
      then raise_m (Constraint ''UNIQUE tracked_folders'') w
      else if \<not> has_pair pair_id w then raise_m (Constraint ''FOREIGN KEY tracked_folders'') w
      else get_tracked_folder i (w\<lparr>w_db := d\<lparr>
        db_folders := db_folders d @
          [\<lparr>fo_id = i, fo_drive_pair_id = pair_id, fo_folder_path = folder_path, fo_virtual_path = virtual_path,
            fo_include_checksum_sidecars = include_sidecars, fo_scanning = False, fo_scan_scanned_files = 0,
            fo_scan_total_files = 0, fo_mirroring = False, fo_deleting = False, fo_mirror_mirrored_files = 0,
            fo_mirror_total_files = 0, fo_last_scanned_at = None, fo_last_mirrored_at = None,
            fo_created_at = w_now w\<rparr>],
        nx_folder := i + 1\<rparr>\<rparr>))"

definition create_tracked_folder :: "int \<Rightarrow> string \<Rightarrow> string option \<Rightarrow> tracked_folder prog" where
  "create_tracked_folder pair_id folder_path virtual_path =
     create_tracked_folder_with_sidecars pair_id folder_path virtual_path False"

definition update_folders :: "(tracked_folder \<Rightarrow> bool) \<Rightarrow> (tracked_folder \<Rightarrow> tracked_folder) \<Rightarrow> int prog" where
  "update_folders P f = bind_m (gets_m (\<lambda>w. count_where P (db_folders (w_db w)))) (\<lambda>n.
     seq_m (db_do (\<lambda>d. d\<lparr>db_folders := upd_where P f (db_folders d)\<rparr>)) (return_m n))"

definition update_tracked_folder :: "int \<Rightarrow> string option option \<Rightarrow> tracked_folder prog" where
  "update_tracked_folder i virtual_path = seq_m
     (opt_m virtual_path (\<lambda>v. discard (update_folders (\<lambda>f. fo_id f = i) (\<lambda>f. f\<lparr>fo_virtual_path := v\<rparr>))))
     (get_tracked_folder i)"

definition drop_folder_row :: "int \<Rightarrow> db \<Rightarrow> db" where
  "drop_folder_row i d = d\<lparr>db_folders := filter (\<lambda>f. fo_id f \<noteq> i) (db_folders d)\<rparr>"

definition delete_tracked_folder :: "int \<Rightarrow> unit prog" where
  "delete_tracked_folder i = db_do (drop_folder_row i)"

subsection \<open>Claiming a folder\<close>

definition idle_folder :: "int \<Rightarrow> tracked_folder \<Rightarrow> bool" where
  "idle_folder i f = (fo_id f = i \<and> \<not> fo_scanning f \<and> \<not> fo_mirroring f \<and> \<not> fo_deleting f)"

definition claim_folder :: "int \<Rightarrow> (tracked_folder \<Rightarrow> tracked_folder) \<Rightarrow> string \<Rightarrow> tracked_folder prog" where
  "claim_folder i f refusal = bind_m (update_folders (idle_folder i) f) (\<lambda>updated.
     if updated = 0 then bail refusal else get_tracked_folder i)"

definition start_folder_scan :: "int \<Rightarrow> int \<Rightarrow> tracked_folder prog" where
  "start_folder_scan i total_files = claim_folder i
     (\<lambda>f. f\<lparr>fo_scanning := True, fo_scan_scanned_files := 0, fo_scan_total_files := max total_files 0\<rparr>)
     ''Folder scan already active''"

definition start_folder_mirror :: "int \<Rightarrow> int \<Rightarrow> tracked_folder prog" where
  "start_folder_mirror i total_files = claim_folder i
     (\<lambda>f. f\<lparr>fo_mirroring := True, fo_mirror_mirrored_files := 0, fo_mirror_total_files := max total_files 0\<rparr>)
     ''Folder mirror already active''"

definition start_folder_delete :: "int \<Rightarrow> tracked_folder prog" where
  "start_folder_delete i = claim_folder i (\<lambda>f. f\<lparr>fo_deleting := True\<rparr>) ''Folder operation already active''"

definition set_folder :: "int \<Rightarrow> (tracked_folder \<Rightarrow> tracked_folder) \<Rightarrow> unit prog" where
  "set_folder i f = discard (update_folders (\<lambda>r. fo_id r = i) f)"

definition update_scan_progress :: "int \<Rightarrow> int \<Rightarrow> unit prog" where
  "update_scan_progress i scanned_files = set_folder i (\<lambda>f. f\<lparr>fo_scan_scanned_files := max scanned_files 0\<rparr>)"

definition finish_folder_scan :: "int \<Rightarrow> tracked_folder prog" where
  "finish_folder_scan i = seq_m (set_folder i (\<lambda>f. f\<lparr>fo_scanning := False\<rparr>)) (get_tracked_folder i)"

definition clear_folder_delete :: "int \<Rightarrow> unit prog" where
  "clear_folder_delete i = set_folder i (\<lambda>f. f\<lparr>fo_deleting := False\<rparr>)"

definition update_mirror_progress :: "int \<Rightarrow> int \<Rightarrow> unit prog" where
  "update_mirror_progress i mirrored_files = set_folder i (\<lambda>f. f\<lparr>fo_mirror_mirrored_files := max mirrored_files 0\<rparr>)"

definition finish_folder_mirror :: "int \<Rightarrow> tracked_folder prog" where
  "finish_folder_mirror i w = seq_m
     (set_folder i (\<lambda>f. f\<lparr>fo_mirroring := False, fo_last_mirrored_at := Some (w_now w)\<rparr>))
     (get_tracked_folder i) w"

definition mark_tracked_folder_scanned :: "int \<Rightarrow> unit prog" where
  "mark_tracked_folder_scanned i w = set_folder i
     (\<lambda>f. f\<lparr>fo_last_scanned_at := Some (w_now w), fo_scan_scanned_files := fo_scan_total_files f\<rparr>) w"

subsection \<open>Files below a folder\<close>

text \<open>\<open>str::replace\<close> of one character; the three replacements that make a path a literal \<open>LIKE\<close> pattern.\<close>

definition replace_char :: "char \<Rightarrow> string \<Rightarrow> string \<Rightarrow> string" where
  "replace_char c r s = concat (map (\<lambda>x. if x = c then r else [x]) s)"

definition backslash :: char where
  "backslash = CHR 0x5C"

definition like_escape :: "string \<Rightarrow> string" where
  "like_escape s = replace_char (CHR ''_'') [backslash, CHR ''_'']
     (replace_char (CHR ''%'') [backslash, CHR ''%''] (replace_char backslash [backslash, backslash] s))"

definition in_folder :: "string \<Rightarrow> string \<Rightarrow> bool" where
  "in_folder folder_path path = (let stripped = trim_end_char (CHR ''/'') folder_path in
     path = stripped \<or> sql_like (Some backslash) (like_escape stripped @ ''/%'') path)"

text \<open>The same test as \<open>recompute_folder_provenance_for_drive\<close> makes it, with nothing escaped.\<close>

definition in_folder_raw :: "string \<Rightarrow> string \<Rightarrow> bool" where
  "in_folder_raw folder_path path = (let stripped = trim_end_char (CHR ''/'') folder_path in
     path = stripped \<or> sql_like None (stripped @ ''/%'') path)"

definition list_tracked_files_under_folder :: "int \<Rightarrow> string \<Rightarrow> tracked_file list prog" where
  "list_tracked_files_under_folder pair_id folder_path = gets_m (\<lambda>w.
     filter (\<lambda>f. tf_drive_pair_id f = pair_id \<and> in_folder folder_path (tf_relative_path f)) (db_files (w_db w)))"

definition list_folder_origin_descendant_files :: "int \<Rightarrow> string \<Rightarrow> int \<Rightarrow> tracked_file list prog" where
  "list_folder_origin_descendant_files pair_id folder_path excluding = gets_m (\<lambda>w.
     filter (\<lambda>f. tf_drive_pair_id f = pair_id \<and> \<not> tf_tracked_direct f \<and> tf_tracked_via_folder f
         \<and> in_folder folder_path (tf_relative_path f)
         \<and> \<not> (\<exists>g \<in> set (db_folders (w_db w)). fo_drive_pair_id g = pair_id \<and> fo_id g \<noteq> excluding
               \<and> in_folder (fo_folder_path g) (tf_relative_path f)))
       (db_files (w_db w)))"

subsection \<open>Provenance\<close>

definition recompute_folder_provenance_for_drive :: "int \<Rightarrow> unit prog" where
  "recompute_folder_provenance_for_drive pair_id =
     seq_m (update_files (\<lambda>f. tf_drive_pair_id f = pair_id) (\<lambda>f. f\<lparr>tf_tracked_via_folder := False\<rparr>))
    (seq_m (\<lambda>w. update_files (\<lambda>f. tf_drive_pair_id f = pair_id \<and> \<not> tf_tracked_direct f
              \<and> (\<exists>g \<in> set (db_folders (w_db w)). fo_drive_pair_id g = tf_drive_pair_id f
                    \<and> in_folder_raw (fo_folder_path g) (tf_relative_path f)))
            (\<lambda>f. f\<lparr>tf_tracked_via_folder := True\<rparr>) w)
    (update_files (\<lambda>f. tf_drive_pair_id f = pair_id \<and> \<not> tf_tracked_direct f \<and> \<not> tf_tracked_via_folder f)
       (\<lambda>f. f\<lparr>tf_tracked_direct := True\<rparr>)))"

subsection \<open>Deleting a folder with its files\<close>

definition delete_folder_cascade_tx :: "int \<Rightarrow> int list \<Rightarrow> unit prog" where
  "delete_folder_cascade_tx folder_id file_ids = db_do (\<lambda>d.
     drop_folder_row folder_id (fold (\<lambda>i d. drop_file_rows i (drop_file_queue i d)) file_ids d))"

interpretation folders: row_table db_folders fo_id get_tracked_folder
  by unfold_locales (simp add: get_tracked_folder_def)

lemma update_folders_run [run, simp]:
  "update_folders P f w = (Inr (count_where P (db_folders (w_db w))),
     w\<lparr>w_db := (w_db w)\<lparr>db_folders := upd_where P f (db_folders (w_db w))\<rparr>\<rparr>)"
  by (simp add: update_folders_def)

subsection \<open>What the escaped test means\<close>

lemma like_escape_chars:
  "like_escape s = concat (map (\<lambda>c. if c = backslash \<or> c = CHR ''%'' \<or> c = CHR ''_'' then [backslash, c] else [c]) s)"
  by (induction s) (auto simp: like_escape_def replace_char_def backslash_def)

lemma like_rest: "sql_like (Some backslash) ''%'' s"
proof -
  have "sql_like (Some backslash) [] []" by simp
  moreover have "[] \<in> set (suffixes s)" by simp
  ultimately show ?thesis by (auto simp: list_ex_iff backslash_def)
qed

lemma sql_like_literal:
  "sql_like (Some backslash) (like_escape p @ q) s \<longleftrightarrow>
     (\<exists>p' s'. s = p' @ s' \<and> map ascii_lower p' = map ascii_lower p \<and> sql_like (Some backslash) q s')"
proof (induction p arbitrary: s)
  case Nil
  then show ?case by (simp add: like_escape_chars)
next
  case (Cons c p)
  have e: "like_escape (c # p) = (if c = backslash \<or> c = CHR ''%'' \<or> c = CHR ''_'' then [backslash, c] else [c]) @ like_escape p"
    by (simp add: like_escape_chars)
  have step: "sql_like (Some backslash) (like_escape (c # p) @ q) s \<longleftrightarrow>
      (\<exists>x xs. s = x # xs \<and> ascii_lower x = ascii_lower c \<and> sql_like (Some backslash) (like_escape p @ q) xs)"
    unfolding e by (cases s) (auto simp: backslash_def)
  show ?case
  proof
    assume "sql_like (Some backslash) (like_escape (c # p) @ q) s"
    then obtain x xs where x: "s = x # xs" "ascii_lower x = ascii_lower c" "sql_like (Some backslash) (like_escape p @ q) xs"
      unfolding step by blast
    then obtain p' s' where "xs = p' @ s'" "map ascii_lower p' = map ascii_lower p" "sql_like (Some backslash) q s'"
      unfolding Cons.IH by blast
    then show "\<exists>p' s'. s = p' @ s' \<and> map ascii_lower p' = map ascii_lower (c # p) \<and> sql_like (Some backslash) q s'"
      using x by (intro exI [of _ "x # p'"] exI [of _ s']) simp
  next
    assume "\<exists>p' s'. s = p' @ s' \<and> map ascii_lower p' = map ascii_lower (c # p) \<and> sql_like (Some backslash) q s'"
    then obtain p' s' where p: "s = p' @ s'" "map ascii_lower p' = map ascii_lower (c # p)" "sql_like (Some backslash) q s'" by blast
    from p(2) obtain x xs where x: "p' = x # xs" "ascii_lower x = ascii_lower c" "map ascii_lower xs = map ascii_lower p"
      by (cases p') auto
    have "sql_like (Some backslash) (like_escape p @ q) (xs @ s')" unfolding Cons.IH using x p by blast
    then show "sql_like (Some backslash) (like_escape (c # p) @ q) s" unfolding step using x p by simp
  qed
qed

lemma ascii_lower_slash: "ascii_lower c = CHR ''/'' \<longleftrightarrow> c = CHR ''/''"
proof
  assume l: "ascii_lower c = CHR ''/''"
  let ?n = "of_char c :: nat"
  show "c = CHR ''/''"
  proof (cases "65 \<le> ?n \<and> ?n \<le> 90")
    case True
    then have "char_of (?n + 32) = CHR ''/''" using l by (simp add: ascii_lower_def)
    then have "of_char (char_of (?n + 32)) = (47 :: nat)" by simp
    then have "?n + 32 = 47" using True by (simp add: of_char_of)
    then show ?thesis using True by simp
  next
    case False
    then show ?thesis using l by (auto simp: ascii_lower_def Let_def split: if_splits)
  qed
qed (simp add: ascii_lower_def)

text \<open>
  A path is in a folder when it is the folder's path, or has it in front up to a slash, where letters of
  either case are taken to be the same.
\<close>

lemma in_folder_iff:
  "in_folder folder path \<longleftrightarrow> (let stripped = trim_end_char (CHR ''/'') folder in path = stripped \<or>
     (\<exists>front rest. path = front @ ''/'' @ rest \<and> map ascii_lower front = map ascii_lower stripped))"
proof -
  have "sql_like (Some backslash) (''/'' @ ''%'') s \<longleftrightarrow> (\<exists>rest. s = ''/'' @ rest)" for s
  proof (cases s)
    case (Cons x xs)
    then show ?thesis using like_rest [of xs] ascii_lower_slash [of x]
      by (auto simp: backslash_def) (simp_all add: ascii_lower_def)
  qed (simp add: backslash_def)
  then show ?thesis unfolding in_folder_def Let_def
    by (simp only: append_Cons append_Nil sql_like_literal) blast
qed

end
