(* ===== verification/Virtual_Path.thy ===== *)
theory Virtual_Path
  imports Drive Repo_Folders
begin

section \<open>Setting and removing virtual paths\<close>

text \<open>
  \<open>set_virtual_path\<close>, \<open>remove_virtual_path\<close> and their folder versions of \<open>src/core/virtual_path.rs\<close>: a new path is
  validated against all reservations, linked, stored, and the previous link removed. A failed store takes
  the new link away again, unless it replaced the same path.
\<close>

definition normalize_opt :: "string option \<Rightarrow> err + string option" where
  "normalize_opt v = (case v of None \<Rightarrow> Inr None | Some p \<Rightarrow> map_sum id Some (normalize_virtual_path p))"

definition drop_previous :: "string option \<Rightarrow> string \<Rightarrow> unit prog" where
  "drop_previous previous normalized = (case previous of
       None \<Rightarrow> return_m ()
     | Some p \<Rightarrow> (if p \<noteq> normalized then remove_symlink p else return_m ()))"

definition set_virtual_path :: "int \<Rightarrow> string \<Rightarrow> unit prog" where
  "set_virtual_path file_id virtual_path =
     bind_m (get_tracked_file file_id) (\<lambda>file.
     bind_m (load_operational_pair (tf_drive_pair_id file)) (\<lambda>p.
     bind_m (validate_virtual_path (OwnerFile file_id) virtual_path) (\<lambda>normalized.
     bind_m (lift_r (normalize_opt (tf_virtual_path file))) (\<lambda>previous.
     let replacing_same_path = (previous = Some normalized) in
     seq_m (create_symlink normalized (file_real_path p file) replacing_same_path)
    (bind_m (try_m (update_tracked_file_virtual_path file_id (Some normalized))) (\<lambda>r. case r of
       Inl e \<Rightarrow> seq_m (if replacing_same_path then return_m () else discard (remove_symlink normalized)) (raise_m e)
     | Inr _ \<Rightarrow> drop_previous previous normalized))))))"

definition remove_virtual_path :: "int \<Rightarrow> unit prog" where
  "remove_virtual_path file_id = bind_m (get_tracked_file file_id) (\<lambda>file.
     case tf_virtual_path file of
       None \<Rightarrow> bail (fmt [''File #'', dec file_id, '' has no virtual path assigned''])
     | Some virtual_path \<Rightarrow>
         bind_m (lift_r (normalize_virtual_path virtual_path)) (\<lambda>normalized.
         seq_m (update_tracked_file_virtual_path file_id None) (remove_symlink normalized)))"

definition set_folder_virtual_path :: "int \<Rightarrow> string \<Rightarrow> unit prog" where
  "set_folder_virtual_path folder_id virtual_path =
     bind_m (get_tracked_folder folder_id) (\<lambda>folder.
     bind_m (load_operational_pair (fo_drive_pair_id folder)) (\<lambda>p.
     bind_m (validate_virtual_path (OwnerFolder folder_id) virtual_path) (\<lambda>normalized.
     bind_m (lift_r (normalize_opt (fo_virtual_path folder))) (\<lambda>previous.
     let replacing_same_path = (previous = Some normalized) in
     seq_m (create_symlink normalized (folder_real_path p folder) replacing_same_path)
    (bind_m (try_m (update_tracked_folder folder_id (Some (Some normalized)))) (\<lambda>r. case r of
       Inl e \<Rightarrow> seq_m (if replacing_same_path then return_m () else discard (remove_symlink normalized)) (raise_m e)
     | Inr _ \<Rightarrow> drop_previous previous normalized))))))"

definition remove_folder_virtual_path :: "int \<Rightarrow> unit prog" where
  "remove_folder_virtual_path folder_id = bind_m (get_tracked_folder folder_id) (\<lambda>folder.
     case fo_virtual_path folder of
       None \<Rightarrow> return_m ()
     | Some virtual_path \<Rightarrow>
         bind_m (lift_r (normalize_virtual_path virtual_path)) (\<lambda>normalized.
         seq_m (update_tracked_folder folder_id (Some None)) (remove_symlink normalized)))"

end
