(* ===== verification/Tracker.thy ===== *)
theory Tracker
  imports Change_Detection Virtual_Path
begin

section \<open>Tracking files and folders\<close>

text \<open>
  \<open>src/core/tracker.rs\<close>. The directory listing is a parameter \<open>ls\<close>: the names of the entries of the directory with a
  key, in the order the system gives them. The three functions that walk a folder write the same loop, here
  \<open>walk\<close>: a stack of directories, popped last in first out, whose entries are directories to visit, regular files
  to act on, or neither. A walk may meet ever new directories, so it takes fuel, one unit per directory, and is
  \<open>None\<close> when it runs out. Symbolic links to directories below a folder are not followed (\<open>Std_Fs\<close>).
\<close>

type_synonym listing = "fs \<Rightarrow> key \<Rightarrow> string list"

subsection \<open>Permissions\<close>

definition world_readable_mode :: "nat \<Rightarrow> nat" where
  "world_readable_mode mode = or (or mode 4) (if and mode 64 \<noteq> 0 then 1 else 0)"

definition ensure_world_readable :: "string \<Rightarrow> unit prog" where
  "ensure_world_readable path w = (case target (w_fs w) path of
       None \<Rightarrow> io ''metadata'' w
     | Some k \<Rightarrow>
         (if metadata (w_fs w) path = None then io ''metadata'' w
          else (let mode = node_mode (w_fs w) k; normalized = world_readable_mode mode in
            if normalized = mode then (Inr (), w)
            else if fs_nowrite (w_fs w) k
            then with_context (fmt [''Failed to normalize permissions on '', path]) (io ''set_permissions'') w
            else (Inr (), set_mode k normalized w))))"

subsection \<open>One file\<close>

record sidecar_mismatch =
  sm_expected_checksum :: string
  sm_computed_checksum :: string

definition create_tracked_file_from_disk ::
    "digest \<Rightarrow> drive_pair \<Rightarrow> string \<Rightarrow> bool \<Rightarrow> bool \<Rightarrow> (tracked_file \<times> sidecar_mismatch option) prog" where
  "create_tracked_file_from_disk b3 p relative_path tracked_direct tracked_via_folder w =
     (let master_path = path_join (active_path p) relative_path in
      if \<not> path_exists (w_fs w) master_path
      then bail (fmt [''File does not exist on active '', dp_active_role p, '' drive: '', master_path]) w
      else seq_m (ensure_world_readable master_path)
        (bind_m (with_context ''Failed to compute file checksum'' (checksum_file b3 master_path Streaming)) (\<lambda>file_checksum.
         bind_m (try_m (read_b3_sidecar master_path)) (\<lambda>side.
         let mismatch = (case side of
               Inr (Some expected) \<Rightarrow>
                 (if expected \<noteq> file_checksum
                  then Some \<lparr>sm_expected_checksum = expected, sm_computed_checksum = file_checksum\<rparr> else None)
             | _ \<Rightarrow> None) in
         bind_m (metadata_len master_path) (\<lambda>file_size.
         bind_m (create_tracked_file_with_source (dp_id p) relative_path file_checksum file_size None
                   tracked_direct tracked_via_folder) (\<lambda>file.
         return_m (file, mismatch)))))) w)"

definition mismatch_message :: "sidecar_mismatch \<Rightarrow> string" where
  "mismatch_message m = fmt [''Expected '', sm_expected_checksum m, '' from .b3 sidecar, computed '', sm_computed_checksum m]"

definition queue_b3_sidecar_mismatch :: "drive_pair \<Rightarrow> tracked_file \<Rightarrow> sidecar_mismatch \<Rightarrow> unit prog" where
  "queue_b3_sidecar_mismatch p file m =
     bind_m (create_user_action_required (tf_id file) b3_sidecar_mismatch_reason (mismatch_message m)) (\<lambda>_.
     discard (log_sync_failed (tf_id file) b3_sidecar_mismatch_reason (mismatch_message m)
       (fmt [dp_primary_path p, ''/'', tf_relative_path file])))"

text \<open>A step whose error takes the new row away again.\<close>

definition or_untrack :: "int \<Rightarrow> unit prog \<Rightarrow> unit prog" where
  "or_untrack file_id m = bind_m (try_m m) (\<lambda>r. case r of
     Inl e \<Rightarrow> seq_m (discard (delete_tracked_file file_id)) (raise_m e)
   | Inr _ \<Rightarrow> return_m ())"

definition track_existing :: "drive_pair \<Rightarrow> tracked_file \<Rightarrow> string \<Rightarrow> string option \<Rightarrow> tracked_file prog" where
  "track_existing p existing relative_path virtual_path =
     seq_m (ensure_world_readable (path_join (active_path p) relative_path))
    (seq_m (update_tracked_file_sources (tf_id existing) True False)
    (seq_m (opt_m virtual_path (set_virtual_path (tf_id existing)))
    (get_tracked_file (tf_id existing))))"

definition track_new :: "digest \<Rightarrow> drive_pair \<Rightarrow> string \<Rightarrow> string option \<Rightarrow> tracked_file prog" where
  "track_new b3 p relative_path virtual_path =
     bind_m (create_tracked_file_from_disk b3 p relative_path True False) (\<lambda>(tracked, mismatch).
     seq_m (opt_m virtual_path (\<lambda>v. or_untrack (tf_id tracked) (set_virtual_path (tf_id tracked) v)))
    (seq_m (opt_m mismatch (\<lambda>m. or_untrack (tf_id tracked) (queue_b3_sidecar_mismatch p tracked m)))
    (seq_m (discard (log_file_tracked (tf_id tracked) (fmt [dp_primary_path p, ''/'', relative_path])))
    (get_tracked_file (tf_id tracked)))))"

definition track_file :: "digest \<Rightarrow> drive_pair \<Rightarrow> string \<Rightarrow> string option \<Rightarrow> tracked_file prog" where
  "track_file b3 p relative_path virtual_path =
     seq_m (require_pair_mutation_allowed p)
    (seq_m (ensure_drive_root_marker (active_path p))
    (seq_m (\<lambda>w. if path_is_available (w_fs w) (standby_path p)
              then discard (ensure_drive_root_marker (standby_path p)) w else (Inr (), w))
    (bind_m (try_m (get_tracked_file_by_path (dp_id p) relative_path)) (\<lambda>existing. case existing of
       Inr f \<Rightarrow> track_existing p f relative_path virtual_path
     | Inl _ \<Rightarrow> track_new b3 p relative_path virtual_path))))"

subsection \<open>Folders\<close>

definition track_folder_with_options ::
    "drive_pair \<Rightarrow> string \<Rightarrow> string option \<Rightarrow> bool \<Rightarrow> tracked_folder prog" where
  "track_folder_with_options p folder_path virtual_path include_sidecars =
     seq_m (require_pair_mutation_allowed p)
    (seq_m (ensure_drive_root_marker (active_path p)) (\<lambda>w.
     let full_path = path_join (active_path p) folder_path in
     if \<not> path_is_dir (w_fs w) full_path
     then bail (fmt [''Folder does not exist on active drive: '', full_path]) w
     else bind_m (create_tracked_folder_with_sidecars (dp_id p) folder_path None include_sidecars) (\<lambda>tracked.
       seq_m (opt_m virtual_path (\<lambda>v. bind_m (try_m (set_folder_virtual_path (fo_id tracked) v)) (\<lambda>r. case r of
                Inl e \<Rightarrow> seq_m (discard (delete_tracked_folder (fo_id tracked))) (raise_m e)
              | Inr _ \<Rightarrow> return_m ())))
      (seq_m (recompute_folder_provenance_for_drive (dp_id p))
      (bind_m (get_tracked_folder (fo_id tracked)) (\<lambda>result.
       seq_m (discard (log_folder_tracked (fo_id result) (fmt [dp_primary_path p, ''/'', folder_path]) (dp_id p)))
      (return_m result))))) w))"

definition track_folder :: "drive_pair \<Rightarrow> string \<Rightarrow> string option \<Rightarrow> tracked_folder prog" where
  "track_folder p folder_path virtual_path = track_folder_with_options p folder_path virtual_path False"

record folder_untrack_result =
  fu_folder_id :: int
  fu_drive_pair_id :: int
  fu_removed_file_ids :: "int list"

definition opt_list :: "'a option \<Rightarrow> 'a list" where
  "opt_list v = (case v of None \<Rightarrow> [] | Some x \<Rightarrow> [x])"

text \<open>What follows the reads: log, delete the rows, drop the links, find the provenance of the rest anew.\<close>

definition untrack_found :: "tracked_folder \<Rightarrow> drive_pair \<Rightarrow> tracked_file list \<Rightarrow> folder_untrack_result prog" where
  "untrack_found folder p descendants =
     (let file_ids = map tf_id descendants;
          links = concat (map (\<lambda>f. opt_list (tf_virtual_path f)) descendants) @ opt_list (fo_virtual_path folder) in
      seq_m (for_m descendants (\<lambda>f. discard (log_file_untracked (tf_id f) (fmt [dp_primary_path p, ''/'', tf_relative_path f]))))
     (seq_m (delete_folder_cascade_tx (fo_id folder) file_ids)
     (seq_m (for_m links (\<lambda>v. discard (remove_symlink v)))
     (seq_m (discard (recompute_folder_provenance_for_drive (fo_drive_pair_id folder)))
     (seq_m (discard (log_folder_untracked (fo_id folder) (fmt [dp_primary_path p, ''/'', fo_folder_path folder])))
     (return_m \<lparr>fu_folder_id = fo_id folder, fu_drive_pair_id = fo_drive_pair_id folder,
                fu_removed_file_ids = file_ids\<rparr>))))))"

definition untrack_folder_cascade :: "int \<Rightarrow> folder_untrack_result prog" where
  "untrack_folder_cascade folder_id =
     bind_m (get_tracked_folder folder_id) (\<lambda>folder.
     bind_m (get_drive_pair (fo_drive_pair_id folder)) (\<lambda>p.
     seq_m (require_pair_mutation_allowed p)
    (bind_m (list_folder_origin_descendant_files (fo_drive_pair_id folder) (fo_folder_path folder) (fo_id folder))
       (untrack_found folder p))))"

subsection \<open>Walking a folder\<close>

fun walk_entries :: "(string \<Rightarrow> 'a \<Rightarrow> 'a prog) \<Rightarrow> string \<Rightarrow> string list \<Rightarrow> string list \<Rightarrow> 'a \<Rightarrow> (string list \<times> 'a) prog" where
  "walk_entries step dir [] stack acc w = (Inr (stack, acc), w)"
| "walk_entries step dir (n # ns) stack acc w =
     (let path = path_join dir n in
      if path_is_dir (w_fs w) path then walk_entries step dir ns (path # stack) acc w
      else if \<not> path_is_file (w_fs w) path then walk_entries step dir ns stack acc w
      else bind_m (step path acc) (\<lambda>acc'. walk_entries step dir ns stack acc') w)"

fun walk :: "nat \<Rightarrow> listing \<Rightarrow> (string \<Rightarrow> 'a \<Rightarrow> 'a prog) \<Rightarrow> string list \<Rightarrow> 'a \<Rightarrow> world \<Rightarrow> ((err + 'a) \<times> world) option" where
  "walk fuel ls step [] acc w = Some (Inr acc, w)"
| "walk 0 ls step (dir # stack) acc w = None"
| "walk (Suc n) ls step (dir # stack) acc w =
     (if \<not> read_dir_ok (w_fs w) dir
      then Some (with_context (fmt [''Cannot read folder: '', dir]) (io ''read_dir'') w)
      else (case walk_entries step dir (case target (w_fs w) dir of None \<Rightarrow> [] | Some k \<Rightarrow> ls (w_fs w) k) stack acc w of
          (Inl e, v) \<Rightarrow> Some (Inl e, v)
        | (Inr (stack', acc'), v) \<Rightarrow> walk n ls step stack' acc' v))"

text \<open>
  \<open>Path::strip_prefix\<close>: the components of the base are eaten, empty and \<open>.\<close> components skipped; what is left keeps its
  text, without such components at either end.
\<close>

definition skipped :: "string \<Rightarrow> bool" where
  "skipped c = (c = '''' \<or> c = ''.'')"

fun eat_components :: "string list \<Rightarrow> string list \<Rightarrow> string list option" where
  "eat_components [] raw = Some raw"
| "eat_components (b # bs) raw = (case dropWhile skipped raw of
       [] \<Rightarrow> None | c # cs \<Rightarrow> (if c = b then eat_components bs cs else None))"

definition strip_prefix :: "string \<Rightarrow> string \<Rightarrow> string option" where
  "strip_prefix base path =
     (if is_absolute base \<noteq> is_absolute path then None
      else map_option (\<lambda>raw. join_with ''/'' (rev (dropWhile skipped (rev (dropWhile skipped raw)))))
        (eat_components (filter (\<lambda>c. \<not> skipped c) (split_on (CHR ''/'') base)) (split_on (CHR ''/'') path)))"

definition relative_path_for_entry :: "string \<Rightarrow> drive_pair \<Rightarrow> string prog" where
  "relative_path_for_entry path p = (case strip_prefix (active_path p) path of
       None \<Rightarrow> bail ''prefix not found''
     | Some r \<Rightarrow> return_m r)"

definition ends_with :: "string \<Rightarrow> string \<Rightarrow> bool" where
  "ends_with t s = (drop (length s - length t) s = t)"

definition ignored_sidecar :: "tracked_folder \<Rightarrow> string \<Rightarrow> bool" where
  "ignored_sidecar folder relative_path = (\<not> fo_include_checksum_sidecars folder \<and> ends_with ''.b3'' relative_path)"

text \<open>What both scans do with a file they find for the first time.\<close>

definition adopt_new_file :: "digest \<Rightarrow> drive_pair \<Rightarrow> string \<Rightarrow> tracked_file prog" where
  "adopt_new_file b3 p relative_path =
     bind_m (create_tracked_file_from_disk b3 p relative_path False True) (\<lambda>(file, mismatch).
     seq_m (discard (log_file_tracked (tf_id file) (fmt [dp_primary_path p, ''/'', relative_path])))
    (seq_m (\<lambda>w. (case mismatch of
         Some m \<Rightarrow> queue_b3_sidecar_mismatch p file m
       | None \<Rightarrow> (if standby_accepts_sync (w_fs w) p
                  then bind_m (create_for_new_tracking (tf_id file)) (\<lambda>_. return_m ())
                  else update_tracked_file_mirror_status (tf_id file) False)) w)
    (return_m file)))"

definition auto_track_entry :: "digest \<Rightarrow> drive_pair \<Rightarrow> tracked_folder \<Rightarrow> string \<Rightarrow> tracked_file list \<Rightarrow> tracked_file list prog" where
  "auto_track_entry b3 p folder path newly_tracked =
     bind_m (with_context ''Path outside active drive'' (relative_path_for_entry path p)) (\<lambda>relative_path.
     if ignored_sidecar folder relative_path then return_m newly_tracked
     else bind_m (try_m (get_tracked_file_by_path (dp_id p) relative_path)) (\<lambda>known. case known of
         Inr _ \<Rightarrow> return_m newly_tracked
       | Inl _ \<Rightarrow> bind_m (adopt_new_file b3 p relative_path) (\<lambda>file.
           bind_m (get_tracked_file (tf_id file)) (\<lambda>f. return_m (newly_tracked @ [f])))))"

text \<open>What comes after the walk.\<close>

definition after_walk :: "((err + 'a) \<times> world) option \<Rightarrow> ('a \<Rightarrow> 'b prog) \<Rightarrow> ((err + 'b) \<times> world) option" where
  "after_walk r k = map_option (\<lambda>(x, w). case x of Inl e \<Rightarrow> (Inl e, w) | Inr a \<Rightarrow> k a w) r"

definition scan_done :: "drive_pair \<Rightarrow> tracked_folder \<Rightarrow> 'a \<Rightarrow> 'a prog" where
  "scan_done p folder x =
     seq_m (recompute_folder_provenance_for_drive (dp_id p))
    (seq_m (mark_tracked_folder_scanned (fo_id folder)) (return_m x))"

definition auto_track_folder_files ::
    "nat \<Rightarrow> listing \<Rightarrow> digest \<Rightarrow> drive_pair \<Rightarrow> tracked_folder \<Rightarrow> world \<Rightarrow> ((err + tracked_file list) \<times> world) option" where
  "auto_track_folder_files fuel ls b3 p folder w =
     (case require_pair_mutation_allowed p w of
        (Inl e, v) \<Rightarrow> Some (Inl e, v)
      | (Inr _, v) \<Rightarrow> after_walk
          (walk fuel ls (auto_track_entry b3 p folder) [path_join (active_path p) (fo_folder_path folder)] [] v)
          (scan_done p folder))"

definition count_entry :: "drive_pair \<Rightarrow> tracked_folder \<Rightarrow> string \<Rightarrow> int \<Rightarrow> int prog" where
  "count_entry p folder path n = bind_m (relative_path_for_entry path p) (\<lambda>relative_path.
     return_m (if ignored_sidecar folder relative_path then n else n + 1))"

definition count_folder_files ::
    "nat \<Rightarrow> listing \<Rightarrow> drive_pair \<Rightarrow> tracked_folder \<Rightarrow> world \<Rightarrow> ((err + int) \<times> world) option" where
  "count_folder_files fuel ls p folder w =
     walk fuel ls (count_entry p folder) [path_join (active_path p) (fo_folder_path folder)] 0 w"

record scan_state =
  scan_scanned :: int
  scan_new :: nat
  scan_changed :: nat

definition rescan_known :: "digest \<Rightarrow> drive_pair \<Rightarrow> string \<Rightarrow> string \<Rightarrow> tracked_file \<Rightarrow> bool prog" where
  "rescan_known b3 p path relative_path existing =
     bind_m (checksum_file b3 path Streaming) (\<lambda>current_hash.
     if current_hash = tf_checksum existing then return_m False
     else bind_m (metadata_len path) (\<lambda>new_size.
       seq_m (update_tracked_file_checksum (tf_id existing) current_hash new_size)
      (seq_m (update_tracked_file_mirror_status (tf_id existing) False)
      (seq_m (discard (log_event ''change_detected'' (Some (tf_id existing)) (change_message p relative_path) (Some current_hash)))
      (seq_m (\<lambda>w. (if standby_accepts_sync (w_fs w) p
                 then bind_m (create_from_change (tf_id existing)) (\<lambda>_. return_m ()) else return_m ()) w)
      (return_m True))))))"

definition scan_entry ::
    "digest \<Rightarrow> drive_pair \<Rightarrow> tracked_folder \<Rightarrow> (int \<Rightarrow> unit prog) \<Rightarrow> string \<Rightarrow> scan_state \<Rightarrow> scan_state prog" where
  "scan_entry b3 p folder on_progress path s =
     bind_m (relative_path_for_entry path p) (\<lambda>relative_path.
     if ignored_sidecar folder relative_path then return_m s
     else bind_m (try_m (get_tracked_file_by_path (dp_id p) relative_path)) (\<lambda>known.
       bind_m (case known of
           Inr existing \<Rightarrow> bind_m (rescan_known b3 p path relative_path existing) (\<lambda>changed.
             return_m (if changed then s\<lparr>scan_changed := Suc (scan_changed s)\<rparr> else s))
         | Inl QueryReturnedNoRows \<Rightarrow> bind_m (adopt_new_file b3 p relative_path) (\<lambda>_.
             return_m (s\<lparr>scan_new := Suc (scan_new s)\<rparr>))
         | Inl e \<Rightarrow> raise_m e) (\<lambda>s'.
       let n = scan_scanned s + 1 in
       seq_m (on_progress n) (return_m (s'\<lparr>scan_scanned := n\<rparr>)))))"

text \<open>The summary has the numbers of new and of changed files.\<close>

definition scan_tracked_folder ::
    "nat \<Rightarrow> listing \<Rightarrow> digest \<Rightarrow> drive_pair \<Rightarrow> tracked_folder \<Rightarrow> (int \<Rightarrow> unit prog) \<Rightarrow> world
      \<Rightarrow> ((err + nat \<times> nat) \<times> world) option" where
  "scan_tracked_folder fuel ls b3 p folder on_progress w =
     (case require_pair_mutation_allowed p w of
        (Inl e, v) \<Rightarrow> Some (Inl e, v)
      | (Inr _, v) \<Rightarrow> after_walk
          (walk fuel ls (scan_entry b3 p folder on_progress) [path_join (active_path p) (fo_folder_path folder)]
             \<lparr>scan_scanned = 0, scan_new = 0, scan_changed = 0\<rparr> v)
          (\<lambda>s. scan_done p folder (scan_new s, scan_changed s)))"

end
