(* ===== verification/Db_Wellformed.thy ===== *)
theory Db_Wellformed
  imports Tracker Integrity_Runs
begin

section \<open>The database stays well formed\<close>

text \<open>
  The constraints of \<open>src/db/schema.rs\<close> as one predicate on the database: the keys of a table are distinct and below the
  \<open>AUTOINCREMENT\<close> counter, every reference names a row, the columns with a \<open>CHECK\<close> hold one of its values, the two
  \<open>UNIQUE\<close> pairs are distinct, and a folder is busy with one thing at a time, which no constraint of the schema says.
  Each table's predicate takes its rows, its counter and the keys its references may name. Every statement
  of the repository keeps the whole (\<open>db_keeps\<close>), hence so does every operation built from them.
\<close>

named_theorems db_keeps

definition keys_ok :: "int list \<Rightarrow> int \<Rightarrow> bool" where
  "keys_ok ids nx = (distinct ids \<and> (\<forall>i \<in> set ids. i < nx))"

definition pair_ok :: "drive_pair \<Rightarrow> bool" where
  "pair_ok p = (dp_primary_state p \<in> set state_names \<and> dp_secondary_state p \<in> set state_names
     \<and> dp_active_role p \<in> {''primary'', ''secondary''}
     \<and> dp_primary_media_type p \<in> {''hdd'', ''ssd''} \<and> dp_secondary_media_type p \<in> {''hdd'', ''ssd''})"

definition pairs_ok :: "drive_pair list \<Rightarrow> int \<Rightarrow> bool" where
  "pairs_ok ps nx = (keys_ok (map dp_id ps) nx \<and> (\<forall>p \<in> set ps. pair_ok p))"

definition files_ok :: "tracked_file list \<Rightarrow> int \<Rightarrow> int set \<Rightarrow> bool" where
  "files_ok fs nx pair_ids = (keys_ok (map tf_id fs) nx
     \<and> distinct (map (\<lambda>f. (tf_drive_pair_id f, tf_relative_path f)) fs)
     \<and> (\<forall>f \<in> set fs. tf_drive_pair_id f \<in> pair_ids))"

definition one_task :: "tracked_folder \<Rightarrow> bool" where
  "one_task f = (\<not> (fo_scanning f \<and> fo_mirroring f) \<and> \<not> (fo_scanning f \<and> fo_deleting f) \<and> \<not> (fo_mirroring f \<and> fo_deleting f))"

definition folders_ok :: "tracked_folder list \<Rightarrow> int \<Rightarrow> int set \<Rightarrow> bool" where
  "folders_ok fs nx pair_ids = (keys_ok (map fo_id fs) nx
     \<and> distinct (map (\<lambda>f. (fo_drive_pair_id f, fo_folder_path f)) fs)
     \<and> (\<forall>f \<in> set fs. fo_drive_pair_id f \<in> pair_ids \<and> one_task f))"

definition queue_ok :: "sync_item list \<Rightarrow> int \<Rightarrow> int set \<Rightarrow> bool" where
  "queue_ok qs nx file_ids = (keys_ok (map sq_id qs) nx
     \<and> (\<forall>q \<in> set qs. sq_tracked_file_id q \<in> file_ids \<and> sq_action q \<in> set action_names \<and> sq_status q \<in> set status_names))"

definition events_ok :: "event_row list \<Rightarrow> int \<Rightarrow> int set \<Rightarrow> bool" where
  "events_ok es nx file_ids = (keys_ok (map ev_id es) nx
     \<and> (\<forall>e \<in> set es. ev_event_type e \<in> set event_names \<and> (\<forall>i. ev_tracked_file_id e = Some i \<longrightarrow> i \<in> file_ids)))"

definition runs_ok :: "integrity_run list \<Rightarrow> int \<Rightarrow> int set \<Rightarrow> bool" where
  "runs_ok rs nx pair_ids = (keys_ok (map ir_id rs) nx
     \<and> (\<forall>r \<in> set rs. ir_status r \<in> set run_status_names \<and> (\<forall>i. ir_scope_drive_pair_id r = Some i \<longrightarrow> i \<in> pair_ids)))"

definition results_ok :: "integrity_run_result list \<Rightarrow> int \<Rightarrow> int set \<Rightarrow> int set \<Rightarrow> int set \<Rightarrow> bool" where
  "results_ok rs nx run_ids file_ids pair_ids = (keys_ok (map rr_id rs) nx
     \<and> (\<forall>r \<in> set rs. rr_run_id r \<in> run_ids \<and> rr_file_id r \<in> file_ids \<and> rr_drive_pair_id r \<in> pair_ids))"

definition db_ok :: "db \<Rightarrow> bool" where
  "db_ok d = (let pair_ids = dp_id ` set (db_pairs d); file_ids = tf_id ` set (db_files d); run_ids = ir_id ` set (db_runs d) in
     pairs_ok (db_pairs d) (nx_pair d) \<and> files_ok (db_files d) (nx_file d) pair_ids
     \<and> folders_ok (db_folders d) (nx_folder d) pair_ids \<and> queue_ok (db_queue d) (nx_queue d) file_ids
     \<and> events_ok (db_events d) (nx_event d) file_ids \<and> runs_ok (db_runs d) (nx_run d) pair_ids
     \<and> results_ok (db_results d) (nx_result d) run_ids file_ids pair_ids)"

definition db_inv :: "world \<Rightarrow> bool" where
  "db_inv w = db_ok (w_db w)"

subsection \<open>Pushing, updating and dropping rows\<close>

lemma keys_push: "keys_ok ids nx \<Longrightarrow> keys_ok (ids @ [nx]) (nx + 1)"
  by (auto simp: keys_ok_def)

lemma keys_filter: "keys_ok (map k rs) nx \<Longrightarrow> keys_ok (map k (filter P rs)) nx"
  by (auto simp: keys_ok_def distinct_map_filter)

lemma image_upd_same [simp]: "(\<And>r. k (f r) = k r) \<Longrightarrow> k ` set (upd_where P f rs) = k ` set rs"
  by (induction rs) simp_all

lemma upd_where_none: "\<not> (\<exists>r \<in> set rs. P r) \<Longrightarrow> upd_where P f rs = rs"
  by (induction rs) auto

lemma image_without: "x \<in> k ` {r \<in> S. k r \<noteq> i} \<longleftrightarrow> x \<in> k ` S \<and> x \<noteq> i"
  by blast

lemma ball_upd: "(\<forall>x \<in> set (upd_where P f rs). Q x) \<longleftrightarrow> (\<forall>x \<in> set rs. (P x \<longrightarrow> Q (f x)) \<and> (\<not> P x \<longrightarrow> Q x))"
  by (induction rs) simp_all

lemma ok_more:
  "files_ok fs nx A \<Longrightarrow> A \<subseteq> B \<Longrightarrow> files_ok fs nx B"
  "folders_ok gs nx A \<Longrightarrow> A \<subseteq> B \<Longrightarrow> folders_ok gs nx B"
  "queue_ok qs nx A \<Longrightarrow> A \<subseteq> B \<Longrightarrow> queue_ok qs nx B"
  "events_ok es nx A \<Longrightarrow> A \<subseteq> B \<Longrightarrow> events_ok es nx B"
  "runs_ok rs nx A \<Longrightarrow> A \<subseteq> B \<Longrightarrow> runs_ok rs nx B"
  "results_ok ts nx R F A \<Longrightarrow> A \<subseteq> B \<Longrightarrow> results_ok ts nx R F B"
  "results_ok ts nx R A P \<Longrightarrow> A \<subseteq> B \<Longrightarrow> results_ok ts nx R B P"
  "results_ok ts nx A F P \<Longrightarrow> A \<subseteq> B \<Longrightarrow> results_ok ts nx B F P"
  by (auto simp: files_ok_def folders_ok_def queue_ok_def events_ok_def runs_ok_def results_ok_def)

lemma ok_insert:
  "files_ok fs nx A \<Longrightarrow> files_ok fs nx (insert x A)"
  "folders_ok gs nx A \<Longrightarrow> folders_ok gs nx (insert x A)"
  "queue_ok qs nx A \<Longrightarrow> queue_ok qs nx (insert x A)"
  "events_ok es nx A \<Longrightarrow> events_ok es nx (insert x A)"
  "runs_ok rs nx A \<Longrightarrow> runs_ok rs nx (insert x A)"
  "results_ok ts nx R F A \<Longrightarrow> results_ok ts nx R F (insert x A)"
  "results_ok ts nx R A P \<Longrightarrow> results_ok ts nx R (insert x A) P"
  "results_ok ts nx A F P \<Longrightarrow> results_ok ts nx (insert x A) F P"
  by (auto intro: ok_more)

lemma ok_push:
  "pairs_ok ps nx \<Longrightarrow> dp_id p = nx \<Longrightarrow> pair_ok p \<Longrightarrow> pairs_ok (ps @ [p]) (nx + 1)"
  "files_ok fs nx A \<Longrightarrow> tf_id f = nx \<Longrightarrow> (tf_drive_pair_id f, tf_relative_path f) \<notin> (\<lambda>f. (tf_drive_pair_id f, tf_relative_path f)) ` set fs
     \<Longrightarrow> tf_drive_pair_id f \<in> A \<Longrightarrow> files_ok (fs @ [f]) (nx + 1) A"
  "folders_ok gs nx A \<Longrightarrow> fo_id g = nx \<Longrightarrow> (fo_drive_pair_id g, fo_folder_path g) \<notin> (\<lambda>g. (fo_drive_pair_id g, fo_folder_path g)) ` set gs
     \<Longrightarrow> fo_drive_pair_id g \<in> A \<Longrightarrow> one_task g \<Longrightarrow> folders_ok (gs @ [g]) (nx + 1) A"
  "queue_ok qs nx A \<Longrightarrow> sq_id q = nx \<Longrightarrow> sq_tracked_file_id q \<in> A \<Longrightarrow> sq_action q \<in> set action_names
     \<Longrightarrow> sq_status q \<in> set status_names \<Longrightarrow> queue_ok (qs @ [q]) (nx + 1) A"
  "events_ok es nx A \<Longrightarrow> ev_id e = nx \<Longrightarrow> ev_event_type e \<in> set event_names
     \<Longrightarrow> (\<And>i. ev_tracked_file_id e = Some i \<Longrightarrow> i \<in> A) \<Longrightarrow> events_ok (es @ [e]) (nx + 1) A"
  "runs_ok rs nx A \<Longrightarrow> ir_id r = nx \<Longrightarrow> ir_status r \<in> set run_status_names
     \<Longrightarrow> (\<And>i. ir_scope_drive_pair_id r = Some i \<Longrightarrow> i \<in> A) \<Longrightarrow> runs_ok (rs @ [r]) (nx + 1) A"
  "results_ok ts nx R F A \<Longrightarrow> rr_id t = nx \<Longrightarrow> rr_run_id t \<in> R \<Longrightarrow> rr_file_id t \<in> F \<Longrightarrow> rr_drive_pair_id t \<in> A
     \<Longrightarrow> results_ok (ts @ [t]) (nx + 1) R F A"
  by (simp_all add: pairs_ok_def files_ok_def folders_ok_def queue_ok_def events_ok_def runs_ok_def results_ok_def keys_push)

lemma ok_update:
  "pairs_ok ps nx \<Longrightarrow> (\<And>p. dp_id (f p) = dp_id p) \<Longrightarrow> (\<And>p. pair_ok p \<Longrightarrow> pair_ok (f p)) \<Longrightarrow> pairs_ok (upd_where P f ps) nx"
  "files_ok fs nx A \<Longrightarrow> (\<And>r. tf_id (g r) = tf_id r \<and> tf_drive_pair_id (g r) = tf_drive_pair_id r \<and> tf_relative_path (g r) = tf_relative_path r)
     \<Longrightarrow> files_ok (upd_where Q g fs) nx A"
  "folders_ok gs nx A \<Longrightarrow> (\<And>r. fo_id (h r) = fo_id r \<and> fo_drive_pair_id (h r) = fo_drive_pair_id r \<and> fo_folder_path (h r) = fo_folder_path r)
     \<Longrightarrow> (\<And>r. one_task r \<Longrightarrow> T r \<Longrightarrow> one_task (h r)) \<Longrightarrow> folders_ok (upd_where T h gs) nx A"
  "queue_ok qs nx A \<Longrightarrow> (\<And>r. sq_id (k r) = sq_id r \<and> sq_tracked_file_id (k r) = sq_tracked_file_id r \<and> sq_action (k r) = sq_action r)
     \<Longrightarrow> (\<And>r. sq_status r \<in> set status_names \<Longrightarrow> U r \<Longrightarrow> sq_status (k r) \<in> set status_names) \<Longrightarrow> queue_ok (upd_where U k qs) nx A"
  "runs_ok rs nx A \<Longrightarrow> (\<And>r. ir_id (m r) = ir_id r \<and> ir_scope_drive_pair_id (m r) = ir_scope_drive_pair_id r)
     \<Longrightarrow> (\<And>r. ir_status r \<in> set run_status_names \<Longrightarrow> V r \<Longrightarrow> ir_status (m r) \<in> set run_status_names) \<Longrightarrow> runs_ok (upd_where V m rs) nx A"
  by (simp_all add: pairs_ok_def files_ok_def folders_ok_def queue_ok_def runs_ok_def ball_upd)

lemma keeps_db_inv: "(\<And>w. db_ok (w_db w) \<Longrightarrow> db_ok (w_db (snd (m w)))) \<Longrightarrow> keeps db_inv m"
  by (simp add: keeps_def db_inv_def)

lemma inv_fs_put: "db_inv w \<Longrightarrow> db_inv (fs_put k n w)"
  by (simp add: db_inv_def)

subsection \<open>The statements on pairs\<close>

lemma db_keeps_update_pair:
  assumes "\<And>p. dp_id (f p) = dp_id p" "\<And>p. pair_ok p \<Longrightarrow> pair_ok (f p)"
  shows "keeps db_inv (update_pair i f)"
proof (rule keeps_db_inv)
  fix w :: world assume "db_ok (w_db w)"
  moreover have "pair_ok p \<Longrightarrow> pair_ok ((f p)\<lparr>dp_updated_at := t\<rparr>)" for p t using assms(2) [of p] by (simp add: pair_ok_def)
  ultimately show "db_ok (w_db (snd (update_pair i f w)))" using assms(1) by (simp add: db_ok_def Let_def ok_update)
qed

text \<open>A column with a \<open>CHECK\<close>: the update of an existing row is refused when the value is not one of its values.\<close>

lemma db_keeps_checked:
  assumes "x \<in> names \<Longrightarrow> keeps db_inv (update_pair i f)"
  shows "keeps db_inv (seq_m (bind_m (gets_m (has_pair i)) (\<lambda>h. check_m (\<not> h \<or> x \<in> names) c)) (update_pair i f))"
proof (rule keepsI)
  fix w assume w: "db_inv w"
  let ?m = "seq_m (bind_m (gets_m (has_pair i)) (\<lambda>h. check_m (\<not> h \<or> x \<in> names) c)) (update_pair i f)"
  consider "x \<in> names" | "x \<notin> names" "has_pair i w" | "x \<notin> names" "\<not> has_pair i w" by blast
  then show "db_inv (snd (?m w))"
  proof cases
    case 1
    then show ?thesis using keepsD [OF assms w] by (simp add: seq_m_def bind_m_def gets_m_def check_m_def)
  next
    case 2
    then show ?thesis using w by (simp add: seq_m_def bind_m_def gets_m_def check_m_def raise_m_def)
  next
    case 3
    then have "upd_where (\<lambda>p. dp_id p = i) g (db_pairs (w_db w)) = db_pairs (w_db w)" for g
      by (auto simp: has_pair_def upd_where_none)
    then show ?thesis using w 3 by (simp add: seq_m_def bind_m_def gets_m_def check_m_def db_inv_def)
  qed
qed

lemma db_keeps_runtime [db_keeps]: "keeps db_inv (update_drive_pair_runtime i pp sp ps ss ar)"
proof -
  have "keeps db_inv (update_pair i (\<lambda>p. p\<lparr>dp_primary_state := x\<rparr>))"
    "keeps db_inv (update_pair i (\<lambda>p. p\<lparr>dp_secondary_state := x\<rparr>))" if "x \<in> set state_names" for x
    using that by (auto intro!: db_keeps_update_pair simp: pair_ok_def)
  moreover have "keeps db_inv (update_pair i (\<lambda>p. p\<lparr>dp_active_role := x\<rparr>))" if "x \<in> {''primary'', ''secondary''}" for x
    using that by (auto intro!: db_keeps_update_pair simp: pair_ok_def)
  moreover have "keeps db_inv (update_pair i (\<lambda>p. p\<lparr>dp_primary_path := x\<rparr>))"
    "keeps db_inv (update_pair i (\<lambda>p. p\<lparr>dp_secondary_path := x\<rparr>))" for x
    by (auto intro!: db_keeps_update_pair simp: pair_ok_def)
  ultimately show ?thesis
    unfolding update_drive_pair_runtime_def
    by (intro keeps_seq opt_m_keeps db_keeps_checked pairs.keeps_get)
qed

lemma db_keeps_pair_media [db_keeps]: "keeps db_inv (update_drive_pair_with_media i name pp sp pm sm)"
proof -
  have "keeps db_inv (update_pair i (\<lambda>p. p\<lparr>dp_primary_media_type := x\<rparr>))"
    "keeps db_inv (update_pair i (\<lambda>p. p\<lparr>dp_secondary_media_type := x\<rparr>))" if "x \<in> {''hdd'', ''ssd''}" for x
    using that by (auto intro!: db_keeps_update_pair simp: pair_ok_def)
  moreover have "keeps db_inv (update_pair i (\<lambda>p. p\<lparr>dp_primary_path := x\<rparr>))"
    "keeps db_inv (update_pair i (\<lambda>p. p\<lparr>dp_secondary_path := x\<rparr>))" "keeps db_inv (update_pair i (\<lambda>p. p\<lparr>dp_name := x\<rparr>))" for x
    by (auto intro!: db_keeps_update_pair simp: pair_ok_def)
  moreover have "keeps db_inv (bind_m (gets_m g) (\<lambda>clash. check_m (\<not> clash) c))" for g c
    by (intro keeps_bind keeps_gets check_m_keeps)
  ultimately show ?thesis
    unfolding update_drive_pair_with_media_def
    by (intro keeps_seq [OF opt_m_keeps [OF keeps_seq]] keeps_seq opt_m_keeps db_keeps_checked pairs.keeps_get)
qed

lemma db_keeps_create_pair [db_keeps]: "keeps db_inv (create_drive_pair_with_media name p s pm sm)"
  by (rule keeps_db_inv)
    (simp add: create_drive_pair_with_media_def Let_def pairs.get_state db_ok_def ok_push ok_insert pair_ok_def state_names_def)

lemma db_keeps_delete_pair [db_keeps]: "keeps db_inv (delete_drive_pair i)"
proof (rule keeps_db_inv)
  fix w :: world assume ok: "db_ok (w_db w)"
  let ?d = "w_db w"
  have "db_ok (w_db (snd (delete_drive_pair i w)))"
    if n: "\<forall>f \<in> set (db_files ?d). tf_drive_pair_id f \<noteq> i" "\<forall>f \<in> set (db_folders ?d). fo_drive_pair_id f \<noteq> i"
      "\<forall>r \<in> set (db_results ?d). rr_drive_pair_id r \<noteq> i"
  proof -
    have "\<not> count_where (\<lambda>f. tf_drive_pair_id f = i) (db_files ?d) > 0" using n(1) by (simp add: count_where_pos)
    then show ?thesis
      using ok n unfolding db_ok_def Let_def pairs_ok_def files_ok_def folders_ok_def runs_ok_def results_ok_def
      by (simp add: delete_drive_pair_def Let_def keys_filter ball_upd image_without) blast
  qed
  then show "db_ok (w_db (snd (delete_drive_pair i w)))"
    using ok by (auto simp: delete_drive_pair_def Let_def count_where_pos)
qed

subsection \<open>The statements on files\<close>

lemma db_keeps_update_files [db_keeps]:
  assumes "\<And>r. tf_id (g r) = tf_id r \<and> tf_drive_pair_id (g r) = tf_drive_pair_id r \<and> tf_relative_path (g r) = tf_relative_path r"
  shows "keeps db_inv (update_files P g)"
  by (rule keeps_db_inv) (simp add: assms db_ok_def Let_def ok_update)

lemma db_keeps_files [db_keeps]:
  "keeps db_inv (mark_drive_pair_unmirrored i)" "keeps db_inv (update_tracked_file_checksum i c n)"
  "keeps db_inv (update_tracked_file_mirror_status i b)" "keeps db_inv (update_tracked_file_virtual_path i v)"
  "keeps db_inv (update_tracked_file_sources i b c')"
  unfolding mark_drive_pair_unmirrored_def update_tracked_file_checksum_def update_tracked_file_mirror_status_def
    update_tracked_file_virtual_path_def update_tracked_file_sources_def
  by (rule db_keeps_update_files; simp)+

lemma db_keeps_checked_at [db_keeps]: "keeps db_inv (update_tracked_file_last_integrity_check_at i)"
proof (rule keepsI)
  fix w assume w: "db_inv w"
  show "db_inv (snd (update_tracked_file_last_integrity_check_at i w))"
    unfolding update_tracked_file_last_integrity_check_at_def
    by (rule keepsD [OF db_keeps_update_files w]) simp
qed

lemma db_keeps_create_file [db_keeps]: "keeps db_inv (create_tracked_file_with_source i path c n v b b')"
proof (rule keeps_db_inv)
  fix w :: world assume ok: "db_ok (w_db w)"
  show "db_ok (w_db (snd (create_tracked_file_with_source i path c n v b b' w)))"
    using ok unfolding create_tracked_file_with_source_def Let_def
    by (auto simp: files.get_state db_ok_def Let_def ok_insert has_pair_def intro!: ok_push)
qed

lemma ok_delete_file:
  assumes "db_ok d"
  shows "db_ok (drop_file_rows i (drop_file_queue i d))"
  using assms
  unfolding db_ok_def Let_def files_ok_def queue_ok_def events_ok_def results_ok_def drop_file_rows_def drop_file_queue_def
  by (auto simp: keys_filter distinct_map_filter ball_upd image_without)

lemma db_keeps_delete_file [db_keeps]: "keeps db_inv (delete_tracked_file i)"
  by (rule keeps_db_inv) (simp add: delete_tracked_file_def ok_delete_file)

lemma db_keeps_provenance [db_keeps]: "keeps db_inv (recompute_folder_provenance_for_drive i)"
proof -
  have "keeps db_inv (\<lambda>w. update_files (Q w) (\<lambda>f. f\<lparr>tf_tracked_via_folder := True\<rparr>) w)" for Q
  proof (rule keepsI)
    fix w assume w: "db_inv w"
    show "db_inv (snd (update_files (Q w) (\<lambda>f. f\<lparr>tf_tracked_via_folder := True\<rparr>) w))"
      by (rule keepsD [OF db_keeps_update_files w]) simp
  qed
  then show ?thesis unfolding recompute_folder_provenance_for_drive_def
    by (intro keeps_seq db_keeps_update_files) simp_all
qed

subsection \<open>The statements on the queue and its settings\<close>

lemma db_keeps_create_item [db_keeps]: "keeps db_inv (create_sync_queue_item_with_reason_and_error i a r e)"
  by (rule keeps_db_inv)
    (auto simp: create_sync_queue_item_with_reason_and_error_def Let_def queue.get_state db_ok_def push_item_def new_item_def
      has_file_def status_names_def intro!: ok_push)

lemma db_keeps_dedup [db_keeps]: "keeps db_inv (create_sync_queue_item_dedup_with_reason_and_error_with_created i a r e)"
proof (rule keepsI)
  fix w assume w: "db_inv w"
  have "keeps db_inv (bind_m (get_sync_queue_item j) (\<lambda>item. return_m (item, False)))" for j
    by (intro keeps_bind queue.keeps_get keeps_return)
  moreover have "keeps db_inv (bind_m (create_sync_queue_item_with_reason_and_error i a r e) (\<lambda>item. return_m (item, True)))"
    by (intro keeps_bind db_keeps_create_item keeps_return)
  ultimately show "db_inv (snd (create_sync_queue_item_dedup_with_reason_and_error_with_created i a r e w))"
    using w by (simp add: create_sync_queue_item_dedup_with_reason_and_error_with_created_def keeps_def split: option.splits)
qed

lemma db_keeps_dedup_more [db_keeps]:
  "keeps db_inv (create_sync_queue_item_dedup i a)" "keeps db_inv (create_sync_queue_item_dedup_with_created i a)"
  "keeps db_inv (create_sync_queue_item_dedup_with_reason i a r)"
  unfolding create_sync_queue_item_dedup_def create_sync_queue_item_dedup_with_created_def create_sync_queue_item_dedup_with_reason_def
  by (intro keeps_bind db_keeps_dedup keeps_prod keeps_return)+

lemma ok_update_queue:
  assumes "db_ok (w_db w)" "\<And>r. sq_id (k r) = sq_id r \<and> sq_tracked_file_id (k r) = sq_tracked_file_id r \<and> sq_action (k r) = sq_action r"
    "\<And>r. sq_status r \<in> set status_names \<Longrightarrow> U r \<Longrightarrow> sq_status (k r) \<in> set status_names"
  shows "db_ok (w_db (update_queue U k w))"
  using assms by (simp add: update_queue_def db_ok_def Let_def ok_update)

lemma db_keeps_status [db_keeps]: "keeps db_inv (update_sync_queue_status i s e)"
proof (rule keeps_db_inv)
  fix w :: world assume ok: "db_ok (w_db w)"
  consider "s \<in> set status_names" | "s \<notin> set status_names" "\<exists>q \<in> set (db_queue (w_db w)). sq_id q = i"
    | "\<not> (\<exists>q \<in> set (db_queue (w_db w)). sq_id q = i)" by blast
  then show "db_ok (w_db (snd (update_sync_queue_status i s e w)))"
  proof cases
    case 1
    then show ?thesis using ok by (auto simp: update_sync_queue_status_def stamp_status_def intro!: ok_update_queue)
  next
    case 2
    then show ?thesis using ok by (simp add: update_sync_queue_status_def raise_m_def)
  next
    case 3
    then show ?thesis using ok by (simp add: update_sync_queue_status_def update_queue_def upd_where_none)
  qed
qed

lemma db_keeps_queue [db_keeps]:
  "keeps db_inv clear_completed_sync_queue" "keeps db_inv requeue_in_progress_sync_queue"
  "keeps db_inv (complete_pending_mirror_queue_for_file i)" "keeps db_inv (start_pending_mirror_queue_for_file i)"
  "keeps db_inv (fail_pending_mirror_queue_for_file i m)" "keeps db_inv (fail_pending_sync_queue_for_drive_pair i m)"
proof -
  show "keeps db_inv clear_completed_sync_queue"
    by (rule keeps_db_inv) (auto simp: clear_completed_sync_queue_def db_ok_def Let_def queue_ok_def keys_filter)
qed (rule keeps_db_inv; auto simp: requeue_in_progress_sync_queue_def complete_pending_mirror_queue_for_file_def
    start_pending_mirror_queue_for_file_def fail_pending_mirror_queue_for_file_def fail_pending_sync_queue_for_drive_pair_def
    update_queue_counted_def stamp_status_def status_names_def intro!: ok_update_queue)+

lemma db_keeps_settings [db_keeps]:
  "keeps db_inv (set_sync_queue_paused b)" "keeps db_inv (try_acquire_sync_processing_lock n)"
  "keeps db_inv heartbeat_sync_processing_lock" "keeps db_inv release_sync_processing_lock"
  by (rule keeps_db_inv; simp add: set_sync_queue_paused_def try_acquire_sync_processing_lock_def Let_def
      heartbeat_sync_processing_lock_def release_sync_processing_lock_def db_ok_def)+

subsection \<open>The event log\<close>

lemma db_keeps_create_event: "keeps db_inv (create_event_log t i m d)"
  by (rule keeps_db_inv)
    (auto simp: create_event_log_def Let_def db_ok_def has_file_def intro!: ok_push split: option.splits)

lemma db_keeps_logs [db_keeps]:
  "keeps db_inv (log_event t i m d)"
  "keeps db_inv (log_file_tracked file_id path)"
  "keeps db_inv (log_file_untracked file_id path)"
  "keeps db_inv (log_file_mirrored file_id path checksum)"
  "keeps db_inv (log_integrity_pass file_id path)"
  "keeps db_inv (log_integrity_fail file_id path status)"
  "keeps db_inv (log_both_corrupted file_id path master_checksum mirror_checksum stored_checksum)"
  "keeps db_inv (log_recovery file_id action success)"
  "keeps db_inv (log_sync_completed file_id action path)"
  "keeps db_inv (log_sync_failed file_id action error path)"
  "keeps db_inv (log_folder_tracked folder_id folder_path drive_pair_id)"
  "keeps db_inv (log_folder_untracked folder_id folder_path)"
  "keeps db_inv (log_integrity_run_started run_id total_files trigger)"
  "keeps db_inv (log_integrity_run_completed run_id status' issues recovered)"
  "keeps db_inv (log_drive_created pair_id name primary_path secondary_path)"
  "keeps db_inv (log_drive_updated pair_id name)"
  "keeps db_inv (log_drive_deleted pair_id name)"
  "keeps db_inv (log_drive_failover pair_id failed_role new_active_role failed_path)"
  "keeps db_inv (log_drive_quiescing pair_id role)"
  "keeps db_inv (log_drive_quiesce_cancelled pair_id role)"
  "keeps db_inv (log_drive_failure_confirmed pair_id role new_active_role failed_path)"
  "keeps db_inv (log_drive_replacement_assigned pair_id role new_path queued_items)"
  "keeps db_inv (log_drive_rebuild_completed pair_id role active_role')"
  by (simp_all only: log_defs db_keeps_create_event)

subsection \<open>The statements on folders\<close>

lemma db_keeps_update_folders:
  assumes "\<And>r. fo_id (h r) = fo_id r \<and> fo_drive_pair_id (h r) = fo_drive_pair_id r \<and> fo_folder_path (h r) = fo_folder_path r"
    "\<And>r. one_task r \<Longrightarrow> T r \<Longrightarrow> one_task (h r)"
  shows "keeps db_inv (update_folders T h)"
  by (rule keeps_db_inv) (use assms in \<open>simp add: db_ok_def Let_def ok_update\<close>)

lemma db_keeps_claim:
  assumes "\<And>r. fo_id (h r) = fo_id r \<and> fo_drive_pair_id (h r) = fo_drive_pair_id r \<and> fo_folder_path (h r) = fo_folder_path r"
    "\<And>r. \<not> fo_scanning r \<Longrightarrow> \<not> fo_mirroring r \<Longrightarrow> \<not> fo_deleting r \<Longrightarrow> one_task (h r)"
  shows "keeps db_inv (claim_folder i h refusal)"
proof -
  have "keeps db_inv (update_folders (idle_folder i) h)"
    by (rule db_keeps_update_folders) (use assms in \<open>auto simp: idle_folder_def\<close>)
  then show ?thesis unfolding claim_folder_def by (intro keeps_bind keeps_if keeps_bail folders.keeps_get)
qed

lemma db_keeps_set_folder:
  assumes "\<And>r. fo_id (h r) = fo_id r \<and> fo_drive_pair_id (h r) = fo_drive_pair_id r \<and> fo_folder_path (h r) = fo_folder_path r"
    "\<And>r. one_task r \<Longrightarrow> one_task (h r)"
  shows "keeps db_inv (set_folder i h)"
  unfolding set_folder_def by (rule keeps_discard, rule db_keeps_update_folders) (use assms in auto)

lemma db_keeps_folders [db_keeps]:
  "keeps db_inv (start_folder_scan i n)" "keeps db_inv (start_folder_mirror i n)" "keeps db_inv (start_folder_delete i)"
  "keeps db_inv (update_scan_progress i n)" "keeps db_inv (finish_folder_scan i)" "keeps db_inv (clear_folder_delete i)"
  "keeps db_inv (update_mirror_progress i n)"
  unfolding start_folder_scan_def start_folder_mirror_def start_folder_delete_def update_scan_progress_def finish_folder_scan_def
    clear_folder_delete_def update_mirror_progress_def
  by (intro db_keeps_claim db_keeps_set_folder keeps_seq folders.keeps_get; simp add: one_task_def)+

lemma db_keeps_folder_stamps [db_keeps]:
  "keeps db_inv (finish_folder_mirror i)" "keeps db_inv (mark_tracked_folder_scanned i)"
proof -
  have "keeps db_inv (seq_m (set_folder i (\<lambda>f. f\<lparr>fo_mirroring := False, fo_last_mirrored_at := Some t\<rparr>)) (get_tracked_folder i))"
    "keeps db_inv (set_folder i (\<lambda>f. f\<lparr>fo_last_scanned_at := Some t, fo_scan_scanned_files := fo_scan_total_files f\<rparr>))" for t
    by (intro db_keeps_set_folder keeps_seq folders.keeps_get; simp add: one_task_def)+
  then show "keeps db_inv (finish_folder_mirror i)" "keeps db_inv (mark_tracked_folder_scanned i)"
    by (simp_all add: keeps_def finish_folder_mirror_def mark_tracked_folder_scanned_def)
qed

lemma db_keeps_update_folder [db_keeps]: "keeps db_inv (update_tracked_folder i v)"
  unfolding update_tracked_folder_def
  by (intro keeps_seq opt_m_keeps keeps_discard db_keeps_update_folders folders.keeps_get) (simp_all add: one_task_def)

lemma db_keeps_create_folder [db_keeps]: "keeps db_inv (create_tracked_folder_with_sidecars i path v b)"
  by (rule keeps_db_inv)
    (auto simp: create_tracked_folder_with_sidecars_def Let_def folders.get_state db_ok_def has_pair_def one_task_def intro!: ok_push)

lemma ok_drop_folder: "db_ok d \<Longrightarrow> db_ok (drop_folder_row i d)"
  by (auto simp: db_ok_def Let_def drop_folder_row_def folders_ok_def keys_filter distinct_map_filter)

lemma db_keeps_drop_folder [db_keeps]:
  "keeps db_inv (delete_tracked_folder i)" "keeps db_inv (delete_folder_cascade_tx i is)"
proof -
  have "db_ok (fold (\<lambda>i d. drop_file_rows i (drop_file_queue i d)) is d)" if "db_ok d" for d
    using that by (induction "is" arbitrary: d) (simp_all add: ok_delete_file)
  then show "keeps db_inv (delete_tracked_folder i)" "keeps db_inv (delete_folder_cascade_tx i is)"
    by (simp_all add: keeps_def db_inv_def delete_tracked_folder_def delete_folder_cascade_tx_def ok_drop_folder)
qed

lemma db_keeps_stale_flags [db_keeps]: "keeps db_inv reset_stale_folder_flags"
proof (rule keeps_db_inv)
  fix w :: world assume "db_ok (w_db w)"
  then show "db_ok (w_db (snd (reset_stale_folder_flags w)))"
    by (simp add: reset_stale_folder_flags_def Let_def db_ok_def ok_update one_task_def)
qed

subsection \<open>The statements on runs and results\<close>

lemma db_keeps_update_runs:
  assumes "\<And>r. ir_id (m r) = ir_id r \<and> ir_scope_drive_pair_id (m r) = ir_scope_drive_pair_id r"
    "\<And>r. ir_status r \<in> set run_status_names \<Longrightarrow> V r \<Longrightarrow> ir_status (m r) \<in> set run_status_names"
  shows "keeps db_inv (update_runs V m)"
  by (rule keeps_db_inv) (use assms in \<open>simp add: db_ok_def Let_def ok_update\<close>)

lemma db_keeps_runs [db_keeps]:
  "keeps db_inv (set_integrity_run_active_workers i n)" "keeps db_inv (request_integrity_run_stop i)"
  "keeps db_inv (increment_integrity_run_progress i a b)"
  unfolding set_integrity_run_active_workers_def request_integrity_run_stop_def increment_integrity_run_progress_def
  by (rule db_keeps_update_runs; auto simp: run_status_names_def)+

lemma db_keeps_finish_run [db_keeps]: "keeps db_inv (finish_integrity_run i s e)"
proof (rule keepsI)
  fix w assume w: "db_inv w"
  have u: "s \<in> set run_status_names \<Longrightarrow> keeps db_inv (update_runs (\<lambda>r. ir_id r = i) (\<lambda>r. r\<lparr>ir_status := s, ir_ended_at := Some t,
      ir_error_message := e, ir_active_workers := 0\<rparr>))" for t
    by (rule db_keeps_update_runs) simp_all
  consider "s \<in> set run_status_names" | "s \<notin> set run_status_names" "\<exists>r \<in> set (db_runs (w_db w)). ir_id r = i"
    | "\<not> (\<exists>r \<in> set (db_runs (w_db w)). ir_id r = i)" by blast
  then show "db_inv (snd (finish_integrity_run i s e w))"
  proof cases
    case 1
    then show ?thesis using keepsD [OF u w] by (simp add: finish_integrity_run_def)
  next
    case 2
    then show ?thesis using w by (simp add: finish_integrity_run_def raise_m_def)
  next
    case 3
    then show ?thesis using w by (simp add: finish_integrity_run_def upd_where_none db_inv_def)
  qed
qed

lemma db_keeps_stale_runs [db_keeps]: "keeps db_inv cleanup_stale_integrity_runs"
proof (rule keepsI)
  fix w assume w: "db_inv w"
  have "keeps db_inv (bind_m (gets_m (\<lambda>w. count_where run_is_active (db_runs (w_db w)))) (\<lambda>n.
      seq_m (update_runs run_is_active (\<lambda>r. r\<lparr>ir_status := ''failed'', ir_ended_at := Some t, ir_active_workers := 0,
        ir_error_message := Some ''Interrupted by service restart''\<rparr>)) (return_m n)))" for t
    by (intro keeps_bind keeps_gets keeps_seq db_keeps_update_runs keeps_return) (simp_all add: run_status_names_def)
  from keepsD [OF this w] show "db_inv (snd (cleanup_stale_integrity_runs w))" by (simp add: cleanup_stale_integrity_runs_def)
qed

lemma db_keeps_create_run [db_keeps]: "keeps db_inv (create_integrity_run scope recover trigger n)"
  by (rule keeps_db_inv)
    (auto simp: create_integrity_run_def Let_def runs.get_state db_ok_def has_pair_def run_status_names_def
      intro!: ok_push ok_insert split: option.splits)

lemma db_keeps_append_result [db_keeps]: "keeps db_inv (append_integrity_run_result run_id i p path s b b')"
  by (rule keeps_db_inv)
    (auto simp: append_integrity_run_result_def Let_def db_ok_def has_run_def has_file_def has_pair_def
      intro!: ok_push split: option.splits)

end
