(* ===== verification/Db_Operations.thy ===== *)
theory Db_Operations
  imports Db_Wellformed Queue_Resolve Queue_Drain Integrity_Runs_Frame
begin

section \<open>Every operation keeps the database well formed\<close>

text \<open>
  The operations of the core, in the order of their theories: each is built from the statements of \<open>Db_Wellformed\<close>,
  from reads and from file-system calls, so it keeps \<open>db_inv\<close> whatever it answers. Below them a step relation
  with one rule per operation and per statement that the routes call themselves.
\<close>

subsection \<open>Drives\<close>

lemma db_keeps_list [db_keeps]: "keeps db_inv (list_tracked_files a b c n k)" "keeps db_inv list_drive_pairs"
  "keeps db_inv (count_sync_queue_items_for_drive_pair_action i a' ss)" "keeps db_inv (count_tracked_files s)"
  "keeps db_inv get_sync_queue_paused" "keeps db_inv (list_pending_sync_queue_with_drive_pair n')"
  "keeps db_inv (list_folder_origin_descendant_files i p j)" "keeps db_inv get_active_integrity_run"
  "keeps db_inv (list_tracked_files_oldest_integrity_first s n k)"
  by (simp_all add: keeps_def list_tracked_files_def list_drive_pairs_def count_sync_queue_items_for_drive_pair_action_def
      count_tracked_files_def get_sync_queue_paused_def list_pending_sync_queue_with_drive_pair_def
      list_folder_origin_descendant_files_def get_active_integrity_run_def list_tracked_files_oldest_integrity_first_def)

lemma db_keeps_refresh [db_keeps]: "keeps db_inv (refresh_pair_virtual_paths p)"
  unfolding refresh_pair_virtual_paths_def by (intro keeps_bind keeps_return refresh_all_keeps inv_fs_put)

lemma db_keeps_marker [db_keeps]: "keeps db_inv (ensure_drive_root_marker p)"
  by (rule ensure_marker_keeps) (rule inv_fs_put)

lemmas db_reads = pairs.keeps_get files.keeps_get folders.keeps_get queue.keeps_get runs.keeps_get

lemmas db_flow = keeps_bind keeps_seq keeps_discard keeps_try keeps_if keeps_option keeps_sum keeps_prod keeps_for keeps_count
  keeps_return keeps_raise keeps_bail keeps_gets keeps_with_context opt_m_keeps db_reads

lemma db_keeps_load [db_keeps]: "keeps db_inv (load_operational_pair i)"
proof -
  have "keeps db_inv (maybe_emergency_failover p)" for p
  proof (rule keepsI)
    fix v assume v: "db_inv v"
    have "keeps db_inv (bind_m (update_drive_pair_runtime (dp_id p) None None x y z) (\<lambda>updated.
             seq_m (mark_drive_pair_unmirrored (dp_id p))
            (seq_m (discard (fail_pending_sync_queue_for_drive_pair (dp_id p) msg))
            (seq_m (discard (refresh_pair_virtual_paths updated))
            (seq_m (discard (log_drive_failover (dp_id p) r1 r2 r3))
            (get_drive_pair (dp_id p)))))))" for x y z msg r1 r2 r3
      by (intro db_flow db_keeps)
    from keepsD [OF this v] v show "db_inv (snd (maybe_emergency_failover p v))"
      by (simp add: maybe_emergency_failover_def Let_def)
  qed
  then show ?thesis unfolding load_operational_pair_def by (intro db_flow)
qed

lemma db_keeps_quiesce [db_keeps]:
  "keeps db_inv (mark_drive_quiescing i r)" "keeps db_inv (cancel_drive_quiescing i r)"
  unfolding mark_drive_quiescing_def cancel_drive_quiescing_def by (intro db_flow db_keeps)+

lemma db_keeps_confirm [db_keeps]: "keeps db_inv (confirm_drive_failure i r)"
proof -
  have "keeps db_inv (\<lambda>w. if a then bail e w else (if b \<and> Q w then bail e' w else
     bind_m (update_drive_pair_runtime i None None x y z) (\<lambda>updated.
             seq_m (mark_drive_pair_unmirrored i)
            (seq_m (discard (fail_pending_sync_queue_for_drive_pair i msg))
            (seq_m (discard (refresh_pair_virtual_paths updated))
            (seq_m (discard (log_drive_failure_confirmed i r1 (dp_active_role updated) (path_for_role updated r)))
            (return_m updated))))) w))" for a e b Q e' x y z msg r1
  proof -
    have "keeps db_inv (bind_m (update_drive_pair_runtime i None None x y z) (\<lambda>updated.
             seq_m (mark_drive_pair_unmirrored i)
            (seq_m (discard (fail_pending_sync_queue_for_drive_pair i msg))
            (seq_m (discard (refresh_pair_virtual_paths updated))
            (seq_m (discard (log_drive_failure_confirmed i r1 (dp_active_role updated) (path_for_role updated r)))
            (return_m updated))))))"
      by (intro db_flow db_keeps)
    then show ?thesis by (simp add: keeps_def)
  qed
  then show ?thesis unfolding confirm_drive_failure_def Let_def by (intro db_flow)
qed

lemma db_keeps_assign [db_keeps]: "keeps db_inv (assign_replacement_drive i r p)"
  unfolding assign_replacement_drive_def queue_rebuild_def by (intro db_flow db_keeps)

lemma db_keeps_finalize [db_keeps]: "keeps db_inv (maybe_finalize_rebuild_for_action i a)"
  unfolding maybe_finalize_rebuild_for_action_def by (intro db_flow db_keeps)

lemma keeps_bool:
  "keeps P m \<Longrightarrow> keeps P n \<Longrightarrow> keeps P (case b of True \<Rightarrow> m | False \<Rightarrow> n)"
  by (cases b) simp_all

subsection \<open>Copies, checks, recovery\<close>

lemma db_keeps_copies [db_keeps]:
  "keeps db_inv (mirror_file b3 p rel)" "keeps db_inv (restore_from_mirror b3 p rel e)"
  "keeps db_inv (restore_mirror_from_master b3 p rel e)" "keeps db_inv (checksum_file b3 path st)"
  by (rule mirror_keeps master_restore.restore_keeps mirror_restore.restore_keeps keeps_pure [OF checksum_pure];
      rule inv_fs_put; assumption?)+

lemma db_keeps_recovery [db_keeps]: "keeps db_inv (attempt_recovery_with_reconciliation b3 p f res)"
proof -
  have "keeps db_inv (attempt_recovery b3 p f res)" by (rule attempt_keeps) (rule inv_fs_put)
  then show ?thesis
    unfolding attempt_recovery_with_reconciliation_def Let_def by (intro db_flow keeps_bool db_keeps)
qed

subsection \<open>The queue\<close>

lemma db_keeps_adopt [db_keeps]: "keeps db_inv (adopt_mirror b3 p f)"
proof (rule keepsI)
  fix v assume v: "db_inv v"
  have 1: "keeps db_inv (bind_m (with_context ''Failed to checksum standby file''
      (checksum_file b3 s Streaming)) (\<lambda>s. if s \<noteq> tf_checksum f then unit_m (mirror_file b3 p (tf_relative_path f)) else return_m ()))" for s
    by (intro db_flow frame_unit_m db_keeps)
  have 2: "keeps db_inv (unit_m (mirror_file b3 p (tf_relative_path f)))" by (intro frame_unit_m db_keeps)
  show "db_inv (snd (adopt_mirror b3 p f v))"
    using keepsD [OF 1 v] keepsD [OF 2 v] by (simp add: adopt_mirror_def Let_def)
qed

lemma db_keeps_process [db_keeps]: "keeps db_inv (process_item b3 item)"
  unfolding process_item_def run_action_def finish_item_def Let_def
  by (intro db_flow frame_as_result frame_unit_m check_keeps db_keeps)

lemma db_keeps_publish [db_keeps]: "keeps db_inv publish_snapshot" "keeps db_inv (try_publish_queue_progress prev)"
proof -
  show p: "keeps db_inv publish_snapshot"
    by (simp add: keeps_def db_inv_def publish_snapshot_def snapshot_def bind_m_def Let_def)
  have "keeps db_inv instant_now" by (simp add: keeps_def db_inv_def instant_now_def)
  then show "keeps db_inv (try_publish_queue_progress prev)"
    unfolding try_publish_queue_progress_def by (intro db_flow p)
qed

lemma db_keeps_late [db_keeps]: "keeps db_inv (past_deadline d)"
  by (simp add: keeps_def db_inv_def)

lemma db_keeps_turn: "item_turn b3 has_bus stop_by prev item w = (t, prev', v) \<Longrightarrow> db_inv w \<Longrightarrow> db_inv v"
proof -
  assume a: "item_turn b3 has_bus stop_by prev item w = (t, prev', v)" "db_inv w"
  obtain r u where r: "past_deadline stop_by w = (r, u)" by fastforce
  have u: "db_inv u" using keepsD [OF db_keeps_late a(2)] r by (metis snd_conv)
  have x: "db_inv (snd (process_item b3 item u))" by (rule keepsD [OF db_keeps_process u])
  have "db_inv (snd (try_publish_queue_progress prev (snd (process_item b3 item u))))" by (rule keepsD [OF db_keeps_publish(2) x])
  then show "db_inv v"
    using a u x by (auto simp: item_turn_def r Let_def split: if_splits sum.splits bool.splits prod.splits)
qed

lemma db_keeps_groups:
  "run_groups b3 has_bus stop_by pick n gs count prev w = (c, prev', v) \<Longrightarrow> db_inv w \<Longrightarrow> db_inv v"
proof (induction b3 has_bus stop_by pick n gs count prev w arbitrary: c prev' v rule: run_groups.induct)
  case (1 b3 has_bus stop_by pick n gs count prev w)
  let ?k = "pick n mod length gs"
  note unf = run_groups.simps [of b3 has_bus stop_by pick n gs count prev w]
  show ?case
  proof (cases "gs = []")
    case True
    then show ?thesis using "1.prems" unfolding unf by simp
  next
    case ne: False
    show ?thesis
    proof (cases "gs ! ?k")
      case Nil
      have "run_groups b3 has_bus stop_by pick (Suc n) (drop_nth ?k gs) count prev w = (c, prev', v)"
        using "1.prems"(1) ne Nil unfolding unf by (simp add: Let_def)
      from "1.IH"(1) [OF ne refl Nil this "1.prems"(2)] show ?thesis .
    next
      case (Cons i rest)
      obtain t p u where t: "item_turn b3 has_bus stop_by prev i w = (t, p, u)" by (metis prod_cases3)
      have u: "db_inv u" by (rule db_keeps_turn [OF t "1.prems"(2)])
      show ?thesis
        using "1.prems"(1) ne Cons t u "1.IH"(2-4) [OF ne refl Cons t [symmetric] refl] unfolding unf
        by (cases t) (simp_all add: Let_def)
    qed
  qed
qed

lemma db_keeps_drain:
  "drain n b3 has_bus stop_by picks r prev k w = Some (x, v) \<Longrightarrow> db_inv w \<Longrightarrow> db_inv v"
proof (induction n arbitrary: r prev k w)
  case (Suc n)
  have g: "keeps db_inv (\<lambda>w. case run_groups b3 has_bus stop_by pick 0 gs 0 prev w of (count, prev', v) \<Rightarrow> (Inr (h, count, prev'), v))" for pick gs prev h
    by (rule keepsI) (auto split: prod.splits dest: db_keeps_groups)
  have "keeps db_inv (drain_round b3 has_bus stop_by (picks r) prev)"
    unfolding drain_round_def by (intro db_flow g db_keeps)
  then have "db_inv (snd (drain_round b3 has_bus stop_by (picks r) prev w))" using Suc.prems(2) by (rule keepsD)
  then show ?case using Suc.prems(1) Suc.IH by (auto split: prod.splits sum.splits if_splits)
qed simp

lemma db_keeps_all_pending:
  assumes "process_all_pending n b3 picks stop_by has_bus w = Some (x, v)" "db_inv w"
  shows "db_inv v"
proof -
  have rel: "db_inv u \<Longrightarrow> db_inv (snd (release_sync_processing_lock u))" for u by (rule keepsD [OF db_keeps_settings(4)])
  obtain r u where r: "try_acquire_sync_processing_lock lock_stale_after w = (r, u)" by fastforce
  have u: "db_inv u" using keepsD [OF db_keeps_settings(2) assms(2)] r by (metis snd_conv)
  obtain q y where q: "requeue_in_progress_sync_queue u = (q, y)" by fastforce
  have y: "db_inv y" using keepsD [OF db_keeps_queue(2) u] q by (metis snd_conv)
  show ?thesis
    using assms(1) r q u y rel db_keeps_drain [of n b3 has_bus stop_by picks 0 None 0 y]
    by (auto simp: process_all_pending_def split: sum.splits bool.splits)
qed

lemma db_keeps_resolve_copies: "keeps db_inv (resolve_copies b3 res p f src)"
  by (rule resolve_copies_keeps) (rule inv_fs_put)

lemma db_keeps_resolve [db_keeps]: "keeps db_inv (resolve_queue_item b3 i res src)"
proof -
  have w: "keeps db_inv (fs_write p c)" for p c by (rule fs_write_keeps) (rule inv_fs_put)
  show ?thesis
    unfolding resolve_queue_item_def accept_current_def resolve_untrack_def Let_def
    by (intro db_flow w db_keeps_resolve_copies db_keeps)
qed

lemma db_keeps_make_items [db_keeps]:
  "keeps db_inv (create_from_change i)" "keeps db_inv (create_for_new_tracking i)" "keeps db_inv (create_user_action_required i r e)"
  unfolding create_from_change_def create_for_new_tracking_def create_user_action_required_def
  by (intro db_flow db_keeps)+

lemma db_keeps_from_failure [db_keeps]: "keeps db_inv (create_from_integrity_failure f res)"
  unfolding create_from_integrity_failure_def
  by (cases "ic_status res") (simp_all add: keeps_return db_keeps)

subsection \<open>Integrity runs\<close>

lemma db_keeps_log_issue [db_keeps]: "keeps db_inv (log_issue p f res)"
  unfolding log_issue_def Let_def
  by (cases "ic_status res") (simp_all add: keeps_return keeps_seq keeps_discard db_keeps)

lemma db_keeps_result: "keeps db_inv (process_result b3 run_id recover p fr)"
  unfolding process_result_def record_result_def by (intro db_flow db_keeps)

lemma db_keeps_page: "keeps db_inv (run_page b3 meminfo run_id recover p page)"
proof -
  have "keeps db_inv (check_batch b3 meminfo p fs)" for fs by (simp add: keeps_def check_batch_def Let_def)
  then show ?thesis unfolding run_page_def by (intro db_flow db_keeps_result db_keeps)
qed

lemma db_keeps_stop: "keeps db_inv (check_should_stop run_id d)"
  unfolding check_should_stop_def stop_now_def by (intro db_flow db_keeps db_keeps_late)

lemma db_keeps_open [db_keeps]: "keeps db_inv (open_run scope recover trigger)"
  unfolding open_run_def by (intro db_flow db_keeps)


lemma db_keeps_finish [db_keeps]: "keeps db_inv (finish_run run_id)"
  unfolding finish_run_def Let_def by (intro db_flow db_keeps)

interpretation sound: run_frame db_inv
  by unfold_locales (rule db_keeps_page db_keeps_stop db_keeps_runs db_keeps_logs db_keeps_finish)+

lemma db_keeps_process_run:
  assumes "\<And>k w. db_inv w \<Longrightarrow> db_inv (others k w)"
    "process_run n b3 meminfo pool_ok others run_id d cfg w = Some (r, v)" "db_inv w"
  shows "db_inv v"
  using sound.inv_run [OF assms(1,3,2)] .

subsection \<open>Links and virtual paths\<close>

lemma db_keeps_links [db_keeps]: "keeps db_inv (create_symlink vp real b)" "keeps db_inv (remove_symlink vp)"
proof -
  show "keeps db_inv (create_symlink vp real b)" by (rule create_symlink_keeps) (rule inv_fs_put)
  have "keeps db_inv (remove_file vp)" by (rule remove_file_keeps) (rule inv_fs_put)
  then show "keeps db_inv (remove_symlink vp)"
    by (auto simp: keeps_def remove_symlink_def bail_def raise_m_def split: sum.splits option.splits)
qed

lemma db_keeps_pure [db_keeps]: "keeps db_inv (validate_virtual_path owner vp)" "keeps db_inv (lift_r r)"
proof -
  show "keeps db_inv (validate_virtual_path owner vp)" by (rule keeps_pure) (rule validate_pure)
qed (simp add: keeps_def lift_r_def)

lemma db_keeps_virtual_paths [db_keeps]:
  "keeps db_inv (set_virtual_path i vp)" "keeps db_inv (remove_virtual_path i)"
  "keeps db_inv (set_folder_virtual_path i vp)" "keeps db_inv (remove_folder_virtual_path i)"
  unfolding set_virtual_path_def remove_virtual_path_def set_folder_virtual_path_def remove_folder_virtual_path_def
    drop_previous_def Let_def
  by (intro db_flow db_keeps)+

subsection \<open>Changes\<close>

lemma db_keeps_metadata [db_keeps]: "keeps db_inv (metadata_len path)" "keeps db_inv (io msg)"
  by (auto simp: keeps_def metadata_len_def io_def raise_m_def split: option.splits)

lemma db_keeps_when: "keeps db_inv m \<Longrightarrow> keeps db_inv n \<Longrightarrow> keeps db_inv (\<lambda>w. (if b w then m else n) w)"
  "keeps db_inv m \<Longrightarrow> keeps db_inv n \<Longrightarrow> keeps db_inv (\<lambda>w. if b w then m w else n w)"
  by (simp_all add: keeps_def)

lemma db_keeps_changes [db_keeps]: "keeps db_inv (record_change p fh)" "keeps db_inv (scan_and_record_changes b3 p)"
proof -
  show r: "keeps db_inv (record_change p fh)" for fh
    unfolding record_change_def by (intro db_flow db_keeps_when db_keeps)
  have "scan_pages b3 p page cs w = (r, v) \<Longrightarrow> v = w" for page cs w r v
  proof (induction b3 p page cs w arbitrary: r v rule: scan_pages.induct)
    case (1 b3 p page changes w)
    note unf = scan_pages.simps [of b3 p page changes w]
    obtain fs n where l: "list_tracked_files (Some (dp_id p)) None None page changes_per_page w = (Inr (fs, n), w)"
      by (auto simp: list_tracked_files_def Let_def)
    obtain d u where d: "detect_changes b3 p fs w = (d, u)" by fastforce
    have u: "u = w" using detect_changes_state [of b3 p fs w] d by simp
    show ?case
      using "1.prems" "1.IH" [OF l [symmetric] refl refl _ d [symmetric]] u unfolding unf
      by (cases d) (auto simp: l d split: if_splits)
  qed
  then have "keeps db_inv (scan_all_changes b3 p)"
    by (auto simp: keeps_def scan_all_changes_def) (metis prod.collapse)
  then show "keeps db_inv (scan_and_record_changes b3 p)"
    unfolding scan_and_record_changes_def by (intro db_flow r)
qed

subsection \<open>Tracking\<close>

lemma db_keeps_readable [db_keeps]: "keeps db_inv (ensure_world_readable path)"
proof (rule keepsI)
  fix w assume w: "db_inv w"
  have "db_inv (set_mode k n w)" for k n
    using w by (simp add: set_mode_def inv_fs_put split: option.splits node.splits)
  then show "db_inv (snd (ensure_world_readable path w))"
    using w by (simp add: ensure_world_readable_def Let_def io_def raise_m_def with_context_def split: option.splits)
qed

lemma db_keeps_from_disk [db_keeps]: "keeps db_inv (create_tracked_file_from_disk b3 p path b c)"
proof -
  have "keeps db_inv (read_b3_sidecar x)" for x by (rule keeps_pure) (rule read_sidecar_pure)
  then show ?thesis unfolding create_tracked_file_from_disk_def Let_def
    by (intro db_keeps_when db_flow db_keeps)
qed

lemma db_keeps_mismatch [db_keeps]: "keeps db_inv (queue_b3_sidecar_mismatch p f m)"
  unfolding queue_b3_sidecar_mismatch_def by (intro db_flow db_keeps)

lemma db_keeps_allowed [db_keeps]: "keeps db_inv (require_pair_mutation_allowed p)"
  unfolding require_pair_mutation_allowed_def by (intro db_flow)

lemma db_keeps_by_path [db_keeps]: "keeps db_inv (get_tracked_file_by_path i path)"
  by (auto simp: keeps_def get_tracked_file_by_path_def raise_m_def split: option.splits)

lemma db_keeps_or_untrack: "keeps db_inv m \<Longrightarrow> keeps db_inv (or_untrack i m)"
  unfolding or_untrack_def by (intro db_flow db_keeps)

lemma db_keeps_done [db_keeps]: "keeps db_inv (Pair r)"
  by (simp add: keeps_def)

lemma db_keeps_track_file [db_keeps]: "keeps db_inv (track_file b3 p path vp)"
  unfolding track_file_def track_existing_def track_new_def
  by (intro db_keeps_when db_flow db_keeps_or_untrack db_keeps)

lemma db_keeps_track_folder [db_keeps]: "keeps db_inv (track_folder_with_options p path vp b)"
  unfolding track_folder_with_options_def Let_def by (intro db_keeps_when db_flow db_keeps)

lemma db_keeps_untrack_folder [db_keeps]: "keeps db_inv (untrack_folder_cascade i)"
  unfolding untrack_folder_cascade_def untrack_found_def Let_def by (intro db_flow db_keeps)

lemma walk_entries_keeps:
  assumes "\<And>path acc. keeps P (step path acc)"
  shows "keeps P (walk_entries step dir ns stack acc)"
proof (rule keepsI)
  fix w assume "P w"
  then show "P (snd (walk_entries step dir ns stack acc w))"
  proof (induction ns arbitrary: stack acc w)
    case (Cons n ns)
    have "keeps P (bind_m (step path acc) (\<lambda>acc'. walk_entries step dir ns stack acc'))" for path
      using Cons.IH by (intro keeps_bind assms) (simp add: keeps_def)
    then show ?case using Cons by (simp add: Let_def keeps_def)
  qed simp
qed

lemma walk_keeps:
  assumes "\<And>path acc. keeps P (step path acc)"
  shows "P w \<Longrightarrow> walk n ls step todo acc w = Some (r, v) \<Longrightarrow> P v"
  using assms
proof (induction n ls step todo acc w arbitrary: r v rule: walk.induct)
  case (3 n ls step dir stack acc w)
  have "P (snd (walk_entries step dir ns stack acc w))" for ns
    by (rule keepsD [where P = P, OF walk_entries_keeps "3.prems"(1)]) (rule "3.prems"(3))
  from this [of "case target (w_fs w) dir of None \<Rightarrow> [] | Some k \<Rightarrow> ls (w_fs w) k"] show ?case
    using 3 by (auto simp: io_def raise_m_def with_context_def split: if_splits sum.splits prod.splits)
qed simp_all

lemma after_walk_keeps:
  assumes "\<And>path acc. keeps P (step path acc)" "\<And>a. keeps P (k a)" "P w"
    "after_walk (walk n ls step todo acc w) k = Some (r, v)"
  shows "P v"
proof -
  obtain x u where w: "walk n ls step todo acc w = Some (x, u)" and v: "(case x of Inl e \<Rightarrow> (Inl e, u) | Inr a \<Rightarrow> k a u) = (r, v)"
    using assms(4) by (auto simp: after_walk_def)
  have "P u" by (rule walk_keeps [where P = P, OF assms(1) assms(3) w])
  then show ?thesis using v keepsD [where P = P, OF assms(2)] by (auto split: sum.splits) (metis snd_conv)
qed

lemma db_keeps_adopt_new [db_keeps]: "keeps db_inv (adopt_new_file b3 p path)"
proof -
  have "keeps db_inv (\<lambda>w. (case m of Some m \<Rightarrow> queue_b3_sidecar_mismatch p f m
       | None \<Rightarrow> (if b w then bind_m (create_for_new_tracking i) (\<lambda>_. return_m ())
                  else update_tracked_file_mirror_status i False)) w)" for m f b i
    by (cases m) (simp_all add: db_keeps db_keeps_when keeps_bind keeps_return)
  then show ?thesis unfolding adopt_new_file_def by (intro db_flow db_keeps)
qed

lemma db_keeps_scan_done: "keeps db_inv (scan_done p f x)"
  unfolding scan_done_def by (intro db_flow db_keeps)

lemma db_keeps_relative: "keeps db_inv (relative_path_for_entry path p)"
  unfolding relative_path_for_entry_def by (intro db_flow)

lemma allowed_cases:
  obtains (refused) e where "require_pair_mutation_allowed p w = (Inl e, w)"
  | (allowed) "require_pair_mutation_allowed p w = (Inr (), w)"
  by (cases "is_quiescing p") (simp_all add: require_pair_mutation_allowed_def bail_def raise_m_def return_m_def)

lemma db_keeps_auto_track:
  assumes "auto_track_folder_files n ls b3 p f w = Some (r, v)" "db_inv w"
  shows "db_inv v"
proof -
  have "keeps db_inv (auto_track_entry b3 p f path fs)" for path fs
    unfolding auto_track_entry_def by (intro db_flow db_keeps_relative db_keeps)
  note walked = after_walk_keeps [where P = db_inv, OF this db_keeps_scan_done]
  show ?thesis using assms walked
    by (cases rule: allowed_cases [of p w]) (auto simp: auto_track_folder_files_def)
qed

lemma db_keeps_scan_folder:
  assumes "scan_tracked_folder n ls b3 p f on_progress w = Some (r, v)" "db_inv w" "\<And>k. keeps db_inv (on_progress k)"
  shows "db_inv v"
proof -
  have k: "keeps db_inv (rescan_known b3 p path rel e)" for path rel e
    unfolding rescan_known_def by (intro db_keeps_when db_flow db_keeps)
  have e: "keeps db_inv (case e of QueryReturnedNoRows \<Rightarrow> m | Constraint l \<Rightarrow> raise_m (Constraint l) | Bail l \<Rightarrow> raise_m (Bail l)
      | Io l \<Rightarrow> raise_m (Io l))" if "keeps db_inv m" for e and m :: "scan_state prog"
    using that by (cases e) (simp_all add: keeps_raise)
  have "keeps db_inv (scan_entry b3 p f on_progress path s)" for path s
    unfolding scan_entry_def Let_def by (intro e db_flow k db_keeps_relative assms(3) db_keeps)
  note walked = after_walk_keeps [where P = db_inv, OF this db_keeps_scan_done]
  show ?thesis using assms(1,2) walked
    by (cases rule: allowed_cases [of p w]) (auto simp: scan_tracked_folder_def)
qed

subsection \<open>Every reachable database is well formed\<close>

text \<open>
  The program runs many threads and processes; each statement is atomic and any of them may come next, with any arguments,
  between any two statements or as part of a whole operation. \<open>outside\<close> is whatever leaves the database alone: the
  clock, users and other programs changing files, processes ending.
\<close>

inductive db_step :: "digest \<Rightarrow> listing \<Rightarrow> world \<Rightarrow> world \<Rightarrow> bool" for b3 ls where
  outside: "w_db v = w_db w \<Longrightarrow> db_step b3 ls w v"
| pairs: "m \<in> {discard (create_drive_pair_with_media name pp sp pm sm), discard (update_drive_pair_with_media i name' pp' sp' pm' sm'),
      delete_drive_pair i, discard (update_drive_pair_runtime i pp' sp' ps ss ar), mark_drive_pair_unmirrored i}
    \<Longrightarrow> db_step b3 ls w (snd (m w))"
| files: "m \<in> {discard (create_tracked_file_with_source i path h len vp direct via), update_tracked_file_checksum i h len,
      update_tracked_file_mirror_status i flag, update_tracked_file_virtual_path i vp, update_tracked_file_sources i direct via,
      update_tracked_file_last_integrity_check_at i, delete_tracked_file i, recompute_folder_provenance_for_drive i}
    \<Longrightarrow> db_step b3 ls w (snd (m w))"
| folders: "m \<in> {discard (create_tracked_folder_with_sidecars i path vp flag), discard (update_tracked_folder i change), delete_tracked_folder i,
      discard (start_folder_scan i n), discard (start_folder_mirror i n), discard (start_folder_delete i), update_scan_progress i n,
      discard (finish_folder_scan i), clear_folder_delete i, update_mirror_progress i n, discard (finish_folder_mirror i),
      mark_tracked_folder_scanned i, delete_folder_cascade_tx i file_ids, discard reset_stale_folder_flags}
    \<Longrightarrow> db_step b3 ls w (snd (m w))"
| items: "m \<in> {discard (create_sync_queue_item_with_reason_and_error i action reason e),
      discard (create_sync_queue_item_dedup_with_reason_and_error_with_created i action reason e), update_sync_queue_status i status e,
      discard clear_completed_sync_queue, discard requeue_in_progress_sync_queue, discard (complete_pending_mirror_queue_for_file i),
      discard (start_pending_mirror_queue_for_file i), discard (fail_pending_mirror_queue_for_file i msg),
      discard (fail_pending_sync_queue_for_drive_pair i msg), set_sync_queue_paused flag,
      discard (try_acquire_sync_processing_lock n), heartbeat_sync_processing_lock, release_sync_processing_lock}
    \<Longrightarrow> db_step b3 ls w (snd (m w))"
| log: "db_step b3 ls w (snd (create_event_log event file_id msg details w))"
| runs: "m \<in> {discard (create_integrity_run scope recover trigger n), set_integrity_run_active_workers i n, request_integrity_run_stop i,
      finish_integrity_run i status e, increment_integrity_run_progress i n k, discard cleanup_stale_integrity_runs,
      discard (append_integrity_run_result i file_id pair_id path status flag flag')}
    \<Longrightarrow> db_step b3 ls w (snd (m w))"
| drives: "m \<in> {discard (load_operational_pair i), discard (mark_drive_quiescing i role), discard (cancel_drive_quiescing i role),
      discard (confirm_drive_failure i role), discard (assign_replacement_drive i role path), discard (maybe_finalize_rebuild_for_action i action)}
    \<Longrightarrow> db_step b3 ls w (snd (m w))"
| copies: "m \<in> {discard (mirror_file b3 p path), discard (restore_from_mirror b3 p path h), discard (restore_mirror_from_master b3 p path h),
      discard (attempt_recovery_with_reconciliation b3 p f res)}
    \<Longrightarrow> db_step b3 ls w (snd (m w))"
| queue: "process_all_pending n b3 picks stop_by has_bus w = Some (x, v) \<Longrightarrow> db_step b3 ls w v"
| resolve: "m \<in> {discard (resolve_queue_item b3 i resolution path), discard (create_from_integrity_failure f res), discard (create_from_change i),
      discard (create_for_new_tracking i), discard (create_user_action_required i msg msg')}
    \<Longrightarrow> db_step b3 ls w (snd (m w))"
| run_thread: "m \<in> {discard (open_run scope recover trigger), discard (check_should_stop i deadline), discard (run_page b3 meminfo i recover p n),
      finish_run i} \<Longrightarrow> db_step b3 ls w (snd (m w))"
| links: "m \<in> {set_virtual_path i path, remove_virtual_path i, set_folder_virtual_path i path, remove_folder_virtual_path i}
    \<Longrightarrow> db_step b3 ls w (snd (m w))"
| tracking: "m \<in> {discard (scan_and_record_changes b3 p), discard (track_file b3 p path vp), discard (track_folder_with_options p path vp flag),
      discard (untrack_folder_cascade i)}
    \<Longrightarrow> db_step b3 ls w (snd (m w))"
| auto_track: "auto_track_folder_files n ls b3 p f w = Some (r, v) \<Longrightarrow> db_step b3 ls w v"
| scan: "scan_tracked_folder n ls b3 p f (update_scan_progress i) w = Some (s, v) \<Longrightarrow> db_step b3 ls w v"

text \<open>The worlds a database that was created empty can reach.\<close>

inductive db_reachable :: "digest \<Rightarrow> listing \<Rightarrow> world \<Rightarrow> bool" for b3 ls where
  fresh: "w_db w = empty_db \<Longrightarrow> db_reachable b3 ls w"
| step: "db_reachable b3 ls w \<Longrightarrow> db_step b3 ls w v \<Longrightarrow> db_reachable b3 ls v"

lemma db_step_keeps: "db_step b3 ls w v \<Longrightarrow> db_inv w \<Longrightarrow> db_inv v"
proof (induction rule: db_step.induct)
  case (outside v w) then show ?case by (simp add: db_inv_def)
next
  case (pairs m) then show ?case by (elim insertE emptyE) (simp_all add: db_keeps keeps_discard keepsD)
next
  case (files m) then show ?case by (elim insertE emptyE) (simp_all add: db_keeps keeps_discard keepsD)
next
  case (folders m) then show ?case by (elim insertE emptyE) (simp_all add: db_keeps keeps_discard keepsD)
next
  case (items m) then show ?case by (elim insertE emptyE) (simp_all add: db_keeps keeps_discard keepsD)
next
  case log then show ?case by (rule keepsD [OF db_keeps_create_event])
next
  case (runs m) then show ?case by (elim insertE emptyE) (simp_all add: db_keeps keeps_discard keepsD)
next
  case (drives m) then show ?case by (elim insertE emptyE) (simp_all add: db_keeps keeps_discard keepsD)
next
  case (copies m) then show ?case by (elim insertE emptyE) (simp_all add: db_keeps keeps_discard keepsD)
next
  case queue then show ?case by (auto dest: db_keeps_all_pending)
next
  case (resolve m) then show ?case by (elim insertE emptyE) (simp_all add: db_keeps keeps_discard keepsD)
next
  case (run_thread m)
  then show ?case by (elim insertE emptyE) (simp_all add: db_keeps db_keeps_page db_keeps_stop keeps_discard keepsD)
next
  case (links m) then show ?case by (elim insertE emptyE) (simp_all add: db_keeps keeps_discard keepsD)
next
  case (tracking m) then show ?case by (elim insertE emptyE) (simp_all add: db_keeps keeps_discard keepsD)
next
  case auto_track then show ?case by (auto dest: db_keeps_auto_track)
next
  case scan then show ?case using db_keeps_scan_folder db_keeps_folders(4) by blast
qed



end
