(* ===== verification/Tracker_Correct.thy ===== *)
theory Tracker_Correct
  imports Db_Operations
begin

section \<open>Tracking, proved\<close>

text \<open>
  What tracking a file or a folder does to the rows, on success and on failure, and what untracking a folder takes away.
\<close>

subsection \<open>What leaves the keys of the files alone\<close>

definition row_key :: "tracked_file \<Rightarrow> int \<times> int \<times> string" where
  "row_key f = (tf_id f, tf_drive_pair_id f, tf_relative_path f)"

definition keys_are :: "(int \<times> int \<times> string) list \<Rightarrow> int \<Rightarrow> world \<Rightarrow> bool" where
  "keys_are ks nx w = (map row_key (db_files (w_db w)) = ks \<and> nx_file (w_db w) = nx)"

lemma keys_refl: "keys_are (map row_key (db_files (w_db w))) (nx_file (w_db w)) w"
  by (simp add: keys_are_def)

lemma keysI: "(\<And>v. db_files (w_db (snd (m v))) = db_files (w_db v) \<and> nx_file (w_db (snd (m v))) = nx_file (w_db v)) \<Longrightarrow> keeps (keys_are ks nx) m"
  by (simp add: keeps_def keys_are_def)

lemma keys_fs_put: "keys_are ks nx w \<Longrightarrow> keys_are ks nx (fs_put k n w)"
  by (simp add: keys_are_def)

named_theorems key_keeps

lemma keys_update_files [key_keeps]:
  assumes "\<And>f. row_key (g f) = row_key f"
  shows "keeps (keys_are ks nx) (update_files P g)"
proof -
  have "map row_key (upd_where P (\<lambda>f. (g f)\<lparr>tf_updated_at := t\<rparr>) fs) = map row_key fs" for t fs
    by (rule map_upd_where) (use assms in \<open>simp add: row_key_def\<close>)
  then show ?thesis by (simp add: keeps_def keys_are_def)
qed

lemma keys_files [key_keeps]:
  "keeps (keys_are ks nx) (mark_drive_pair_unmirrored i)" "keeps (keys_are ks nx) (update_tracked_file_checksum i c n)"
  "keeps (keys_are ks nx) (update_tracked_file_mirror_status i b)" "keeps (keys_are ks nx) (update_tracked_file_virtual_path i v)"
  "keeps (keys_are ks nx) (update_tracked_file_sources i b c')"
  unfolding mark_drive_pair_unmirrored_def update_tracked_file_checksum_def update_tracked_file_mirror_status_def
    update_tracked_file_virtual_path_def update_tracked_file_sources_def
  by (rule keys_update_files; simp add: row_key_def)+

lemma keys_logs: "logs_only m \<Longrightarrow> keeps (keys_are ks nx) m"
  by (rule keysI) simp

lemma keys_log_calls [key_keeps]:
  "keeps (keys_are ks nx) (log_event t i' m d')" "keeps (keys_are ks nx) (log_drive_failover i r1 r2 r3)"
  "keeps (keys_are ks nx) (log_sync_failed i r1 r2 r3)" "keeps (keys_are ks nx) (log_file_tracked i path)"
  "keeps (keys_are ks nx) (log_file_untracked i path)" "keeps (keys_are ks nx) (log_folder_untracked i path)"
  "keeps (keys_are ks nx) (log_folder_tracked i path j)"
  by (rule keys_logs, simp)+

lemma keys_refresh [key_keeps]: "keeps (keys_are ks nx) (refresh_pair_virtual_paths p)"
  unfolding refresh_pair_virtual_paths_def by (intro keeps_bind keeps_return refresh_all_keeps keys_fs_put)

lemma keys_pairs [key_keeps]: "keeps (keys_are ks nx) (update_drive_pair_runtime i a b c d e)"
proof -
  have "keeps (keys_are ks nx) (update_pair i f)" for f by (rule keysI) simp
  moreover have "keeps (keys_are ks nx) (bind_m (gets_m g) (\<lambda>h. check_m (b h) c))" for g b c
    by (intro keeps_bind keeps_gets check_m_keeps)
  ultimately show ?thesis unfolding update_drive_pair_runtime_def
    by (intro keeps_seq opt_m_keeps pairs.keeps_get)
qed

lemma keys_queue [key_keeps]:
  "keeps (keys_are ks nx) (fail_pending_sync_queue_for_drive_pair i e)"
  "keeps (keys_are ks nx) (create_sync_queue_item_with_reason_and_error i a r e')"
  by (rule keysI; simp add: fail_pending_sync_queue_for_drive_pair_def update_queue_counted_def update_queue_def
      create_sync_queue_item_with_reason_and_error_def Let_def queue.get_state push_item_def)+

lemma keys_dedup [key_keeps]: "keeps (keys_are ks nx) (create_sync_queue_item_dedup_with_reason_and_error_with_created i a r e)"
proof (rule keepsI)
  fix w assume w: "keys_are ks nx w"
  have "keeps (keys_are ks nx) (bind_m (get_sync_queue_item j) (\<lambda>item. return_m (item, False)))" for j
    by (intro keeps_bind queue.keeps_get keeps_return)
  moreover have "keeps (keys_are ks nx) (bind_m (create_sync_queue_item_with_reason_and_error i a r e) (\<lambda>item. return_m (item, True)))"
    by (intro keeps_bind keys_queue keeps_return)
  ultimately show "keys_are ks nx (snd (create_sync_queue_item_dedup_with_reason_and_error_with_created i a r e w))"
    using w by (simp add: create_sync_queue_item_dedup_with_reason_and_error_with_created_def keeps_def split: option.splits)
qed

lemma keys_make_items [key_keeps]:
  "keeps (keys_are ks nx) (create_from_change i)" "keeps (keys_are ks nx) (create_for_new_tracking i)"
  "keeps (keys_are ks nx) (create_user_action_required i r e)"
  unfolding create_from_change_def create_for_new_tracking_def create_user_action_required_def
    create_sync_queue_item_dedup_def create_sync_queue_item_dedup_with_created_def create_sync_queue_item_dedup_with_reason_def
  by (intro db_flow key_keeps)+

lemma keys_load [key_keeps]: "keeps (keys_are ks nx) (load_operational_pair i)"
proof -
  have "keeps (keys_are ks nx) (bind_m (update_drive_pair_runtime (dp_id p) None None x y z) (\<lambda>updated.
             seq_m (mark_drive_pair_unmirrored (dp_id p))
            (seq_m (discard (fail_pending_sync_queue_for_drive_pair (dp_id p) msg))
            (seq_m (discard (refresh_pair_virtual_paths updated))
            (seq_m (discard (log_drive_failover (dp_id p) r1 r2 r3))
            (get_drive_pair (dp_id p)))))))" for p x y z msg r1 r2 r3
    by (intro db_flow key_keeps)
  note failover = keepsD [OF this]
  have "keeps (keys_are ks nx) (maybe_emergency_failover p)" for p
    by (rule keepsI) (simp add: maybe_emergency_failover_def Let_def failover)
  then show ?thesis unfolding load_operational_pair_def by (intro db_flow)
qed

lemma keys_links [key_keeps]: "keeps (keys_are ks nx) (create_symlink vp real b)" "keeps (keys_are ks nx) (remove_symlink vp)"
proof -
  show "keeps (keys_are ks nx) (create_symlink vp real b)" by (rule create_symlink_keeps) (rule keys_fs_put)
  have "keeps (keys_are ks nx) (remove_file vp)" by (rule remove_file_keeps) (rule keys_fs_put)
  then show "keeps (keys_are ks nx) (remove_symlink vp)"
    by (auto simp: keeps_def remove_symlink_def bail_def raise_m_def split: sum.splits option.splits)
qed

lemma keys_pure [key_keeps]: "keeps (keys_are ks nx) (validate_virtual_path owner vp)" "keeps (keys_are ks nx) (lift_r r)"
proof -
  show "keeps (keys_are ks nx) (validate_virtual_path owner vp)" by (rule keeps_pure) (rule validate_pure)
qed (simp add: keeps_def lift_r_def)

lemma keys_set_path [key_keeps]: "keeps (keys_are ks nx) (set_virtual_path i vp)"
  unfolding set_virtual_path_def drop_previous_def Let_def by (intro db_flow key_keeps)

lemma keys_mismatch [key_keeps]: "keeps (keys_are ks nx) (queue_b3_sidecar_mismatch p f m)"
  unfolding queue_b3_sidecar_mismatch_def by (intro db_flow key_keeps)

lemma keys_allowed [key_keeps]: "keeps (keys_are ks nx) (require_pair_mutation_allowed p)"
  unfolding require_pair_mutation_allowed_def by (intro db_flow)

lemma keys_marker [key_keeps]: "keeps (keys_are ks nx) (ensure_drive_root_marker r)"
  by (rule ensure_marker_keeps) (rule keys_fs_put)

lemma keys_readable [key_keeps]: "keeps (keys_are ks nx) (ensure_world_readable path)"
proof (rule keepsI)
  fix w assume w: "keys_are ks nx w"
  have "keys_are ks nx (set_mode k n w)" for k n
    using w by (simp add: set_mode_def keys_fs_put split: option.splits node.splits)
  then show "keys_are ks nx (snd (ensure_world_readable path w))"
    using w by (simp add: ensure_world_readable_def Let_def io_def raise_m_def with_context_def split: option.splits)
qed

lemma keys_track_existing: "keeps (keys_are ks nx) (track_existing p f path vp)"
  unfolding track_existing_def by (intro db_flow key_keeps)

subsection \<open>Failed tracking\<close>

lemma bind_m_Inl:
  "bind_m m k s = (Inl e, t) \<longleftrightarrow> m s = (Inl e, t) \<or> (\<exists>x u. m s = (Inr x, u) \<and> k x u = (Inl e, t))"
  by (auto simp: bind_m_def split: prod.splits sum.splits)

lemma seq_m_Inl:
  "seq_m m k s = (Inl e, t) \<longleftrightarrow> m s = (Inl e, t) \<or> (\<exists>x u. m s = (Inr x, u) \<and> k u = (Inl e, t))"
  by (simp add: seq_m_def bind_m_Inl)

text \<open>Taking the last row away again, which has the highest id.\<close>

lemma keys_undo:
  assumes "keys_are (ks @ [(n, a, b)]) nx w" "\<And>k. k \<in> set ks \<Longrightarrow> fst k \<noteq> n"
  shows "keys_are ks nx (snd (delete_tracked_file n w))"
proof -
  have "map row_key (filter (\<lambda>f. tf_id f \<noteq> n) fs) = filter (\<lambda>k. fst k \<noteq> n) (map row_key fs)" for fs
    by (induction fs) (simp_all add: row_key_def)
  moreover have "filter (\<lambda>k. fst k \<noteq> n) ks = ks" using assms(2) by (induction ks) auto
  ultimately show ?thesis using assms(1)
    by (simp add: keys_are_def delete_tracked_file_def drop_file_rows_def drop_file_queue_def)
qed

text \<open>A computation that starts where \<open>P\<close> holds ends with an answer and a state that satisfy \<open>Q\<close>.\<close>

definition ends :: "('s \<Rightarrow> bool) \<Rightarrow> (err + 'a \<Rightarrow> 's \<Rightarrow> bool) \<Rightarrow> ('s, 'a) m \<Rightarrow> bool" where
  "ends P Q m = (\<forall>s. P s \<longrightarrow> Q (fst (m s)) (snd (m s)))"

lemma ends_bind:
  assumes "keeps P m" "\<And>e s. P s \<Longrightarrow> Q (Inl e) s" "\<And>x. ends P Q (k x)"
  shows "ends P Q (bind_m m k)"
  unfolding ends_def
proof (intro allI impI)
  fix s assume s: "P s"
  obtain r t where r: "m s = (r, t)" by fastforce
  have "P t" using keeps_result [OF assms(1) s r] .
  then show "Q (fst (bind_m m k s)) (snd (bind_m m k s))"
    using r assms(2,3) by (cases r) (auto simp: bind_m_def ends_def)
qed

lemma ends_seq:
  assumes "keeps P m" "\<And>e s. P s \<Longrightarrow> Q (Inl e) s" "ends P Q k"
  shows "ends P Q (seq_m m k)"
  unfolding seq_m_def using assms by (intro ends_bind)

lemma ends_prod: "(\<And>x y. v = (x, y) \<Longrightarrow> ends P Q (k x y)) \<Longrightarrow> ends P Q (case v of (x, y) \<Rightarrow> k x y)"
  by (simp split: prod.splits)

lemma endsD: "ends P Q m \<Longrightarrow> P s \<Longrightarrow> m s = (r, t) \<Longrightarrow> Q r t"
  by (auto simp: ends_def dest!: spec [of _ s])

lemma ends_keeps: "keeps P m \<Longrightarrow> (\<And>r s. P s \<Longrightarrow> Q r s) \<Longrightarrow> ends P Q m"
  by (simp add: ends_def keeps_def)

lemma ends_weaken: "ends P Q m \<Longrightarrow> (\<And>r s. Q r s \<Longrightarrow> Q' r s) \<Longrightarrow> ends P Q' m"
  by (simp add: ends_def)

lemma ends_when:
  "ends P Q m \<Longrightarrow> ends P Q n \<Longrightarrow> ends P Q (\<lambda>w. if b w then m w else n w)"
  by (simp add: ends_def)

lemma ends_bail: "(\<And>s. P s \<Longrightarrow> Q (Inl (Bail msg)) s) \<Longrightarrow> ends P Q (bail msg)"
  by (simp add: ends_def)

text \<open>The rows after a file was created, when the ids in use are below the next one.\<close>

definition new_row :: "(int \<times> int \<times> string) list \<Rightarrow> int \<Rightarrow> int \<Rightarrow> string \<Rightarrow> tracked_file \<Rightarrow> world \<Rightarrow> bool" where
  "new_row ks nx i path f v = (keys_are (ks @ [(nx, i, path)]) (nx + 1) v \<and> tf_id f = nx)"

lemma create_file_ends:
  "ends (keys_are ks nx) (\<lambda>r v. case r of Inl e \<Rightarrow> keys_are ks nx v | Inr f \<Rightarrow> new_row ks nx i path f v)
     (create_tracked_file_with_source i path c n vp b1 b2)"
  unfolding ends_def
proof (intro allI impI)
  fix w :: world assume w: "keys_are ks nx w"
  let ?m = "create_tracked_file_with_source i path c n vp b1 b2 w"
  let ?taken = "\<exists>f \<in> set (db_files (w_db w)). tf_drive_pair_id f = i \<and> tf_relative_path f = path"
  show "case fst ?m of Inl e \<Rightarrow> keys_are ks nx (snd ?m) | Inr f \<Rightarrow> new_row ks nx i path f (snd ?m)"
  proof (cases "?taken \<or> \<not> has_pair i w")
    case True
    then show ?thesis using w by (auto simp: create_tracked_file_with_source_def Let_def)
  next
    case False
    obtain v where v: "?m = get_tracked_file nx v" and k: "keys_are (ks @ [(nx, i, path)]) (nx + 1) v"
    proof (rule that)
      show "?m = get_tracked_file nx (w\<lparr>w_db := (w_db w)\<lparr>db_files := db_files (w_db w) @
          [\<lparr>tf_id = nx, tf_drive_pair_id = i, tf_relative_path = path, tf_checksum = c,
            tf_file_size = n, tf_virtual_path = vp, tf_is_mirrored = False,
            tf_tracked_direct = b1, tf_tracked_via_folder = b2,
            tf_last_integrity_check_at = None, tf_created_at = w_now w, tf_updated_at = w_now w\<rparr>],
          nx_file := nx + 1\<rparr>\<rparr>)"
        using False w by (auto simp: create_tracked_file_with_source_def Let_def keys_are_def)
    qed (use w in \<open>simp add: keys_are_def row_key_def\<close>)
    have "nx \<in> tf_id ` set (db_files (w_db v))"
    proof -
      have "(nx, i, path) \<in> set (map row_key (db_files (w_db v)))" using k by (simp add: keys_are_def)
      then show ?thesis by (auto simp: row_key_def)
    qed
    then obtain f where "get_tracked_file nx v = (Inr f, v)" using files.get_found [of _ v] by auto
    then show ?thesis using v k files.get_id by (simp add: new_row_def)
  qed
qed

lemma from_disk_ends:
  "ends (keys_are ks nx) (\<lambda>r v. case r of Inl e \<Rightarrow> keys_are ks nx v | Inr fm \<Rightarrow> new_row ks nx (dp_id p) path (fst fm) v)
     (create_tracked_file_from_disk b3 p path b1 b2)"
proof -
  let ?Q = "\<lambda>r v. case r of Inl e \<Rightarrow> keys_are ks nx v | Inr fm \<Rightarrow> new_row ks nx (dp_id p) path (fst fm) v"
  have c: "keeps (keys_are ks nx) (with_context x (checksum_file b3 a st))" for x a st
    by (intro keeps_with_context keeps_pure checksum_pure)
  have d: "keeps (keys_are ks nx) (try_m (read_b3_sidecar a))" for a by (intro keeps_try keeps_pure read_sidecar_pure)
  have m: "keeps (keys_are ks nx) (metadata_len a)" for a
    by (auto simp: keeps_def metadata_len_def io_def split: option.splits)
  have k: "ends (keys_are ks nx) ?Q (bind_m (create_tracked_file_with_source (dp_id p) path h n None b1 b2) (\<lambda>file. return_m (file, mm)))"
    for h n mm
    using create_file_ends [of ks nx "dp_id p" path h n None b1 b2]
    by (auto simp: ends_def bind_m_def split: prod.splits sum.splits)
  show ?thesis unfolding create_tracked_file_from_disk_def Let_def
    by (intro ends_when ends_bail ends_seq ends_bind keys_readable c d m k) simp_all
qed

lemma set_path_ends:
  "ends (new_row ks nx i path f) (\<lambda>r. new_row ks nx i path f) m" if "keeps (keys_are (ks @ [(nx, i, path)]) (nx + 1)) m"
  using that by (simp add: ends_def new_row_def keeps_def)

lemma or_untrack_ends:
  assumes "\<And>ks nx. keeps (keys_are ks nx) m" "\<forall>k \<in> set ks. fst k \<noteq> nx"
  shows "ends (new_row ks nx i path f) (\<lambda>r v. case r of Inl e \<Rightarrow> keys_are ks (nx + 1) v | Inr _ \<Rightarrow> new_row ks nx i path f v)
    (or_untrack (tf_id f) m)"
  unfolding ends_def
proof (intro allI impI)
  fix w assume w: "new_row ks nx i path f w"
  obtain r v where r: "m w = (r, v)" by fastforce
  have v: "new_row ks nx i path f v" using w keeps_result [OF assms(1) _ r] by (simp add: new_row_def)
  have "keys_are ks (nx + 1) (snd (delete_tracked_file nx v))"
    using v assms(2) by (intro keys_undo) (auto simp: new_row_def)
  then show "case fst (or_untrack (tf_id f) m w) of Inl e \<Rightarrow> keys_are ks (nx + 1) (snd (or_untrack (tf_id f) m w))
      | Inr _ \<Rightarrow> new_row ks nx i path f (snd (or_untrack (tf_id f) m w))"
    using r v by (cases r) (simp_all add: or_untrack_def bind_m_def try_m_def new_row_def)
qed


lemma ends_after:
  assumes "ends P R m" "\<And>e s. R (Inl e) s \<Longrightarrow> Q (Inl e) s" "\<And>x. ends (R (Inr x)) Q (k x)"
  shows "ends P Q (bind_m m k)"
  unfolding ends_def
proof (intro allI impI)
  fix s assume s: "P s"
  obtain r t where r: "m s = (r, t)" by fastforce
  have "R r t" using endsD [OF assms(1) s r] .
  then show "Q (fst (bind_m m k s)) (snd (bind_m m k s))"
    using r assms(2,3) by (cases r) (auto simp: bind_m_def ends_def)
qed

lemma ends_after_seq:
  "ends P R m \<Longrightarrow> (\<And>e s. R (Inl e) s \<Longrightarrow> Q (Inl e) s) \<Longrightarrow> (\<And>x. ends (R (Inr x)) Q k) \<Longrightarrow> ends P Q (seq_m m k)"
  unfolding seq_m_def by (rule ends_after)

lemma opt_undo_ends:
  assumes "\<And>y ks nx. keeps (keys_are ks nx) (m y)" "\<forall>k \<in> set ks. fst k \<noteq> nx"
  shows "ends (new_row ks nx i path f) (\<lambda>r v. case r of Inl e \<Rightarrow> keys_are ks (nx + 1) v | Inr _ \<Rightarrow> new_row ks nx i path f v)
    (opt_m x (\<lambda>y. or_untrack (tf_id f) (m y)))"
proof (cases x)
  case None
  then show ?thesis by (simp add: ends_def opt_m_def)
next
  case (Some y)
  then show ?thesis using or_untrack_ends [OF assms] by (simp add: opt_m_def)
qed

text \<open>A new file is tracked, or its row is gone.\<close>

lemma track_new_ends:
  assumes "\<forall>k \<in> set ks. fst k \<noteq> nx"
  shows "ends (keys_are ks nx) (\<lambda>r v. case r of Inl e \<Rightarrow> \<exists>nx. keys_are ks nx v | Inr f \<Rightarrow> new_row ks nx (dp_id p) path f v)
    (track_new b3 p path vp)"
proof -
  let ?Q = "\<lambda>r v. case r of Inl e \<Rightarrow> \<exists>nx. keys_are ks nx v | Inr f \<Rightarrow> new_row ks nx (dp_id p) path f v"
  let ?N = "new_row ks nx (dp_id p) path"
  let ?U = "\<lambda>f r v. case r of Inl e \<Rightarrow> keys_are ks (nx + 1) v | Inr _ \<Rightarrow> ?N f v"
  have get: "ends (?N f) ?Q (get_tracked_file (tf_id f))" for f
    unfolding ends_def
  proof (intro allI impI)
    fix v assume v: "?N f v"
    have "(nx, dp_id p, path) \<in> set (map row_key (db_files (w_db v)))" using v by (simp add: new_row_def keys_are_def)
    then have "nx \<in> tf_id ` set (db_files (w_db v))" by (auto simp: row_key_def)
    then obtain g where g: "get_tracked_file nx v = (Inr g, v)" using files.get_found [of _ v] by auto
    then show "?Q (fst (get_tracked_file (tf_id f) v)) (snd (get_tracked_file (tf_id f) v))"
      using v files.get_id [OF g] by (simp add: new_row_def)
  qed
  have rest: "ends (?N f) ?Q (seq_m (discard (log_file_tracked (tf_id f) x)) (get_tracked_file (tf_id f)))" for f x
  proof -
    have "?N f (snd (log_file_tracked (tf_id f) x s))" if "?N f s" for s
      using that by (simp add: new_row_def keys_are_def)
    then show ?thesis using get [of f] unfolding ends_def seq_m_discard by simp
  qed
  have path: "ends (?N f) (?U f) (opt_m vp (\<lambda>v. or_untrack (tf_id f) (set_virtual_path (tf_id f) v)))" for f
    by (rule opt_undo_ends [OF keys_set_path assms])
  have side: "ends (?N f) (?U f) (opt_m mm (\<lambda>m. or_untrack (tf_id f) (queue_b3_sidecar_mismatch p f m)))" for f mm
    by (rule opt_undo_ends [OF keys_mismatch assms])
  have body: "ends (?N f) ?Q (seq_m (opt_m vp (\<lambda>v. or_untrack (tf_id f) (set_virtual_path (tf_id f) v)))
      (seq_m (opt_m mm (\<lambda>m. or_untrack (tf_id f) (queue_b3_sidecar_mismatch p f m)))
      (seq_m (discard (log_file_tracked (tf_id f) x)) (get_tracked_file (tf_id f)))))" for f mm x
  proof (rule ends_after_seq [OF path])
    show "ends (\<lambda>v. case Inr y of Inl e \<Rightarrow> keys_are ks (nx + 1) v | Inr _ \<Rightarrow> ?N f v) ?Q
        (seq_m (opt_m mm (\<lambda>m. or_untrack (tf_id f) (queue_b3_sidecar_mismatch p f m)))
        (seq_m (discard (log_file_tracked (tf_id f) x)) (get_tracked_file (tf_id f))))" for y :: unit
      unfolding sum.case by (rule ends_after_seq [OF side]) (use rest [of f x] in auto)
  qed auto
  show ?thesis unfolding track_new_def
    by (rule ends_after [OF from_disk_ends]) (use body in \<open>auto split: prod.splits\<close>)
qed

text \<open>C28: A failed attempt to track a file leaves the rows as they were: whatever step fails (a missing file, a violated constraint,
  the virtual path, the sidecar), exactly the files tracked before are tracked afterwards, under the same ids and paths.\<close>

theorem failed_tracking_leaves_no_row:
  assumes "db_ok (w_db w)" "track_file b3 p path vp w = (Inl e, v)"
  shows "map (\<lambda>f. (tf_id f, tf_drive_pair_id f, tf_relative_path f)) (db_files (w_db v)) =
    map (\<lambda>f. (tf_id f, tf_drive_pair_id f, tf_relative_path f)) (db_files (w_db w))"
proof -
  let ?ks = "map row_key (db_files (w_db w))" and ?nx = "nx_file (w_db w)"
  let ?K = "keys_are ?ks ?nx" and ?Q = "\<lambda>r v. case r of Inl e \<Rightarrow> \<exists>nx. keys_are ?ks nx v | Inr f \<Rightarrow> True"
  have "\<forall>k \<in> set ?ks. fst k \<noteq> ?nx"
    using assms(1) by (force simp: db_ok_def Let_def files_ok_def keys_ok_def row_key_def)
  from track_new_ends [OF this] have new: "ends ?K ?Q (track_new b3 p path vp)"
    by (rule ends_weaken) (auto split: sum.splits)
  have old: "ends ?K ?Q (track_existing p f path vp)" for f
    by (rule ends_keeps [OF keys_track_existing]) (auto split: sum.splits)
  have "keeps ?K (\<lambda>w. if b w then discard (ensure_drive_root_marker a) w else (Inr (), w))" for a b
    using keys_marker [of ?ks ?nx a] by (simp add: keeps_def)
  moreover have "keeps ?K (try_m (get_tracked_file_by_path i path))" for i
    by (auto simp: keeps_def try_m_def get_tracked_file_by_path_def split: option.splits prod.splits)
  moreover have "ends ?K ?Q (case r of Inl e \<Rightarrow> track_new b3 p path vp | Inr f \<Rightarrow> track_existing p f path vp)" for r :: "err + tracked_file"
    using old new by (cases r) simp_all
  ultimately have "ends ?K ?Q (track_file b3 p path vp)"
    unfolding track_file_def by (intro ends_seq ends_bind keys_allowed keys_marker) auto
  from endsD [OF this keys_refl assms(2)] show ?thesis
    by (auto simp: keys_are_def row_key_def [abs_def])
qed

subsection \<open>Successful tracking\<close>

lemma try_m_Inr [simp]: "try_m m s = (Inr r, t) \<longleftrightarrow> m s = (r, t)"
  by (auto simp: try_m_def split: prod.splits)

lemma create_file_Inr:
  assumes "create_tracked_file_with_source i path h n vp b1 b2 w = (Inr f, v)" "\<forall>g \<in> set (db_files (w_db w)). tf_id g \<noteq> nx_file (w_db w)"
  shows "db_files (w_db v) = db_files (w_db w) @ [f]" "db_queue (w_db v) = db_queue (w_db w)" "w_fs v = w_fs w"
    "tf_id f = nx_file (w_db w)" "tf_drive_pair_id f = i" "tf_relative_path f = path" "tf_checksum f = h" "tf_file_size f = n"
    "tf_tracked_direct f = b1" "\<not> tf_is_mirrored f" "tf_virtual_path f = vp" "tf_tracked_via_folder f = b2"
proof -
  have old: "find (\<lambda>f. tf_id f = nx_file (w_db w)) (db_files (w_db w)) = None" using assms(2) by (auto simp: find_None)
  from assms(1) show "db_files (w_db v) = db_files (w_db w) @ [f]" "db_queue (w_db v) = db_queue (w_db w)" "w_fs v = w_fs w"
    "tf_id f = nx_file (w_db w)" "tf_drive_pair_id f = i" "tf_relative_path f = path" "tf_checksum f = h" "tf_file_size f = n"
    "tf_tracked_direct f = b1" "\<not> tf_is_mirrored f" "tf_virtual_path f = vp" "tf_tracked_via_folder f = b2"
    by (auto simp: create_tracked_file_with_source_def Let_def files.get_Inr find_append old split: if_splits)
qed

lemma checksum_readable:
  assumes "streaming_hash b3" "checksum_file b3 path st w = (Inr h, v)"
  shows "\<exists>c. readable_bytes (w_fs w) path = Some c \<and> h = b3 [c]"
  using checksum_file_eq [OF assms(1), where w = w and p = path and st = st] assms(2) by (auto split: option.splits)

lemma metadata_readable:
  assumes "readable_bytes (w_fs w) path = Some c" "metadata_len path w = (Inr n, v)"
  shows "n = int (length c)"
  using assms by (auto simp: readable_bytes_def metadata_len_def metadata_def io_def split: option.splits node.splits if_splits)

definition side_says :: "fs \<Rightarrow> string \<Rightarrow> string option" where
  "side_says f path = (case fst (read_b3_sidecar path ((blank_world empty_db)\<lparr>w_fs := f\<rparr>)) of Inr (Some h) \<Rightarrow> Some h | _ \<Rightarrow> None)"

lemma side_says:
  "read_b3_sidecar path w = (r, v) \<Longrightarrow> v = w \<and> (case r of Inr (Some h) \<Rightarrow> Some h | _ \<Rightarrow> None) = side_says (w_fs w) path"
  by (auto simp: side_says_def read_b3_sidecar_def io_def split: sum.splits option.splits if_splits)

text \<open>What a success of \<open>create_tracked_file_from_disk\<close> means.\<close>

lemma from_disk_Inr:
  assumes "streaming_hash b3" "create_tracked_file_from_disk b3 p path b1 b2 w = (Inr (f, mm), v)"
    "\<forall>g \<in> set (db_files (w_db w)). tf_id g \<noteq> nx_file (w_db w)"
  shows "\<exists>c. readable_bytes (w_fs v) (path_join (active_path p) path) = Some c \<and> tf_checksum f = b3 [c] \<and> tf_file_size f = int (length c)"
    "db_files (w_db v) = db_files (w_db w) @ [f]" "db_queue (w_db v) = db_queue (w_db w)" 
    "tf_id f = nx_file (w_db w)" "tf_drive_pair_id f = dp_id p" "tf_relative_path f = path"
    "tf_tracked_direct f = b1" "\<not> tf_is_mirrored f" "tf_virtual_path f = None" "tf_tracked_via_folder f = b2"
    "mm = None \<longleftrightarrow> (case side_says (w_fs v) (path_join (active_path p) path) of None \<Rightarrow> True | Some h \<Rightarrow> h = tf_checksum f)"
proof -
  let ?m = "path_join (active_path p) path"
  obtain u h u1 s u2 n u3 where u: "ensure_world_readable ?m w = (Inr (), u)"
    and c': "checksum_file b3 ?m Streaming u = (Inr h, u1)"
    and s: "read_b3_sidecar ?m u1 = (s, u2)" and n: "metadata_len ?m u2 = (Inr n, u3)"
    and f: "create_tracked_file_with_source (dp_id p) path h n None b1 b2 u3 = (Inr f, v)"
    and mm: "mm = (case s of Inr (Some e) \<Rightarrow> if e \<noteq> h then Some \<lparr>sm_expected_checksum = e, sm_computed_checksum = h\<rparr> else None | _ \<Rightarrow> None)"
    using assms(2) by (auto simp: create_tracked_file_from_disk_def Let_def split: if_splits)
  have uu: "u1 = u" "u2 = u" "u3 = u"
    using checksum_pure [of b3 ?m Streaming] read_sidecar_pure [of ?m] c' s n
    by (auto simp: pure_m_def metadata_len_def io_def split: option.splits) (metis snd_conv)+
  have db: "w_db u = w_db w"
    using u by (auto simp: ensure_world_readable_def Let_def io_def with_context_def set_mode_def fs_put_def
        split: option.splits if_splits node.splits)
  obtain k where k: "readable_bytes (w_fs u) ?m = Some k" "h = b3 [k]" using checksum_readable [OF assms(1) c'] by blast
  have len: "n = int (length k)" using metadata_readable [OF _ n, of k] k(1) uu by simp
  have old: "\<forall>g \<in> set (db_files (w_db u3)). tf_id g \<noteq> nx_file (w_db u3)" using assms(3) db uu by simp
  note new = create_file_Inr [OF f old]
  show "\<exists>c. readable_bytes (w_fs v) ?m = Some c \<and> tf_checksum f = b3 [c] \<and> tf_file_size f = int (length c)"
    using k len new uu by simp
  have "(case s of Inr (Some h) \<Rightarrow> Some h | _ \<Rightarrow> None) = side_says (w_fs v) ?m" using side_says [OF s] uu new(3) by simp
  then show "mm = None \<longleftrightarrow> (case side_says (w_fs v) ?m of None \<Rightarrow> True | Some h \<Rightarrow> h = tf_checksum f)"
    using mm new(7) by (auto split: sum.splits option.splits if_splits)
  show "db_files (w_db v) = db_files (w_db w) @ [f]" "db_queue (w_db v) = db_queue (w_db w)"
    "tf_id f = nx_file (w_db w)" "tf_drive_pair_id f = dp_id p" "tf_relative_path f = path"
    "tf_tracked_direct f = b1" "\<not> tf_is_mirrored f" "tf_virtual_path f = None" "tf_tracked_via_folder f = b2"
    using new db uu by simp_all
qed

lemma mismatch_item:
  assumes "queue_b3_sidecar_mismatch p f m w = (Inr (), v)"
  shows "db_files (w_db v) = db_files (w_db w)" "w_fs v = w_fs w"
    "\<exists>q \<in> set (db_queue (w_db v)). sq_tracked_file_id q = tf_id f \<and> sq_action q = ''user_action_required''
       \<and> sq_reason q = Some b3_sidecar_mismatch_reason \<and> is_active q"
proof -
  obtain q u where q: "create_user_action_required (tf_id f) b3_sidecar_mismatch_reason (mismatch_message m) w = (Inr q, u)"
    and v: "v = snd (log_sync_failed (tf_id f) b3_sidecar_mismatch_reason (mismatch_message m) (fmt [dp_primary_path p, ''/'', tf_relative_path f]) u)"
    using assms by (auto simp: queue_b3_sidecar_mismatch_def)
  let ?dup = "dup_item (tf_id f) ''user_action_required'' (Some b3_sidecar_mismatch_reason)"
  have u: "db_files (w_db u) = db_files (w_db w) \<and> w_fs u = w_fs w \<and> (\<exists>q \<in> set (db_queue (w_db u)). ?dup q)"
  proof (cases "find ?dup (db_queue (w_db w))")
    case (Some x)
    then have "u = w" using q by (auto simp: create_user_action_required_def
          create_sync_queue_item_dedup_with_reason_and_error_with_created_def queue.get_Inr)
    then show ?thesis using Some by (auto dest: find_SomeD)
  next
    case None
    then show ?thesis using q
      by (auto simp: create_user_action_required_def create_sync_queue_item_dedup_with_reason_and_error_with_created_def
          create_sync_queue_item_with_reason_and_error_def Let_def queue.get_Inr push_item_def new_item_def dup_item_def is_active_def
          split: if_splits)
  qed
  then show "db_files (w_db v) = db_files (w_db w)" "w_fs v = w_fs w"
    "\<exists>q \<in> set (db_queue (w_db v)). sq_tracked_file_id q = tf_id f \<and> sq_action q = ''user_action_required''
       \<and> sq_reason q = Some b3_sidecar_mismatch_reason \<and> is_active q"
    by (auto simp: v dup_item_def split: option.splits)
qed


subsection \<open>A disk on which a file is tracked\<close>

definition ba_pair :: drive_pair where
  "ba_pair = ab_pair\<lparr>dp_active_role := ''secondary''\<rparr>"

definition untracked :: "bytes \<Rightarrow> world" where
  "untracked c = (two_copies c c)\<lparr>w_db := empty_db\<lparr>db_pairs := [ba_pair], nx_pair := 2\<rparr>\<rparr>"

definition tracked_row :: "bytes \<Rightarrow> tracked_file" where
  "tracked_row c = \<lparr>tf_id = 1, tf_drive_pair_id = 1, tf_relative_path = ''x'', tf_checksum = ''h'', tf_file_size = int (length c),
     tf_virtual_path = None, tf_is_mirrored = False, tf_tracked_direct = True, tf_tracked_via_folder = False,
     tf_last_integrity_check_at = None, tf_created_at = 5, tf_updated_at = 5\<rparr>"

definition with_row :: "bytes \<Rightarrow> world" where
  "with_row c = (untracked c)\<lparr>w_db := (w_db (untracked c))\<lparr>db_files := [tracked_row c], nx_file := 2\<rparr>\<rparr>"

lemmas tracked_eval = untracked_def with_row_def tracked_row_def ba_pair_def empty_db_def sample_eval

lemma ba_roles:
  "active_path ba_pair = ''/b''" "standby_path ba_pair = ''/a''" "\<not> is_quiescing ba_pair" "dp_id ba_pair = 1" "dp_primary_path ba_pair = ''/a''"
  by (simp_all add: ba_pair_def ab_pair_def active_path_def standby_path_def standby_role_def active_role_enum_def role_from_str_def
      path_for_role_def is_quiescing_def role_state_def state_from_str_def)

lemma untracked_ok: "db_ok (w_db (untracked c))"
  by (simp add: db_ok_def pairs_ok_def files_ok_def folders_ok_def queue_ok_def events_ok_def runs_ok_def
      results_ok_def keys_ok_def pair_ok_def state_names_def tracked_eval)

lemma const_hash: "streaming_hash (\<lambda>_. ''h'')"
  by (simp add: streaming_hash_def)

lemma untracked_disk:
  "create_tracked_file_from_disk (\<lambda>_. ''h'') ba_pair ''x'' True False (untracked c) = (Inr (tracked_row c, None), with_row c)"
proof -
  let ?w = "untracked c"
  have j: "path_join ''/b'' ''x'' = ''/b/x''" by (simp add: path_join_def is_absolute_def)
  have e: "path_exists (w_fs ?w) ''/b/x''" by (simp add: path_exists_def metadata_def tracked_eval)
  have r: "ensure_world_readable ''/b/x'' ?w = (Inr (), ?w)"
    by (simp add: ensure_world_readable_def metadata_def node_mode_def world_readable_mode_def tracked_eval)
  have "readable_bytes (w_fs ?w) ''/b/x'' = Some c" by (simp add: readable_bytes_def tracked_eval)
  then have h: "checksum_file (\<lambda>_. ''h'') ''/b/x'' Streaming ?w = (Inr ''h'', ?w)"
    using checksum_file_eq [OF const_hash, where w = ?w and p = "''/b/x''" and st = Streaming] by simp
  have s: "read_b3_sidecar ''/b/x'' ?w = (Inr None, ?w)"
    by (simp add: read_b3_sidecar_def sidecar_path_for_def path_file_name_def path_with_file_name_def path_comps_def Let_def
        metadata_def drive_root_marker_def untracked_def sample_eval)
  have n: "metadata_len ''/b/x'' ?w = (Inr (int (length c)), ?w)"
    by (simp add: metadata_len_def metadata_def tracked_eval)
  have f: "create_tracked_file_with_source 1 ''x'' ''h'' (int (length c)) None True False ?w = (Inr (tracked_row c), with_row c)"
    by (simp add: create_tracked_file_with_source_def Let_def get_tracked_file_def has_pair_def tracked_eval)
  show ?thesis
    by (simp add: create_tracked_file_from_disk_def Let_def ba_roles j e seq_m_def bind_m_def r with_context_def h try_m_def s n f)
qed

lemma untracked_start:
  "track_file b3 ba_pair ''x'' vp (untracked c) = track_new b3 ba_pair ''x'' vp (untracked c)"
proof -
  let ?w = "untracked c"
  have a: "ensure_drive_root_marker ''/a'' ?w = (Inr (), ?w)" and b: "ensure_drive_root_marker ''/b'' ?w = (Inr (), ?w)"
    by (simp_all add: ensure_drive_root_marker_def path_is_available_def path_exists_def metadata_def read_dir_ok_def
        drive_root_marker_path_def drive_root_marker_def untracked_def sample_eval)
  have n: "try_m (get_tracked_file_by_path 1 ''x'') ?w = (Inr (Inl QueryReturnedNoRows), ?w)"
    by (simp add: get_tracked_file_by_path_def try_m_def tracked_eval)
  have q: "(\<lambda>w. if path_is_available (w_fs w) (standby_path ba_pair)
              then discard (ensure_drive_root_marker (standby_path ba_pair)) w else (Inr (), w)) ?w = (Inr (), ?w)"
    using a by (simp add: ba_roles)
  have p: "require_pair_mutation_allowed ba_pair ?w = (Inr (), ?w)" by (simp add: require_pair_mutation_allowed_def ba_roles)
  show ?thesis
    by (simp add: track_file_def ba_roles(1,4) seq_m_def bind_m_def p b q n)
qed

lemma with_row_get: "get_tracked_file 1 (with_row c) = (Inr (tracked_row c), with_row c)"
  by (simp add: get_tracked_file_def tracked_eval)


theorem failed_tracking_leaves_no_row_witness:
  "\<exists>e v. track_file (\<lambda>_. ''h'') ba_pair ''x'' (Some ''v'') (untracked [7]) = (Inl e, v)
     \<and> nx_file (w_db v) = 2 \<and> db_files (w_db v) = []"
proof -
  let ?v = "snd (delete_tracked_file 1 (with_row [7]))"
  have i: "tf_id (tracked_row [7]) = 1" "tf_drive_pair_id (tracked_row [7]) = 1" by (simp_all add: tracked_row_def)
  have g: "get_drive_pair 1 (with_row [7]) = (Inr ba_pair, with_row [7])"
    by (simp add: get_drive_pair_def tracked_eval)
  have a: "active_role_enum ba_pair = Secondary" by (simp add: ba_pair_def active_role_enum_def role_from_str_def)
  have "path_is_available (w_fs (with_row [7])) ''/b''" "\<not> missing_expected_root_marker (w_fs (with_row [7])) ba_pair Secondary"
    by (simp_all add: missing_expected_root_marker_def path_for_role_def path_is_available_def path_exists_def metadata_def
        read_dir_ok_def drive_root_marker_path_def drive_root_marker_def tracked_eval)
  then have l: "load_operational_pair 1 (with_row [7]) = (Inr ba_pair, with_row [7])"
    by (simp add: load_operational_pair_def bind_m_def g maybe_emergency_failover_def Let_def a ba_roles(1))
  obtain e where e: "validate_virtual_path (OwnerFile 1) ''v'' (with_row [7]) = (Inl e, with_row [7])"
    by (simp add: validate_virtual_path_def normalize_virtual_path_def is_absolute_def str_trim_def is_ascii_ws_def Let_def)
  have s: "set_virtual_path 1 ''v'' (with_row [7]) = (Inl e, with_row [7])"
    by (simp add: set_virtual_path_def bind_m_def with_row_get i l e)
  have "track_new (\<lambda>_. ''h'') ba_pair ''x'' (Some ''v'') (untracked [7]) = (Inl e, ?v)"
    by (simp add: track_new_def bind_m_def untracked_disk opt_m_def or_untrack_def seq_m_def try_m_def i s)
  then have r: "track_file (\<lambda>_. ''h'') ba_pair ''x'' (Some ''v'') (untracked [7]) = (Inl e, ?v)" by (simp add: untracked_start)
  have "db_files (w_db (untracked [7])) = []" by (simp add: untracked_def empty_db_def)
  then have "db_files (w_db ?v) = []" using failed_tracking_leaves_no_row [OF untracked_ok r] by simp
  moreover have "nx_file (w_db ?v) = 2" by (simp add: delete_tracked_file_def drop_file_rows_def drop_file_queue_def with_row_def)
  ultimately show ?thesis using r by blast
qed

subsection \<open>Untracking a folder\<close>

definition rest_is :: "(int \<times> int \<times> string) list \<Rightarrow> sync_item list \<Rightarrow> tracked_folder list \<Rightarrow> world \<Rightarrow> bool" where
  "rest_is ks qs fs w = (map row_key (db_files (w_db w)) = ks \<and> db_queue (w_db w) = qs \<and> db_folders (w_db w) = fs)"

lemma rest_update_files:
  assumes "\<And>f. row_key (g f) = row_key f"
  shows "keeps (rest_is ks qs fs) (update_files P g)"
proof -
  have "map row_key (upd_where P (\<lambda>f. (g f)\<lparr>tf_updated_at := t\<rparr>) fs) = map row_key fs" for t fs
    by (rule map_upd_where) (use assms in \<open>simp add: row_key_def\<close>)
  then show ?thesis by (simp add: keeps_def rest_is_def)
qed

lemma rest_provenance: "keeps (rest_is ks qs fs) (recompute_folder_provenance_for_drive i)"
proof -
  have "keeps (rest_is ks qs fs) (\<lambda>w. update_files (Q w) (\<lambda>f. f\<lparr>tf_tracked_via_folder := True\<rparr>) w)" for Q
    using rest_update_files [of "\<lambda>f. f\<lparr>tf_tracked_via_folder := True\<rparr>" ks qs fs] by (simp add: keeps_def row_key_def)
  then show ?thesis unfolding recompute_folder_provenance_for_drive_def
    by (intro keeps_seq rest_update_files) (simp_all add: row_key_def)
qed

lemma rest_link: "keeps (rest_is ks qs fs) (remove_symlink vp)"
proof -
  have "keeps (rest_is ks qs fs) (remove_file vp)" by (rule remove_file_keeps) (simp add: rest_is_def)
  then show ?thesis by (auto simp: keeps_def remove_symlink_def bail_def raise_m_def split: sum.splits option.splits)
qed

lemma untrack_found_steps:
  assumes "untrack_found g p ds w = (Inr r, v)"
  obtains u y ls where "for_m ds (\<lambda>f. discard (log_file_untracked (tf_id f) (fmt [dp_primary_path p, ''/'', tf_relative_path f]))) w = (Inr (), u)"
    "for_m ls (\<lambda>v. discard (remove_symlink v)) (snd (delete_folder_cascade_tx (fo_id g) (map tf_id ds) u)) = (Inr (), y)"
    "v = snd (log_folder_untracked (fo_id g) (fmt [dp_primary_path p, ''/'', fo_folder_path g]) (snd (recompute_folder_provenance_for_drive (fo_drive_pair_id g) y)))"
    "fu_removed_file_ids r = map tf_id ds"
  using assms unfolding untrack_found_def Let_def delete_folder_cascade_tx_def by (auto simp: db_do_def) (metis+)?

lemma drop_files:
  "db_files (fold (\<lambda>i d. drop_file_rows i (drop_file_queue i d)) js d) = filter (\<lambda>f. tf_id f \<notin> set js) (db_files d)"
  "db_queue (fold (\<lambda>i d. drop_file_rows i (drop_file_queue i d)) js d) = filter (\<lambda>q. sq_tracked_file_id q \<notin> set js) (db_queue d)"
  "db_folders (fold (\<lambda>i d. drop_file_rows i (drop_file_queue i d)) js d) = db_folders d"
  by (induction js arbitrary: d) (simp_all add: drop_file_rows_def drop_file_queue_def conj_commute)

text \<open>Once the files to remove are known: what is left of the rows, whatever happens to the links.\<close>

lemma untrack_found_rest:
  assumes "untrack_found g p ds w = (Inr r, v)"
  shows "fu_removed_file_ids r = map tf_id ds"
    "rest_is (map row_key (filter (\<lambda>f. tf_id f \<notin> set (map tf_id ds)) (db_files (w_db w))))
      (filter (\<lambda>q. sq_tracked_file_id q \<notin> set (map tf_id ds)) (db_queue (w_db w))) (filter (\<lambda>f. fo_id f \<noteq> fo_id g) (db_folders (w_db w))) v"
proof -
  have log: "keeps (\<lambda>u. forget_events u = forget_events w) (for_m ds (\<lambda>f. discard (log_file_untracked (a f) (b f))))" for a b
    by (intro keeps_for keeps_discard keepsI) simp
  have lnk: "keeps (rest_is ks qs fs) (for_m ls (\<lambda>v. discard (remove_symlink v)))" for ls ks qs fs
    by (intro keeps_for keeps_discard rest_link)
  obtain u y ls
    where u: "for_m ds (\<lambda>f. discard (log_file_untracked (tf_id f) (fmt [dp_primary_path p, ''/'', tf_relative_path f]))) w = (Inr (), u)"
    and y: "for_m ls (\<lambda>v. discard (remove_symlink v)) (snd (delete_folder_cascade_tx (fo_id g) (map tf_id ds) u)) = (Inr (), y)"
    and v: "v = snd (log_folder_untracked (fo_id g) (fmt [dp_primary_path p, ''/'', fo_folder_path g]) (snd (recompute_folder_provenance_for_drive (fo_drive_pair_id g) y)))"
    and r: "fu_removed_file_ids r = map tf_id ds"
    by (rule untrack_found_steps [OF assms])
  have fe: "forget_events u = forget_events w" by (rule keeps_result [OF log refl u])
  have t: "db_files (w_db u) = db_files (w_db w)" "db_queue (w_db u) = db_queue (w_db w)" "db_folders (w_db u) = db_folders (w_db w)"
    by (rule forget_events_eqD [OF fe])+
  let ?R = "rest_is (map row_key (filter (\<lambda>f. tf_id f \<notin> set (map tf_id ds)) (db_files (w_db w))))
      (filter (\<lambda>q. sq_tracked_file_id q \<notin> set (map tf_id ds)) (db_queue (w_db w))) (filter (\<lambda>f. fo_id f \<noteq> fo_id g) (db_folders (w_db w)))"
  have "?R (snd (delete_folder_cascade_tx (fo_id g) (map tf_id ds) u))"
    unfolding rest_is_def delete_folder_cascade_tx_def by (simp add: drop_folder_row_def drop_files t del: set_map)
  then have "?R y" by (rule keeps_result [where P = ?R, OF lnk _ y])
  then have "?R (snd (recompute_folder_provenance_for_drive (fo_drive_pair_id g) y))" by (rule keepsD [where P = ?R, OF rest_provenance])
  then show "?R v" by (simp add: v rest_is_def)
  show "fu_removed_file_ids r = map tf_id ds" by (rule r)
qed

lemma untrack_folder_found:
  assumes "untrack_folder_cascade i w = (Inr r, v)"
  obtains g p where "find (\<lambda>f. fo_id f = i) (db_folders (w_db w)) = Some g" "fo_id g = i"
    "untrack_found g p (filter (\<lambda>f. tf_drive_pair_id f = fo_drive_pair_id g
         \<and> \<not> tf_tracked_direct f \<and> tf_tracked_via_folder f \<and> in_folder (fo_folder_path g) (tf_relative_path f)
         \<and> \<not> (\<exists>h \<in> set (db_folders (w_db w)). fo_drive_pair_id h = fo_drive_pair_id g \<and> fo_id h \<noteq> i
               \<and> in_folder (fo_folder_path h) (tf_relative_path f))) (db_files (w_db w))) w = (Inr r, v)"
proof -
  obtain g where g: "find (\<lambda>f. fo_id f = i) (db_folders (w_db w)) = Some g" using assms
    by (auto simp: untrack_folder_cascade_def folders.get_Inr)
  have i: "fo_id g = i" using g by (auto dest: find_SomeD)
  let ?rest = "\<lambda>p. seq_m (require_pair_mutation_allowed p)
    (bind_m (list_folder_origin_descendant_files (fo_drive_pair_id g) (fo_folder_path g) i) (untrack_found g p))"
  have "bind_m (get_drive_pair (fo_drive_pair_id g)) ?rest w = (Inr r, v)"
    using assms by (simp add: untrack_folder_cascade_def folders.bind_get g i del: bind_m_Inr seq_m_Inr)
  then obtain p where "?rest p w = (Inr r, v)" by (auto simp only: bind_m_Inr pairs.get_Inr)
  then show thesis using that [OF g i]
    by (cases rule: allowed_cases [of p w])
      (simp_all add: seq_m_def bind_m_def list_folder_origin_descendant_files_def del: bind_m_Inr seq_m_Inr)
qed

text \<open>C29: Untracking a folder takes away its row, exactly the files that were tracked through it alone, and exactly their queue
  items: files tracked directly, outside the folder, or below another tracked folder of the pair keep their rows.\<close>

theorem untrack_folder_effect:
  assumes "untrack_folder_cascade i w = (Inr r, v)"
  shows "\<exists>g. find (\<lambda>f. fo_id f = i) (db_folders (w_db w)) = Some g
    \<and> fu_removed_file_ids r = map tf_id (filter (\<lambda>f. tf_drive_pair_id f = fo_drive_pair_id g
         \<and> \<not> tf_tracked_direct f \<and> tf_tracked_via_folder f \<and> in_folder (fo_folder_path g) (tf_relative_path f)
         \<and> \<not> (\<exists>h \<in> set (db_folders (w_db w)). fo_drive_pair_id h = fo_drive_pair_id g \<and> fo_id h \<noteq> i
               \<and> in_folder (fo_folder_path h) (tf_relative_path f))) (db_files (w_db w)))
    \<and> db_folders (w_db v) = filter (\<lambda>f. fo_id f \<noteq> i) (db_folders (w_db w))
    \<and> map (\<lambda>f. (tf_id f, tf_drive_pair_id f, tf_relative_path f)) (db_files (w_db v)) =
        map (\<lambda>f. (tf_id f, tf_drive_pair_id f, tf_relative_path f))
          (filter (\<lambda>f. tf_id f \<notin> set (fu_removed_file_ids r)) (db_files (w_db w)))
    \<and> db_queue (w_db v) = filter (\<lambda>q. sq_tracked_file_id q \<notin> set (fu_removed_file_ids r)) (db_queue (w_db w))"
proof -
  obtain g p where g: "find (\<lambda>f. fo_id f = i) (db_folders (w_db w)) = Some g" "fo_id g = i"
    and found: "untrack_found g p (filter (\<lambda>f. tf_drive_pair_id f = fo_drive_pair_id g
         \<and> \<not> tf_tracked_direct f \<and> tf_tracked_via_folder f \<and> in_folder (fo_folder_path g) (tf_relative_path f)
         \<and> \<not> (\<exists>h \<in> set (db_folders (w_db w)). fo_drive_pair_id h = fo_drive_pair_id g \<and> fo_id h \<noteq> i
               \<and> in_folder (fo_folder_path h) (tf_relative_path f))) (db_files (w_db w))) w = (Inr r, v)"
    by (rule untrack_folder_found [OF assms])
  show ?thesis using g untrack_found_rest [OF found] by (simp add: rest_is_def row_key_def [abs_def] del: set_map)
qed

lemma for_m_discard: "\<exists>u. for_m xs (\<lambda>x. discard (m x)) w = (Inr (), u)"
  by (induction xs arbitrary: w) (simp_all add: seq_m_def bind_m_def)

lemma untrack_found_total: "\<exists>r v. untrack_found g p ds w = (Inr r, v)"
proof -
  obtain u where u: "for_m ds (\<lambda>f. discard (log_file_untracked (tf_id f) (fmt [dp_primary_path p, ''/'', tf_relative_path f]))) w = (Inr (), u)"
    by (rule exE [OF for_m_discard])
  obtain x where x: "delete_folder_cascade_tx (fo_id g) (map tf_id ds) u = (Inr (), x)" by (simp add: delete_folder_cascade_tx_def)
  let ?ls = "concat (map (\<lambda>f. opt_list (tf_virtual_path f)) ds) @ opt_list (fo_virtual_path g)"
  obtain y where y: "for_m ?ls (\<lambda>v. discard (remove_symlink v)) x = (Inr (), y)"
    by (rule exE [OF for_m_discard])
  show ?thesis
    by (simp add: untrack_found_def Let_def seq_m_def bind_m_def u x y del: bind_m_Inr seq_m_Inr)
qed

definition docs_folder :: tracked_folder where
  "docs_folder = \<lparr>fo_id = 1, fo_drive_pair_id = 1, fo_folder_path = ''d/'', fo_virtual_path = None,
     fo_include_checksum_sidecars = False, fo_scanning = False, fo_scan_scanned_files = 0, fo_scan_total_files = 0, fo_mirroring = False,
     fo_deleting = False, fo_mirror_mirrored_files = 0, fo_mirror_total_files = 0, fo_last_scanned_at = None,
     fo_last_mirrored_at = None, fo_created_at = 0\<rparr>"

definition docs_world :: world where
  "docs_world = blank_world (empty_db\<lparr>db_pairs := [ab_pair], db_folders := [docs_folder],
     db_files := [(blank_file 1 1)\<lparr>tf_relative_path := ''d/x'', tf_tracked_direct := False, tf_tracked_via_folder := True\<rparr>,
       (blank_file 2 1)\<lparr>tf_relative_path := ''d/y'', tf_tracked_direct := True\<rparr>],
     db_queue := [new_item 1 1 ''mirror'' None None 0, new_item 2 2 ''mirror'' None None 0]\<rparr>)"

theorem untrack_folder_effect_witness:
  "\<exists>r v. untrack_folder_cascade 1 docs_world = (Inr r, v) \<and> fu_removed_file_ids r = [1] \<and> db_folders (w_db v) = []
     \<and> map tf_relative_path (db_files (w_db v)) = [''d/y''] \<and> map sq_tracked_file_id (db_queue (w_db v)) = [2]"
proof -
  have g: "get_tracked_folder 1 docs_world = (Inr docs_folder, docs_world)" "get_drive_pair 1 docs_world = (Inr ab_pair, docs_world)"
    by (simp_all add: get_tracked_folder_def get_drive_pair_def docs_world_def docs_folder_def blank_world_def ab_pair_def)
  have p: "require_pair_mutation_allowed ab_pair docs_world = (Inr (), docs_world)"
    by (simp add: require_pair_mutation_allowed_def is_quiescing_def)
  have i: "fo_drive_pair_id docs_folder = 1" "fo_id docs_folder = 1" by (simp_all add: docs_folder_def)
  obtain r v where run: "untrack_folder_cascade 1 docs_world = (Inr r, v)"
    using untrack_found_total
    by (simp add: untrack_folder_cascade_def bind_m_def seq_m_def g p i list_folder_origin_descendant_files_def) blast
  have "in_folder ''d/'' ''d/x''" by (simp add: in_folder_iff trim_end_char_def) (intro exI [of _ "''d''"], simp add: ascii_lower_def)
  then have x: "in_folder (fo_folder_path docs_folder) ''d/x''" by (simp add: docs_folder_def)
  from untrack_folder_effect [OF run] have *: "fu_removed_file_ids r = [1]" "db_folders (w_db v) = []"
    "map (\<lambda>f. (tf_id f, tf_drive_pair_id f, tf_relative_path f)) (db_files (w_db v)) = [(2, 1, ''d/y'')]"
    "map sq_tracked_file_id (db_queue (w_db v)) = [2]"
    using x by (auto simp: docs_world_def blank_world_def blank_file_def new_item_def i)
  from arg_cong [OF *(3), of "map (snd \<circ> snd)"] have "map tf_relative_path (db_files (w_db v)) = [''d/y'']" by (simp add: comp_def)
  then show ?thesis using run * by (intro exI [of _ r] exI [of _ v]) simp
qed

end
