(* ===== verification/Tracker_Scan.thy ===== *)
theory Tracker_Scan
  imports Tracker_Correct
begin

section \<open>Scanning finds every file\<close>

text \<open>What a scan never changes on disk: everything but the permission bits of regular files.\<close>

definition shape :: "fs \<Rightarrow> fs" where
  "shape f = f\<lparr>fs_nodes := (\<lambda>k. case fs_nodes f k of Some (RegFile c m) \<Rightarrow> Some (RegFile c 0) | x \<Rightarrow> x)\<rparr>"

lemma shape_nodes [simp]:
  "fs_nodes (shape f) k = None \<longleftrightarrow> fs_nodes f k = None"
  "fs_nodes (shape f) k = Some Directory \<longleftrightarrow> fs_nodes f k = Some Directory"
  "fs_nodes (shape f) k = Some (Symlink t) \<longleftrightarrow> fs_nodes f k = Some (Symlink t)"
  by (auto simp: shape_def split: option.splits node.splits)

lemma shape_faults [simp]: "fs_nostat (shape f) = fs_nostat f" "fs_noread (shape f) = fs_noread f"
  by (simp_all add: shape_def)

lemma shape_follow: "follow n (shape f) k = follow n f k"
proof (induction n arbitrary: k)
  case 0
  then show ?case by (auto simp: follow.simps shape_def split: option.splits node.splits)
next
  case (Suc n)
  then show ?case by (auto simp: follow.simps shape_def split: option.splits node.splits)
qed

lemma shape_target [simp]: "target (shape f) p = target f p"
  by (simp add: target_def shape_follow)

lemma shape_dir [simp]: "path_is_dir (shape f) p = path_is_dir f p" "read_dir_ok (shape f) p = read_dir_ok f p"
  by (auto simp: path_is_dir_def read_dir_ok_def metadata_def split: option.splits)

lemma shape_regular: "(\<exists>c m. fs_nodes (shape f) k = Some (RegFile c m)) \<longleftrightarrow> (\<exists>c m. fs_nodes f k = Some (RegFile c m))"
  by (auto simp: shape_def split: option.splits node.splits)

lemma file_iff: "path_is_file f p \<longleftrightarrow> (\<exists>k. target f p = Some k \<and> \<not> fs_nostat f k \<and> (\<exists>c m. fs_nodes f k = Some (RegFile c m)))"
  by (auto simp: path_is_file_def metadata_def split: option.splits node.splits)

lemma shape_file [simp]: "path_is_file (shape f) p = path_is_file f p"
  by (simp add: file_iff shape_regular)

text \<open>The files a directory listing leads to, links to directories followed as \<open>is_dir\<close> does.\<close>

definition entries :: "listing \<Rightarrow> fs \<Rightarrow> string \<Rightarrow> string list" where
  "entries ls f dir = (case target f dir of None \<Rightarrow> [] | Some k \<Rightarrow> ls f k)"

inductive listed :: "listing \<Rightarrow> fs \<Rightarrow> string \<Rightarrow> string \<Rightarrow> bool" for ls f where
  here: "n \<in> set (entries ls f d) \<Longrightarrow> \<not> path_is_dir f (path_join d n) \<Longrightarrow> path_is_file f (path_join d n)
    \<Longrightarrow> listed ls f d (path_join d n)"
| below: "n \<in> set (entries ls f d) \<Longrightarrow> path_is_dir f (path_join d n) \<Longrightarrow> listed ls f (path_join d n) path
    \<Longrightarrow> listed ls f d path"

text \<open>One directory: its files are handled, its directories put on the stack.\<close>

lemma walk_entries_visits:
  assumes "walk_entries step d ns stack acc w = (Inr (stack', acc'), v)" "shape (w_fs w) = F"
    "\<And>path acc. keeps (\<lambda>w. shape (w_fs w) = F) (step path acc)"
    "\<And>path acc q. keeps (Seen q) (step path acc)"
    "\<And>path acc w acc' v. step path acc w = (Inr acc', v) \<Longrightarrow> shape (w_fs w) = F \<Longrightarrow> Seen path v"
  shows "shape (w_fs v) = F \<and> set stack \<subseteq> set stack'
    \<and> (\<forall>n \<in> set ns. path_is_dir F (path_join d n) \<longrightarrow> path_join d n \<in> set stack')
    \<and> (\<forall>n \<in> set ns. \<not> path_is_dir F (path_join d n) \<longrightarrow> path_is_file F (path_join d n) \<longrightarrow> Seen (path_join d n) v)"
  using assms(1,2)
proof (induction ns arbitrary: stack acc w)
  case (Cons n ns)
  let ?p = "path_join d n"
  have d: "path_is_dir (w_fs w) ?p = path_is_dir F ?p" "path_is_file (w_fs w) ?p = path_is_file F ?p"
    using Cons.prems(2) shape_dir(1) shape_file by metis+
  consider "path_is_dir F ?p" | "\<not> path_is_dir F ?p" "\<not> path_is_file F ?p" | "\<not> path_is_dir F ?p" "path_is_file F ?p" by blast
  then show ?case
  proof cases
    case 1
    then have "walk_entries step d ns (?p # stack) acc w = (Inr (stack', acc'), v)" using Cons.prems(1) d by (simp add: Let_def)
    from Cons.IH [OF this Cons.prems(2)] 1 show ?thesis by auto
  next
    case 2
    then have "walk_entries step d ns stack acc w = (Inr (stack', acc'), v)" using Cons.prems(1) d by (simp add: Let_def)
    from Cons.IH [OF this Cons.prems(2)] 2 show ?thesis by auto
  next
    case 3
    then obtain a u where u: "step ?p acc w = (Inr a, u)" "walk_entries step d ns stack a u = (Inr (stack', acc'), v)"
      using Cons.prems(1) d by (auto simp: Let_def)
    have s: "shape (w_fs u) = F" by (rule keeps_result [where P = "\<lambda>w. shape (w_fs w) = F", OF assms(3) Cons.prems(2) u(1)])
    have "Seen ?p u" by (rule assms(5) [OF u(1) Cons.prems(2)])
    moreover have "keeps (Seen ?p) (walk_entries step d ns stack a)" by (rule walk_entries_keeps) (rule assms(4))
    ultimately have "Seen ?p v" using u(2) by (metis keeps_result)
    then show ?thesis using Cons.IH [OF u(2) s] 3 by auto
  qed
qed simp

lemma walk_visits:
  assumes "\<And>path acc. keeps (\<lambda>w. shape (w_fs w) = F) (step path acc)"
    "\<And>path acc q. keeps (Seen q) (step path acc)"
    "\<And>path acc w acc' v. step path acc w = (Inr acc', v) \<Longrightarrow> shape (w_fs w) = F \<Longrightarrow> Seen path v"
    "\<And>f k. ls f k = ls (shape f) k"
  shows "walk m ls step todo acc w = Some (Inr a, v) \<Longrightarrow> shape (w_fs w) = F \<Longrightarrow> d \<in> set todo \<Longrightarrow> listed ls F d path \<Longrightarrow> Seen path v"
proof (induction m arbitrary: todo acc w d)
  case 0
  then show ?case by (cases todo) simp_all
next
  case (Suc m)
  obtain dir stack where todo: "todo = dir # stack" using Suc.prems(3) by (cases todo) auto
  let ?ns = "entries ls F dir"
  have e: "(case target (w_fs w) dir of None \<Rightarrow> [] | Some k \<Rightarrow> ls (w_fs w) k) = ?ns"
    using assms(4) [of "w_fs w"] by (simp add: entries_def Suc.prems(2) [symmetric] split: option.splits)
  obtain stack' acc' u where u: "walk_entries step dir ?ns stack acc w = (Inr (stack', acc'), u)"
    and rest: "walk m ls step stack' acc' u = Some (Inr a, v)"
    using Suc.prems(1) unfolding todo walk.simps e by (auto split: if_splits sum.splits prod.splits simp: io_def with_context_def)
  have visited: "shape (w_fs u) = F \<and> set stack \<subseteq> set stack'
    \<and> (\<forall>n \<in> set ?ns. path_is_dir F (path_join dir n) \<longrightarrow> path_join dir n \<in> set stack')
    \<and> (\<forall>n \<in> set ?ns. \<not> path_is_dir F (path_join dir n) \<longrightarrow> path_is_file F (path_join dir n) \<longrightarrow> Seen (path_join dir n) u)"
    by (rule walk_entries_visits [where Seen = Seen, OF u Suc.prems(2) assms(1,2,3)])
  then have s: "shape (w_fs u) = F" by blast
  note later = Suc.IH [OF rest s]
  have stays: "Seen q u \<Longrightarrow> Seen q v" for q
    by (rule walk_keeps [where P = "Seen q", OF assms(2) _ rest])
  show ?case
  proof (cases "d = dir")
    case True
    from Suc.prems(4) show ?thesis
    proof (cases rule: listed.cases)
      case (here n)
      then show ?thesis using visited True stays by auto
    next
      case (below n)
      then show ?thesis using visited True later by auto
    qed
  next
    case False
    then show ?thesis using Suc.prems(3,4) todo later visited by auto
  qed
qed

lemma keeps_when: "keeps P m \<Longrightarrow> keeps P n \<Longrightarrow> keeps P (\<lambda>w. if b w then m w else n w)"
  by (simp add: keeps_def)

lemma listed_shape:
  assumes "\<And>f k. ls f k = ls (shape f) k"
  shows "listed ls f d path \<Longrightarrow> listed ls (shape f) d path"
proof (induction rule: listed.induct)
  have e: "entries ls (shape f) d = entries ls f d" for d
    using assms [of f, symmetric] by (simp add: entries_def split: option.splits)
  {
    case (here n d)
    then show ?case by (auto simp: e intro!: listed.here)
  next
    case (below n d path)
    show ?case by (rule listed.below [of n]) (use below in \<open>simp_all add: e\<close>)
  }
qed

definition grown :: "(int \<times> string) set \<Rightarrow> world \<Rightarrow> bool" where
  "grown K w = (K \<subseteq> snd ` set (map row_key (db_files (w_db w))))"

lemma grown_keys: "keys_are ks nx w \<Longrightarrow> grown K w \<longleftrightarrow> K \<subseteq> snd ` set ks"
  by (simp add: grown_def keys_are_def del: list.set_map)

lemma keys_grown:
  assumes "\<And>ks nx. keeps (keys_are ks nx) m"
  shows "keeps (grown K) m"
proof (rule keepsI)
  fix w assume "grown K w"
  moreover have "keys_are (map row_key (db_files (w_db w))) (nx_file (w_db w)) (snd (m w))"
    by (rule keepsD [where P = "keys_are _ _", OF assms keys_refl])
  ultimately show "grown K (snd (m w))" by (simp add: grown_keys [OF keys_refl [of w]] grown_keys)
qed

lemma from_disk_grown: "keeps (grown K) (create_tracked_file_from_disk b3 p path b1 b2)"
proof (rule keepsI)
  fix w assume w: "grown K w"
  obtain r v where r: "create_tracked_file_from_disk b3 p path b1 b2 w = (r, v)" by fastforce
  have "case r of Inl e \<Rightarrow> keys_are (map row_key (db_files (w_db w))) (nx_file (w_db w)) v
      | Inr fm \<Rightarrow> new_row (map row_key (db_files (w_db w))) (nx_file (w_db w)) (dp_id p) path (fst fm) v"
    by (rule endsD [OF from_disk_ends keys_refl r])
  then show "grown K (snd (create_tracked_file_from_disk b3 p path b1 b2 w))"
    using w r by (auto simp: grown_keys [OF keys_refl [of w]] grown_keys new_row_def split: sum.splits)
qed

lemma from_disk_there:
  assumes "create_tracked_file_from_disk b3 p path b1 b2 w = (Inr fm, v)"
  shows "grown {(dp_id p, path)} v"
  using endsD [OF from_disk_ends keys_refl assms] by (auto simp: grown_keys new_row_def)

subsection \<open>The disk keeps its shape\<close>

lemma shapeI: "(\<And>w. w_fs (snd (m w)) = w_fs w) \<Longrightarrow> keeps (\<lambda>w. shape (w_fs w) = F) m"
  by (simp add: keeps_def)

lemma shape_mode: "shape (w_fs (set_mode k n w)) = shape (w_fs w)"
  by (auto simp: shape_def set_mode_def fs_put_def fun_eq_iff split: option.splits node.splits)

lemma shape_readable: "keeps (\<lambda>w. shape (w_fs w) = F) (ensure_world_readable path)"
  by (auto simp: keeps_def ensure_world_readable_def Let_def shape_mode io_def with_context_def split: option.splits)

lemma shape_log: "logs_only m \<Longrightarrow> keeps (\<lambda>w. shape (w_fs w) = F) m"
  by (rule shapeI) simp

lemma shape_dedup: "keeps (\<lambda>w. shape (w_fs w) = F) (create_sync_queue_item_dedup_with_reason_and_error_with_created i a r e)"
  by (rule shapeI) (auto simp: create_sync_queue_item_dedup_with_reason_and_error_with_created_def bind_m_def
      create_sync_queue_item_with_reason_and_error_def Let_def queue.get_run push_item_def split: option.splits sum.splits prod.splits)

lemma shape_create: "keeps (\<lambda>w. shape (w_fs w) = F) (create_tracked_file_with_source i path h n vp b1 b2)"
  by (rule shapeI) (auto simp: create_tracked_file_with_source_def Let_def files.get_run split: option.splits)

lemma shape_update: "keeps (\<lambda>w. shape (w_fs w) = F) (update_files P g)"
  by (rule shapeI) simp

lemma shape_reads:
  "keeps P (checksum_file b3 path st)" "keeps P (read_b3_sidecar path')" "keeps P (metadata_len path)"
  "keeps P (get_tracked_file_by_path i path)" "keeps P (relative_path_for_entry path p)"
proof -
  show "keeps P (checksum_file b3 path st)" by (rule keeps_pure [OF checksum_pure])
  show "keeps P (read_b3_sidecar path')" by (rule keeps_pure [OF read_sidecar_pure])
qed (auto simp: keeps_def metadata_len_def io_def get_tracked_file_by_path_def relative_path_for_entry_def split: option.splits)

subsection \<open>What a scan does with one file\<close>

lemma keys_adopt_rest:
  "keeps (keys_are ks nx) (seq_m (discard (log_file_tracked i x)) (seq_m (\<lambda>w. (case mm of
       Some m \<Rightarrow> queue_b3_sidecar_mismatch p f m
     | None \<Rightarrow> (if b w then bind_m (create_for_new_tracking i) (\<lambda>_. return_m ())
                else update_tracked_file_mirror_status i False)) w) (return_m y)))"
proof -
  have "keeps (keys_are ks nx) (\<lambda>w. (case mm of Some m \<Rightarrow> queue_b3_sidecar_mismatch p f m
       | None \<Rightarrow> (if b w then bind_m (create_for_new_tracking i) (\<lambda>_. return_m ())
                  else update_tracked_file_mirror_status i False)) w)"
    by (cases mm) (simp_all add: key_keeps keeps_bind keeps_return keeps_def [of _ "\<lambda>w. (if b w then _ else _) w"] keepsD [where P = "keys_are ks nx"])
  then show ?thesis by (intro db_flow key_keeps)
qed

lemma adopt_grown: "keeps (grown K) (adopt_new_file b3 p path)"
  unfolding adopt_new_file_def by (intro keeps_bind keeps_prod from_disk_grown keys_grown keys_adopt_rest)

lemma adopt_there:
  assumes "adopt_new_file b3 p path w = (Inr f, v)"
  shows "grown {(dp_id p, path)} v"
proof -
  obtain g mm u where u: "create_tracked_file_from_disk b3 p path False True w = (Inr (g, mm), u)"
    and rest: "seq_m (discard (log_file_tracked (tf_id g) (fmt [dp_primary_path p, ''/'', path]))) (seq_m (\<lambda>w. (case mm of
       Some m \<Rightarrow> queue_b3_sidecar_mismatch p g m
     | None \<Rightarrow> (if standby_accepts_sync (w_fs w) p then bind_m (create_for_new_tracking (tf_id g)) (\<lambda>_. return_m ())
                else update_tracked_file_mirror_status (tf_id g) False)) w) (return_m g)) u = (Inr f, v)"
    using assms unfolding adopt_new_file_def bind_m_Inr by (auto split: prod.splits simp del: seq_m_Inr seq_m_discard)
  show ?thesis
    by (rule keeps_result [where P = "grown _", OF keys_grown [OF keys_adopt_rest] from_disk_there [OF u] rest])
qed

lemma keys_rescan: "keeps (keys_are ks nx) (rescan_known b3 p path rel f)"
proof -
  have "keeps (keys_are ks nx) (\<lambda>w. (if b w then bind_m (create_from_change i) (\<lambda>_. return_m ()) else return_m ()) w)" for b i
    using keys_make_items(1) [of ks nx i] by (simp add: keeps_def keeps_bind [unfolded keeps_def])
  then show ?thesis unfolding rescan_known_def by (intro db_flow shape_reads key_keeps)
qed

lemma scan_case_keeps:
  assumes "\<And>f. keeps P (g f)" "keeps P m"
  shows "keeps P (case known of Inr f \<Rightarrow> g f | Inl QueryReturnedNoRows \<Rightarrow> m | Inl e \<Rightarrow> raise_m e)"
  using assms by (auto simp: keeps_raise split: sum.splits err.splits)

lemma scan_entry_keeps:
  assumes "\<And>path rel f. keeps P (rescan_known b3 p path rel f)" "\<And>rel. keeps P (adopt_new_file b3 p rel)" "\<And>n. keeps P (on_progress n)"
  shows "keeps P (scan_entry b3 p folder on_progress path s)"
proof -
  have "keeps P (bind_m (rescan_known b3 p path rel f) (\<lambda>changed. return_m (if changed then s\<lparr>scan_changed := Suc (scan_changed s)\<rparr> else s)))" for rel f
    by (intro keeps_bind assms(1) keeps_return)
  moreover have "keeps P (bind_m (adopt_new_file b3 p rel) (\<lambda>_. return_m (s\<lparr>scan_new := Suc (scan_new s)\<rparr>)))" for rel
    by (intro keeps_bind assms(2) keeps_return)
  ultimately show ?thesis unfolding scan_entry_def Let_def
    by (intro keeps_bind keeps_if keeps_return keeps_try keeps_seq scan_case_keeps shape_reads assms)
qed

lemma scan_entry_there:
  assumes "scan_entry b3 p folder on_progress path s w = (Inr s', v)" "\<And>n. keeps (grown K) (on_progress n)"
    "strip_prefix (active_path p) path = Some rel" "\<not> ignored_sidecar folder rel" "K = {(dp_id p, rel)}"
  shows "grown K v"
proof -
  obtain k where k: "get_tracked_file_by_path (dp_id p) rel w = (k, w)"
    by (cases "find (\<lambda>f. tf_drive_pair_id f = dp_id p \<and> tf_relative_path f = rel) (db_files (w_db w))")
      (simp_all add: get_tracked_file_by_path_def)
  obtain a t n where t: "(case k of Inr e \<Rightarrow> bind_m (rescan_known b3 p path rel e) (\<lambda>changed.
             return_m (if changed then s\<lparr>scan_changed := Suc (scan_changed s)\<rparr> else s))
         | Inl QueryReturnedNoRows \<Rightarrow> bind_m (adopt_new_file b3 p rel) (\<lambda>_. return_m (s\<lparr>scan_new := Suc (scan_new s)\<rparr>))
         | Inl e \<Rightarrow> raise_m e) w = (Inr a, t)"
    and n: "on_progress n t = (Inr (), v)"
    using assms(1,3,4) k by (auto simp: scan_entry_def relative_path_for_entry_def Let_def)
  have "grown K t"
  proof (cases k)
    case (Inl e)
    then obtain f where "e = QueryReturnedNoRows" "adopt_new_file b3 p rel w = (Inr f, t)" using t by (cases e) auto
    then show ?thesis using adopt_there assms(5) by blast
  next
    case (Inr f)
    then have "f \<in> set (db_files (w_db w))" "tf_drive_pair_id f = dp_id p" "tf_relative_path f = rel"
      using k by (auto simp: get_tracked_file_by_path_def split: option.splits dest: find_SomeD)
    then have "grown K w" by (force simp: grown_def row_key_def assms(5))
    moreover obtain b where "rescan_known b3 p path rel f w = (Inr b, t)" using t Inr by auto
    ultimately show ?thesis using keeps_result [where P = "grown K", OF keys_grown [OF keys_rescan]] by blast
  qed
  then show ?thesis by (rule keeps_result [where P = "grown K", OF assms(2) _ n])
qed

lemma shape_adopt: "keeps (\<lambda>w. shape (w_fs w) = F) (adopt_new_file b3 p path)"
  "keeps (\<lambda>w. shape (w_fs w) = F) (rescan_known b3 p path' rel f)"
proof -
  let ?S = "\<lambda>w. shape (w_fs w) = F"
  have disk: "keeps ?S (create_tracked_file_from_disk b3 p path b1 b2)" for b1 b2
    unfolding create_tracked_file_from_disk_def Let_def
    by (intro keeps_when keeps_bail keeps_seq keeps_bind keeps_with_context keeps_try shape_readable shape_reads shape_create keeps_return)
  have item: "keeps ?S (create_from_change i)" "keeps ?S (create_for_new_tracking i)" "keeps ?S (create_user_action_required i r e)" for i r e
    unfolding create_from_change_def create_for_new_tracking_def create_user_action_required_def create_sync_queue_item_dedup_def
      create_sync_queue_item_dedup_with_created_def create_sync_queue_item_dedup_with_reason_def
    by (intro db_flow shape_dedup)+
  have side: "keeps ?S (queue_b3_sidecar_mismatch p g m)" for g m
    unfolding queue_b3_sidecar_mismatch_def by (intro keeps_bind keeps_discard item shape_log) simp
  have upd: "keeps ?S (update_tracked_file_mirror_status i b)" "keeps ?S (update_tracked_file_checksum i h n)" for i b h n
    unfolding update_tracked_file_mirror_status_def update_tracked_file_checksum_def by (rule shape_update)+
  have log: "keeps ?S (log_file_tracked i x)" "keeps ?S (log_event t i' x d)" for i x t i' d by (rule shape_log, simp)+
  have mm: "keeps ?S (\<lambda>w. (case mm of Some m \<Rightarrow> queue_b3_sidecar_mismatch p g m
       | None \<Rightarrow> (if b w then bind_m (create_for_new_tracking i) (\<lambda>_. return_m ())
                  else update_tracked_file_mirror_status i False)) w)" for mm g i b
  proof -
    have "keeps ?S (bind_m (create_for_new_tracking i) (\<lambda>_. return_m ()))" by (intro keeps_bind item keeps_return)
    then show ?thesis using side upd(1) [of i False] by (cases mm) (simp_all add: keeps_def)
  qed
  show "keeps ?S (adopt_new_file b3 p path)"
    unfolding adopt_new_file_def by (intro keeps_bind keeps_prod keeps_seq keeps_discard disk log mm keeps_return)
  have ch: "keeps ?S (\<lambda>w. (if b w then bind_m (create_from_change i) (\<lambda>_. return_m ()) else return_m ()) w)" for b i
  proof -
    have "keeps ?S (bind_m (create_from_change i) (\<lambda>_. return_m ()))" by (intro keeps_bind item keeps_return)
    then show ?thesis by (simp add: keeps_def return_m_def)
  qed
  show "keeps ?S (rescan_known b3 p path' rel f)"
    unfolding rescan_known_def by (intro keeps_bind keeps_if keeps_seq keeps_discard shape_reads upd log ch keeps_return)
qed

lemma after_walk_Inr: "after_walk r k = Some (Inr s, v) \<longleftrightarrow> (\<exists>a u. r = Some (Inr a, u) \<and> k a u = (Inr s, v))"
  by (cases r) (auto simp: after_walk_def split: sum.splits prod.splits)

text \<open>C30: A scan that succeeds leaves no file behind: every regular file the listings lead to below the folder, except ignored
  sidecars, has a row of the pair at the end, whatever the order of the listings and however deep the file is.\<close>

theorem scan_tracks_every_file:
  assumes "scan_tracked_folder n ls b3 p folder (update_scan_progress i) w = Some (Inr s, v)"
    "\<And>f k. ls f k = ls (shape f) k"
    "listed ls (w_fs w) (path_join (active_path p) (fo_folder_path folder)) path"
    "strip_prefix (active_path p) path = Some rel" "\<not> ignored_sidecar folder rel"
  shows "\<exists>f \<in> set (db_files (w_db v)). tf_drive_pair_id f = dp_id p \<and> tf_relative_path f = rel"
proof -
  let ?root = "path_join (active_path p) (fo_folder_path folder)" and ?step = "scan_entry b3 p folder (update_scan_progress i)"
  let ?F = "shape (w_fs w)"
  have prog: "keeps (keys_are ks nx) (update_scan_progress i k)" for ks nx k
    by (rule keysI) (simp add: update_scan_progress_def set_folder_def)
  note grows = keys_grown [OF prog]
  define Seen where "Seen q u = (\<forall>r. strip_prefix (active_path p) q = Some r \<longrightarrow> \<not> ignored_sidecar folder r \<longrightarrow> grown {(dp_id p, r)} u)" for q u
  have entry: "keeps (grown K) (?step q acc)" for K q acc
    by (intro scan_entry_keeps adopt_grown keys_grown [OF keys_rescan] grows)
  obtain s' u where u: "walk n ls ?step [?root] \<lparr>scan_scanned = 0, scan_new = 0, scan_changed = 0\<rparr> w = Some (Inr s', u)"
    and v: "scan_done p folder (scan_new s', scan_changed s') u = (Inr s, v)"
    using assms(1) by (cases rule: allowed_cases [of p w]) (auto simp: scan_tracked_folder_def after_walk_Inr)
  have "Seen path u"
  proof (rule walk_visits [where F = ?F and Seen = Seen, OF _ _ _ assms(2) u refl])
    show "keeps (\<lambda>w. shape (w_fs w) = ?F) (?step q acc)" for q acc
    proof (intro scan_entry_keeps shape_adopt)
      show "keeps (\<lambda>w. shape (w_fs w) = ?F) (update_scan_progress i k)" for k
        by (rule shapeI) (simp add: update_scan_progress_def set_folder_def)
    qed
    show "keeps (Seen x) (?step q acc)" for q acc x
      using entry [of _ q acc] by (simp add: keeps_def Seen_def)
    show "?step q acc a = (Inr acc', b) \<Longrightarrow> Seen q b" for q acc a acc' b
      using scan_entry_there [OF _ grows] by (auto simp: Seen_def)
    show "listed ls ?F ?root path" by (rule listed_shape [OF assms(2,3)])
  qed simp
  then have here: "grown {(dp_id p, rel)} u" using assms(4,5) by (simp add: Seen_def)
  have "keeps (grown K) (scan_done p folder x)" for K and x :: "nat \<times> nat"
  proof (rule keys_grown)
    have "keeps (keys_are ks nx) (recompute_folder_provenance_for_drive (dp_id p))" for ks nx
    proof -
      have "keeps (keys_are ks nx) (\<lambda>w. update_files (Q w) (\<lambda>f. f\<lparr>tf_tracked_via_folder := True\<rparr>) w)" for Q
        using keys_update_files [of "\<lambda>f. f\<lparr>tf_tracked_via_folder := True\<rparr>" ks nx] by (simp add: keeps_def row_key_def)
      then show ?thesis unfolding recompute_folder_provenance_for_drive_def
        by (intro keeps_seq keys_update_files) (simp_all add: row_key_def)
    qed
    moreover have "keeps (keys_are ks nx) (mark_tracked_folder_scanned (fo_id folder))" for ks nx
      by (rule keysI) (simp add: mark_tracked_folder_scanned_def set_folder_def)
    ultimately show "keeps (keys_are ks nx) (scan_done p folder x)" for ks nx
      unfolding scan_done_def by (intro keeps_seq keeps_return)
  qed
  from keeps_result [where P = "grown _" and m = "scan_done p folder _", OF this here v] have "grown {(dp_id p, rel)} v" .
  then show ?thesis by (auto simp: grown_def row_key_def)
qed

definition whole_folder :: tracked_folder where
  "whole_folder = docs_folder\<lparr>fo_folder_path := ''''\<rparr>"

definition b_listing :: listing where
  "b_listing f k = (if k = [''/'', ''b''] then [''x''] else [])"

theorem scan_tracks_every_file_witness:
  "\<exists>n v. scan_tracked_folder n b_listing (\<lambda>_. ''h'') ba_pair whole_folder (update_scan_progress 1) (with_row [7]) = Some (Inr (0, 0), v)
     \<and> (\<exists>f \<in> set (db_files (w_db v)). tf_drive_pair_id f = 1 \<and> tf_relative_path f = ''x'')"
proof -
  let ?w = "with_row [7]" and ?root = "path_join (active_path ba_pair) (fo_folder_path whole_folder)"
  have root: "?root = ''/b/''" by (simp add: whole_folder_def ba_roles path_join_def is_absolute_def)
  have j: "path_join ''/b/'' ''x'' = ''/b/x''" by (simp add: path_join_def is_absolute_def)
  have t: "target (w_fs ?w) ''/b/'' = Some [''/'', ''b'']" by (simp add: tracked_eval)
  have x: "\<not> path_is_dir (w_fs ?w) ''/b/x''" "path_is_file (w_fs ?w) ''/b/x''"
    by (simp_all add: path_is_dir_def path_is_file_def metadata_def tracked_eval)
  have s: "strip_prefix ''/b'' ''/b/x'' = Some ''x''"
    by (simp add: strip_prefix_def is_absolute_def skipped_def)
  have ig: "\<not> ignored_sidecar whole_folder ''x''" by (simp add: ignored_sidecar_def ends_with_def whole_folder_def)
  have "readable_bytes (w_fs ?w) ''/b/x'' = Some [7]" by (simp add: readable_bytes_def tracked_eval)
  then have h: "checksum_file (\<lambda>_. ''h'') ''/b/x'' Streaming ?w = (Inr ''h'', ?w)"
    using checksum_file_eq [OF const_hash, where w = ?w and p = "''/b/x''" and st = Streaming] by simp
  have g: "get_tracked_file_by_path 1 ''x'' ?w = (Inr (tracked_row [7]), ?w)"
    by (simp add: get_tracked_file_by_path_def tracked_eval)
  have p: "require_pair_mutation_allowed ba_pair ?w = (Inr (), ?w)" by (simp add: require_pair_mutation_allowed_def ba_roles)
  have r: "read_dir_ok (w_fs ?w) ''/b/''" by (simp add: read_dir_ok_def metadata_def tracked_eval)
  have same: "tf_checksum (tracked_row [7]) = ''h''" by (simp add: tracked_row_def)
  obtain a u where a: "scan_entry (\<lambda>_. ''h'') ba_pair whole_folder (update_scan_progress 1) ''/b/x''
      \<lparr>scan_scanned = 0, scan_new = 0, scan_changed = 0\<rparr> ?w = (Inr a, u)" "scan_new a = 0" "scan_changed a = 0"
    by (simp add: scan_entry_def relative_path_for_entry_def bind_m_def ba_roles s ig try_m_def g rescan_known_def h same Let_def
        update_scan_progress_def set_folder_def seq_m_def del: bind_m_Inr seq_m_Inr)
  have "walk 1 b_listing (scan_entry (\<lambda>_. ''h'') ba_pair whole_folder (update_scan_progress 1)) [''/b/'']
      \<lparr>scan_scanned = 0, scan_new = 0, scan_changed = 0\<rparr> ?w = Some (Inr a, u)"
    by (simp add: r t b_listing_def j x bind_m_def a del: bind_m_Inr)
  moreover obtain v where d: "scan_done ba_pair whole_folder (0 :: nat, 0 :: nat) u = (Inr (0, 0), v)"
    by (simp add: scan_done_def seq_m_def bind_m_def recompute_folder_provenance_for_drive_def update_files_def
        mark_tracked_folder_scanned_def set_folder_def del: bind_m_Inr seq_m_Inr)
  ultimately have v: "scan_tracked_folder 1 b_listing (\<lambda>_. ''h'') ba_pair whole_folder (update_scan_progress 1) ?w = Some (Inr (0 :: nat, 0 :: nat), v)"
    unfolding scan_tracked_folder_def p root by (simp add: after_walk_def a)
  have l: "listed b_listing (w_fs ?w) ?root ''/b/x''"
    using listed.here [of "''x''" b_listing "w_fs ?w" "''/b/''"] x by (simp add: root j entries_def t b_listing_def)
  have "\<exists>f \<in> set (db_files (w_db v)). tf_drive_pair_id f = dp_id ba_pair \<and> tf_relative_path f = ''x''"
    by (rule scan_tracks_every_file [OF v _ l]) (simp_all add: b_listing_def ba_roles s ig)
  then show ?thesis using v by (auto simp: ba_roles)
qed

end
