(* ===== verification/Auth.thy ===== *)
theory Auth
  imports BP_State
begin

section \<open>Authentication\<close>

text \<open>
  \<open>api/auth.rs\<close> and \<open>api/routes/auth.rs\<close>: tokens, their revocation, the login and the logout. The crates that sign tokens
  (\<open>jsonwebtoken\<close>) and ask PAM are parameters, the fields of \<open>auth_env\<close>; decoding depends on the clock, in seconds.
\<close>

record claims =
  cl_sub :: string
  cl_exp :: "64 word"
  cl_iat :: "64 word"

record auth_env =
  jwt_encode :: "claims \<Rightarrow> bytes \<Rightarrow> err + string"
  jwt_decode :: "string \<Rightarrow> bytes \<Rightarrow> int \<Rightarrow> err + claims"
  pam_context :: "string \<Rightarrow> string \<Rightarrow> err + nat"
  pam_authenticate :: "nat \<Rightarrow> err + unit"

subsection \<open>Requests and responses\<close>

text \<open>
  What the handlers read of a request: \<open>rq_login\<close> is the decoded \<open>LoginRequest\<close>, the user and the password. The \<open>expires_at\<close>
  of a login is kept in seconds.
\<close>

record request =
  rq_method :: string
  rq_path :: string
  rq_peer :: "string option"
  rq_authorization :: "string option"
  rq_login :: "(string \<times> string) option"

datatype body =
    ApiError string string
  | TextBody string
  | LoginResponse string string int
  | ValidateResponse string bool
  | MessageBody string

datatype response = Response (status_code: nat) (response_body: body)

text \<open>\<open>HeaderValue::to_str\<close> takes visible ASCII and tabs only.\<close>

definition header_char :: "char \<Rightarrow> bool" where
  "header_char c = (let n = (of_char c :: nat) in 32 \<le> n \<and> n < 127 \<or> n = 9)"

definition strip_bearer :: "string \<Rightarrow> string option" where
  "strip_bearer h = (if take 7 h = ''Bearer '' then Some (drop 7 h) else None)"

definition bearer_token :: "request \<Rightarrow> string option" where
  "bearer_token rq = (case rq_authorization rq of
       None \<Rightarrow> None
     | Some h \<Rightarrow> (if list_all header_char h then strip_bearer h else None))"

subsection \<open>Revoked tokens\<close>

definition revocation_key :: "claims \<Rightarrow> string" where
  "revocation_key c = fmt [cl_sub c, '':'', dec_nat (unat (cl_iat c))]"

definition revoke :: "claims \<Rightarrow> string set \<Rightarrow> string set" where
  "revoke c revoked = insert (revocation_key c) revoked"

definition is_revoked :: "claims \<Rightarrow> string set \<Rightarrow> bool" where
  "is_revoked c revoked = (revocation_key c \<in> revoked)"

subsection \<open>Tokens\<close>

definition issue_token :: "auth_env \<Rightarrow> string \<Rightarrow> bytes \<Rightarrow> int \<Rightarrow> int \<Rightarrow> err + string" where
  "issue_token env username secret expires_in_secs now =
     jwt_encode env \<lparr>cl_sub = username, cl_exp = word_of_int (now + expires_in_secs), cl_iat = word_of_int now\<rparr> secret"

definition validate_token :: "auth_env \<Rightarrow> string \<Rightarrow> bytes \<Rightarrow> int \<Rightarrow> err + claims" where
  "validate_token env tok secret now = jwt_decode env tok secret now"

text \<open>The shared data of the application that the handlers find, or do not find, behind a request.\<close>

record app_data =
  app_secret :: "bytes option"
  app_revoked :: "string set option"

definition unauthorized :: "string \<Rightarrow> response" where
  "unauthorized msg = Response 401 (TextBody msg)"

text \<open>The extractor of a handler: \<open>ext\<close> are the claims the middleware left in the request.\<close>

definition from_request :: "auth_env \<Rightarrow> app_data \<Rightarrow> claims option \<Rightarrow> request \<Rightarrow> int \<Rightarrow> response + claims" where
  "from_request env app ext rq now = (case ext of
       Some c \<Rightarrow> Inr c
     | None \<Rightarrow> (case app_secret app of
         None \<Rightarrow> Inl (Response 500 (TextBody ''JWT secret not configured''))
       | Some secret \<Rightarrow> (case bearer_token rq of
           None \<Rightarrow> Inl (unauthorized ''Missing or invalid authorization header'')
         | Some tok \<Rightarrow> (case validate_token env tok secret now of
             Inl _ \<Rightarrow> Inl (unauthorized ''Invalid or expired token'')
           | Inr c \<Rightarrow> (case app_revoked app of
               Some revoked \<Rightarrow> (if is_revoked c revoked then Inl (unauthorized ''Token revoked'') else Inr c)
             | None \<Rightarrow> Inr c)))))"

definition authenticate_user :: "auth_env \<Rightarrow> string \<Rightarrow> string \<Rightarrow> bool" where
  "authenticate_user env username password = (case pam_context env username password of
       Inl _ \<Rightarrow> False
     | Inr context \<Rightarrow> (case pam_authenticate env context of Inl _ \<Rightarrow> False | Inr _ \<Rightarrow> True))"

subsection \<open>Handlers\<close>

definition token_expires_secs :: int where
  "token_expires_secs = 86400"

definition login :: "auth_env \<Rightarrow> bytes \<Rightarrow> string \<times> string \<Rightarrow> int \<Rightarrow> response" where
  "login env secret credentials now = (case credentials of (username, password) \<Rightarrow>
     if \<not> authenticate_user env username password then unauthorized ''Invalid credentials''
     else (case issue_token env username secret token_expires_secs now of
         Inr tok \<Rightarrow> Response 200 (LoginResponse tok username (now + token_expires_secs))
       | Inl e \<Rightarrow> Response 500 (TextBody (err_to_string e))))"

definition validate :: "claims \<Rightarrow> response" where
  "validate c = Response 200 (ValidateResponse (cl_sub c) True)"

definition logout :: "claims \<Rightarrow> string set \<Rightarrow> response \<times> string set" where
  "logout c revoked = (Response 200 (MessageBody ''Logged out''), revoke c revoked)"

subsection \<open>A key names one user and one second\<close>

lemma dec_nat_digits: "c \<in> set (dec_nat n) \<Longrightarrow> \<exists>d < 10. c = char_of (48 + d :: nat)"
proof (induction n rule: dec_nat.induct)
  case (1 n)
  show ?case
  proof (cases "n < 10")
    case True
    then show ?thesis using "1.prems" by (auto simp: dec_nat.simps [of n])
  next
    case False
    then have "c \<in> set (dec_nat (n div 10)) \<or> c = char_of (48 + n mod 10)"
      using "1.prems" by (auto simp: dec_nat.simps [of n])
    then show ?thesis
    proof
      assume "c = char_of (48 + n mod 10)"
      then show ?thesis by (intro exI [of _ "n mod 10"]) simp
    qed (use "1.IH" False in blast)
  qed
qed

lemma dec_nat_no_colon: "CHR '':'' \<notin> set (dec_nat n)"
proof
  assume "CHR '':'' \<in> set (dec_nat n)"
  then obtain d :: nat where d: "d < 10" "CHR '':'' = char_of (48 + d)" using dec_nat_digits by blast
  have "of_char (CHR '':'') = (58 :: nat)" by simp
  moreover have "of_char (char_of (48 + d)) = 48 + d" using d(1) by (simp add: of_char_of)
  ultimately show False using d by simp
qed

lemma digit_inj: "a < 10 \<Longrightarrow> b < 10 \<Longrightarrow> char_of (48 + a :: nat) = char_of (48 + b) \<Longrightarrow> a = b"
proof -
  assume "a < 10" "b < 10" and e: "char_of (48 + a :: nat) = char_of (48 + b)"
  then have "of_char (char_of (48 + a)) = 48 + a" "of_char (char_of (48 + b)) = 48 + b" by (simp_all add: of_char_of)
  then show "a = b" using e by simp
qed

lemma dec_nat_not_Nil: "dec_nat n \<noteq> []"
  by (subst dec_nat.simps) simp

lemma dec_nat_inj: "dec_nat m = dec_nat n \<Longrightarrow> m = n"
proof (induction m arbitrary: n rule: dec_nat.induct)
  case (1 m)
  consider (small) "m < 10" "n < 10" | (mixed) "m < 10 \<longleftrightarrow> \<not> n < 10" | (large) "\<not> m < 10" "\<not> n < 10" by blast
  then show ?case
  proof cases
    case small
    then show ?thesis using "1.prems" digit_inj by (simp add: dec_nat.simps [of m] dec_nat.simps [of n])
  next
    case mixed
    then show ?thesis using "1.prems" dec_nat_not_Nil
      by (auto simp: dec_nat.simps [of m] dec_nat.simps [of n] Cons_eq_append_conv append_eq_Cons_conv split: if_splits)
  next
    case large
    then have "dec_nat (m div 10) = dec_nat (n div 10)" "char_of (48 + m mod 10) = char_of (48 + n mod 10)"
      using "1.prems" by (simp_all add: dec_nat.simps [of m] dec_nat.simps [of n])
    then have "m div 10 = n div 10" "m mod 10 = n mod 10"
      using "1.IH" large digit_inj [of "m mod 10" "n mod 10"] by simp_all
    then show ?thesis by (metis div_mult_mod_eq)
  qed
qed

lemma split_at_last:
  "x \<notin> set ys \<Longrightarrow> x \<notin> set ys' \<Longrightarrow> xs @ x # ys = xs' @ x # ys' \<Longrightarrow> xs = xs' \<and> ys = ys'"
proof (induction xs arbitrary: xs')
  case Nil
  then show ?case by (cases xs') auto
next
  case (Cons a xs)
  then show ?case by (cases xs') auto
qed

lemma revocation_key_eq:
  "revocation_key c = revocation_key d \<longleftrightarrow> cl_sub c = cl_sub d \<and> cl_iat c = cl_iat d"
proof
  assume "revocation_key c = revocation_key d"
  then have "cl_sub c @ CHR '':'' # dec_nat (unat (cl_iat c)) = cl_sub d @ CHR '':'' # dec_nat (unat (cl_iat d))"
    by (simp add: revocation_key_def fmt_def)
  then have "cl_sub c = cl_sub d \<and> dec_nat (unat (cl_iat c)) = dec_nat (unat (cl_iat d))"
    using split_at_last [OF dec_nat_no_colon dec_nat_no_colon] by blast
  then show "cl_sub c = cl_sub d \<and> cl_iat c = cl_iat d" by (auto dest: dec_nat_inj intro: unsigned_word_eqI)
qed (simp add: revocation_key_def)

lemma is_revoked_revoke:
  "is_revoked c (revoke d revoked) \<longleftrightarrow> is_revoked c revoked \<or> cl_sub c = cl_sub d \<and> cl_iat c = cl_iat d"
  by (auto simp: is_revoked_def revoke_def revocation_key_eq)

end
