(* ===== verification/Server.thy ===== *)
theory Server
  imports Auth
begin

section \<open>The server: rate limits, the token gate, routing\<close>

text \<open>
  \<open>api/server.rs\<close>. A server holds the limiter, the application data and \<open>'w\<close>, whatever the other handlers work on; they are
  parameters: \<open>protected\<close> for the routes behind the gate, \<open>public\<close> for what lies outside the API. Instants are nanoseconds of
  the monotonic clock. Cross-origin preflights, answered by \<open>actix_cors\<close> before the application, are left out.
\<close>

subsection \<open>The rate limiter\<close>

record rate_limiter =
  rl_requests :: "string \<Rightarrow> nat list option"
  rl_max_requests :: nat
  rl_window :: nat

definition rate_limiter_new :: "nat \<Rightarrow> nat \<Rightarrow> rate_limiter" where
  "rate_limiter_new max_requests window_secs =
     \<lparr>rl_requests = Map.empty, rl_max_requests = max_requests, rl_window = window_secs * 1000000000\<rparr>"

text \<open>\<open>duration_since\<close> answers zero for an instant that is later, as subtraction of naturals does.\<close>

definition is_allowed :: "string \<Rightarrow> nat \<Rightarrow> rate_limiter \<Rightarrow> bool \<times> rate_limiter" where
  "is_allowed k now rl =
     (let entry = filter (\<lambda>t. now - t < rl_window rl) (case rl_requests rl k of None \<Rightarrow> [] | Some e \<Rightarrow> e) in
      if length entry < rl_max_requests rl
      then (True, rl\<lparr>rl_requests := (rl_requests rl)(k \<mapsto> entry @ [now])\<rparr>)
      else (False, rl\<lparr>rl_requests := (rl_requests rl)(k \<mapsto> entry)\<rparr>))"

definition peer_ip :: "request \<Rightarrow> string" where
  "peer_ip rq = (case rq_peer rq of Some ip \<Rightarrow> ip | None \<Rightarrow> ''unknown'')"

subsection \<open>The token gate\<close>

text \<open>What the middleware answers itself, or the claims with which it calls the service.\<close>

definition jwt_gate :: "auth_env \<Rightarrow> app_data \<Rightarrow> request \<Rightarrow> int \<Rightarrow> response + claims" where
  "jwt_gate env app rq now = (case app_secret app of
       None \<Rightarrow> Inl (Response 500 (ApiError ''internal_error'' ''JWT secret not configured''))
     | Some secret \<Rightarrow> (case bearer_token rq of
         None \<Rightarrow> Inl (Response 401 (ApiError ''unauthorized'' ''Missing authorization header''))
       | Some tok \<Rightarrow> (case validate_token env tok secret now of
           Inl _ \<Rightarrow> Inl (Response 401 (ApiError ''unauthorized'' ''Invalid or expired token''))
         | Inr c \<Rightarrow> (case app_revoked app of
             Some revoked \<Rightarrow>
               (if is_revoked c revoked then Inl (Response 401 (ApiError ''unauthorized'' ''Token revoked'')) else Inr c)
           | None \<Rightarrow> Inr c))))"

subsection \<open>Routing\<close>

record 'w server =
  sv_limiter :: rate_limiter
  sv_app :: app_data
  sv_data :: 'w

record 'w handlers =
  h_protected :: "request \<Rightarrow> claims \<Rightarrow> 'w \<Rightarrow> response \<times> 'w"
  h_public :: "request \<Rightarrow> response"

text \<open>Data that was never registered makes the extractor \<open>web::Data\<close> answer 500.\<close>

definition missing_data :: response where
  "missing_data = Response 500 (TextBody ''Requested application data is not configured correctly'')"

definition is_login :: "request \<Rightarrow> bool" where
  "is_login rq = (rq_method rq = ''POST'' \<and> rq_path rq = ''/api/v1/auth/login'')"

definition is_health :: "request \<Rightarrow> bool" where
  "is_health rq = (rq_method rq = ''GET'' \<and> rq_path rq = ''/api/v1/health'')"

definition is_logout :: "request \<Rightarrow> bool" where
  "is_logout rq = (rq_method rq = ''POST'' \<and> rq_path rq = ''/api/v1/auth/logout'')"

definition is_validate :: "request \<Rightarrow> bool" where
  "is_validate rq = (rq_method rq = ''GET'' \<and> rq_path rq = ''/api/v1/auth/validate'')"

definition in_api :: "request \<Rightarrow> bool" where
  "in_api rq = (rq_path rq = ''/api/v1'' \<or> take 8 (rq_path rq) = ''/api/v1/'')"

text \<open>The scope behind the gate; the extractors of its handlers find the claims the gate left.\<close>

definition protected_scope :: "auth_env \<Rightarrow> 'w handlers \<Rightarrow> request \<Rightarrow> int \<Rightarrow> claims \<Rightarrow> app_data \<Rightarrow> 'w \<Rightarrow> response \<times> app_data \<times> 'w" where
  "protected_scope env h rq now c app x =
     (if is_validate rq then
        (case from_request env app (Some c) rq now of Inl r \<Rightarrow> (r, app, x) | Inr d \<Rightarrow> (validate d, app, x))
      else if is_logout rq then
        (case from_request env app (Some c) rq now of
           Inl r \<Rightarrow> (r, app, x)
         | Inr d \<Rightarrow> (case app_revoked app of
             None \<Rightarrow> (missing_data, app, x)
           | Some revoked \<Rightarrow> (let (r, revoked') = logout d revoked in (r, app\<lparr>app_revoked := Some revoked'\<rparr>, x))))
      else (let (r, x') = h_protected h rq c x in (r, app, x')))"

definition configure_routes :: "auth_env \<Rightarrow> 'w handlers \<Rightarrow> request \<Rightarrow> int \<Rightarrow> app_data \<Rightarrow> 'w \<Rightarrow> response \<times> app_data \<times> 'w" where
  "configure_routes env h rq now app x =
     (if is_login rq then
        (case app_secret app of
           None \<Rightarrow> (missing_data, app, x)
         | Some secret \<Rightarrow> (case rq_login rq of
             None \<Rightarrow> (Response 400 (TextBody ''Json deserialize error''), app, x)
           | Some credentials \<Rightarrow> (login env secret credentials now, app, x)))
      else if is_health rq then (Response 200 (MessageBody ''ok''), app, x)
      else if in_api rq then
        (case jwt_gate env app rq now of
           Inl r \<Rightarrow> (r, app, x)
         | Inr c \<Rightarrow> protected_scope env h rq now c app x)
      else (h_public h rq, app, x))"

text \<open>One request, at an instant and a time of day: first the limiter, then the routes.\<close>

definition serve :: "auth_env \<Rightarrow> 'w handlers \<Rightarrow> request \<times> nat \<times> int \<Rightarrow> 'w server \<Rightarrow> response \<times> 'w server" where
  "serve env h rq_at s = (case rq_at of (rq, instant, now) \<Rightarrow>
     (let (allowed, rl) = is_allowed (peer_ip rq) instant (sv_limiter s) in
      if \<not> allowed then (Response 429 (ApiError ''too_many_requests'' ''Rate limit exceeded''), s\<lparr>sv_limiter := rl\<rparr>)
      else (let (r, app, x) = configure_routes env h rq now (sv_app s) (sv_data s) in
            (r, s\<lparr>sv_limiter := rl, sv_app := app, sv_data := x\<rparr>))))"

fun serve_all :: "auth_env \<Rightarrow> 'w handlers \<Rightarrow> (request \<times> nat \<times> int) list \<Rightarrow> 'w server \<Rightarrow> response list \<times> 'w server" where
  "serve_all env h [] s = ([], s)"
| "serve_all env h (x # xs) s =
     (let (r, s1) = serve env h x s; (rs, s2) = serve_all env h xs s1 in (r # rs, s2))"

definition new_server :: "bytes \<Rightarrow> nat \<Rightarrow> 'w \<Rightarrow> 'w server" where
  "new_server jwt_secret rate_limit_rps x =
     \<lparr>sv_limiter = rate_limiter_new rate_limit_rps 1,
      sv_app = \<lparr>app_secret = Some jwt_secret, app_revoked = Some {}\<rparr>, sv_data = x\<rparr>"

section \<open>The limiter is exact\<close>

text \<open>The requests a limiter let through, in their order.\<close>

fun admit_all :: "(string \<times> nat) list \<Rightarrow> rate_limiter \<Rightarrow> (string \<times> nat) list \<times> rate_limiter" where
  "admit_all [] rl = ([], rl)"
| "admit_all (x # xs) rl =
     (let (b, rl1) = is_allowed (fst x) (snd x) rl; (ys, rl2) = admit_all xs rl1 in (if b then x # ys else ys, rl2))"

lemma admit_all_snoc:
  "admit_all (xs @ [x]) rl =
     (let (ys, rl1) = admit_all xs rl; (b, rl2) = is_allowed (fst x) (snd x) rl1 in (if b then ys @ [x] else ys, rl2))"
  by (induction xs arbitrary: rl) (auto simp: Let_def split: prod.splits)

definition times_of :: "string \<Rightarrow> (string \<times> nat) list \<Rightarrow> nat list" where
  "times_of k log = map snd (filter (\<lambda>x. fst x = k) log)"

lemma times_of_snoc: "times_of k (log @ [(k', t)]) = times_of k log @ (if k' = k then [t] else [])"
  by (simp add: times_of_def)

text \<open>At any later time the recent instants of the entry of a key are the recent admitted requests of that key.\<close>

definition entry_of :: "string \<Rightarrow> rate_limiter \<Rightarrow> nat list" where
  "entry_of k rl = (case rl_requests rl k of None \<Rightarrow> [] | Some e \<Rightarrow> e)"

definition limiter_ok :: "nat \<Rightarrow> nat \<Rightarrow> nat \<Rightarrow> (string \<times> nat) list \<Rightarrow> rate_limiter \<Rightarrow> bool" where
  "limiter_ok m w now log rl = (rl_max_requests rl = m \<and> rl_window rl = w
     \<and> (\<forall>k. \<forall>v \<ge> now. filter (\<lambda>t. v - t < w) (entry_of k rl) = filter (\<lambda>t. v - t < w) (times_of k log))
     \<and> (\<forall>k s. length (filter (\<lambda>t. s \<le> t \<and> t < s + w) (times_of k log)) \<le> m))"

lemma limiter_okD:
  assumes "limiter_ok m w now log rl"
  shows "rl_max_requests rl = m" "rl_window rl = w"
    "now \<le> v \<Longrightarrow> filter (\<lambda>t. v - t < w) (entry_of k rl) = filter (\<lambda>t. v - t < w) (times_of k log)"
    "length (filter (\<lambda>t. s \<le> t \<and> t < s + w) (times_of k log)) \<le> m"
  using assms unfolding limiter_ok_def by blast+

lemma filter_later: "now \<le> v \<Longrightarrow> filter (\<lambda>t. now - t < w \<and> v - t < w) ts = filter (\<lambda>t. v - t < w) (ts :: nat list)"
  by (induction ts) auto

lemma filter_longer: "(\<And>x. P x \<Longrightarrow> Q x) \<Longrightarrow> length (filter P xs) \<le> length (filter Q xs)"
  by (induction xs) auto

lemma is_allowed_ok:
  assumes "limiter_ok m w u log rl" "u \<le> now" "is_allowed k now rl = (b, rl')"
  shows "limiter_ok m w now (if b then log @ [(k, now)] else log) rl'"
    "b \<longleftrightarrow> length (filter (\<lambda>t. now - t < w) (times_of k log)) < m"
proof -
  let ?e = "filter (\<lambda>t. now - t < w) (times_of k log)" and ?log = "if b then log @ [(k, now)] else log"
  note ok = limiter_okD [OF assms(1)]
  note run = assms(3) [unfolded is_allowed_def entry_of_def [symmetric] ok(1,2) ok(3) [OF assms(2)] Let_def]
  show b: "b \<longleftrightarrow> length ?e < m" using run by (simp split: if_splits)
  have rl': "rl' = rl\<lparr>rl_requests := (rl_requests rl)(k \<mapsto> if b then ?e @ [now] else ?e)\<rparr>"
    using run by (auto split: if_splits)
  have entry: "filter (\<lambda>t. v - t < w) (entry_of k' rl') = filter (\<lambda>t. v - t < w) (times_of k' ?log)" if "now \<le> v" for k' v
  proof (cases "k' = k")
    case True
    then show ?thesis using that by (simp add: rl' entry_of_def filter_later times_of_snoc)
  next
    case False
    then show ?thesis using ok(3) [of v k'] assms(2) that by (simp add: rl' entry_of_def times_of_snoc)
  qed
  have bound: "length (filter (\<lambda>t. s \<le> t \<and> t < s + w) (times_of k' ?log)) \<le> m" for k' s
  proof (cases "b \<and> k' = k \<and> s \<le> now \<and> now < s + w")
    case True
    then have "length (filter (\<lambda>t. s \<le> t \<and> t < s + w) (times_of k log)) \<le> length ?e"
      by (intro filter_longer) linarith
    then show ?thesis using True b by (simp add: times_of_snoc)
  next
    case False
    then have "filter (\<lambda>t. s \<le> t \<and> t < s + w) (times_of k' ?log) = filter (\<lambda>t. s \<le> t \<and> t < s + w) (times_of k' log)"
      by (auto simp: times_of_snoc)
    then show ?thesis using ok(4) by simp
  qed
  show "limiter_ok m w now ?log rl'"
    using entry bound ok(1,2) by (simp add: limiter_ok_def rl')
qed

lemma admit_all_ok:
  assumes "sorted (map snd xs)" "\<And>x. x \<in> set xs \<Longrightarrow> snd x \<le> now" "admit_all xs (rate_limiter_new m secs) = (log, rl)"
  shows "limiter_ok m (secs * 1000000000) now log rl"
  using assms
proof (induction xs arbitrary: now log rl rule: rev_induct)
  case Nil
  then show ?case by (auto simp: limiter_ok_def rate_limiter_new_def entry_of_def times_of_def)
next
  case (snoc x xs)
  obtain ys rl1 where ys: "admit_all xs (rate_limiter_new m secs) = (ys, rl1)" by fastforce
  obtain b rl2 where b: "is_allowed (fst x) (snd x) rl1 = (b, rl2)" by fastforce
  have "limiter_ok m (secs * 1000000000) (snd x) ys rl1"
    using snoc.prems(1) by (intro snoc.IH ys) (auto simp: sorted_append)
  from is_allowed_ok(1) [OF this le_refl b]
  have "limiter_ok m (secs * 1000000000) (snd x) log rl"
    using snoc.prems(3) by (simp add: admit_all_snoc ys b split: if_splits)
  then show ?case using snoc.prems(2) [of x] by (auto simp: limiter_ok_def dest: le_trans)
qed

text \<open>C32: However the requests come, each address has at most the allowed number of them let through in any window of time, and a
  request is refused only when the window that ends with it is full: the limiter neither leaks nor starves.\<close>

theorem rate_limit_exact:
  assumes "sorted (map snd (xs @ [(k, now)]))" "admit_all xs (rate_limiter_new m secs) = (log, rl)"
  shows "(fst (is_allowed k now rl) \<longleftrightarrow> length (filter (\<lambda>t. now - t < secs * 1000000000) (times_of k log)) < m)
    \<and> length (filter (\<lambda>t. s \<le> t \<and> t < s + secs * 1000000000) (times_of k' (fst (admit_all (xs @ [(k, now)]) (rate_limiter_new m secs))))) \<le> m"
proof -
  obtain b rl' where b: "is_allowed k now rl = (b, rl')" by fastforce
  have "limiter_ok m (secs * 1000000000) now log rl" using assms by (intro admit_all_ok) (auto simp: sorted_append)
  note ok = is_allowed_ok [OF this le_refl b]
  show ?thesis using ok(2) limiter_okD(4) [OF ok(1)] b assms(2) by (simp add: admit_all_snoc split: if_splits)
qed

theorem rate_limit_exact_witness:
  "admit_all [(''a'', 0), (''a'', 5)] (rate_limiter_new 2 1) = ([(''a'', 0), (''a'', 5)], rate_limiter_new 2 1\<lparr>rl_requests := [''a'' \<mapsto> [0, 5]]\<rparr>)
   \<and> \<not> fst (is_allowed ''a'' 999999999 (rate_limiter_new 2 1\<lparr>rl_requests := [''a'' \<mapsto> [0, 5]]\<rparr>))
   \<and> fst (is_allowed ''a'' 1000000000 (rate_limiter_new 2 1\<lparr>rl_requests := [''a'' \<mapsto> [0, 5]]\<rparr>))"
proof -
  have run: "admit_all [(''a'', 0), (''a'', 5)] (rate_limiter_new 2 1) = ([(''a'', 0), (''a'', 5)], rate_limiter_new 2 1\<lparr>rl_requests := [''a'' \<mapsto> [0, 5]]\<rparr>)"
    by (simp add: rate_limiter_new_def is_allowed_def Let_def)
  show ?thesis
    using rate_limit_exact [OF _ run, of "''a''" 999999999] rate_limit_exact [OF _ run, of "''a''" 1000000000] run
    by (simp add: times_of_def)
qed

section \<open>Tokens die at logout\<close>

text \<open>Whether one of the served requests was an accepted logout of the user with a token of that second.\<close>

definition logs_out :: "auth_env \<Rightarrow> bytes \<Rightarrow> request \<times> nat \<times> int \<Rightarrow> response \<Rightarrow> string \<Rightarrow> 64 word \<Rightarrow> bool" where
  "logs_out env k x r u i = (is_logout (fst x) \<and> status_code r = 200
     \<and> (\<exists>t c. bearer_token (fst x) = Some t \<and> jwt_decode env t k (snd (snd x)) = Inr c \<and> cl_sub c = u \<and> cl_iat c = i))"

definition logged_out :: "auth_env \<Rightarrow> bytes \<Rightarrow> (request \<times> nat \<times> int) list \<Rightarrow> response list \<Rightarrow> string \<Rightarrow> 64 word \<Rightarrow> bool" where
  "logged_out env k xs rs u i = (\<exists>(x, r) \<in> set (zip xs rs). logs_out env k x r u i)"

text \<open>The routes that need a token.\<close>

definition needs_token :: "request \<Rightarrow> bool" where
  "needs_token rq = (in_api rq \<and> \<not> is_login rq \<and> \<not> is_health rq)"

lemma logout_route: "is_logout rq \<Longrightarrow> needs_token rq \<and> \<not> is_validate rq"
  by (simp add: is_logout_def needs_token_def in_api_def is_login_def is_health_def is_validate_def)

lemma validate_route: "is_validate rq \<Longrightarrow> needs_token rq"
  by (simp add: needs_token_def in_api_def is_login_def is_health_def is_validate_def)

lemma jwt_gate_Inr:
  assumes "app_secret app = Some k" "app_revoked app = Some R"
  shows "jwt_gate env app rq now = Inr c \<longleftrightarrow>
    (\<exists>t. bearer_token rq = Some t \<and> jwt_decode env t k now = Inr c) \<and> \<not> is_revoked c R"
  using assms by (auto simp: jwt_gate_def validate_token_def split: option.splits sum.splits)

lemma jwt_gate_refuses:
  assumes "app_secret app = Some k" "jwt_gate env app rq now = Inl r"
  shows "status_code r = 401"
  using assms by (auto simp: jwt_gate_def split: option.splits sum.splits if_splits)

lemma routes_token:
  "needs_token rq \<Longrightarrow> configure_routes env h rq now app x = (case jwt_gate env app rq now of
       Inl r \<Rightarrow> (r, app, x) | Inr c \<Rightarrow> protected_scope env h rq now c app x)"
  by (simp add: configure_routes_def needs_token_def)

lemma routes_open: "\<not> needs_token rq \<Longrightarrow> snd (configure_routes env h rq now app x) = (app, x)"
  by (auto simp: configure_routes_def needs_token_def split: option.splits)

lemma scope_app:
  assumes "protected_scope env h rq now c app x = (r, app', x')" "app_revoked app = Some R"
  shows "app' = (if is_logout rq then app\<lparr>app_revoked := Some (revoke c R)\<rparr> else app)" "is_logout rq \<Longrightarrow> status_code r = 200"
  using assms logout_route by (auto simp: protected_scope_def from_request_def logout_def split: if_splits prod.splits)

lemma serve_revokes:
  assumes "serve env h x s = (r, s1)" "app_secret (sv_app s) = Some k" "app_revoked (sv_app s) = Some R"
  shows "app_secret (sv_app s1) = Some k
    \<and> (\<exists>R'. app_revoked (sv_app s1) = Some R' \<and> (\<forall>c. is_revoked c R' \<longleftrightarrow> is_revoked c R \<or> logs_out env k x r (cl_sub c) (cl_iat c)))"
proof -
  obtain rq m n where x: "x = (rq, m, n)" by (cases x)
  obtain b rl where b: "is_allowed (peer_ip rq) m (sv_limiter s) = (b, rl)" by fastforce
  show ?thesis
  proof (cases b)
    case False
    then have "s1 = s\<lparr>sv_limiter := rl\<rparr>" "status_code r = 429" using assms(1) by (auto simp: serve_def x b)
    then show ?thesis using assms by (simp add: logs_out_def)
  next
    case True
    obtain app y where run: "configure_routes env h rq n (sv_app s) (sv_data s) = (r, app, y)" and s1: "sv_app s1 = app"
      using assms(1) True by (auto simp: serve_def x b split: prod.splits)
    consider (free) "\<not> needs_token rq" | (refused) e where "needs_token rq" "jwt_gate env (sv_app s) rq n = Inl e"
      | (admitted) c where "needs_token rq" "jwt_gate env (sv_app s) rq n = Inr c"
      by (cases "jwt_gate env (sv_app s) rq n") auto
    then show ?thesis
    proof cases
      case free
      then have "app = sv_app s" using routes_open [OF free, of env h n "sv_app s" "sv_data s"] run by simp
      moreover have "\<not> is_logout rq" using free logout_route by blast
      ultimately show ?thesis using assms s1 by (simp add: logs_out_def x)
    next
      case refused
      then have "app = sv_app s" "r = e" using run by (simp_all add: routes_token)
      then show ?thesis using jwt_gate_refuses [OF assms(2) refused(2)] assms s1 by (simp add: logs_out_def)
    next
      case admitted
      then have scope: "protected_scope env h rq n c (sv_app s) (sv_data s) = (r, app, y)" using run by (simp add: routes_token)
      note app = scope_app [OF scope assms(3)]
      have c: "\<exists>t. bearer_token rq = Some t \<and> jwt_decode env t k n = Inr c" using admitted(2) jwt_gate_Inr [OF assms(2,3)] by blast
      then have "logs_out env k x r u i \<longleftrightarrow> is_logout rq \<and> cl_sub c = u \<and> cl_iat c = i" for u i
        using app(2) by (auto simp: logs_out_def x)
      then show ?thesis using assms s1 app(1) by (auto simp: is_revoked_revoke)
    qed
  qed
qed

lemma serve_all_revokes:
  assumes "serve_all env h xs s = (rs, s1)" "app_secret (sv_app s) = Some k" "app_revoked (sv_app s) = Some R"
  shows "app_secret (sv_app s1) = Some k
    \<and> (\<exists>R'. app_revoked (sv_app s1) = Some R' \<and> (\<forall>c. is_revoked c R' \<longleftrightarrow> is_revoked c R \<or> logged_out env k xs rs (cl_sub c) (cl_iat c)))"
  using assms
proof (induction xs arbitrary: s rs R)
  case Nil
  then show ?case by (simp add: logged_out_def)
next
  case (Cons x xs)
  obtain r s2 where r: "serve env h x s = (r, s2)" by fastforce
  obtain rs' where rs: "serve_all env h xs s2 = (rs', s1)" "rs = r # rs'" using Cons.prems(1) r by (auto split: prod.splits)
  from serve_revokes [OF r Cons.prems(2,3)] obtain R2 where R2: "app_secret (sv_app s2) = Some k" "app_revoked (sv_app s2) = Some R2"
    "\<And>c. is_revoked c R2 \<longleftrightarrow> is_revoked c R \<or> logs_out env k x r (cl_sub c) (cl_iat c)" by blast
  show ?case using Cons.IH [OF rs(1) R2(1,2)] R2(3) by (auto simp: rs(2) logged_out_def)
qed

text \<open>C31: Whatever requests a server has answered since its start, a request to a protected route that the limiter lets through reaches
  its handler exactly when it carries a token that decodes under the server's key and no logout was accepted for the same user with a token
  issued in the same second; otherwise it is answered 401 and changes nothing but the limiter.\<close>

theorem tokens_die_at_logout:
  assumes "serve_all env h xs (new_server k m y) = (rs, s)" "serve env h (rq, instant, now) s = (r, s')"
    "needs_token rq" "fst (is_allowed (peer_ip rq) instant (sv_limiter s))"
  shows "if \<exists>t c. bearer_token rq = Some t \<and> jwt_decode env t k now = Inr c \<and> \<not> logged_out env k xs rs (cl_sub c) (cl_iat c)
    then \<exists>t c. bearer_token rq = Some t \<and> jwt_decode env t k now = Inr c
      \<and> (r, sv_app s', sv_data s') = protected_scope env h rq now c (sv_app s) (sv_data s)
    else status_code r = 401 \<and> sv_app s' = sv_app s \<and> sv_data s' = sv_data s"
proof -
  have "app_secret (sv_app (new_server k m y)) = Some k" "app_revoked (sv_app (new_server k m y)) = Some {}"
    by (simp_all add: new_server_def)
  from serve_all_revokes [OF assms(1) this] obtain R where R: "app_secret (sv_app s) = Some k" "app_revoked (sv_app s) = Some R"
    "\<And>c. is_revoked c R \<longleftrightarrow> logged_out env k xs rs (cl_sub c) (cl_iat c)" by (auto simp: is_revoked_def)
  note admitted = jwt_gate_Inr [OF R(1,2), unfolded R(3)]
  have run: "(r, sv_app s', sv_data s') = configure_routes env h rq now (sv_app s) (sv_data s)"
    using assms(2,4) by (auto simp: serve_def split: prod.splits)
  show ?thesis
  proof (cases "jwt_gate env (sv_app s) rq now")
    case (Inr c)
    then show ?thesis using admitted [of env rq now c] run by (auto simp: routes_token [OF assms(3)])
  next
    case (Inl e)
    then have no: "\<not> (\<exists>t c. bearer_token rq = Some t \<and> jwt_decode env t k now = Inr c \<and> \<not> logged_out env k xs rs (cl_sub c) (cl_iat c))"
      using admitted [of env rq now] by auto
    have "r = e \<and> sv_app s' = sv_app s \<and> sv_data s' = sv_data s" using Inl run by (simp add: routes_token [OF assms(3)])
    then show ?thesis using jwt_gate_refuses [OF R(1) Inl] by (simp only: no if_False simp_thms)
  qed
qed

text \<open>A user logs out and tries again.\<close>

definition sample_env :: auth_env where
  "sample_env = \<lparr>jwt_encode = (\<lambda>c _. Inr (cl_sub c)),
     jwt_decode = (\<lambda>t _ now. if now \<le> 60 then Inr \<lparr>cl_sub = t, cl_exp = 0, cl_iat = 0\<rparr> else Inl (Bail ''ExpiredSignature'')),
     pam_context = (\<lambda>_ _. Inr 0), pam_authenticate = (\<lambda>_. Inr ())\<rparr>"

definition api_request :: "string \<Rightarrow> string \<Rightarrow> request" where
  "api_request meth p = \<lparr>rq_method = meth, rq_path = p, rq_peer = None, rq_authorization = Some ''Bearer u'', rq_login = None\<rparr>"

theorem tokens_die_at_logout_witness:
  "\<exists>rs s r s'. serve_all sample_env \<lparr>h_protected = (\<lambda>_ _ n. (Response 200 (TextBody ''ok''), Suc n)), h_public = (\<lambda>_. missing_data)\<rparr>
      [(api_request ''POST'' ''/api/v1/auth/logout'', 0, 5)] (new_server [] 10 0) = (rs, s)
    \<and> serve sample_env \<lparr>h_protected = (\<lambda>_ _ n. (Response 200 (TextBody ''ok''), Suc n)), h_public = (\<lambda>_. missing_data)\<rparr>
      (api_request ''GET'' ''/api/v1/drives'', 1, 6) s = (r, s') \<and> status_code r = 401 \<and> sv_data s' = (0 :: nat)"
proof -
  let ?h = "\<lparr>h_protected = (\<lambda>_ _ n. (Response 200 (TextBody ''ok''), Suc n)), h_public = (\<lambda>_. missing_data)\<rparr>"
  let ?x = "(api_request ''POST'' ''/api/v1/auth/logout'', 0, 5)" and ?rq = "api_request ''GET'' ''/api/v1/drives''"
  have t: "bearer_token (api_request meth p) = Some ''u''" for meth p
    by (simp add: bearer_token_def api_request_def header_char_def strip_bearer_def)
  have d: "jwt_decode sample_env tok k n = Inr \<lparr>cl_sub = tok, cl_exp = 0, cl_iat = 0\<rparr>" if "n \<le> 60" for tok k n
    using that by (simp add: sample_env_def)
  have out: "is_logout (fst ?x)" "\<not> is_validate (fst ?x)" "needs_token (fst ?x)" "needs_token ?rq"
    by (simp_all add: is_logout_def is_validate_def needs_token_def in_api_def is_login_def is_health_def api_request_def)
  obtain rl where rl: "is_allowed (peer_ip (fst ?x)) 0 (rate_limiter_new 10 1) = (True, rl)" "rl_max_requests rl = 10"
      "rl_requests rl = [peer_ip (fst ?x) \<mapsto> [0]]"
    by (simp add: is_allowed_def rate_limiter_new_def)
  obtain s where s: "serve_all sample_env ?h [?x] (new_server [] 10 (0 :: nat)) = ([Response 200 (MessageBody ''Logged out'')], s)"
      "sv_limiter s = rl" "sv_data s = 0"
    using rl(1) out
    by (simp add: serve_def new_server_def routes_token jwt_gate_def t validate_token_def d is_revoked_def
        protected_scope_def from_request_def logout_def)
  obtain r s' where r: "serve sample_env ?h (?rq, 1, 6) s = (r, s')" by fastforce
  have "peer_ip ?rq = peer_ip (fst ?x)" by (simp add: peer_ip_def api_request_def)
  then have "fst (is_allowed (peer_ip ?rq) 1 (sv_limiter s))" by (simp add: s(2) is_allowed_def rl(2,3) Let_def)
  from tokens_die_at_logout [OF s(1) r out(4) this]
  have "status_code r = 401 \<and> sv_data s' = 0"
    using s(3) out by (simp add: t d logged_out_def logs_out_def)
  then show ?thesis using s(1) r by blast
qed

end
