(* ===== verification/Path_Resolution.thy ===== *)
theory Path_Resolution
  imports Tracker
begin

section \<open>Resolving a requested path below a drive root\<close>

text \<open>
  \<open>api/path_resolution.rs\<close>: the guard between the paths of requests and the drive. \<open>canonicalize\<close> is \<open>realpath\<close>: it walks the
  components from the left, resolves every symbolic link, at most 40, and lets \<open>..\<close> leave a directory; \<open>cwd\<close> is the working directory.
\<close>

datatype path_target_kind = TargetFile | TargetDirectory

definition contains_parent_dir :: "string \<Rightarrow> bool" where
  "contains_parent_dir p = list_ex (\<lambda>c. c = ''..'') (split_on (CHR ''/'') p)"

text \<open>\<open>here\<close> is the directory reached, a key without links; a name is looked up in directories only.\<close>

function canon :: "nat \<Rightarrow> fs \<Rightarrow> key \<Rightarrow> string list \<Rightarrow> key option" where
  "canon n f here [] = Some here"
| "canon n f here (c # cs) =
     (if c = '''' \<or> c = ''.'' then canon n f here cs
      else if c = ''..'' then canon n f (if length here \<le> 1 then here else butlast here) cs
      else let k = here @ [c] in
        if fs_nostat f k then None
        else (case fs_nodes f k of
            None \<Rightarrow> None
          | Some Directory \<Rightarrow> canon n f k cs
          | Some (RegFile _ _) \<Rightarrow> (if cs = [] then Some k else None)
          | Some (Symlink t) \<Rightarrow> (case n of
              0 \<Rightarrow> None
            | Suc n' \<Rightarrow> canon n' f (if is_absolute t then [''/''] else here) (split_on (CHR ''/'') t @ cs))))"
  by pat_completeness auto
termination
  by (relation "measures [\<lambda>(n, f, here, cs). n, \<lambda>(n, f, here, cs). length cs]") auto

definition realpath :: "key \<Rightarrow> fs \<Rightarrow> string \<Rightarrow> key option" where
  "realpath cwd f p =
     (if p = '''' then None
      else canon 40 f (if is_absolute p then [''/''] else cwd) (split_on (CHR ''/'') p))"

definition key_string :: "key \<Rightarrow> string" where
  "key_string k = ''/'' @ join_with ''/'' (tl k)"

definition key_strip_prefix :: "key \<Rightarrow> key \<Rightarrow> key option" where
  "key_strip_prefix base k = (if take (length base) k = base then Some (drop (length base) k) else None)"

definition key_is_file :: "fs \<Rightarrow> key \<Rightarrow> bool" where
  "key_is_file f k = (\<not> fs_nostat f k \<and> (case fs_nodes f k of Some (RegFile _ _) \<Rightarrow> True | _ \<Rightarrow> False))"

definition key_is_dir :: "fs \<Rightarrow> key \<Rightarrow> bool" where
  "key_is_dir f k = (\<not> fs_nostat f k \<and> fs_nodes f k = Some Directory)"

definition resolve_path_within_drive_root :: "key \<Rightarrow> fs \<Rightarrow> string \<Rightarrow> string \<Rightarrow> path_target_kind \<Rightarrow> err + string" where
  "resolve_path_within_drive_root cwd f drive_root input_path target_kind =
     (let trimmed = str_trim input_path in
      if trimmed = '''' then Inl (Bail ''Path is required'')
      else if contains_parent_dir trimmed then Inl (Bail ''Parent-directory traversal is not allowed'')
      else (case realpath cwd f drive_root of
          None \<Rightarrow> Inl (Io (fmt [''Failed to access drive root: '', drive_root]))
        | Some root \<Rightarrow>
            (let candidate = path_join (key_string root) trimmed in
             case realpath cwd f candidate of
               None \<Rightarrow> Inl (Io (fmt [''Path does not exist: '', candidate]))
             | Some canonical \<Rightarrow> (case key_strip_prefix root canonical of
                 None \<Rightarrow> Inl (Io (fmt [''Selected path is outside the active drive root: '', key_string canonical]))
               | Some relative \<Rightarrow>
                   if relative = [] then Inl (Bail ''Selecting the drive root itself is not supported'')
                   else if target_kind = TargetFile \<and> \<not> key_is_file f canonical
                   then Inl (Bail (fmt [''Selected path is not a file: '', key_string canonical]))
                   else if target_kind = TargetDirectory \<and> \<not> key_is_dir f canonical
                   then Inl (Bail (fmt [''Selected path is not a directory: '', key_string canonical]))
                   else Inr (join_with ''/'' relative)))))"

subsection \<open>Canonical keys\<close>

definition plain_name :: "string \<Rightarrow> bool" where
  "plain_name c = (c \<noteq> '''' \<and> c \<noteq> ''.'' \<and> c \<noteq> ''..'' \<and> CHR ''/'' \<notin> set c)"

text \<open>A key that names its node without a link: below the first component every inner node is a directory.\<close>

definition canonical :: "fs \<Rightarrow> key \<Rightarrow> bool" where
  "canonical f k = (k \<noteq> [] \<and> hd k = ''/'' \<and> (\<forall>c \<in> set (tl k). plain_name c)
     \<and> (\<forall>i. 1 < i \<and> i \<le> length k \<longrightarrow> \<not> fs_nostat f (take i k)
          \<and> (fs_nodes f (take i k) = Some Directory
             \<or> i = length k \<and> (\<exists>c m. fs_nodes f k = Some (RegFile c m)))))"

definition canonical_dir :: "fs \<Rightarrow> key \<Rightarrow> bool" where
  "canonical_dir f k = (canonical f k \<and> (k = [''/''] \<or> fs_nodes f k = Some Directory))"

lemma canonical_root: "canonical_dir f [''/'']"
  by (auto simp: canonical_dir_def canonical_def)

lemma canonical_snoc:
  assumes "canonical_dir f k" "plain_name c" "\<not> fs_nostat f (k @ [c])"
    "fs_nodes f (k @ [c]) = Some Directory \<or> (\<exists>b m. fs_nodes f (k @ [c]) = Some (RegFile b m))"
  shows "canonical f (k @ [c])"
proof -
  have k: "k \<noteq> []" "hd k = ''/''" "\<And>c. c \<in> set (tl k) \<Longrightarrow> plain_name c"
    and old: "\<And>i. 1 < i \<Longrightarrow> i \<le> length k \<Longrightarrow> \<not> fs_nostat f (take i k) \<and> (fs_nodes f (take i k) = Some Directory)"
    using assms(1) unfolding canonical_dir_def canonical_def by (auto 0 4)
  have "\<not> fs_nostat f (take i (k @ [c])) \<and> (fs_nodes f (take i (k @ [c])) = Some Directory
      \<or> i = length (k @ [c]) \<and> (\<exists>b m. fs_nodes f (k @ [c]) = Some (RegFile b m)))" if "1 < i" "i \<le> length (k @ [c])" for i
  proof (cases "i \<le> length k")
    case True
    then show ?thesis using old that(1) by simp
  next
    case False
    then have "i = length (k @ [c])" using that(2) by simp
    then show ?thesis using assms(3,4) by simp
  qed
  then show ?thesis using k assms(2) unfolding canonical_def by auto
qed

lemma canonical_butlast:
  assumes "canonical_dir f k"
  shows "canonical_dir f (if length k \<le> 1 then k else butlast k)"
proof (cases "length k \<le> 1")
  case False
  then obtain k' c where k: "k = k' @ [c]" "k' \<noteq> []" by (cases k rule: rev_cases) auto
  have c: "canonical f k" using assms by (simp add: canonical_dir_def)
  have "canonical f k'" "k' = [''/''] \<or> fs_nodes f k' = Some Directory"
  proof -
    have *: "\<not> fs_nostat f (take i k') \<and> fs_nodes f (take i k') = Some Directory" if "1 < i" "i \<le> length k'" for i
      using c that k unfolding canonical_def by (auto dest!: spec [of _ i])
    show "canonical f k'" using c k * unfolding canonical_def by auto
    show "k' = [''/''] \<or> fs_nodes f k' = Some Directory"
      using *[of "length k'"] c k by (cases k') (auto simp: canonical_def)
  qed
  then show ?thesis using False k by (simp add: canonical_dir_def)
qed (use assms in simp)

lemma split_on_free: "c \<in> set (split_on d s) \<Longrightarrow> d \<notin> set c"
  by (induction s arbitrary: c) (auto split: list.splits if_splits)

lemma canon_canonical:
  "canon n f here cs = Some k \<Longrightarrow> canonical_dir f here \<Longrightarrow> (\<And>c. c \<in> set cs \<Longrightarrow> CHR ''/'' \<notin> set c) \<Longrightarrow> canonical f k"
proof (induction n f here cs rule: canon.induct)
  case (1 n f here)
  then show ?case by (simp add: canonical_dir_def)
next
  case (2 n f here c cs)
  consider (skip) "c = '''' \<or> c = ''.''" | (up) "c = ''..''" | (name) "c \<noteq> ''''" "c \<noteq> ''.''" "c \<noteq> ''..''" by blast
  then show ?case
  proof cases
    case skip
    then show ?thesis using "2.IH"(1) "2.prems" by simp
  next
    case up
    then show ?thesis using "2.IH"(2) "2.prems" canonical_butlast [OF "2.prems"(2)] by auto
  next
    case name
    let ?k = "here @ [c]"
    have p: "plain_name c" using name "2.prems"(3) by (simp add: plain_name_def)
    have s: "\<not> fs_nostat f ?k" using "2.prems"(1) name by (auto simp: Let_def split: if_splits)
    show ?thesis
    proof (cases "fs_nodes f ?k")
      case None
      then show ?thesis using "2.prems"(1) name s by (simp add: Let_def)
    next
      case (Some x)
      show ?thesis
      proof (cases x)
        case Directory
        then have "canonical_dir f ?k" using canonical_snoc [OF "2.prems"(2) p s] Some by (simp add: canonical_dir_def)
        then show ?thesis using "2.IH"(3) "2.prems" name s Some Directory by (auto simp: Let_def)
      next
        case (RegFile b m)
        then show ?thesis using canonical_snoc [OF "2.prems"(2) p s] Some "2.prems"(1) name s by (auto simp: Let_def split: if_splits)
      next
        case (Symlink t)
        then obtain n' where n: "n = Suc n'" using "2.prems"(1) name s Some by (cases n) (auto simp: Let_def)
        have "canonical_dir f (if is_absolute t then [''/''] else here)" using canonical_root "2.prems"(2) by simp
        moreover have "CHR ''/'' \<notin> set d" if "d \<in> set (split_on (CHR ''/'') t @ cs)" for d
          using that split_on_free "2.prems"(3) by auto
        ultimately show ?thesis using "2.IH"(4) "2.prems"(1) name s Some Symlink n by (auto simp: Let_def)
      qed
    qed
  qed
qed

text \<open>A canonical key resolves to itself, from any of its ancestors, and no link is met on the way.\<close>

lemma canon_self:
  "canonical f (here @ cs) \<Longrightarrow> here \<noteq> [] \<Longrightarrow> canon n f here cs = Some (here @ cs)"
proof (induction cs arbitrary: here)
  case (Cons c cs)
  have c: "plain_name c" using Cons.prems by (cases here) (auto simp: canonical_def)
  have k: "\<not> fs_nostat f (here @ [c]) \<and> (fs_nodes f (here @ [c]) = Some Directory \<or> cs = [] \<and> (\<exists>b m. fs_nodes f (here @ [c]) = Some (RegFile b m)))"
    using Cons.prems unfolding canonical_def by (auto dest!: spec [of _ "Suc (length here)"])
  have "canon n f (here @ [c]) cs = Some ((here @ [c]) @ cs)" by (rule Cons.IH) (use Cons.prems in simp_all)
  then show ?case using c k by (auto simp: plain_name_def Let_def)
qed simp

lemma split_join:
  "cs \<noteq> [] \<Longrightarrow> (\<And>c. c \<in> set cs \<Longrightarrow> d \<notin> set c) \<Longrightarrow> split_on d (join_with [d] cs) = cs"
proof (induction cs)
  case (Cons c cs)
  then show ?case by (cases cs) (simp_all add: split_on_plain split_on_head)
qed simp

lemma key_string_absolute: "is_absolute (path_join (key_string k) p)"
  by (cases p) (auto simp: path_join_def is_absolute_def key_string_def)

lemma resolve_inside:
  assumes "resolve_path_within_drive_root cwd f drive_root input kind = Inr rel" "is_absolute drive_root \<or> canonical_dir f cwd"
  shows "\<exists>root. realpath cwd f drive_root = Some root \<and> rel \<noteq> '''' \<and> list_all plain_name (split_on (CHR ''/'') rel)
    \<and> canon 0 f root (split_on (CHR ''/'') rel) = Some (root @ split_on (CHR ''/'') rel)
    \<and> (case kind of TargetFile \<Rightarrow> key_is_file f (root @ split_on (CHR ''/'') rel)
        | TargetDirectory \<Rightarrow> key_is_dir f (root @ split_on (CHR ''/'') rel))"
proof -
  have canon: "canonical f k" if "realpath d f p = Some k" "is_absolute p \<or> canonical_dir f d" for d p k
    using that canonical_root by (auto simp: realpath_def split: if_splits intro!: canon_canonical dest: split_on_free)
  obtain root k names where root: "realpath cwd f drive_root = Some root"
    and k: "realpath cwd f (path_join (key_string root) (str_trim input)) = Some k"
    and names: "key_strip_prefix root k = Some names" "names \<noteq> []"
    and kind: "case kind of TargetFile \<Rightarrow> key_is_file f k | TargetDirectory \<Rightarrow> key_is_dir f k"
    and rel: "rel = join_with ''/'' names"
    using assms(1) by (cases kind) (auto simp: resolve_path_within_drive_root_def Let_def split: if_splits option.splits)
  have eq: "k = root @ names" using names(1) by (auto simp: key_strip_prefix_def split: if_splits) (metis append_take_drop_id)
  have r: "root \<noteq> []" using canon [OF root assms(2)] by (simp add: canonical_def)
  have c: "canonical f (root @ names)" using canon [OF k] key_string_absolute eq by simp
  then have p: "\<And>c. c \<in> set names \<Longrightarrow> plain_name c" using r by (auto simp: canonical_def)
  then have s: "split_on (CHR ''/'') rel = names" unfolding rel by (intro split_join names(2)) (simp add: plain_name_def)
  have "rel \<noteq> ''''" using names(2) p s by (auto simp: plain_name_def)
  then show ?thesis using root kind p c canon_self [OF c r] by (cases kind; intro exI [of _ root]) (simp_all add: s eq list_all_iff)
qed

text \<open>C33: A path the guard accepts is a real name below the drive root: it has no empty, \<open>.\<close> or \<open>..\<close> component, walking it from the
  resolved root meets no symbolic link and so never leaves the root, and it ends at a node of the requested kind, whatever links the request
  or the root went through.\<close>

theorem resolved_path_stays_inside:
  assumes "resolve_path_within_drive_root cwd f drive_root input kind = Inr rel" "is_absolute drive_root \<or> canonical_dir f cwd"
  shows "\<exists>root. realpath cwd f drive_root = Some root \<and> rel \<noteq> '''' \<and> list_all plain_name (split_on (CHR ''/'') rel)
    \<and> canon 0 f root (split_on (CHR ''/'') rel) = Some (root @ split_on (CHR ''/'') rel)
    \<and> (case kind of TargetFile \<Rightarrow> key_is_file f (root @ split_on (CHR ''/'') rel)
        | TargetDirectory \<Rightarrow> key_is_dir f (root @ split_on (CHR ''/'') rel))"
  by (rule resolve_inside [OF assms])

text \<open>A link on the drive that leads to a file next to it is resolved to that file; one that leads outside is refused.\<close>

definition linked_fs :: fs where
  "linked_fs = (w_fs (two_copies [] []))\<lparr>fs_nodes := (fs_nodes (w_fs (two_copies [] [])))
     ([''/'', ''a'', ''l''] := Some (Symlink ''x''), [''/'', ''a'', ''o''] := Some (Symlink ''/b/x''))\<rparr>"

theorem resolved_path_stays_inside_witness:
  "resolve_path_within_drive_root [] linked_fs ''/a'' '' l '' TargetFile = Inr ''x''
   \<and> canon 0 linked_fs [''/'', ''a''] [''x''] = Some [''/'', ''a'', ''x'']
   \<and> resolve_path_within_drive_root [] linked_fs ''/a'' ''o'' TargetFile
       = Inl (Io (fmt [''Selected path is outside the active drive root: '', ''/b/x'']))"
proof -
  have n: "fs_nodes linked_fs [''/'', ''a''] = Some Directory" "fs_nodes linked_fs [''/'', ''b''] = Some Directory"
    "fs_nodes linked_fs [''/'', ''a'', ''l''] = Some (Symlink ''x'')" "fs_nodes linked_fs [''/'', ''a'', ''o''] = Some (Symlink ''/b/x'')"
    "fs_nodes linked_fs [''/'', ''a'', ''x''] = Some (RegFile [] 416)" "fs_nodes linked_fs [''/'', ''b'', ''x''] = Some (RegFile [] 420)"
    "\<not> fs_nostat linked_fs k" for k
    by (simp_all add: linked_fs_def two_copies_def blank_world_def)
  have root: "realpath [] linked_fs ''/a'' = Some [''/'', ''a'']"
    by (simp add: realpath_def is_absolute_def n)
  have l: "realpath [] linked_fs ''/a/l'' = Some [''/'', ''a'', ''x'']" and o: "realpath [] linked_fs ''/a/o'' = Some [''/'', ''b'', ''x'']"
    by (simp_all add: realpath_def is_absolute_def n eval_nat_numeral)
  have t: "str_trim '' l '' = ''l''" "str_trim ''o'' = ''o''" by (simp_all add: str_trim_def is_ascii_ws_def)
  have j: "key_string [''/'', ''a''] = ''/a''" "key_string [''/'', ''b'', ''x''] = ''/b/x''"
    "path_join ''/a'' ''l'' = ''/a/l''" "path_join ''/a'' ''o'' = ''/a/o''"
    by (simp_all add: key_string_def path_join_def is_absolute_def)
  have yes: "resolve_path_within_drive_root [] linked_fs ''/a'' '' l '' TargetFile = Inr ''x''"
    by (simp add: resolve_path_within_drive_root_def t contains_parent_dir_def root j l key_strip_prefix_def key_is_file_def n Let_def)
  have no: "resolve_path_within_drive_root [] linked_fs ''/a'' ''o'' TargetFile
       = Inl (Io (fmt [''Selected path is outside the active drive root: '', ''/b/x'']))"
    by (simp add: resolve_path_within_drive_root_def t contains_parent_dir_def root j o key_strip_prefix_def Let_def)
  show ?thesis using resolved_path_stays_inside [OF yes] no yes by (simp add: is_absolute_def root)
qed

end
