(* ===== verification/Repo_Backup.thy ===== *)
theory Repo_Backup
  imports Repo_Folders
begin

section \<open>Repository: schedules, database backups, event listing, status\<close>

text \<open>
  The statements of \<open>src/db/repository.rs\<close> on \<open>schedule_config\<close>, \<open>db_backup_config\<close> and \<open>db_backup_settings\<close>, the listing of
  the event log and the numbers of the status page.
\<close>

subsection \<open>Schedules\<close>

definition get_schedule_config :: "int \<Rightarrow> schedule_config prog" where
  "get_schedule_config i w = (case find (\<lambda>c. sc_id c = i) (db_schedules (w_db w)) of
       None \<Rightarrow> (Inl QueryReturnedNoRows, w) | Some c \<Rightarrow> (Inr c, w))"

definition create_schedule_config ::
    "string \<Rightarrow> string option \<Rightarrow> int option \<Rightarrow> bool \<Rightarrow> int option \<Rightarrow> schedule_config prog" where
  "create_schedule_config task_type cron_expr interval_seconds enabled max_duration_seconds w =
     (let d = w_db w; i = nx_schedule d in
      if task_type \<notin> {''sync'', ''integrity_check''} then raise_m (Constraint ''CHECK schedule_config.task_type'') w
      else get_schedule_config i (w\<lparr>w_db := d\<lparr>
        db_schedules := db_schedules d @
          [\<lparr>sc_id = i, sc_task_type = task_type, sc_cron_expr = cron_expr, sc_interval_seconds = interval_seconds,
            sc_max_duration_seconds = max_duration_seconds, sc_enabled = enabled, sc_last_run = None, sc_next_run = None,
            sc_created_at = w_now w, sc_updated_at = w_now w\<rparr>],
        nx_schedule := i + 1\<rparr>\<rparr>))"

definition list_schedule_configs :: "schedule_config list prog" where
  "list_schedule_configs = gets_m (\<lambda>w. sort_key sc_id (db_schedules (w_db w)))"

definition update_schedule :: "int \<Rightarrow> (schedule_config \<Rightarrow> schedule_config) \<Rightarrow> unit prog" where
  "update_schedule i f = modify_m (\<lambda>w. w\<lparr>w_db := (w_db w)\<lparr>db_schedules :=
     upd_where (\<lambda>c. sc_id c = i) (\<lambda>c. (f c)\<lparr>sc_updated_at := w_now w\<rparr>) (db_schedules (w_db w))\<rparr>\<rparr>)"

definition update_schedule_config ::
    "int \<Rightarrow> string option option \<Rightarrow> int option option \<Rightarrow> bool option \<Rightarrow> int option option \<Rightarrow> schedule_config prog" where
  "update_schedule_config i cron_expr interval_seconds enabled max_duration_seconds =
     seq_m (opt_m cron_expr (\<lambda>x. update_schedule i (\<lambda>c. c\<lparr>sc_cron_expr := x\<rparr>)))
    (seq_m (opt_m interval_seconds (\<lambda>x. update_schedule i (\<lambda>c. c\<lparr>sc_interval_seconds := x\<rparr>)))
    (seq_m (opt_m enabled (\<lambda>x. update_schedule i (\<lambda>c. c\<lparr>sc_enabled := x\<rparr>)))
    (seq_m (opt_m max_duration_seconds (\<lambda>x. update_schedule i (\<lambda>c. c\<lparr>sc_max_duration_seconds := x\<rparr>)))
    (get_schedule_config i))))"

definition delete_schedule_config :: "int \<Rightarrow> unit prog" where
  "delete_schedule_config i = db_do (\<lambda>d. d\<lparr>db_schedules := filter (\<lambda>c. sc_id c \<noteq> i) (db_schedules d)\<rparr>)"

text \<open>\<open>datetime('now', '+' || n || ' seconds')\<close> is \<open>NULL\<close> for a negative \<open>n\<close>: \<open>+-5 seconds\<close> is not a modifier.\<close>

definition update_schedule_last_run :: "int \<Rightarrow> unit prog" where
  "update_schedule_last_run i w = update_schedule i (\<lambda>c. c\<lparr>sc_last_run := Some (w_now w),
     sc_next_run := (if sc_cron_expr c \<noteq> None then None
       else (case sc_interval_seconds c of
           Some n \<Rightarrow> (if n < 0 then None else Some (w_now w + n)) | None \<Rightarrow> None))\<rparr>) w"

subsection \<open>Backup destinations and their settings\<close>

definition get_db_backup_config :: "int \<Rightarrow> db_backup_config prog" where
  "get_db_backup_config i w = (case find (\<lambda>c. bk_id c = i) (db_backups (w_db w)) of
       None \<Rightarrow> (Inl QueryReturnedNoRows, w) | Some c \<Rightarrow> (Inr c, w))"

text \<open>\<open>COALESCE(MAX(priority) + 1, 0)\<close>\<close>

definition next_priority :: "db_backup_config list \<Rightarrow> int" where
  "next_priority cs = (case cs of [] \<Rightarrow> 0 | c # _ \<Rightarrow> foldl max (bk_priority c) (map bk_priority cs) + 1)"

definition create_db_backup_config :: "string \<Rightarrow> string option \<Rightarrow> bool \<Rightarrow> db_backup_config prog" where
  "create_db_backup_config backup_path drive_label enabled w =
     (let d = w_db w; i = nx_backup d in
      get_db_backup_config i (w\<lparr>w_db := d\<lparr>
        db_backups := db_backups d @
          [\<lparr>bk_id = i, bk_backup_path = backup_path, bk_drive_label = drive_label, bk_priority = next_priority (db_backups d),
            bk_enabled = enabled, bk_last_backup = None, bk_last_integrity_check = None, bk_last_integrity_status = None,
            bk_last_error = None, bk_created_at = w_now w\<rparr>],
        nx_backup := i + 1\<rparr>\<rparr>))"

text \<open>\<open>ORDER BY priority, id\<close>\<close>

definition list_db_backup_configs :: "db_backup_config list prog" where
  "list_db_backup_configs = gets_m (\<lambda>w. sort_key bk_priority (sort_key bk_id (db_backups (w_db w))))"

definition update_backup :: "int \<Rightarrow> (db_backup_config \<Rightarrow> db_backup_config) \<Rightarrow> unit prog" where
  "update_backup i f = db_do (\<lambda>d. d\<lparr>db_backups := upd_where (\<lambda>c. bk_id c = i) f (db_backups d)\<rparr>)"

definition update_db_backup_config ::
    "int \<Rightarrow> string option \<Rightarrow> string option option \<Rightarrow> bool option \<Rightarrow> db_backup_config prog" where
  "update_db_backup_config i backup_path drive_label enabled =
     seq_m (opt_m backup_path (\<lambda>x. update_backup i (\<lambda>c. c\<lparr>bk_backup_path := x\<rparr>)))
    (seq_m (opt_m drive_label (\<lambda>x. update_backup i (\<lambda>c. c\<lparr>bk_drive_label := x\<rparr>)))
    (seq_m (opt_m enabled (\<lambda>x. update_backup i (\<lambda>c. c\<lparr>bk_enabled := x\<rparr>)))
    (get_db_backup_config i)))"

definition delete_db_backup_config :: "int \<Rightarrow> unit prog" where
  "delete_db_backup_config i = db_do (\<lambda>d. d\<lparr>db_backups := filter (\<lambda>c. bk_id c \<noteq> i) (db_backups d)\<rparr>)"

definition update_db_backup_last_backup :: "int \<Rightarrow> unit prog" where
  "update_db_backup_last_backup i w = update_backup i (\<lambda>c. c\<lparr>bk_last_backup := Some (w_now w), bk_last_error := None\<rparr>) w"

definition update_db_backup_error :: "int \<Rightarrow> string option \<Rightarrow> unit prog" where
  "update_db_backup_error i e = update_backup i (\<lambda>c. c\<lparr>bk_last_error := e\<rparr>)"

definition update_db_backup_integrity_status :: "int \<Rightarrow> string \<Rightarrow> string option \<Rightarrow> unit prog" where
  "update_db_backup_integrity_status i status e w = update_backup i (\<lambda>c. c\<lparr>bk_last_integrity_check := Some (w_now w),
     bk_last_integrity_status := Some status, bk_last_error := e\<rparr>) w"

definition get_db_backup_settings :: "db_backup_settings prog" where
  "get_db_backup_settings = gets_m (\<lambda>w. db_backup_options (w_db w))"

definition update_backup_options :: "(db_backup_settings \<Rightarrow> db_backup_settings) \<Rightarrow> unit prog" where
  "update_backup_options f = modify_m (\<lambda>w. w\<lparr>w_db := (w_db w)\<lparr>db_backup_options :=
     (f (db_backup_options (w_db w)))\<lparr>bs_updated_at := w_now w\<rparr>\<rparr>\<rparr>)"

definition update_db_backup_settings ::
    "bool option \<Rightarrow> int option \<Rightarrow> bool option \<Rightarrow> int option \<Rightarrow> db_backup_settings prog" where
  "update_db_backup_settings backup_enabled backup_interval integrity_enabled integrity_interval =
     seq_m (opt_m backup_enabled (\<lambda>x. update_backup_options (\<lambda>s. s\<lparr>bs_backup_enabled := x\<rparr>)))
    (seq_m (opt_m backup_interval (\<lambda>x. update_backup_options (\<lambda>s. s\<lparr>bs_backup_interval_seconds := x\<rparr>)))
    (seq_m (opt_m integrity_enabled (\<lambda>x. update_backup_options (\<lambda>s. s\<lparr>bs_integrity_enabled := x\<rparr>)))
    (seq_m (opt_m integrity_interval (\<lambda>x. update_backup_options (\<lambda>s. s\<lparr>bs_integrity_interval_seconds := x\<rparr>)))
    (get_db_backup_settings))))"

definition mark_db_backup_settings_backup_run :: "unit prog" where
  "mark_db_backup_settings_backup_run w = update_backup_options (\<lambda>s. s\<lparr>bs_last_backup_run := Some (w_now w)\<rparr>) w"

definition mark_db_backup_settings_integrity_run :: "unit prog" where
  "mark_db_backup_settings_integrity_run w = update_backup_options (\<lambda>s. s\<lparr>bs_last_integrity_run := Some (w_now w)\<rparr>) w"

subsection \<open>The event log and the status page\<close>

text \<open>A row of the log with the path of its file, as the two joins find it.\<close>

record event_log_entry =
  el_row :: event_row
  el_file_path :: "string option"

definition event_file_path :: "db \<Rightarrow> event_row \<Rightarrow> string option" where
  "event_file_path d e = Option.bind (ev_tracked_file_id e) (\<lambda>i.
     Option.bind (find (\<lambda>f. tf_id f = i) (db_files d)) (\<lambda>f.
     map_option (\<lambda>p. dp_primary_path p @ ''/'' @ tf_relative_path f) (find (\<lambda>p. dp_id p = tf_drive_pair_id f) (db_pairs d))))"

definition event_entry :: "db \<Rightarrow> event_row \<Rightarrow> event_log_entry" where
  "event_entry d e = \<lparr>el_row = e, el_file_path = event_file_path d e\<rparr>"

definition get_event_log :: "int \<Rightarrow> event_log_entry prog" where
  "get_event_log i w = (case find (\<lambda>e. ev_id e = i) (db_events (w_db w)) of
       None \<Rightarrow> (Inl QueryReturnedNoRows, w) | Some e \<Rightarrow> (Inr (event_entry (w_db w) e), w))"

text \<open>Time stamps are compared as text, byte by byte; \<open>datetime\<close> is how SQLite writes one.\<close>

fun text_le :: "string \<Rightarrow> string \<Rightarrow> bool" where
  "text_le [] b = True"
| "text_le (x # xs) [] = False"
| "text_le (x # xs) (y # ys) = (x = y \<and> text_le xs ys \<or> (of_char x :: nat) < of_char y)"

definition list_event_logs ::
    "(int \<Rightarrow> string) \<Rightarrow> string option \<Rightarrow> int option \<Rightarrow> string option \<Rightarrow> string option \<Rightarrow> int \<Rightarrow> int \<Rightarrow> (event_log_entry list \<times> int) prog" where
  "list_event_logs datetime event_type tracked_file_id since until page per_page = gets_m (\<lambda>w.
     let sel = filter (\<lambda>e. (case event_type of None \<Rightarrow> True | Some t \<Rightarrow> ev_event_type e = t)
           \<and> (case tracked_file_id of None \<Rightarrow> True | Some i \<Rightarrow> ev_tracked_file_id e = Some i)
           \<and> (case since of None \<Rightarrow> True | Some t \<Rightarrow> text_le t (datetime (ev_created_at e)))
           \<and> (case until of None \<Rightarrow> True | Some t \<Rightarrow> text_le (datetime (ev_created_at e)) t)) (db_events (w_db w))
     in (map (event_entry (w_db w)) (paginate page per_page (rev (sort_key ev_id sel))), int (length sel)))"

record system_status =
  st_files_tracked :: int
  st_files_mirrored :: int
  st_pending_sync :: int
  st_integrity_issues :: int
  st_drive_pairs :: int

definition get_system_status :: "system_status prog" where
  "get_system_status = gets_m (\<lambda>w. let d = w_db w in
     \<lparr>st_files_tracked = int (length (db_files d)),
      st_files_mirrored = count_where tf_is_mirrored (db_files d),
      st_pending_sync = count_where (\<lambda>q. sq_status q = ''pending'') (db_queue d),
      st_integrity_issues = count_where (\<lambda>q. sq_action q = ''user_action_required'' \<and> sq_status q = ''pending'') (db_queue d),
      st_drive_pairs = int (length (db_pairs d))\<rparr>)"

interpretation schedules: row_table db_schedules sc_id get_schedule_config
  by unfold_locales (simp add: get_schedule_config_def)

interpretation backups: row_table db_backups bk_id get_db_backup_config
  by unfold_locales (simp add: get_db_backup_config_def)

end
