(* ===== verification/Backup.thy ===== *)
theory Backup
  imports Repo_Backup Sync_Queue Path_Resolution
begin

section \<open>Database backups\<close>

text \<open>
  \<open>db/backup.rs\<close>: copies of the database at several destinations, their check and repair, and the staging of a restore. SQLite is a
  parameter, the fields of \<open>backup_env\<close>: the rows of \<open>PRAGMA integrity_check\<close> on a file with given bytes, and the online backup of the
  live database; so are the name of a fresh temporary directory and the time stamps in file names. A backup has no write-ahead log of its own.
\<close>

record backup_env =
  be_integrity_check :: "bytes \<Rightarrow> err + string list"
  be_online_backup :: "world \<Rightarrow> key \<Rightarrow> err + bytes"
  be_temp_dir :: "world \<Rightarrow> string"
  be_stamp :: "world \<Rightarrow> string"
  be_stamp_secs :: "world \<Rightarrow> string"
  be_cwd :: key

definition backup_filename :: string where
  "backup_filename = ''bitprotector.db''"

definition checksum_filename :: string where
  "checksum_filename = ''bitprotector.db.blake3''"

record backup_result =
  br_backup_config_id :: int
  br_backup_path :: string
  br_status :: string
  br_error :: "string option"

record backup_integrity_result =
  bi_backup_config_id :: int
  bi_backup_path :: string
  bi_status :: string
  bi_checksum :: "string option"
  bi_repaired_from_id :: "int option"
  bi_error :: "string option"

record restore_result =
  re_status :: string
  re_restart_required :: bool
  re_safety_backup_path :: string
  re_staged_restore_path :: string

record backup_health =
  bh_config :: db_backup_config
  bh_path :: string
  bh_checksum :: "string option"
  bh_error :: "string option"

definition is_healthy :: "backup_health \<Rightarrow> bool" where
  "is_healthy h = (bh_error h = None \<and> bh_checksum h \<noteq> None)"

definition backup_file_path :: "db_backup_config \<Rightarrow> string" where
  "backup_file_path c = path_join (bk_backup_path c) backup_filename"

subsection \<open>Reading a backup\<close>

text \<open>Slices of at most 8192 bytes, until one is empty.\<close>

definition read_slice :: "key \<Rightarrow> nat \<Rightarrow> bytes prog" where
  "read_slice k off w = (case fs_nodes (w_fs w) k of
       Some (RegFile c _) \<Rightarrow>
         (let n = min 8192 (length c - off) in
          case fs_bad_at (w_fs w) k of
            None \<Rightarrow> return_m (take n (drop off c)) w
          | Some b \<Rightarrow> (if off < length c \<and> b \<le> off then io ''read'' w
                       else return_m (take (min n (b - off)) (drop off c)) w))
     | _ \<Rightarrow> io ''read'' w)"

lemma read_slice_Inr:
  assumes "read_slice k off w = (Inr ch, v)"
  shows "v = w" "\<exists>c m. fs_nodes (w_fs w) k = Some (RegFile c m) \<and> ch @ drop (off + length ch) c = drop off c
    \<and> (ch = [] \<longleftrightarrow> length c \<le> off)"
proof -
  obtain c m where c: "fs_nodes (w_fs w) k = Some (RegFile c m)"
    using assms by (auto simp: read_slice_def io_def split: option.splits node.splits)
  obtain n where n: "ch = take n (drop off c)" "v = w" "n = 0 \<longleftrightarrow> length c \<le> off" "n \<le> length c - off"
  proof (cases "fs_bad_at (w_fs w) k")
    case None
    then show ?thesis using assms c by (intro that [of "min 8192 (length c - off)"]) (auto simp: read_slice_def Let_def)
  next
    case (Some b)
    then show ?thesis using assms c
      by (intro that [of "min (min 8192 (length c - off)) (b - off)"]) (auto simp: read_slice_def io_def Let_def split: if_splits)
  qed
  then have "length ch = n" by simp
  then have "ch @ drop (off + length ch) c = drop off c" using n(1) by (simp add: add.commute flip: drop_drop)
  moreover have "ch = [] \<longleftrightarrow> length c \<le> off" using n(3) \<open>length ch = n\<close> by auto
  ultimately show "v = w" "\<exists>c m. fs_nodes (w_fs w) k = Some (RegFile c m) \<and> ch @ drop (off + length ch) c = drop off c
    \<and> (ch = [] \<longleftrightarrow> length c \<le> off)" using c n(2) by blast+
qed

function read_slices :: "key \<Rightarrow> nat \<Rightarrow> bytes list \<Rightarrow> bytes list prog" where
  "read_slices k off fed w = (case read_slice k off w of
       (Inl e, v) \<Rightarrow> (Inl e, w)
     | (Inr ch, v) \<Rightarrow> (if ch = [] then (Inr fed, w) else read_slices k (off + length ch) (fed @ [ch]) w))"
  by pat_completeness auto
termination
proof (relation "measure (\<lambda>(k, off, fed, w). length (node_bytes (w_fs w) k) - off)")
  fix k off fed w r v ch
  assume "(r, v) = read_slice k off w" "r = Inr ch" "ch \<noteq> []"
  then have r: "read_slice k off w = (Inr ch, v)" "ch \<noteq> []" by simp_all
  from read_slice_Inr(2) [OF r(1)] r(2) obtain c m where
    c: "fs_nodes (w_fs w) k = Some (RegFile c m)" "\<not> length c \<le> off" by auto
  have "0 < length ch" using r(2) by simp
  then have "length c - (off + length ch) < length c - off" using c(2) by arith
  then show "((k, off + length ch, fed @ [ch], w), k, off, fed, w) \<in>
      measure (\<lambda>(k, off, fed, w). length (node_bytes (w_fs w) k) - off)"
    using c by (simp add: node_bytes_def)
qed simp

declare read_slices.simps [simp del]

definition backup_checksum_file :: "digest \<Rightarrow> string \<Rightarrow> string prog" where
  "backup_checksum_file b3 path =
     bind_m (file_open path) (\<lambda>k. bind_m (read_slices k 0 []) (\<lambda>fed. return_m (b3 fed)))"

definition verify_sqlite_database :: "backup_env \<Rightarrow> string \<Rightarrow> unit prog" where
  "verify_sqlite_database env path w =
     (if \<not> path_is_file (w_fs w) path then bail (fmt [''Database backup does not exist: '', path]) w
      else (case readable_bytes (w_fs w) path of
          None \<Rightarrow> io (fmt [''Failed to open SQLite database '', path]) w
        | Some c \<Rightarrow> (case be_integrity_check env c of
            Inl e \<Rightarrow> raise_m e w
          | Inr rows \<Rightarrow> (case find (\<lambda>v. v \<noteq> ''ok'') rows of
              Some v \<Rightarrow> bail (fmt [''SQLite integrity check failed: '', v]) w
            | None \<Rightarrow> return_m () w))))"

subsection \<open>Paths of the live database\<close>

text \<open>\<open>Path::parent\<close>: the path without its last component; a leading \<open>.\<close> counts as one.\<close>

definition path_parent :: "string \<Rightarrow> string option" where
  "path_parent p =
     (let trim = (\<lambda>cs. rev (dropWhile skipped (rev cs))); cs = trim (split_on (CHR ''/'') p) in
      if cs = [] then (if list_ex (\<lambda>c. c = ''.'') (split_on (CHR ''/'') p) \<and> \<not> is_absolute p then Some '''' else None)
      else (let ds = trim (butlast cs) in
        if is_absolute p then Some (''/'' @ join_with ''/'' (dropWhile skipped ds))
        else if ds = [] \<and> butlast cs \<noteq> [] then Some ''.''
        else Some (join_with ''/'' ds)))"

definition validate_live_db_path :: "backup_env \<Rightarrow> string \<Rightarrow> key prog" where
  "validate_live_db_path env db_path w =
     (if str_trim db_path = '''' then bail ''Live database path is empty'' w
      else (case path_parent db_path of
          None \<Rightarrow> bail ''Live database path has no parent directory'' w
        | Some parent \<Rightarrow> (case realpath (be_cwd env) (w_fs w) parent of
            None \<Rightarrow> io (fmt [''Failed to resolve live database directory: '', parent]) w
          | Some trusted_root \<Rightarrow> (case realpath (be_cwd env) (w_fs w) db_path of
              None \<Rightarrow> io (fmt [''Failed to resolve live database path '', db_path]) w
            | Some k \<Rightarrow>
                (if key_strip_prefix trusted_root k = None
                 then io (fmt [''Live database path is outside the configured database directory: '', key_string k]) w
                 else if \<not> key_is_file (w_fs w) k then bail (fmt [''Live database does not exist: '', key_string k]) w
                 else return_m k w)))))"

subsection \<open>Writing a backup\<close>

text \<open>\<open>fs::rename\<close> of a regular file or link; the program renames no directory.\<close>

definition fs_rename :: "string \<Rightarrow> string \<Rightarrow> unit prog" where
  "fs_rename src dst w =
     (let ks = path_key src; kd = path_key dst in
      case fs_nodes (w_fs w) ks of
        None \<Rightarrow> io ''rename'' w
      | Some x \<Rightarrow>
          (if x = Directory \<or> fs_nodes (w_fs w) kd = Some Directory \<or> fs_nodes (w_fs w) (butlast kd) \<noteq> Some Directory
              \<or> fs_nowrite (w_fs w) ks \<or> fs_nowrite (w_fs w) kd then io ''rename'' w
           else if ks = kd then (Inr (), w)
           else (Inr (), fs_put kd (Some x) (fs_put ks None w))))"

definition text_bytes :: "string \<Rightarrow> bytes" where
  "text_bytes s = map of_char s"

definition path_parent_key :: "string \<Rightarrow> key" where
  "path_parent_key p = butlast (path_key p)"

definition create_sqlite_snapshot :: "backup_env \<Rightarrow> string \<Rightarrow> string \<Rightarrow> unit prog" where
  "create_sqlite_snapshot env db_path snapshot_path =
     seq_m (with_context ''Failed to create snapshot directory'' (create_dir_all (path_parent_key snapshot_path)))
    (seq_m (\<lambda>w. if path_exists (w_fs w) snapshot_path
              then with_context ''Failed to remove old snapshot file'' (remove_file snapshot_path) w else (Inr (), w))
    (bind_m (validate_live_db_path env db_path) (\<lambda>live.
     bind_m (\<lambda>w. (be_online_backup env w live, w)) (\<lambda>c.
     seq_m (with_context ''Failed to create SQLite backup snapshot'' (fs_write snapshot_path c))
     (verify_sqlite_database env snapshot_path)))))"

definition tmp_name :: "string \<Rightarrow> string \<Rightarrow> string" where
  "tmp_name infix_text stamp = fmt [''.'', backup_filename, infix_text, stamp, ''.tmp'']"

definition write_backup_file :: "backup_env \<Rightarrow> digest \<Rightarrow> string \<Rightarrow> db_backup_config \<Rightarrow> string prog" where
  "write_backup_file env b3 snapshot_path c =
     (let dest_dir = bk_backup_path c; final_path = backup_file_path c in
      seq_m (with_context ''Failed to create backup directory'' (create_dir_all (path_key dest_dir)))
     (bind_m (gets_m (\<lambda>w. path_join dest_dir (tmp_name ''.'' (be_stamp env w)))) (\<lambda>tmp_path.
      seq_m (with_context ''Failed to copy database backup'' (fs_copy snapshot_path tmp_path))
     (seq_m (verify_sqlite_database env tmp_path)
     (bind_m (backup_checksum_file b3 tmp_path) (\<lambda>checksum.
      seq_m (with_context ''Failed to install database backup atomically'' (fs_rename tmp_path final_path))
     (seq_m (with_context ''Failed to write database backup checksum''
              (fs_write (path_join dest_dir checksum_filename) (text_bytes checksum)))
     (return_m final_path))))))))"

definition copy_backup_atomically :: "backup_env \<Rightarrow> digest \<Rightarrow> string \<Rightarrow> string \<Rightarrow> unit prog" where
  "copy_backup_atomically env b3 source dest = (case path_parent dest of
       None \<Rightarrow> bail ''Backup destination has no parent directory''
     | Some dest_dir \<Rightarrow>
      seq_m (with_context ''Failed to create backup directory'' (create_dir_all (path_key dest_dir)))
     (bind_m (gets_m (\<lambda>w. path_join dest_dir (tmp_name ''.repair.'' (be_stamp env w)))) (\<lambda>tmp_path.
      seq_m (with_context ''Failed to copy healthy database backup'' (fs_copy source tmp_path))
     (seq_m (verify_sqlite_database env tmp_path)
     (seq_m (with_context ''Failed to replace corrupt database backup'' (fs_rename tmp_path dest))
     (bind_m (backup_checksum_file b3 dest) (\<lambda>checksum.
      with_context ''Failed to write repaired backup checksum''
        (fs_write (path_join dest_dir checksum_filename) (text_bytes checksum)))))))))"

text \<open>A fresh temporary directory that is removed again, whatever happens.\<close>

definition remove_tree :: "key \<Rightarrow> world \<Rightarrow> world" where
  "remove_tree d w = w\<lparr>w_fs := (w_fs w)\<lparr>fs_nodes := (\<lambda>k. if take (length d) k = d then None else fs_nodes (w_fs w) k)\<rparr>\<rparr>"

definition with_temp_dir :: "backup_env \<Rightarrow> (string \<Rightarrow> 'a prog) \<Rightarrow> 'a prog" where
  "with_temp_dir env m w =
     (let dir = be_temp_dir env w in
      case with_context ''Failed to create backup snapshot tempdir'' (create_dir_all (path_key dir)) w of
        (Inl e, v) \<Rightarrow> (Inl e, v)
      | (Inr _, v) \<Rightarrow> (let (r, u) = m dir v in (r, remove_tree (path_key dir) u)))"

definition backup_to_destination :: "backup_env \<Rightarrow> digest \<Rightarrow> string \<Rightarrow> db_backup_config \<Rightarrow> string prog" where
  "backup_to_destination env b3 db_path c = with_temp_dir env (\<lambda>dir.
     let snapshot_path = path_join dir backup_filename in
     seq_m (create_sqlite_snapshot env db_path snapshot_path) (write_backup_file env b3 snapshot_path c))"

definition run_backup :: "backup_env \<Rightarrow> digest \<Rightarrow> string \<Rightarrow> db_backup_config \<Rightarrow> backup_result prog" where
  "run_backup env b3 snapshot_path c = bind_m (try_m (write_backup_file env b3 snapshot_path c)) (\<lambda>r. case r of
       Inr path \<Rightarrow> seq_m (discard (update_db_backup_last_backup (bk_id c)))
         (return_m \<lparr>br_backup_config_id = bk_id c, br_backup_path = path, br_status = ''success'', br_error = None\<rparr>)
     | Inl e \<Rightarrow> seq_m (discard (update_db_backup_error (bk_id c) (Some (err_to_string e))))
         (return_m \<lparr>br_backup_config_id = bk_id c, br_backup_path = backup_file_path c, br_status = ''failed'',
            br_error = Some (err_to_string e)\<rparr>))"

fun collect_m :: "'x list \<Rightarrow> ('x \<Rightarrow> 'y prog) \<Rightarrow> 'y list prog" where
  "collect_m [] m = return_m []"
| "collect_m (x # xs) m = bind_m (m x) (\<lambda>y. bind_m (collect_m xs m) (\<lambda>ys. return_m (y # ys)))"

definition run_all_backups :: "backup_env \<Rightarrow> digest \<Rightarrow> string \<Rightarrow> backup_result list prog" where
  "run_all_backups env b3 db_path = bind_m list_db_backup_configs (\<lambda>configs.
     let enabled = filter bk_enabled configs in
     if enabled = [] then return_m []
     else with_temp_dir env (\<lambda>dir. let snapshot_path = path_join dir backup_filename in
       seq_m (create_sqlite_snapshot env db_path snapshot_path)
      (bind_m (collect_m enabled (run_backup env b3 snapshot_path)) (\<lambda>results.
       seq_m (discard mark_db_backup_settings_backup_run) (return_m results)))))"

subsection \<open>Checking and repairing the backups\<close>

definition inspect_backup :: "backup_env \<Rightarrow> digest \<Rightarrow> db_backup_config \<Rightarrow> backup_health prog" where
  "inspect_backup env b3 c w =
     (let path = backup_file_path c in
      if \<not> path_exists (w_fs w) path
      then return_m \<lparr>bh_config = c, bh_path = path, bh_checksum = None, bh_error = Some ''missing''\<rparr> w
      else bind_m (try_m (seq_m (verify_sqlite_database env path) (backup_checksum_file b3 path))) (\<lambda>r. case r of
          Inr checksum \<Rightarrow> return_m \<lparr>bh_config = c, bh_path = path, bh_checksum = Some checksum, bh_error = None\<rparr>
        | Inl e \<Rightarrow> return_m \<lparr>bh_config = c, bh_path = path, bh_checksum = None, bh_error = Some (err_to_string e)\<rparr>) w)"

text \<open>The pauses between the attempts are left out.\<close>

fun retry_status_write :: "nat \<Rightarrow> string option \<Rightarrow> int \<Rightarrow> string \<Rightarrow> string option \<Rightarrow> (bool \<times> string option) prog" where
  "retry_status_write 0 last_error i status e = return_m (False, last_error)"
| "retry_status_write (Suc n) last_error i status e =
     bind_m (try_m (update_db_backup_integrity_status i status e)) (\<lambda>r. case r of
       Inr _ \<Rightarrow> return_m (True, None)
     | Inl x \<Rightarrow> retry_status_write n (Some (err_to_string x)) i status e)"

definition integrity_result :: "backup_health \<Rightarrow> string \<Rightarrow> string option \<Rightarrow> int option \<Rightarrow> string option \<Rightarrow> backup_integrity_result" where
  "integrity_result h status checksum repaired_from e =
     \<lparr>bi_backup_config_id = bk_id (bh_config h), bi_backup_path = bh_path h, bi_status = status, bi_checksum = checksum,
      bi_repaired_from_id = repaired_from, bi_error = e\<rparr>"

definition healthy_status :: "backup_health \<Rightarrow> string" where
  "healthy_status h = (case bk_last_integrity_status (bh_config h) of
       Some s \<Rightarrow> (if s \<in> {''corrupt'', ''missing'', ''failed''} then ''repaired'' else ''ok'')
     | None \<Rightarrow> ''ok'')"

definition broken_status :: "backup_health \<Rightarrow> world \<Rightarrow> string" where
  "broken_status h w = (if path_exists (w_fs w) (bh_path h) then ''corrupt'' else ''missing'')"

definition repair_backup :: "backup_env \<Rightarrow> digest \<Rightarrow> int \<Rightarrow> string \<Rightarrow> backup_health \<Rightarrow> backup_integrity_result prog" where
  "repair_backup env b3 source_id source_path h =
     (let i = bk_id (bh_config h) in
      bind_m (gets_m (broken_status h)) (\<lambda>pre_status.
      bind_m (retry_status_write 3 None i pre_status (bh_error h)) (\<lambda>(pre_write_ok, pre_write_err).
      if \<not> pre_write_ok
      then return_m (integrity_result h pre_status None None (Some (fmt
             [''pre-repair marker write failed; repair deferred to next integrity check: '',
              (case pre_write_err of None \<Rightarrow> ''unknown error'' | Some x \<Rightarrow> x)])))
      else bind_m (try_m (seq_m (copy_backup_atomically env b3 source_path (bh_path h)) (backup_checksum_file b3 (bh_path h)))) (\<lambda>r.
        case r of
          Inr checksum \<Rightarrow> seq_m (discard (retry_status_write 6 None i ''repaired'' None))
            (return_m (integrity_result h ''repaired'' (Some checksum) (Some source_id) None))
        | Inl e \<Rightarrow> seq_m (discard (update_db_backup_integrity_status i ''failed'' (Some (err_to_string e))))
            (return_m (integrity_result h ''failed'' None (Some source_id) (Some (err_to_string e))))))))"

definition report_broken :: "backup_health \<Rightarrow> backup_integrity_result prog" where
  "report_broken h = bind_m (gets_m (broken_status h)) (\<lambda>status.
     let message = (case bh_error h of None \<Rightarrow> ''No healthy backup available for repair'' | Some e \<Rightarrow> e) in
     seq_m (discard (update_db_backup_integrity_status (bk_id (bh_config h)) status (Some message)))
     (return_m (integrity_result h status None None (Some message))))"

definition check_backup ::
    "backup_env \<Rightarrow> digest \<Rightarrow> (int \<times> string) option \<Rightarrow> backup_health \<Rightarrow> backup_integrity_result prog" where
  "check_backup env b3 repair_source h =
     (if is_healthy h
      then seq_m (discard (update_db_backup_integrity_status (bk_id (bh_config h)) (healthy_status h) None))
        (return_m (integrity_result h (healthy_status h) (bh_checksum h) None None))
      else (case repair_source of
          Some (source_id, source_path) \<Rightarrow>
            (if source_id \<noteq> bk_id (bh_config h) then repair_backup env b3 source_id source_path h else report_broken h)
        | None \<Rightarrow> report_broken h))"

text \<open>The first backup when it is healthy, or else the first healthy one.\<close>

definition repair_source :: "backup_health list \<Rightarrow> (int \<times> string) option" where
  "repair_source health =
     (let primary = (case health of h # _ \<Rightarrow> (if is_healthy h then Some h else None) | [] \<Rightarrow> None) in
      map_option (\<lambda>h. (bk_id (bh_config h), bh_path h))
        (case primary of Some h \<Rightarrow> Some h | None \<Rightarrow> find is_healthy health))"

definition run_backup_integrity_check :: "backup_env \<Rightarrow> digest \<Rightarrow> backup_integrity_result list prog" where
  "run_backup_integrity_check env b3 = bind_m list_db_backup_configs (\<lambda>configs.
     bind_m (collect_m (filter bk_enabled configs) (inspect_backup env b3)) (\<lambda>health.
     bind_m (collect_m health (check_backup env b3 (repair_source health))) (\<lambda>results.
     seq_m (discard mark_db_backup_settings_integrity_run) (return_m results))))"

subsection \<open>Restoring\<close>

definition pending_restore_path :: "string \<Rightarrow> string" where
  "pending_restore_path db_path = fmt [db_path, ''.restore-pending'']"

definition safety_backup_path :: "backup_env \<Rightarrow> world \<Rightarrow> string \<Rightarrow> string" where
  "safety_backup_path env w db_path = fmt [db_path, ''.safety-'', be_stamp_secs env w]"

definition validate_db_restore_target_path :: "backup_env \<Rightarrow> string \<Rightarrow> string prog" where
  "validate_db_restore_target_path env db_path w =
     (let trimmed = str_trim db_path in
      if trimmed = '''' then bail ''Database path is required'' w
      else if db_path \<noteq> trimmed then bail ''Database path must not contain leading or trailing whitespace'' w
      else if contains_parent_dir db_path then bail ''Database path must not contain parent directory components'' w
      else if \<not> is_absolute db_path then bail ''Database path must be absolute'' w
      else (case realpath (be_cwd env) (w_fs w) db_path of
          None \<Rightarrow> io (fmt [''Failed to canonicalize database path: '', db_path]) w
        | Some k \<Rightarrow>
            (if k \<noteq> path_key db_path
             then bail ''Database path must be canonical and must not include symlinks or normalization components'' w
             else if \<not> key_is_file (w_fs w) k
             then bail (fmt [''Database path must point to an existing file: '', key_string k]) w
             else return_m (key_string k) w)))"

definition stage_restore :: "backup_env \<Rightarrow> string \<Rightarrow> string \<Rightarrow> restore_result prog" where
  "stage_restore env db_path source =
     bind_m (validate_db_restore_target_path env db_path) (\<lambda>trusted.
     seq_m (verify_sqlite_database env source)
    (bind_m (gets_m (\<lambda>w. safety_backup_path env w trusted)) (\<lambda>safety_path.
     seq_m (with_context ''Failed to create current database safety backup'' (fs_copy trusted safety_path))
    (seq_m (verify_sqlite_database env safety_path)
    (let staged_path = pending_restore_path trusted in
     seq_m (with_context ''Failed to stage database restore'' (fs_copy source staged_path))
    (seq_m (verify_sqlite_database env staged_path)
    (return_m \<lparr>re_status = ''staged'', re_restart_required = True, re_safety_backup_path = safety_path,
       re_staged_restore_path = staged_path\<rparr>)))))))"

definition remove_stale_sidecar :: "string \<Rightarrow> unit prog" where
  "remove_stale_sidecar p w = (if path_exists (w_fs w) p
     then with_context (fmt [''Failed to remove stale SQLite sidecar before restore apply: '', p]) (remove_file p) w
     else (Inr (), w))"

definition apply_pending_restore :: "backup_env \<Rightarrow> string \<Rightarrow> string option prog" where
  "apply_pending_restore env db_path w =
     (let staged_path = pending_restore_path db_path in
      if \<not> path_exists (w_fs w) staged_path then (Inr None, w)
      else seq_m (verify_sqlite_database env staged_path)
       (bind_m (gets_m (\<lambda>w. safety_backup_path env w db_path)) (\<lambda>safety_path.
        seq_m (\<lambda>w. if path_exists (w_fs w) db_path
                 then with_context ''Failed to create pre-restore safety backup'' (fs_copy db_path safety_path) w
                 else (Inr (), w))
       (seq_m (for_m [''-wal'', ''-shm''] (\<lambda>x. remove_stale_sidecar (fmt [db_path, x])))
       (seq_m (with_context ''Failed to apply staged database restore'' (fs_rename staged_path db_path))
       (return_m (Some safety_path)))))) w)"

end
