(* ===== verification/Backup_Correct.thy ===== *)
theory Backup_Correct
  imports Backup Queue_Resolve
begin

section \<open>Repairing the backups\<close>

text \<open>
  The check of the database backups never touches a healthy one and repairs the others from a healthy one only.
\<close>

subsection \<open>What reading gives\<close>

lemma read_slice_pure: "snd (read_slice k off w) = w"
  by (auto simp: read_slice_def io_def Let_def split: option.splits node.splits)

lemma read_slices_pure: "snd (read_slices k off fed w) = w"
proof (induction k off fed w rule: read_slices.induct)
  case (1 k off fed w)
  then show ?case by (simp add: read_slices.simps [of k off fed w] split: prod.splits sum.splits)
qed

lemma read_slices_Inr:
  "read_slices k off fed w = (Inr out, v) \<Longrightarrow> fs_nodes (w_fs w) k = Some (RegFile c m) \<Longrightarrow> concat out = concat fed @ drop off c"
proof (induction k off fed w rule: read_slices.induct)
  case (1 k off fed w)
  obtain r u where r: "read_slice k off w = (r, u)" by fastforce
  obtain ch where ch: "r = Inr ch" using 1(2) r by (cases r) (simp_all add: read_slices.simps [of k off fed w])
  note slice = read_slice_Inr(2) [OF r [unfolded ch]]
  show ?case
  proof (cases "ch = []")
    case True
    then show ?thesis using slice 1(2,3) r ch by (auto simp: read_slices.simps [of k off fed w])
  next
    case False
    then have "read_slices k (off + length ch) (fed @ [ch]) w = (Inr out, v)"
      using 1(2) r ch by (simp add: read_slices.simps [of k off fed w])
    from 1(1) [OF r [symmetric] ch False this 1(3)] slice 1(3) show ?thesis by simp
  qed
qed

lemma read_slices_total:
  assumes "fs_nodes (w_fs w) k = Some (RegFile c m)" "\<And>b. fs_bad_at (w_fs w) k = Some b \<Longrightarrow> length c \<le> b"
  shows "off \<le> length c \<Longrightarrow> \<exists>out. read_slices k off fed w = (Inr out, w)"
  using assms
proof (induction k off fed w rule: read_slices.induct)
  case (1 k off fed w)
  obtain r u where r: "read_slice k off w = (r, u)" by fastforce
  obtain ch where ch: "r = Inr ch" "length ch \<le> length c - off"
    using r 1(2-4) by (cases "fs_bad_at (w_fs w) k") (fastforce simp: read_slice_def io_def Let_def split: if_splits)+
  show ?case
  proof (cases "ch = []")
    case True
    then show ?thesis using r ch by (simp add: read_slices.simps [of k off fed w])
  next
    case False
    have "\<exists>out. read_slices k (off + length ch) (fed @ [ch]) w = (Inr out, w)"
      by (rule 1(1) [OF r [symmetric] ch(1) False]) (use 1(2-4) ch(2) in auto)
    then show ?thesis using r ch False by (simp add: read_slices.simps [of k off fed w])
  qed
qed

lemma checksum_of_backup:
  assumes "streaming_hash b3"
  shows "readable_bytes (w_fs w) p = Some c \<Longrightarrow> backup_checksum_file b3 p w = (Inr (b3 [c]), w)"
    "backup_checksum_file b3 p w = (Inr s, v) \<Longrightarrow> v = w \<and> (\<exists>c. file_bytes (w_fs w) p = Some c \<and> s = b3 [c])"
    "snd (backup_checksum_file b3 p w) = w"
proof -
  show "readable_bytes (w_fs w) p = Some c \<Longrightarrow> backup_checksum_file b3 p w = (Inr (b3 [c]), w)"
  proof -
    assume "readable_bytes (w_fs w) p = Some c"
    then obtain k m where k: "target (w_fs w) p = Some k" "fs_nodes (w_fs w) k = Some (RegFile c m)" "\<not> fs_noread (w_fs w) k"
      "\<And>b. fs_bad_at (w_fs w) k = Some b \<Longrightarrow> length c \<le> b"
      by (fastforce simp: readable_bytes_def split: option.splits node.splits if_splits)
    from read_slices_total [OF k(2,4), of 0 "[]"] obtain out where out: "read_slices k 0 [] w = (Inr out, w)" by auto
    have "concat out = c" using read_slices_Inr [OF out k(2)] by simp
    then have "b3 out = b3 [c]" by (rule digest_eq [OF assms])
    then show ?thesis using k out by (simp add: backup_checksum_file_def bind_m_def file_open_def)
  qed
  show p: "snd (backup_checksum_file b3 p w) = w"
    using read_slices_pure by (auto simp: backup_checksum_file_def bind_m_def file_open_def io_def split: option.splits prod.splits sum.splits)
      (metis snd_conv)+
  show "backup_checksum_file b3 p w = (Inr s, v) \<Longrightarrow> v = w \<and> (\<exists>c. file_bytes (w_fs w) p = Some c \<and> s = b3 [c])"
  proof -
    assume r: "backup_checksum_file b3 p w = (Inr s, v)"
    then obtain k out where k: "target (w_fs w) p = Some k" "read_slices k 0 [] w = (Inr out, v)" "s = b3 out"
      by (auto simp: backup_checksum_file_def bind_m_def file_open_def io_def split: option.splits prod.splits sum.splits if_splits)
    obtain c m where c: "fs_nodes (w_fs w) k = Some (RegFile c m)"
      using k(2) by (auto simp: read_slices.simps [of k 0 "[]" w] read_slice_def io_def split: option.splits node.splits)
    have "b3 out = b3 [c]" by (rule digest_eq [OF assms]) (use read_slices_Inr [OF k(2) c] in simp)
    moreover have "v = w" using p r by (metis snd_conv)
    ultimately show ?thesis using k c by (simp add: file_bytes_def)
  qed
qed

lemma verify_pure: "snd (verify_sqlite_database env p w) = w"
  by (auto simp: verify_sqlite_database_def io_def bail_def raise_m_def return_m_def split: option.splits sum.splits)

text \<open>A backup that passes: a regular file that can be read to its end and whose bytes SQLite accepts.\<close>

definition sound_backup :: "backup_env \<Rightarrow> fs \<Rightarrow> string \<Rightarrow> bytes \<Rightarrow> bool" where
  "sound_backup env f p c = (path_is_file f p \<and> readable_bytes f p = Some c
     \<and> (\<exists>rows. be_integrity_check env c = Inr rows \<and> list_all (\<lambda>v. v = ''ok'') rows))"

lemma verify_iff: "(\<exists>v. verify_sqlite_database env p w = (Inr (), v)) \<longleftrightarrow> (\<exists>c. sound_backup env (w_fs w) p c)"
  by (auto simp: verify_sqlite_database_def sound_backup_def io_def bail_def raise_m_def return_m_def list_all_iff find_None_iff
      find_Some_iff split: option.splits sum.splits)

lemma readable_sound: "sound_backup env f p c \<Longrightarrow> file_bytes f p = Some c \<and> path_exists f p"
  by (auto simp: sound_backup_def readable_bytes_def file_bytes_def path_exists_def path_is_file_def metadata_def
      split: option.splits node.splits if_splits)

lemma inspect_iff:
  assumes "streaming_hash b3"
  shows "\<exists>h. inspect_backup env b3 c w = (Inr h, w) \<and> bh_config h = c \<and> bh_path h = backup_file_path c
    \<and> (is_healthy h \<longleftrightarrow> (\<exists>x. sound_backup env (w_fs w) (backup_file_path c) x))"
proof (cases "path_exists (w_fs w) (backup_file_path c)")
  case False
  then have "\<not> (\<exists>x. sound_backup env (w_fs w) (backup_file_path c) x)" using readable_sound by blast
  then show ?thesis using False by (simp add: inspect_backup_def Let_def is_healthy_def)
next
  case True
  let ?p = "backup_file_path c"
  show ?thesis
  proof (cases "\<exists>x. sound_backup env (w_fs w) ?p x")
    case ok: True
    then obtain x where x: "sound_backup env (w_fs w) ?p x" by blast
    then have "verify_sqlite_database env ?p w = (Inr (), w)"
      using verify_iff [of env ?p w] verify_pure [of env ?p w] by (metis snd_conv)
    moreover have "backup_checksum_file b3 ?p w = (Inr (b3 [x]), w)"
      using x by (intro checksum_of_backup(1) [OF assms]) (simp add: sound_backup_def)
    ultimately show ?thesis using True ok
      by (simp add: inspect_backup_def Let_def bind_m_def try_m_def seq_m_def is_healthy_def)
  next
    case bad: False
    then obtain e where "verify_sqlite_database env ?p w = (Inl e, w)"
      using verify_iff [of env ?p w] verify_pure [of env ?p w] by (metis old.unit.exhaust snd_conv surj_pair sum.exhaust)
    then show ?thesis using True bad
      by (simp add: inspect_backup_def Let_def bind_m_def try_m_def seq_m_def is_healthy_def)
  qed
qed

subsection \<open>Names below a backup directory\<close>

definition name_ok :: "string \<Rightarrow> bool" where
  "name_ok n = (n \<noteq> '''' \<and> n \<noteq> ''.'' \<and> CHR ''/'' \<notin> set n)"

lemma path_key_join:
  assumes "name_ok n"
  shows "path_key (path_join dir n) = path_key dir @ [n]"
proof -
  have n: "split_on (CHR ''/'') n = [n]" using assms by (simp add: name_ok_def split_on_plain)
  have na: "\<not> is_absolute n" using assms by (cases n) (auto simp: is_absolute_def name_ok_def)
  consider (empty) "dir = ''''" | (slash) d where "dir = d @ ''/''" | (other) "dir \<noteq> ''''" "last dir \<noteq> CHR ''/''"
    by (metis append_butlast_last_id)
  then show ?thesis
  proof cases
    case empty
    then show ?thesis using n na assms by (simp add: path_join_def path_key_def name_ok_def is_absolute_def)
  next
    case slash
    have "is_absolute (d @ CHR ''/'' # n) = is_absolute (d @ ''/'')" by (cases d) (auto simp: is_absolute_def)
    then show ?thesis using n na assms split_on_snoc [of "CHR ''/''" d n] split_on_snoc [of "CHR ''/''" d "''''"]
      by (simp add: slash path_join_def path_key_def name_ok_def)
  next
    case other
    have "is_absolute (dir @ CHR ''/'' # n) = is_absolute dir" using other by (cases dir) (auto simp: is_absolute_def)
    then show ?thesis using n na assms other split_on_snoc [of "CHR ''/''" dir n]
      by (simp add: path_join_def path_key_def name_ok_def)
  qed
qed

lemma path_key_joined:
  assumes "\<And>c. c \<in> set cs \<Longrightarrow> CHR ''/'' \<notin> set c"
  shows "path_key (''/'' @ join_with ''/'' cs) = ''/'' # filter (\<lambda>c. c \<noteq> '''' \<and> c \<noteq> ''.'') cs"
proof (cases "cs = []")
  case True
  then show ?thesis by (simp add: path_key_def is_absolute_def)
next
  case False
  then have "split_on (CHR ''/'') (join_with ''/'' cs) = cs" using assms by (rule split_join)
  then show ?thesis by (simp add: path_key_def is_absolute_def)
qed

lemma filter_drop_skipped: "filter (\<lambda>c. \<not> skipped c) (dropWhile skipped cs) = filter (\<lambda>c. \<not> skipped c) cs"
  by (induction cs) simp_all

lemma filter_trim: "filter (\<lambda>c. \<not> skipped c) (rev (dropWhile skipped (rev cs))) = filter (\<lambda>c. \<not> skipped c) cs"
  using filter_drop_skipped [of "rev cs"] by (metis rev_filter rev_rev_ident)

lemma path_parent_join:
  assumes "is_absolute dir" "name_ok n"
  shows "\<exists>d. path_parent (path_join dir n) = Some d \<and> is_absolute d \<and> path_key d = path_key dir"
proof -
  let ?c = "\<lambda>p. filter (\<lambda>c. \<not> skipped c) (split_on (CHR ''/'') p)"
  have na: "\<not> is_absolute n" using assms(2) by (cases n) (auto simp: is_absolute_def name_ok_def)
  have n: "split_on (CHR ''/'') n = [n]" "\<not> skipped n" using assms(2) by (simp_all add: name_ok_def split_on_plain skipped_def)
  have key: "path_key p = ''/'' # ?c p" if "is_absolute p" for p using that by (simp add: path_key_def skipped_def)
  obtain x where x: "path_join dir n = x @ CHR ''/'' # n" "?c x = ?c dir"
  proof (cases "last dir = CHR ''/''")
    case True
    then obtain d where d: "dir = d @ ''/''"
      using assms(1) by (metis append_butlast_last_id is_absolute_def list.simps(4))
    then have "?c d = ?c dir" using split_on_snoc [of "CHR ''/''" d "''''"] by (simp add: skipped_def)
    then show ?thesis using that [of d] na by (simp add: d path_join_def)
  next
    case False
    then show ?thesis using that [of dir] assms(1) na by (cases dir) (auto simp: path_join_def is_absolute_def)
  qed
  have "is_absolute (path_join dir n)" using assms(1) na by (cases dir) (auto simp: path_join_def is_absolute_def)
  then have abs: "is_absolute (x @ CHR ''/'' # n)" by (simp add: x(1))
  let ?ds = "rev (dropWhile skipped (rev (split_on (CHR ''/'') x)))"
  have s: "split_on (CHR ''/'') (x @ CHR ''/'' # n) = split_on (CHR ''/'') x @ [n]" by (simp add: split_on_snoc n(1))
  have p: "path_parent (x @ CHR ''/'' # n) = Some (''/'' @ join_with ''/'' (dropWhile skipped ?ds))"
    by (simp add: path_parent_def Let_def s n(2) abs)
  have "CHR ''/'' \<notin> set c" if "c \<in> set (dropWhile skipped ?ds)" for c
    using that by (auto dest!: set_dropWhileD split_on_free)
  from path_key_joined [OF this] have "path_key (''/'' @ join_with ''/'' (dropWhile skipped ?ds)) = ''/'' # ?c x"
    using filter_drop_skipped [of ?ds] filter_trim [of "split_on (CHR ''/'') x"] by (simp add: skipped_def)
  then show ?thesis using p x key [OF assms(1)] by (simp add: is_absolute_def)
qed

subsection \<open>What a repair touches\<close>

text \<open>Only names below the directory differ, and none of them is a link or a directory.\<close>

definition below :: "key \<Rightarrow> key \<Rightarrow> bool" where
  "below d k = (k \<noteq> [] \<and> butlast k = d)"

definition flat :: "key \<Rightarrow> fs \<Rightarrow> bool" where
  "flat d f = (\<forall>k. below d k \<longrightarrow> (case fs_nodes f k of None \<Rightarrow> True | Some (RegFile _ _) \<Rightarrow> True | _ \<Rightarrow> False))"

definition same_faults :: "fs \<Rightarrow> fs \<Rightarrow> bool" where
  "same_faults f g = (fs_nostat f = fs_nostat g \<and> fs_noread f = fs_noread g \<and> fs_nowrite f = fs_nowrite g
     \<and> fs_bad_at f = fs_bad_at g \<and> fs_full_at f = fs_full_at g)"

definition touched :: "key \<Rightarrow> world \<Rightarrow> world \<Rightarrow> bool" where
  "touched d w v = (flat d (w_fs v) \<and> same_faults (w_fs w) (w_fs v)
     \<and> (\<forall>k. \<not> below d k \<longrightarrow> fs_nodes (w_fs v) k = fs_nodes (w_fs w) k))"

lemma touched_db: "flat d (w_fs w) \<Longrightarrow> w_fs v = w_fs w \<Longrightarrow> touched d w v"
  by (simp add: touched_def same_faults_def)

lemma touched_refl: "flat d (w_fs w) \<Longrightarrow> touched d w w"
  by (rule touched_db) simp_all

lemma touched_node: "touched d w v \<Longrightarrow> \<not> below d k \<Longrightarrow> fs_nodes (w_fs v) k = fs_nodes (w_fs w) k"
  by (simp add: touched_def)

lemma touched_trans: "touched d u v \<Longrightarrow> touched d v w \<Longrightarrow> touched d u w"
  by (simp add: touched_def same_faults_def)

lemma touched_flat: "touched d w v \<Longrightarrow> flat d (w_fs v)"
  by (simp add: touched_def)

lemma touched_put:
  "flat d (w_fs w) \<Longrightarrow> below d k \<Longrightarrow> x = None \<or> (\<exists>c m. x = Some (RegFile c m)) \<Longrightarrow> touched d w (fs_put k x w)"
  by (auto simp: touched_def same_faults_def flat_def fs_put_def)

lemma below_key [simp]: "below d (d @ [n])"
  by (simp add: below_def)

lemma flat_target: "flat d f \<Longrightarrow> path_key p = d @ [n] \<Longrightarrow> target f p = Some (d @ [n])"
  unfolding target_def flat_def
  by (drule spec [of _ "d @ [n]"], simp, subst follow.simps) (auto split: option.splits node.splits)

lemma flat_copy:
  assumes "flat d (w_fs w)" "path_key dst = d @ [n]" "fs_copy src dst w = (r, v)"
  shows "touched d w v \<and> (r = Inr () \<longrightarrow> target (w_fs w) src \<noteq> Some (d @ [n]) \<longrightarrow>
    (\<exists>b m. fs_nodes (w_fs v) (d @ [n]) = Some (RegFile b m) \<and> file_bytes (w_fs w) src = Some b))"
proof -
  let ?kd = "d @ [n]"
  note t = flat_target [OF assms(1,2)]
  consider (closed) e where "file_open src w = (Inl e, w)" | (opened) ks where "file_open src w = (Inr ks, w)"
    by (metis file_open_state old.sum.exhaust prod.collapse)
  then show ?thesis
  proof cases
    case closed
    then show ?thesis using assms(3) touched_refl [OF assms(1)] by (auto simp: fs_copy_def bind_m_def)
  next
    case opened
    then have src: "target (w_fs w) src = Some ks" by (simp add: file_open_Inr)
    show ?thesis
    proof (cases "\<exists>c mode. fs_nodes (w_fs w) ks = Some (RegFile c mode)")
      case False
      then have "v = w \<and> (\<exists>e. r = Inl e)" using assms(3) opened
        by (auto simp: fs_copy_def bind_m_def io_def raise_m_def split: option.splits node.splits)
      then show ?thesis using touched_refl [OF assms(1)] by auto
    next
      case True
      then obtain c mode where ks: "fs_nodes (w_fs w) ks = Some (RegFile c mode)" by blast
      consider (failed) e where "file_create dst w = (Inl e, w)"
        | (created) m where "file_create dst w = (Inr ?kd, fs_put ?kd (Some (RegFile [] m)) w)"
        using file_create_cases [of dst w] t by auto
      then show ?thesis
      proof cases
        case failed
        then have "v = w \<and> r = Inl e" using assms(3) opened ks by (simp add: fs_copy_def bind_m_def)
        then show ?thesis using touched_refl [OF assms(1)] by auto
      next
        case created
        let ?u = "fs_put ?kd (Some (RegFile [] mode)) w"
        let ?n = "Suc (length (node_bytes (w_fs ?u) ks))"
        have "set_mode ?kd mode (fs_put ?kd (Some (RegFile [] m)) w) = ?u"
          using set_mode_file [of "fs_put ?kd (Some (RegFile [] m)) w" ?kd "[]" m mode] by simp
        then have run: "(r, v) = (case copy_stream ?n ks ?kd 0 [] ?u of (Inl e, v) \<Rightarrow> (Inl e, v) | (Inr _, v) \<Rightarrow> (Inr (), v))"
          using assms(3) opened ks created by (simp add: fs_copy_def bind_m_def seq_m_def unit_m_def split: prod.splits sum.splits)
        have "fs_nodes (w_fs ?u) ?kd = Some (RegFile (concat []) mode)" "0 = length (concat ([] :: bytes list))" by simp_all
        from copy_stream_spec [OF this, of ?n ks] obtain b where
          b: "snd (copy_stream ?n ks ?kd 0 [] ?u) = fs_put ?kd (Some (RegFile b mode)) ?u"
          "\<And>out. fst (copy_stream ?n ks ?kd 0 [] ?u) = Inr out \<Longrightarrow> b = concat out \<and>
             (ks \<noteq> ?kd \<longrightarrow> (\<exists>c mc. fs_nodes (w_fs ?u) ks = Some (RegFile c mc) \<and> concat out = concat [] @ drop 0 c))" by blast
        have v: "v = fs_put ?kd (Some (RegFile b mode)) w" using run b(1)
          by (cases "copy_stream ?n ks ?kd 0 [] ?u") (auto split: sum.splits)
        have "file_bytes (w_fs w) src = Some b" if "r = Inr ()" "ks \<noteq> ?kd"
          using run b(2) that src by (cases "copy_stream ?n ks ?kd 0 [] ?u") (auto simp: file_bytes_def split: sum.splits)
        then show ?thesis using touched_put [OF assms(1), of ?kd] src by (auto simp: v)
      qed
    qed
  qed
qed

lemma flat_rename:
  assumes "flat d (w_fs w)" "path_key src = d @ [m]" "path_key dst = d @ [n]" "m \<noteq> n" "fs_rename src dst w = (r, v)"
  shows "touched d w v \<and> (r = Inr () \<longrightarrow> fs_nodes (w_fs v) (d @ [n]) = fs_nodes (w_fs w) (d @ [m]))"
proof (cases "r = Inr ()")
  case False
  then have "v = w" using assms(5) by (auto simp: fs_rename_def Let_def io_def raise_m_def split: option.splits if_splits)
  then show ?thesis using False touched_refl [OF assms(1)] by simp
next
  case True
  then obtain x where x: "fs_nodes (w_fs w) (d @ [m]) = Some x" "v = fs_put (d @ [n]) (Some x) (fs_put (d @ [m]) None w)"
    using assms by (auto simp: fs_rename_def Let_def io_def raise_m_def split: option.splits if_splits)
  then have "\<exists>c p. x = RegFile c p" using assms(1) unfolding flat_def
    by (auto dest!: spec [of _ "d @ [m]"] split: node.splits)
  then have "touched d (fs_put (d @ [m]) None w) v"
    unfolding x(2) by (intro touched_put touched_flat [OF touched_put [OF assms(1)]]) auto
  then show ?thesis using touched_trans [OF touched_put [OF assms(1), of "d @ [m]" None]] x by auto
qed

lemma flat_write:
  assumes "flat d (w_fs w)" "path_key p = d @ [n]" "fs_write p c w = (r, v)"
  shows "touched d w v \<and> (\<forall>k. k \<noteq> d @ [n] \<longrightarrow> fs_nodes (w_fs v) k = fs_nodes (w_fs w) k)"
proof -
  let ?k = "d @ [n]"
  note t = flat_target [OF assms(1,2)]
  consider (failed) e where "file_create p w = (Inl e, w)"
    | (created) m where "file_create p w = (Inr ?k, fs_put ?k (Some (RegFile [] m)) w)"
    using file_create_cases [of p w] t by auto
  then show ?thesis
  proof cases
    case failed
    then show ?thesis using assms(3) touched_refl [OF assms(1)] by (simp add: fs_write_def bind_m_def)
  next
    case created
    then obtain b where "v = fs_put ?k (Some (RegFile b m)) w"
      using assms(3) by (auto simp: fs_write_def bind_m_def set_bytes_def split: option.splits if_splits)
    then show ?thesis using touched_put [OF assms(1), of ?k] by simp
  qed
qed

lemma dirs_exist:
  assumes "\<And>i. 0 < i \<Longrightarrow> i \<le> length d \<Longrightarrow> fs_nodes (w_fs w) (take i d) = Some Directory"
  shows "create_dir_all d w = (Inr (), w)"
proof -
  have "pre @ ks = d \<Longrightarrow> mkdirs pre ks w = (Inr (), w)" for pre ks
  proof (induction ks arbitrary: pre)
    case (Cons c ks)
    have "fs_nodes (w_fs w) (pre @ [c]) = Some Directory"
      using assms [of "Suc (length pre)"] Cons.prems by auto
    then show ?case using Cons.IH [of "pre @ [c]"] Cons.prems by (simp add: Let_def)
  qed simp
  then show ?thesis by (simp add: create_dir_all_def)
qed

subsection \<open>One repair\<close>

definition usable_dir :: "fs \<Rightarrow> string \<Rightarrow> bool" where
  "usable_dir f dir = (is_absolute dir \<and> flat (path_key dir) f
     \<and> (\<forall>i. 0 < i \<and> i \<le> length (path_key dir) \<longrightarrow> fs_nodes f (take i (path_key dir)) = Some Directory))"

definition dir_key :: "db_backup_config \<Rightarrow> key" where
  "dir_key c = path_key (bk_backup_path c)"

lemma names_ok: "name_ok backup_filename" "name_ok checksum_filename" "backup_filename \<noteq> checksum_filename"
  by (simp_all add: name_ok_def backup_filename_def checksum_filename_def)

lemma tmp_ok:
  assumes "CHR ''/'' \<notin> set x" "CHR ''/'' \<notin> set s"
  shows "name_ok (tmp_name x s)" "tmp_name x s \<noteq> backup_filename"
  using assms by (simp_all add: name_ok_def tmp_name_def fmt_def backup_filename_def)

lemma with_context_run: "with_context msg m w = (r, v) \<Longrightarrow> \<exists>r'. m w = (r', v) \<and> (\<forall>x. r = Inr x \<longrightarrow> r' = Inr x)"
  by (auto simp: with_context_def split: prod.splits sum.splits)

lemma copy_backup_effect:
  assumes stamp: "\<And>w. CHR ''/'' \<notin> set (be_stamp env w)"
    and dir: "usable_dir (w_fs w) dir" and src: "target (w_fs w) source = Some ks" "\<not> below (path_key dir) ks"
    and run: "copy_backup_atomically env b3 source (path_join dir backup_filename) w = (r, v)" and h: "streaming_hash b3"
  shows "touched (path_key dir) w v \<and> (r = Inr () \<longrightarrow>
    (\<exists>b m. fs_nodes (w_fs v) (path_key dir @ [backup_filename]) = Some (RegFile b m) \<and> file_bytes (w_fs w) source = Some b))"
proof -
  let ?d = "path_key dir" and ?fn = backup_filename
  have flat: "flat ?d (w_fs w)" using dir by (simp add: usable_dir_def)
  obtain dd where dd: "path_parent (path_join dir ?fn) = Some dd" "path_key dd = ?d"
    using path_parent_join names_ok(1) dir unfolding usable_dir_def by blast
  define tmp where "tmp = path_join dd (tmp_name ''.repair.'' (be_stamp env w))"
  define n where "n = tmp_name ''.repair.'' (be_stamp env w)"
  have n: "name_ok n" "n \<noteq> ?fn" unfolding n_def by (rule tmp_ok; simp add: stamp)+
  have keys: "path_key tmp = ?d @ [n]" "path_key (path_join dir ?fn) = ?d @ [?fn]"
    "path_key (path_join dd checksum_filename) = ?d @ [checksum_filename]"
    using path_key_join [OF n(1), of dd] path_key_join [OF names_ok(1), of dir] path_key_join [OF names_ok(2), of dd]
    by (simp_all add: tmp_def n_def dd(2))
  have mk: "create_dir_all ?d w = (Inr (), w)" using dirs_exist dir by (auto simp: usable_dir_def)
  obtain r1 v1 where c1: "fs_copy source tmp w = (r1, v1)" by fastforce
  note copied = flat_copy [OF flat keys(1) c1]
  show ?thesis
  proof (cases r1)
    case (Inl e)
    then have "v = v1 \<and> (\<exists>e. r = Inl e)" using run c1
      by (auto simp: copy_backup_atomically_def dd seq_m_def bind_m_def with_context_def mk tmp_def [symmetric])
    then show ?thesis using copied by auto
  next
    case (Inr x)
    have t1: "touched ?d w v1" and f1: "flat ?d (w_fs v1)" using copied touched_flat by blast+
    obtain b m where b: "fs_nodes (w_fs v1) (?d @ [n]) = Some (RegFile b m)" "file_bytes (w_fs w) source = Some b"
      using copied Inr src by (auto simp: below_def)
    obtain r2 where c2: "verify_sqlite_database env tmp v1 = (r2, v1)" using verify_pure [of env tmp v1] by (metis prod.collapse)
    show ?thesis
    proof (cases r2)
      case (Inl e)
      then have "v = v1 \<and> (\<exists>e. r = Inl e)" using run c1 c2 Inr
        by (auto simp: copy_backup_atomically_def dd seq_m_def bind_m_def with_context_def mk tmp_def [symmetric])
      then show ?thesis using t1 by auto
    next
      case ok2: (Inr y)
      obtain r3 v3 where c3: "fs_rename tmp (path_join dir ?fn) v1 = (r3, v3)" by fastforce
      note renamed = flat_rename [OF f1 keys(1,2) n(2) c3]
      then have t3: "touched ?d w v3" and f3: "flat ?d (w_fs v3)" using touched_trans [OF t1] touched_flat by blast+
      show ?thesis
      proof (cases r3)
        case (Inl e)
        then have "v = v3 \<and> (\<exists>e. r = Inl e)" using run c1 c2 c3 Inr ok2
          by (auto simp: copy_backup_atomically_def dd seq_m_def bind_m_def with_context_def mk tmp_def [symmetric])
        then show ?thesis using t3 by auto
      next
        case ok3: (Inr z)
        have b3n: "fs_nodes (w_fs v3) (?d @ [?fn]) = Some (RegFile b m)" using renamed ok3 b(1) by simp
        obtain r4 where c4: "backup_checksum_file b3 (path_join dir ?fn) v3 = (r4, v3)"
          using checksum_of_backup(3) [OF h] by (metis prod.collapse)
        show ?thesis
        proof (cases r4)
          case (Inl e)
          then have "v = v3 \<and> (\<exists>e. r = Inl e)" using run c1 c2 c3 c4 Inr ok2 ok3
            by (auto simp: copy_backup_atomically_def dd seq_m_def bind_m_def with_context_def mk tmp_def [symmetric])
          then show ?thesis using t3 by auto
        next
          case ok4: (Inr s)
          obtain r5 v5 where c5: "fs_write (path_join dd checksum_filename) (text_bytes s) v3 = (r5, v5)" by fastforce
          have "v = v5" using run c1 c2 c3 c4 c5 Inr ok2 ok3 ok4
            by (auto simp: copy_backup_atomically_def dd seq_m_def bind_m_def with_context_def mk tmp_def [symmetric] split: sum.splits)
          then show ?thesis using flat_write [OF f3 keys(3) c5] touched_trans [OF t3] b3n b(2) names_ok(3) by auto
        qed
      qed
    qed
  qed
qed

subsection \<open>One backup of a check\<close>

lemma update_backup_fs [simp]: "w_fs (snd (update_db_backup_integrity_status i s e w)) = w_fs w"
  by (simp add: update_db_backup_integrity_status_def update_backup_def)

lemma update_backup_ok: "\<exists>v. update_db_backup_integrity_status i s e w = (Inr (), v) \<and> w_fs v = w_fs w"
  by (simp add: update_db_backup_integrity_status_def update_backup_def db_do_def modify_m_def)

lemma retry_ok: "0 < n \<Longrightarrow> \<exists>v. retry_status_write n last_e i s e w = (Inr (True, None), v) \<and> w_fs v = w_fs w"
  using update_backup_ok [of i s e w] by (cases n) (auto simp: bind_m_def try_m_def)

text \<open>What a result claims to have repaired.\<close>

definition repaired_from :: "backup_integrity_result \<Rightarrow> int \<Rightarrow> bool" where
  "repaired_from r j = (bi_repaired_from_id r = Some j \<and> bi_status r = ''repaired'')"

lemma report_broken_effect:
  "\<exists>r v. report_broken h w = (Inr r, v) \<and> w_fs v = w_fs w \<and> (\<forall>j. \<not> repaired_from r j) \<and> bi_backup_config_id r = bk_id (bh_config h)"
proof -
  obtain msg where "report_broken h = bind_m (gets_m (broken_status h)) (\<lambda>status.
     seq_m (discard (update_db_backup_integrity_status (bk_id (bh_config h)) status (Some msg)))
     (return_m (integrity_result h status None None (Some msg))))"
    by (simp add: report_broken_def Let_def)
  then show ?thesis by (simp add: bind_m_def gets_m_def repaired_from_def integrity_result_def)
qed

lemma check_backup_effect:
  assumes stamp: "\<And>w. CHR ''/'' \<notin> set (be_stamp env w)" and hash: "streaming_hash b3"
    and dir: "usable_dir (w_fs w) dir" and path: "bh_path h = path_join dir backup_filename"
    and src: "\<And>i s. source = Some (i, s) \<Longrightarrow> i \<noteq> bk_id (bh_config h) \<Longrightarrow> \<exists>ks. target (w_fs w) s = Some ks \<and> \<not> below (path_key dir) ks"
  shows "\<exists>r v. check_backup env b3 source h w = (Inr r, v) \<and> touched (path_key dir) w v \<and> bi_backup_config_id r = bk_id (bh_config h)
    \<and> (is_healthy h \<longrightarrow> w_fs v = w_fs w)
    \<and> (\<forall>j. repaired_from r j \<longrightarrow> \<not> is_healthy h \<and> (\<exists>s b m. source = Some (j, s) \<and> file_bytes (w_fs w) s = Some b
         \<and> fs_nodes (w_fs v) (path_key dir @ [backup_filename]) = Some (RegFile b m) \<and> bi_checksum r = Some (b3 [b])))"
proof -
  have flat: "flat (path_key dir) (w_fs w)" using dir by (simp add: usable_dir_def)
  note same = touched_db [OF flat]
  consider (healthy) "is_healthy h"
    | (broken) "\<not> is_healthy h" "check_backup env b3 source h = report_broken h"
    | (repair) i s where "\<not> is_healthy h" "source = Some (i, s)" "i \<noteq> bk_id (bh_config h)"
        "check_backup env b3 source h = repair_backup env b3 i s h"
    by (cases source; cases "fst (the source) = bk_id (bh_config h)"; cases "is_healthy h") (auto simp: check_backup_def)
  then show ?thesis
  proof cases
    case healthy
    then show ?thesis using same by (simp add: check_backup_def repaired_from_def integrity_result_def)
  next
    case broken
    obtain r v where "report_broken h w = (Inr r, v)" "w_fs v = w_fs w" "\<And>j. \<not> repaired_from r j"
      "bi_backup_config_id r = bk_id (bh_config h)" using report_broken_effect by blast
    then show ?thesis using broken same by auto
  next
    case (repair i s)
    obtain ks where ks: "target (w_fs w) s = Some ks" "\<not> below (path_key dir) ks" using src repair by blast
    let ?i = "bk_id (bh_config h)" and ?p = "path_join dir backup_filename"
    obtain w1 where w1: "retry_status_write 3 None ?i (broken_status h w) (bh_error h) w = (Inr (True, None), w1)" "w_fs w1 = w_fs w"
      using retry_ok [of 3] by (metis zero_less_numeral)
    obtain r2 v2 where c2: "copy_backup_atomically env b3 s ?p w1 = (r2, v2)" by fastforce
    have copied: "touched (path_key dir) w v2 \<and> (r2 = Inr () \<longrightarrow>
        (\<exists>b m. fs_nodes (w_fs v2) (path_key dir @ [backup_filename]) = Some (RegFile b m) \<and> file_bytes (w_fs w) s = Some b))"
      using copy_backup_effect [OF stamp _ _ ks(2) c2 hash] dir ks(1) w1(2) by (simp add: touched_def)
    obtain r3 where c3: "try_m (seq_m (copy_backup_atomically env b3 s ?p) (backup_checksum_file b3 ?p)) w1 = (Inr r3, v2)"
      "\<And>c. r3 = Inr c \<Longrightarrow> r2 = Inr () \<and> backup_checksum_file b3 ?p v2 = (Inr c, v2)"
    proof (cases r2)
      case (Inl e)
      then show ?thesis using that [of "Inl e"] c2 by (simp add: try_m_def seq_m_def bind_m_def)
    next
      case (Inr x)
      obtain r4 where "backup_checksum_file b3 ?p v2 = (r4, v2)" using checksum_of_backup(3) [OF hash] by (metis prod.collapse)
      then show ?thesis using that [of r4] c2 Inr by (simp add: try_m_def seq_m_def bind_m_def)
    qed
    show ?thesis
    proof (cases r3)
      case (Inl e)
      obtain v4 where v4: "update_db_backup_integrity_status ?i ''failed'' (Some (err_to_string e)) v2 = (Inr (), v4)" "w_fs v4 = w_fs v2"
        using update_backup_ok by blast
      have "repair_backup env b3 i s h w = (Inr (integrity_result h ''failed'' None (Some i) (Some (err_to_string e))), v4)"
        by (simp add: repair_backup_def Let_def path bind_m_def gets_m_def w1 c3 Inl v4)
      then show ?thesis using copied v4(2) repair
        by (auto simp: integrity_result_def repaired_from_def touched_def)
    next
      case (Inr c)
      obtain v4 where v4: "retry_status_write 6 None ?i ''repaired'' None v2 = (Inr (True, None), v4)" "w_fs v4 = w_fs v2"
        using retry_ok [of 6] by (metis zero_less_numeral)
      have run: "repair_backup env b3 i s h w = (Inr (integrity_result h ''repaired'' (Some c) (Some i) None), v4)"
        by (simp add: repair_backup_def Let_def path bind_m_def gets_m_def w1 c3 Inr v4)
      obtain b m where b: "fs_nodes (w_fs v2) (path_key dir @ [backup_filename]) = Some (RegFile b m)" "file_bytes (w_fs w) s = Some b"
        using copied c3(2) [OF Inr] by blast
      have "target (w_fs v2) ?p = Some (path_key dir @ [backup_filename])"
        using flat_target touched_flat copied path_key_join names_ok(1) by blast
      then have "file_bytes (w_fs v2) ?p = Some b" using b(1) by (simp add: file_bytes_def)
      then have "c = b3 [b]" using checksum_of_backup(2) [OF hash, of ?p v2 c v2] c3(2) [OF Inr] by auto
      then show ?thesis using run repair copied v4(2) b
        by (auto simp: integrity_result_def repaired_from_def touched_def)
    qed
  qed
qed

subsection \<open>A whole check\<close>

text \<open>The directories of a check: each can be used, and no two are the same.\<close>

definition dirs_ready :: "fs \<Rightarrow> db_backup_config list \<Rightarrow> bool" where
  "dirs_ready f cs = (distinct (map dir_key cs) \<and> (\<forall>c \<in> set cs. usable_dir f (bk_backup_path c)))"

lemma ready_touched:
  assumes "dirs_ready (w_fs w) cs" "touched d w v" "d \<in> dir_key ` set cs"
  shows "dirs_ready (w_fs v) cs"
proof -
  obtain c0 where c0: "c0 \<in> set cs" "d = dir_key c0" using assms(3) by blast
  then have fd: "flat d (w_fs w)" using assms(1) by (auto simp: dirs_ready_def usable_dir_def dir_key_def)
  have "usable_dir (w_fs v) (bk_backup_path c)" if c: "c \<in> set cs" for c
  proof -
    have u: "usable_dir (w_fs w) (bk_backup_path c)" using assms(1) c by (simp add: dirs_ready_def)
    have dirs: "fs_nodes (w_fs v) (take i (dir_key c)) = Some Directory" if "0 < i" "i \<le> length (dir_key c)" for i
    proof -
      have w: "fs_nodes (w_fs w) (take i (dir_key c)) = Some Directory" using u that by (simp add: usable_dir_def dir_key_def)
      then have "\<not> below d (take i (dir_key c))" using fd by (auto simp: flat_def)
      then show ?thesis using touched_node [OF assms(2)] w by simp
    qed
    have "flat (dir_key c) (w_fs v)"
    proof (cases "dir_key c = d")
      case True
      then show ?thesis using touched_flat [OF assms(2)] by simp
    next
      case False
      then have "below (dir_key c) k \<Longrightarrow> fs_nodes (w_fs v) k = fs_nodes (w_fs w) k" for k
        using touched_node [OF assms(2)] by (auto simp: below_def)
      then show ?thesis using u by (simp add: usable_dir_def flat_def dir_key_def)
    qed
    then show ?thesis using u dirs by (simp add: usable_dir_def dir_key_def)
  qed
  then show ?thesis using assms(1) by (simp add: dirs_ready_def)
qed

definition backup_key :: "db_backup_config \<Rightarrow> key" where
  "backup_key c = dir_key c @ [backup_filename]"

lemma backup_key_below: "below (dir_key c) (backup_key d) \<longleftrightarrow> dir_key c = dir_key d"
  by (auto simp: below_def backup_key_def)

lemma ready_target:
  assumes "dirs_ready f cs" "c \<in> set cs"
  shows "target f (backup_file_path c) = Some (backup_key c)"
  using assms flat_target [of "dir_key c" f "backup_file_path c" backup_filename] path_key_join [OF names_ok(1), of "bk_backup_path c"]
  by (simp add: dirs_ready_def usable_dir_def dir_key_def backup_key_def backup_file_path_def)

text \<open>
  What one result of a check says of its backup: it carries its identifier, and when it reports a repair the backup was
  not healthy and now holds the bytes the repair source had at the start.
\<close>

definition mended :: "digest \<Rightarrow> (int \<times> string) option \<Rightarrow> world \<Rightarrow> world \<Rightarrow> backup_health \<Rightarrow> backup_integrity_result \<Rightarrow> bool" where
  "mended b3 source w v h r = (bi_backup_config_id r = bk_id (bh_config h)
     \<and> (\<forall>j. repaired_from r j \<longrightarrow> \<not> is_healthy h \<and> (\<exists>s b m. source = Some (j, s) \<and> file_bytes (w_fs w) s = Some b
         \<and> fs_nodes (w_fs v) (backup_key (bh_config h)) = Some (RegFile b m) \<and> bi_checksum r = Some (b3 [b]))))"

definition spares :: "backup_health list \<Rightarrow> world \<Rightarrow> world \<Rightarrow> bool" where
  "spares hs w v = (\<forall>k. (\<forall>h \<in> set hs. \<not> is_healthy h \<longrightarrow> \<not> below (dir_key (bh_config h)) k)
     \<longrightarrow> fs_nodes (w_fs v) k = fs_nodes (w_fs w) k)"

lemma spares_at: "spares hs w v \<Longrightarrow> (\<And>h. h \<in> set hs \<Longrightarrow> \<not> is_healthy h \<Longrightarrow> \<not> below (dir_key (bh_config h)) k)
    \<Longrightarrow> fs_nodes (w_fs v) k = fs_nodes (w_fs w) k"
  by (simp add: spares_def)

lemma spares_Cons:
  assumes "touched (dir_key (bh_config h)) w u" "is_healthy h \<longrightarrow> w_fs u = w_fs w" "spares hs u v"
  shows "spares (h # hs) w v"
proof -
  have "fs_nodes (w_fs v) k = fs_nodes (w_fs w) k"
    if k: "\<forall>g \<in> set (h # hs). \<not> is_healthy g \<longrightarrow> \<not> below (dir_key (bh_config g)) k" for k
  proof -
    have "fs_nodes (w_fs v) k = fs_nodes (w_fs u) k" by (rule spares_at [OF assms(3)]) (use k in simp)
    also have "\<dots> = fs_nodes (w_fs w) k"
    proof (cases "is_healthy h")
      case True
      then show ?thesis using assms(2) by simp
    next
      case False
      then show ?thesis using k touched_node [OF assms(1)] by simp
    qed
    finally show ?thesis .
  qed
  then show ?thesis by (simp add: spares_def)
qed

lemma mended_start:
  assumes "mended b3 source u v h r" "\<And>i s. source = Some (i, s) \<Longrightarrow> file_bytes (w_fs u) s = file_bytes (w_fs w) s"
  shows "mended b3 source w v h r"
  using assms by (fastforce simp: mended_def)

lemma mended_end:
  assumes "mended b3 source w u h r" "fs_nodes (w_fs v) (backup_key (bh_config h)) = fs_nodes (w_fs u) (backup_key (bh_config h))"
  shows "mended b3 source w v h r"
  using assms by (simp add: mended_def)

lemma check_mends:
  assumes "\<And>w. CHR ''/'' \<notin> set (be_stamp env w)" "streaming_hash b3"
    and "usable_dir (w_fs w) (bk_backup_path (bh_config h))" "bh_path h = backup_file_path (bh_config h)"
    and "\<And>i s. source = Some (i, s) \<Longrightarrow> i \<noteq> bk_id (bh_config h)
      \<Longrightarrow> \<exists>ks. target (w_fs w) s = Some ks \<and> \<not> below (dir_key (bh_config h)) ks"
  obtains r u where "check_backup env b3 source h w = (Inr r, u)" "touched (dir_key (bh_config h)) w u"
    "is_healthy h \<longrightarrow> w_fs u = w_fs w" "mended b3 source w u h r"
proof -
  have "\<exists>r u. check_backup env b3 source h w = (Inr r, u) \<and> touched (path_key (bk_backup_path (bh_config h))) w u
    \<and> bi_backup_config_id r = bk_id (bh_config h) \<and> (is_healthy h \<longrightarrow> w_fs u = w_fs w)
    \<and> (\<forall>j. repaired_from r j \<longrightarrow> \<not> is_healthy h \<and> (\<exists>s b m. source = Some (j, s) \<and> file_bytes (w_fs w) s = Some b
         \<and> fs_nodes (w_fs u) (path_key (bk_backup_path (bh_config h)) @ [backup_filename]) = Some (RegFile b m)
         \<and> bi_checksum r = Some (b3 [b])))"
    by (rule check_backup_effect [OF assms(1-3)]) (use assms(4,5) in \<open>simp_all add: backup_file_path_def dir_key_def\<close>)
  then have "\<exists>r u. check_backup env b3 source h w = (Inr r, u) \<and> touched (dir_key (bh_config h)) w u
    \<and> (is_healthy h \<longrightarrow> w_fs u = w_fs w) \<and> mended b3 source w u h r"
    by (elim ex_forward) (simp add: mended_def backup_key_def dir_key_def)
  then show thesis by (elim exE conjE) (rule that)
qed

lemma other_dir:
  assumes "distinct (map dir_key cs)" "c \<in> set cs" "d \<in> set cs" "c \<noteq> d"
  shows "dir_key c \<noteq> dir_key d"
  using assms by (auto simp: distinct_map dest: inj_onD)

text \<open>The backups of a check: their directories are ready and their records come from the inspection.\<close>

definition inspected :: "db_backup_config list \<Rightarrow> (int \<times> string) option \<Rightarrow> backup_health list \<Rightarrow> bool" where
  "inspected all source hs = (set (map bh_config hs) \<subseteq> set all \<and> distinct (map bh_config hs)
     \<and> (\<forall>h \<in> set hs. bh_path h = backup_file_path (bh_config h)
          \<and> (\<forall>i s. source = Some (i, s) \<and> \<not> is_healthy h \<longrightarrow> i \<noteq> bk_id (bh_config h)))
     \<and> (\<forall>i s. source = Some (i, s) \<longrightarrow> (\<exists>c \<in> set all. s = backup_file_path c \<and> i = bk_id c)))"

lemma inspected_Cons: "inspected all source (h # hs) \<Longrightarrow> inspected all source hs"
  by (simp add: inspected_def)

lemma source_dir:
  assumes "inspected all (Some (i, s)) (h # hs)" "dirs_ready f all" "i \<noteq> bk_id (bh_config h)"
  obtains d where "d \<in> set all" "s = backup_file_path d" "target f s = Some (backup_key d)" "\<not> below (dir_key (bh_config h)) (backup_key d)"
proof -
  obtain d where d: "d \<in> set all" "s = backup_file_path d" "i = bk_id d" using assms(1) unfolding inspected_def by blast
  have c: "bh_config h \<in> set all" "bh_config h \<noteq> d" using assms(1,3) d(3) by (auto simp: inspected_def)
  have "dir_key (bh_config h) \<noteq> dir_key d"
    by (rule other_dir [of all]) (use assms(2) c d(1) in \<open>simp_all add: dirs_ready_def\<close>)
  then show thesis using that [OF d(1,2)] ready_target [OF assms(2) d(1)] d(2) backup_key_below by simp
qed

lemma checks_effect:
  assumes stamp: "\<And>w. CHR ''/'' \<notin> set (be_stamp env w)" and hash: "streaming_hash b3"
  shows "dirs_ready (w_fs w) all \<Longrightarrow> inspected all source hs
    \<Longrightarrow> \<exists>rs v. collect_m hs (check_backup env b3 source) w = (Inr rs, v) \<and> dirs_ready (w_fs v) all
      \<and> spares hs w v \<and> list_all2 (mended b3 source w v) hs rs"
proof (induction hs arbitrary: w)
  case Nil
  then show ?case by (simp add: spares_def)
next
  case (Cons h hs)
  let ?c = "bh_config h"
  have c: "?c \<in> set all" using Cons.prems(2) by (simp add: inspected_def)
  have dir: "usable_dir (w_fs w) (bk_backup_path ?c)" using Cons.prems(1) c by (simp add: dirs_ready_def)
  have path: "bh_path h = backup_file_path ?c" using Cons.prems(2) by (simp add: inspected_def)
  have src: "\<exists>ks. target (w_fs w) s = Some ks \<and> \<not> below (dir_key ?c) ks" if here: "source = Some (i, s)" "i \<noteq> bk_id ?c" for i s
    by (rule source_dir [OF Cons.prems(2) [unfolded here(1)] Cons.prems(1) here(2)]) blast
  obtain r u where r: "check_backup env b3 source h w = (Inr r, u)" "touched (dir_key ?c) w u" "is_healthy h \<longrightarrow> w_fs u = w_fs w"
    "mended b3 source w u h r" by (rule check_mends [OF stamp hash dir path src])
  have ready: "dirs_ready (w_fs u) all" by (rule ready_touched [OF Cons.prems(1) r(2)]) (use c in simp)
  obtain rs v where rs: "collect_m hs (check_backup env b3 source) u = (Inr rs, v)" "dirs_ready (w_fs v) all"
    "spares hs u v" "list_all2 (mended b3 source u v) hs rs"
    using Cons.IH [OF ready inspected_Cons [OF Cons.prems(2)]] by blast
  have keeps_src: "file_bytes (w_fs u) s = file_bytes (w_fs w) s" if here: "source = Some (i, s)" for i s
  proof (cases "is_healthy h")
    case True
    then show ?thesis using r(3) by simp
  next
    case False
    then have i: "i \<noteq> bk_id ?c" using Cons.prems(2) here by (simp add: inspected_def)
    obtain d where d: "d \<in> set all" "s = backup_file_path d" "target (w_fs w) s = Some (backup_key d)" "\<not> below (dir_key ?c) (backup_key d)"
      by (rule source_dir [OF Cons.prems(2) [unfolded here] Cons.prems(1) i])
    have "target (w_fs u) s = Some (backup_key d)" using ready_target [OF ready d(1)] d(2) by simp
    then show ?thesis using d(3) touched_node [OF r(2) d(4)] by (simp add: file_bytes_def)
  qed
  have kept: "fs_nodes (w_fs v) (backup_key ?c) = fs_nodes (w_fs u) (backup_key ?c)"
  proof (rule spares_at [OF rs(3)])
    fix g assume "g \<in> set hs"
    then have "bh_config g \<in> set all" "bh_config g \<noteq> ?c" using Cons.prems(2) by (auto simp: inspected_def image_iff)
    then show "\<not> below (dir_key (bh_config g)) (backup_key ?c)"
      using other_dir [of all "bh_config g" ?c] Cons.prems(1) c by (simp add: backup_key_below dirs_ready_def)
  qed
  have tail: "list_all2 (mended b3 source w v) hs rs"
    by (rule list_all2_mono [OF rs(4)]) (erule mended_start, rule keeps_src)
  have "collect_m (h # hs) (check_backup env b3 source) w = (Inr (r # rs), v)" by (simp add: bind_m_def r(1) rs(1))
  then show ?case using spares_Cons [OF r(2,3) rs(3)] mended_end [OF r(4) kept] tail rs(2)
    by (intro exI [of _ "r # rs"] exI [of _ v]) simp
qed

text \<open>The inspection finds out which backups are sound and changes nothing.\<close>

definition seen :: "backup_env \<Rightarrow> world \<Rightarrow> db_backup_config \<Rightarrow> backup_health \<Rightarrow> bool" where
  "seen env w c h = (bh_config h = c \<and> bh_path h = backup_file_path c
     \<and> (is_healthy h \<longleftrightarrow> (\<exists>x. sound_backup env (w_fs w) (backup_file_path c) x)))"

lemma inspections:
  assumes "streaming_hash b3"
  shows "\<exists>hs. collect_m cs (inspect_backup env b3) w = (Inr hs, w) \<and> list_all2 (seen env w) cs hs"
proof (induction cs)
  case Nil
  then show ?case by simp
next
  case (Cons c cs)
  then obtain hs where hs: "collect_m cs (inspect_backup env b3) w = (Inr hs, w)" "list_all2 (seen env w) cs hs" by blast
  obtain h where h: "inspect_backup env b3 c w = (Inr h, w)" "seen env w c h"
    using inspect_iff [OF assms, of env c w] unfolding seen_def by blast
  have "collect_m (c # cs) (inspect_backup env b3) w = (Inr (h # hs), w)" by (simp add: bind_m_def h(1) hs(1))
  then show ?case using h(2) hs(2) by (intro exI [of _ "h # hs"]) simp
qed

lemma seen_configs: "list_all2 (seen env w) cs hs \<Longrightarrow> map bh_config hs = cs"
  by (induction rule: list_all2_induct) (simp_all add: seen_def)

lemma seen_member: "list_all2 (seen env w) cs hs \<Longrightarrow> h \<in> set hs \<Longrightarrow> seen env w (bh_config h) h"
  by (induction rule: list_all2_induct) (auto simp: seen_def)

lemma repair_source_healthy:
  assumes "repair_source hs = Some (i, s)"
  shows "\<exists>h \<in> set hs. is_healthy h \<and> i = bk_id (bh_config h) \<and> s = bh_path h"
proof -
  have "\<exists>h. h \<in> set hs \<and> is_healthy h \<and> (bk_id (bh_config h), bh_path h) = (i, s)"
    using assms by (cases hs) (auto simp: repair_source_def Let_def find_Some_iff split: if_splits dest: nth_mem)
  then show ?thesis by auto
qed

lemma inspected_run:
  assumes "list_all2 (seen env w) cs hs" "distinct (map bk_id cs)"
  shows "inspected cs (repair_source hs) hs"
proof -
  note configs = seen_configs [OF assms(1)]
  have path: "bh_path h = backup_file_path (bh_config h)" if "h \<in> set hs" for h
    using seen_member [OF assms(1) that] by (simp add: seen_def)
  have dist: "distinct cs" using assms(2) by (simp add: distinct_map)
  have ids: "distinct (map (\<lambda>h. bk_id (bh_config h)) hs)" using assms(2) by (simp add: configs [symmetric] comp_def)
  have other: "i \<noteq> bk_id (bh_config h)" if h: "repair_source hs = Some (i, s)" "h \<in> set hs" "\<not> is_healthy h" for i s h
  proof -
    obtain g where g: "g \<in> set hs" "is_healthy g" "i = bk_id (bh_config g)" using repair_source_healthy [OF h(1)] by blast
    then have "g \<noteq> h" using h(3) by blast
    then show ?thesis using ids g(1,3) h(2) by (auto simp: distinct_map dest: inj_onD)
  qed
  have from_all: "\<exists>c \<in> set cs. s = backup_file_path c \<and> i = bk_id c" if src: "repair_source hs = Some (i, s)" for i s
  proof -
    obtain h where h: "h \<in> set hs" "i = bk_id (bh_config h)" "s = bh_path h" using repair_source_healthy [OF src] by blast
    then show ?thesis using path [OF h(1)] by (intro bexI [of _ "bh_config h"]) (auto simp: configs [symmetric])
  qed
  show ?thesis using path dist other from_all unfolding inspected_def configs by blast
qed

definition checked_backup :: "backup_env \<Rightarrow> digest \<Rightarrow> db_backup_config list \<Rightarrow> world \<Rightarrow> world \<Rightarrow> db_backup_config \<Rightarrow> backup_integrity_result \<Rightarrow> bool" where
  "checked_backup env b3 cs w v c r = (bi_backup_config_id r = bk_id c
     \<and> (\<forall>x. sound_backup env (w_fs w) (backup_file_path c) x \<longrightarrow> file_bytes (w_fs v) (backup_file_path c) = Some x)
     \<and> (\<forall>j. repaired_from r j \<longrightarrow> \<not> (\<exists>x. sound_backup env (w_fs w) (backup_file_path c) x)
         \<and> (\<exists>d \<in> set cs. bk_id d = j \<and> (\<exists>x. sound_backup env (w_fs w) (backup_file_path d) x
              \<and> file_bytes (w_fs v) (backup_file_path c) = Some x \<and> bi_checksum r = Some (b3 [x])))))"

lemma checked_one:
  assumes ready: "dirs_ready (w_fs w) cs" "dirs_ready (w_fs v) cs" and hs: "list_all2 (seen env w) cs hs"
    and h: "h \<in> set hs" and sp: "spares hs w v" and r: "mended b3 (repair_source hs) w v h r"
  shows "checked_backup env b3 cs w v (bh_config h) r"
proof -
  let ?c = "bh_config h"
  note configs = seen_configs [OF hs]
  have member: "bh_config g \<in> set cs" if "g \<in> set hs" for g using that by (auto simp: configs [symmetric])
  note sees = seen_member [OF hs h]
  have keeps: "file_bytes (w_fs v) (backup_file_path ?c) = Some x" if x: "sound_backup env (w_fs w) (backup_file_path ?c) x" for x
  proof -
    have ok: "is_healthy h" using sees x by (auto simp: seen_def)
    have "fs_nodes (w_fs v) (backup_key ?c) = fs_nodes (w_fs w) (backup_key ?c)"
    proof (rule spares_at [OF sp])
      fix g assume g: "g \<in> set hs" "\<not> is_healthy g"
      then have "bh_config g \<noteq> ?c" using ok seen_member [OF hs g(1)] sees by (auto simp: seen_def)
      then show "\<not> below (dir_key (bh_config g)) (backup_key ?c)"
        using other_dir [OF _ member [OF g(1)] member [OF h]] ready(1) by (simp add: backup_key_below dirs_ready_def)
    qed
    moreover have "file_bytes (w_fs w) (backup_file_path ?c) = Some x" using readable_sound [OF x] by simp
    ultimately show ?thesis using ready_target [OF ready(1) member [OF h]] ready_target [OF ready(2) member [OF h]]
      by (simp add: file_bytes_def)
  qed
  have mends: "\<not> (\<exists>x. sound_backup env (w_fs w) (backup_file_path ?c) x) \<and> (\<exists>d \<in> set cs. bk_id d = j
      \<and> (\<exists>x. sound_backup env (w_fs w) (backup_file_path d) x
         \<and> file_bytes (w_fs v) (backup_file_path ?c) = Some x \<and> bi_checksum r = Some (b3 [x])))" if j: "repaired_from r j" for j
  proof -
    obtain s b m where b: "\<not> is_healthy h" "repair_source hs = Some (j, s)" "file_bytes (w_fs w) s = Some b"
      "fs_nodes (w_fs v) (backup_key ?c) = Some (RegFile b m)" "bi_checksum r = Some (b3 [b])" using r j unfolding mended_def by blast
    obtain g where g: "g \<in> set hs" "is_healthy g" "j = bk_id (bh_config g)" "s = bh_path g" using repair_source_healthy [OF b(2)] by blast
    then obtain x where x: "sound_backup env (w_fs w) (backup_file_path (bh_config g)) x" "s = backup_file_path (bh_config g)"
      using seen_member [OF hs g(1)] by (auto simp: seen_def)
    then have "x = b" using readable_sound [OF x(1)] b(3) by simp
    moreover have "file_bytes (w_fs v) (backup_file_path ?c) = Some b"
      using ready_target [OF ready(2) member [OF h]] b(4) by (simp add: file_bytes_def)
    ultimately show ?thesis using sees b(1,5) x(1) member [OF g(1)] g(3) by (auto simp: seen_def)
  qed
  show ?thesis unfolding checked_backup_def using r keeps mends by (simp add: mended_def)
qed

lemma mark_run_fs: "\<exists>v. seq_m (discard mark_db_backup_settings_integrity_run) (return_m rs) w = (Inr rs, v) \<and> w_fs v = w_fs w"
  by (simp add: mark_db_backup_settings_integrity_run_def update_backup_options_def modify_m_def)


text \<open>The witness has two destinations; SQLite accepts the bytes in \<open>/a\<close> and not those in \<open>/b\<close>.\<close>

definition sample_backup_env :: backup_env where
  "sample_backup_env = \<lparr>be_integrity_check = (\<lambda>c. if c = [1] then Inr [''ok''] else Inr [''malformed'']),
     be_online_backup = (\<lambda>_ _. Inr [1]), be_temp_dir = (\<lambda>_. ''/t''), be_stamp = (\<lambda>_. ''1''), be_stamp_secs = (\<lambda>_. ''1''), be_cwd = [''/'']\<rparr>"

definition destination :: "int \<Rightarrow> string \<Rightarrow> db_backup_config" where
  "destination i dir = \<lparr>bk_id = i, bk_backup_path = dir, bk_drive_label = None, bk_priority = i, bk_enabled = True, bk_last_backup = None,
     bk_last_integrity_check = None, bk_last_integrity_status = None, bk_last_error = None, bk_created_at = 0\<rparr>"

definition two_backups :: world where
  "two_backups = (let b = blank_world (empty_db\<lparr>db_backups := [destination 1 ''/a'', destination 2 ''/b'']\<rparr>) in
     b\<lparr>w_fs := (w_fs b)\<lparr>fs_nodes := (\<lambda>k.
     if k \<in> {[''/''], [''/'', ''a''], [''/'', ''b'']} then Some Directory
     else if k = [''/'', ''a'', backup_filename] then Some (RegFile [1] 420)
     else if k = [''/'', ''b'', backup_filename] then Some (RegFile [2] 420)
     else None)\<rparr>\<rparr>)"

lemma sample_keys: "path_key ''/a'' = [''/'', ''a'']" "path_key ''/b'' = [''/'', ''b'']"
  by (simp_all add: path_key_def is_absolute_def)

lemma sample_flat: "flat [''/'', ''a''] (w_fs two_backups)" "flat [''/'', ''b''] (w_fs two_backups)"
  by (auto simp: flat_def below_def two_backups_def blank_world_def Let_def split: option.splits node.splits)

lemma sample_dirs:
  assumes "0 < i" "i \<le> Suc (Suc 0)"
  shows "fs_nodes (w_fs two_backups) (take i [''/'', ''a'']) = Some Directory" "fs_nodes (w_fs two_backups) (take i [''/'', ''b'']) = Some Directory"
  using assms by (cases i; cases "i - 1"; simp add: two_backups_def blank_world_def Let_def)+

lemma backups_ready: "dirs_ready (w_fs two_backups) [destination 1 ''/a'', destination 2 ''/b'']"
  using sample_flat sample_dirs by (simp add: dirs_ready_def usable_dir_def dir_key_def destination_def sample_keys is_absolute_def)

lemma sample_sound: "sound_backup sample_backup_env (w_fs two_backups) ''/a/bitprotector.db'' [1]"
  by (simp add: sound_backup_def path_is_file_def metadata_def readable_bytes_def target_def follow.simps path_key_def is_absolute_def
      two_backups_def blank_world_def Let_def backup_filename_def sample_backup_env_def)


end
