(* ===== verification/Scheduler.thy ===== *)
theory Scheduler
  imports Backup Integrity_Runs
begin

section \<open>The scheduler\<close>

text \<open>
  \<open>core/scheduler.rs\<close>. A scheduler owns one thread for every enabled schedule and for each of the two database-backup tasks; a thread
  watches a stop flag of its own. The flags are a store, since thread and scheduler share them: the flag of a thread is its address, and
  the flag says whether the thread was told to stop. The crate \<open>cron\<close> is the parameter \<open>upcoming\<close>: the next occurrence of a seven-field
  expression after a time in milliseconds, none, or an error.
\<close>

subsection \<open>Tasks\<close>

datatype task_type = SyncTask | IntegrityCheckTask

definition task_type_str :: "task_type \<Rightarrow> string" where
  "task_type_str t = (case t of SyncTask \<Rightarrow> ''sync'' | IntegrityCheckTask \<Rightarrow> ''integrity_check'')"

text \<open>What a task needs of its surroundings: fuel and schedules of the loops, hashing, memory, the turns of other threads.\<close>

record task_env =
  te_fuel :: nat
  te_digest :: digest
  te_picks :: "nat \<Rightarrow> nat \<Rightarrow> nat"
  te_meminfo :: "string option"
  te_pool_ok :: "nat \<Rightarrow> bool"
  te_others :: "nat \<Rightarrow> world \<Rightarrow> world"

definition run_task :: "task_env \<Rightarrow> task_type \<Rightarrow> int option \<Rightarrow> checksum_config \<Rightarrow> bool \<Rightarrow> world \<Rightarrow> ((err + 32 word) \<times> world) option" where
  "run_task te task stop_by cfg has_bus w = (case task of
       SyncTask \<Rightarrow> map_option (\<lambda>(r, v). (map_sum id of_nat r, v))
         (process_all_pending (te_fuel te) (te_digest te) (te_picks te) stop_by has_bus w)
     | IntegrityCheckTask \<Rightarrow> map_option (\<lambda>(r, v). (map_sum id (\<lambda>run. word_of_int (ir_attention_files run)) r, v))
         (run_sync (te_fuel te) (te_digest te) (te_meminfo te) (te_pool_ok te) (te_others te) None False ''scheduler'' stop_by cfg w))"

type_synonym upcoming = "string \<Rightarrow> int \<Rightarrow> err + int option"

text \<open>The clock is read twice, for the occurrence and for the difference.\<close>

definition next_cron_sleep_ms :: "upcoming \<Rightarrow> string \<Rightarrow> int \<Rightarrow> int \<Rightarrow> err + 64 word" where
  "next_cron_sleep_ms upcoming expr now now' = (case upcoming (fmt [''0 '', expr, '' *'']) now of
       Inl e \<Rightarrow> Inl (Bail (fmt [''Invalid cron expression '', expr, '': '', err_to_string e]))
     | Inr None \<Rightarrow> Inl (Bail (fmt [''No upcoming occurrence for cron '', expr]))
     | Inr (Some t) \<Rightarrow> Inr (word_of_int (max (t - now') 0)))"

subsection \<open>One turn of a schedule's thread\<close>

text \<open>The product wraps at 64 bits, as in a release build.\<close>

definition schedule_sleep_ms :: "upcoming \<Rightarrow> schedule_config \<Rightarrow> int \<Rightarrow> int \<Rightarrow> 64 word" where
  "schedule_sleep_ms upcoming c now now' = (case sc_cron_expr c of
       Some expr \<Rightarrow> (case next_cron_sleep_ms upcoming expr now now' of Inr ms \<Rightarrow> ms | Inl _ \<Rightarrow> 3600000)
     | None \<Rightarrow> word_of_int (case sc_interval_seconds c of None \<Rightarrow> 3600 | Some i \<Rightarrow> i) * 1000)"

definition sleep_steps :: "64 word \<Rightarrow> nat" where
  "sleep_steps ms = max (unat (ms div 100)) 1"

definition schedule_task :: "schedule_config \<Rightarrow> task_type" where
  "schedule_task c = (if sc_task_type c = ''integrity_check'' then IntegrityCheckTask else SyncTask)"

text \<open>
  The largest instant: a sum beyond it panics, and the thread is gone. \<open>told\<close> says at which of the loads of a turn the stop flag is found set;
  the last one comes after the sleep.
\<close>

datatype turn_end = ThreadStopped | ThreadPanicked | TurnDone

definition max_instant :: int where
  "max_instant = (2 ^ 63 - 1) * 1000000000 + 999999999"

definition turn_deadline :: "schedule_config \<Rightarrow> int \<Rightarrow> int option option" where
  "turn_deadline c now = (case sc_max_duration_seconds c of
       None \<Rightarrow> Some None
     | Some s \<Rightarrow> (let t = now + uint (word_of_int s :: 64 word) * 1000000000 in
         if max_instant < t then None else Some (Some t)))"

definition schedule_turn ::
    "task_env \<Rightarrow> upcoming \<Rightarrow> checksum_config \<Rightarrow> bool \<Rightarrow> schedule_config \<Rightarrow> (nat \<Rightarrow> bool) \<Rightarrow> int \<Rightarrow> int \<Rightarrow> world
      \<Rightarrow> (turn_end \<times> world) option" where
  "schedule_turn te upcoming cfg has_bus c told now now' w =
     (if \<exists>n \<in> {0..sleep_steps (schedule_sleep_ms upcoming c now now')}. told n then Some (ThreadStopped, w)
      else if sc_max_duration_seconds c = None
      then map_option (\<lambda>(_, v). (TurnDone, snd (update_schedule_last_run (sc_id c) v)))
             (run_task te (schedule_task c) None cfg has_bus w)
      else (case instant_now w of
          (Inl _, v) \<Rightarrow> Some (ThreadPanicked, v)
        | (Inr at, v) \<Rightarrow> (case turn_deadline c at of
            None \<Rightarrow> Some (ThreadPanicked, v)
          | Some stop_by \<Rightarrow> map_option (\<lambda>(_, u). (TurnDone, snd (update_schedule_last_run (sc_id c) u)))
              (run_task te (schedule_task c) stop_by cfg has_bus v))))"

text \<open>One turn of a backup thread.\<close>

definition backup_sleep_steps :: "int \<Rightarrow> nat" where
  "backup_sleep_steps interval_seconds = max (unat (word_of_int (max interval_seconds 1) * 1000 div 100 :: 64 word)) 1"

definition backup_turn :: "backup_env \<Rightarrow> digest \<Rightarrow> string \<Rightarrow> int \<Rightarrow> bool \<Rightarrow> (nat \<Rightarrow> bool) \<Rightarrow> world \<Rightarrow> turn_end \<times> world" where
  "backup_turn env b3 db_path interval_seconds integrity_only told w =
     (if \<exists>n \<in> {0..backup_sleep_steps interval_seconds}. told n then (ThreadStopped, w)
      else (TurnDone, if integrity_only then snd (run_backup_integrity_check env b3 w) else snd (run_all_backups env b3 db_path w)))"

subsection \<open>The threads of a scheduler\<close>

datatype thread_job =
    ScheduleJob schedule_config
  | BackupJob string int bool

record scheduler =
  sch_db_path :: "string option"
  sch_threads :: "(int \<times> nat) list"
  sch_backup_threads :: "(string \<times> nat) list"
  sch_flags :: "bool list"
  sch_spawned :: "thread_job list"

definition new_scheduler :: "string option \<Rightarrow> scheduler" where
  "new_scheduler db_path =
     \<lparr>sch_db_path = db_path, sch_threads = [], sch_backup_threads = [], sch_flags = [], sch_spawned = []\<rparr>"

text \<open>A thread and its flag have the same number: that of the threads spawned before.\<close>

definition spawn_thread :: "thread_job \<Rightarrow> scheduler \<Rightarrow> scheduler" where
  "spawn_thread job s = s\<lparr>sch_flags := sch_flags s @ [False], sch_spawned := sch_spawned s @ [job]\<rparr>"

definition set_stop :: "nat \<Rightarrow> scheduler \<Rightarrow> scheduler" where
  "set_stop a s = s\<lparr>sch_flags := (sch_flags s)[a := True]\<rparr>"

definition start_thread :: "schedule_config \<Rightarrow> scheduler \<Rightarrow> scheduler" where
  "start_thread c s = (let a = length (sch_flags s); s' = spawn_thread (ScheduleJob c) s in
     s'\<lparr>sch_threads := (sc_id c, a) # filter (\<lambda>x. fst x \<noteq> sc_id c) (sch_threads s)\<rparr>)"

definition start_database_backup_thread :: "string \<Rightarrow> int \<Rightarrow> bool \<Rightarrow> scheduler \<Rightarrow> scheduler" where
  "start_database_backup_thread k interval integrity_only s =
     (let a = length (sch_flags s); s' = spawn_thread (BackupJob k interval integrity_only) s in
      s'\<lparr>sch_backup_threads := (k, a) # filter (\<lambda>x. fst x \<noteq> k) (sch_backup_threads s)\<rparr>)"

definition stop_database_backup_threads :: "scheduler \<Rightarrow> scheduler" where
  "stop_database_backup_threads s = (fold set_stop (map snd (sch_backup_threads s)) s)\<lparr>sch_backup_threads := []\<rparr>"

definition reload_database_backup_threads :: "db_backup_settings \<Rightarrow> scheduler \<Rightarrow> scheduler" where
  "reload_database_backup_threads options s =
     (let s1 = stop_database_backup_threads s in
      case sch_db_path s1 of
        None \<Rightarrow> s1
      | Some _ \<Rightarrow>
         (let s2 = (if bs_backup_enabled options
                    then start_database_backup_thread ''database_backup'' (bs_backup_interval_seconds options) False s1 else s1) in
          if bs_integrity_enabled options
          then start_database_backup_thread ''database_backup_integrity'' (bs_integrity_interval_seconds options) True s2 else s2))"

definition stop_thread :: "int \<Rightarrow> scheduler \<Rightarrow> scheduler" where
  "stop_thread i s = (case map_of (sch_threads s) i of
       None \<Rightarrow> s
     | Some a \<Rightarrow> set_stop a (s\<lparr>sch_threads := filter (\<lambda>x. fst x \<noteq> i) (sch_threads s)\<rparr>))"

definition ensure_thread :: "schedule_config \<Rightarrow> scheduler \<Rightarrow> scheduler" where
  "ensure_thread c s = (if map_of (sch_threads s) (sc_id c) = None then start_thread c s else s)"

definition reload :: "scheduler \<Rightarrow> world \<Rightarrow> (err + scheduler) \<times> world" where
  "reload s = bind_m list_schedule_configs (\<lambda>configs.
     let ids_to_stop = filter (\<lambda>i. \<not> (\<exists>c \<in> set configs. sc_id c = i \<and> sc_enabled c)) (map fst (sch_threads s));
         s1 = fold stop_thread ids_to_stop s;
         s2 = fold ensure_thread (filter sc_enabled configs) s1 in
     bind_m get_db_backup_settings (\<lambda>options. return_m (reload_database_backup_threads options s2)))"

definition stop_all :: "scheduler \<Rightarrow> scheduler" where
  "stop_all s = stop_database_backup_threads ((fold set_stop (map snd (sch_threads s)) s)\<lparr>sch_threads := []\<rparr>)"

subsection \<open>No thread is lost\<close>

text \<open>The threads that were not told to stop.\<close>

definition live :: "scheduler \<Rightarrow> nat set" where
  "live s = {a. a < length (sch_flags s) \<and> \<not> sch_flags s ! a}"

text \<open>
  Every live thread is registered under its key, every registered thread is live, and the keys are those of the jobs.
\<close>

definition schedule_at :: "scheduler \<Rightarrow> int \<Rightarrow> nat \<Rightarrow> bool" where
  "schedule_at s i a = (\<exists>c. sch_spawned s ! a = ScheduleJob c \<and> sc_id c = i)"

definition backup_at :: "scheduler \<Rightarrow> string \<Rightarrow> nat \<Rightarrow> bool" where
  "backup_at s k a = (\<exists>n b. sch_spawned s ! a = BackupJob k n b)"

definition registered :: "scheduler \<Rightarrow> bool" where
  "registered s = (length (sch_flags s) = length (sch_spawned s)
     \<and> distinct (map fst (sch_threads s)) \<and> distinct (map fst (sch_backup_threads s))
     \<and> live s = snd ` set (sch_threads s) \<union> snd ` set (sch_backup_threads s)
     \<and> (\<forall>(i, a) \<in> set (sch_threads s). schedule_at s i a)
     \<and> (\<forall>(k, a) \<in> set (sch_backup_threads s). backup_at s k a))"

lemma schedule_at_unique: "schedule_at s i a \<Longrightarrow> schedule_at s j a \<Longrightarrow> i = j"
  by (auto simp: schedule_at_def)

lemma backup_at_unique: "backup_at s i a \<Longrightarrow> backup_at s j a \<Longrightarrow> i = j"
  by (auto simp: backup_at_def)

lemma not_both_jobs: "schedule_at s i a \<Longrightarrow> \<not> backup_at s k a"
  by (auto simp: schedule_at_def backup_at_def)

lemma registeredD:
  assumes "registered s"
  shows "length (sch_flags s) = length (sch_spawned s)" "distinct (map fst (sch_threads s))" "distinct (map fst (sch_backup_threads s))"
    "live s = snd ` set (sch_threads s) \<union> snd ` set (sch_backup_threads s)"
    "(i, a) \<in> set (sch_threads s) \<Longrightarrow> schedule_at s i a" "(k, a) \<in> set (sch_backup_threads s) \<Longrightarrow> backup_at s k a"
    "(i, a) \<in> set (sch_threads s) \<Longrightarrow> a < length (sch_flags s)" "(k, a) \<in> set (sch_backup_threads s) \<Longrightarrow> a < length (sch_flags s)"
proof -
  show l: "live s = snd ` set (sch_threads s) \<union> snd ` set (sch_backup_threads s)" using assms by (simp add: registered_def)
  show "(i, a) \<in> set (sch_threads s) \<Longrightarrow> a < length (sch_flags s)" "(k, a) \<in> set (sch_backup_threads s) \<Longrightarrow> a < length (sch_flags s)"
    using l by (force simp: live_def)+
qed (use assms in \<open>auto simp: registered_def\<close>)

subsubsection \<open>Starting\<close>

lemma spawn_at:
  assumes "a < length (sch_spawned s)"
  shows "schedule_at (spawn_thread j s) i a = schedule_at s i a" "backup_at (spawn_thread j s) k a = backup_at s k a"
  using assms by (simp_all add: schedule_at_def backup_at_def spawn_thread_def nth_append)

lemma spawn_fields:
  "length (sch_flags (spawn_thread j s)) = Suc (length (sch_flags s))"
  "length (sch_spawned (spawn_thread j s)) = Suc (length (sch_spawned s))"
  "sch_threads (spawn_thread j s) = sch_threads s" "sch_backup_threads (spawn_thread j s) = sch_backup_threads s"
  by (simp_all add: spawn_thread_def)

lemma live_spawn: "live (spawn_thread j s) = insert (length (sch_flags s)) (live s)"
  by (auto simp: live_def spawn_thread_def nth_append less_Suc_eq)

lemma start_thread_registered:
  assumes "registered s" "map_of (sch_threads s) (sc_id c) = None"
  shows "registered (start_thread c s)" "set (sch_threads (start_thread c s)) = insert (sc_id c, length (sch_flags s)) (set (sch_threads s))"
    "sch_backup_threads (start_thread c s) = sch_backup_threads s" "sch_db_path (start_thread c s) = sch_db_path s"
proof -
  note r = registeredD [OF assms(1)]
  have new: "sc_id c \<notin> fst ` set (sch_threads s)" using assms(2) by (auto simp: map_of_eq_None_iff)
  then have keep: "filter (\<lambda>x. fst x \<noteq> sc_id c) (sch_threads s) = sch_threads s"
    by (intro filter_True) force
  have s': "start_thread c s = (spawn_thread (ScheduleJob c) s)\<lparr>sch_threads := (sc_id c, length (sch_flags s)) # sch_threads s\<rparr>"
    by (simp add: start_thread_def Let_def keep)
  show "set (sch_threads (start_thread c s)) = insert (sc_id c, length (sch_flags s)) (set (sch_threads s))"
    "sch_backup_threads (start_thread c s) = sch_backup_threads s" "sch_db_path (start_thread c s) = sch_db_path s"
    by (simp_all add: s' spawn_thread_def)
  have at: "schedule_at (start_thread c s) i a = schedule_at (spawn_thread (ScheduleJob c) s) i a"
    "backup_at (start_thread c s) k a = backup_at (spawn_thread (ScheduleJob c) s) k a" for i k a
    by (simp_all add: s' schedule_at_def backup_at_def)
  have "schedule_at (spawn_thread (ScheduleJob c) s) (sc_id c) (length (sch_flags s))"
    using r(1) by (simp add: schedule_at_def spawn_thread_def)
  moreover have "live (start_thread c s) = insert (length (sch_flags s)) (live s)"
    using live_spawn [of "ScheduleJob c" s] by (simp add: s' live_def)
  ultimately show "registered (start_thread c s)"
    using r new unfolding registered_def at by (auto simp: s' spawn_at spawn_fields image_iff)
qed

lemma start_backup_registered:
  fixes n :: int and b :: bool
  assumes "registered s" "k \<notin> fst ` set (sch_backup_threads s)"
  defines "s' \<equiv> start_database_backup_thread k n b s"
  shows "registered s'" "set (sch_backup_threads s') = insert (k, length (sch_flags s)) (set (sch_backup_threads s))"
    "sch_threads s' = sch_threads s" "sch_db_path s' = sch_db_path s" "sch_spawned s' = sch_spawned s @ [BackupJob k n b]"
proof -
  note r = registeredD [OF assms(1)]
  have keep: "filter (\<lambda>x. fst x \<noteq> k) (sch_backup_threads s) = sch_backup_threads s"
    by (rule filter_True) (use assms(2) in auto)
  have s': "s' = (spawn_thread (BackupJob k n b) s)\<lparr>sch_backup_threads := (k, length (sch_flags s)) # sch_backup_threads s\<rparr>"
    by (simp add: s'_def start_database_backup_thread_def Let_def keep)
  show "set (sch_backup_threads s') = insert (k, length (sch_flags s)) (set (sch_backup_threads s))"
    "sch_threads s' = sch_threads s" "sch_db_path s' = sch_db_path s" "sch_spawned s' = sch_spawned s @ [BackupJob k n b]"
    by (simp_all add: s' spawn_thread_def)
  have at: "schedule_at s' i a = schedule_at (spawn_thread (BackupJob k n b) s) i a"
    "backup_at s' k' a = backup_at (spawn_thread (BackupJob k n b) s) k' a" for i k' a
    by (simp_all add: s' schedule_at_def backup_at_def)
  have "backup_at (spawn_thread (BackupJob k n b) s) k (length (sch_flags s))"
    using r(1) by (simp add: backup_at_def spawn_thread_def)
  moreover have "live s' = insert (length (sch_flags s)) (live s)"
    using live_spawn [of "BackupJob k n b" s] by (simp add: s' live_def)
  ultimately show "registered s'"
    using r assms(2) unfolding registered_def at by (auto simp: s' spawn_at spawn_fields image_iff)
qed

subsubsection \<open>Stopping\<close>

lemma stop_all_flags:
  "live (fold set_stop as s) = live s - set as" "sch_spawned (fold set_stop as s) = sch_spawned s"
  "sch_threads (fold set_stop as s) = sch_threads s" "sch_backup_threads (fold set_stop as s) = sch_backup_threads s"
  "sch_db_path (fold set_stop as s) = sch_db_path s" "length (sch_flags (fold set_stop as s)) = length (sch_flags s)"
proof -
  have one: "live (set_stop a s) = live s - {a}" for a s
  proof -
    have "x < length (sch_flags s) \<Longrightarrow> (sch_flags s)[a := True] ! x = (a = x \<or> sch_flags s ! x)" for x
      by (cases "a = x") simp_all
    then show ?thesis by (auto simp: live_def set_stop_def)
  qed
  show "live (fold set_stop as s) = live s - set as" by (induction as arbitrary: s) (auto simp: one)
  show "sch_spawned (fold set_stop as s) = sch_spawned s" "sch_threads (fold set_stop as s) = sch_threads s"
    "sch_backup_threads (fold set_stop as s) = sch_backup_threads s" "sch_db_path (fold set_stop as s) = sch_db_path s"
    "length (sch_flags (fold set_stop as s)) = length (sch_flags s)"
    by (induction as arbitrary: s) (simp_all add: set_stop_def)
qed

lemma live_update [simp]: "live (s\<lparr>sch_threads := x\<rparr>) = live s" "live (s\<lparr>sch_backup_threads := y\<rparr>) = live s"
  by (simp_all add: live_def)

lemma at_spawned: "sch_spawned s' = sch_spawned s \<Longrightarrow> schedule_at s' = schedule_at s \<and> backup_at s' = backup_at s"
  by (intro conjI ext) (simp_all add: schedule_at_def backup_at_def)

lemma stop_backups_registered:
  assumes "registered s"
  shows "registered (stop_database_backup_threads s)" "sch_backup_threads (stop_database_backup_threads s) = []"
    "sch_threads (stop_database_backup_threads s) = sch_threads s" "sch_db_path (stop_database_backup_threads s) = sch_db_path s"
proof -
  note r = registeredD [OF assms]
  have at: "schedule_at (stop_database_backup_threads s) = schedule_at s" "backup_at (stop_database_backup_threads s) = backup_at s"
    using at_spawned [of "stop_database_backup_threads s" s] by (simp_all add: stop_database_backup_threads_def stop_all_flags)
  have "snd ` set (sch_threads s) \<inter> snd ` set (sch_backup_threads s) = {}" using r(5,6) not_both_jobs by fastforce
  then show "registered (stop_database_backup_threads s)"
    using r unfolding registered_def at by (auto simp: stop_database_backup_threads_def stop_all_flags)
qed (simp_all add: stop_database_backup_threads_def stop_all_flags)

lemma stop_thread_registered:
  assumes "registered s"
  shows "registered (stop_thread i s)" "set (sch_threads (stop_thread i s)) = {x \<in> set (sch_threads s). fst x \<noteq> i}"
    "sch_backup_threads (stop_thread i s) = sch_backup_threads s" "sch_db_path (stop_thread i s) = sch_db_path s"
proof -
  note r = registeredD [OF assms]
  have "registered (stop_thread i s) \<and> set (sch_threads (stop_thread i s)) = {x \<in> set (sch_threads s). fst x \<noteq> i}
    \<and> sch_backup_threads (stop_thread i s) = sch_backup_threads s \<and> sch_db_path (stop_thread i s) = sch_db_path s"
  proof (cases "map_of (sch_threads s) i")
    case None
    then have "i \<notin> fst ` set (sch_threads s)" by (simp add: map_of_eq_None_iff)
    then show ?thesis using assms None by (auto simp: stop_thread_def)
  next
    case (Some a)
    then have a: "(i, a) \<in> set (sch_threads s)" by (rule map_of_SomeD)
    let ?s = "s\<lparr>sch_threads := filter (\<lambda>x. fst x \<noteq> i) (sch_threads s)\<rparr>"
    have st: "stop_thread i s = set_stop a ?s" using Some by (simp add: stop_thread_def)
    have at: "schedule_at (stop_thread i s) = schedule_at s" "backup_at (stop_thread i s) = backup_at s"
      using at_spawned [of "stop_thread i s" s] by (simp_all add: st set_stop_def)
    have live: "live (stop_thread i s) = live s - {a}" using stop_all_flags(1) [of "[a]" ?s] by (simp add: st)
    have iff: "b = a \<longleftrightarrow> j = i" if "(j, b) \<in> set (sch_threads s)" for j b
      using r(2) r(5) [OF a] r(5) [OF that] a that schedule_at_unique by (metis eq_key_imp_eq_value)
    have free: "(k, a) \<notin> set (sch_backup_threads s)" for k using r(5) [OF a] r(6) not_both_jobs by blast
    have "live s - {a} = snd ` set (filter (\<lambda>x. fst x \<noteq> i) (sch_threads s)) \<union> snd ` set (sch_backup_threads s)"
    proof (intro set_eqI iffI)
      fix b assume "b \<in> live s - {a}"
      then consider (sched) j where "(j, b) \<in> set (sch_threads s)" "b \<noteq> a" | (bak) k where "(k, b) \<in> set (sch_backup_threads s)"
        unfolding r(4) by auto
      then show "b \<in> snd ` set (filter (\<lambda>x. fst x \<noteq> i) (sch_threads s)) \<union> snd ` set (sch_backup_threads s)"
        by cases (use iff in \<open>force\<close>)+
    next
      fix b assume "b \<in> snd ` set (filter (\<lambda>x. fst x \<noteq> i) (sch_threads s)) \<union> snd ` set (sch_backup_threads s)"
      then consider (sched) j where "(j, b) \<in> set (sch_threads s)" "j \<noteq> i" | (bak) k where "(k, b) \<in> set (sch_backup_threads s)"
        by auto
      then show "b \<in> live s - {a}" unfolding r(4) by cases (use iff free in \<open>force\<close>)+
    qed
    then show ?thesis using r(1-3,5,6) unfolding registered_def at live
      by (auto simp: st set_stop_def distinct_map_filter)
  qed
  then show "registered (stop_thread i s)" "set (sch_threads (stop_thread i s)) = {x \<in> set (sch_threads s). fst x \<noteq> i}"
    "sch_backup_threads (stop_thread i s) = sch_backup_threads s" "sch_db_path (stop_thread i s) = sch_db_path s" by blast+
qed

subsubsection \<open>Reloading\<close>

lemma stop_threads_registered:
  "registered s \<Longrightarrow> registered (fold stop_thread is s) \<and> set (sch_threads (fold stop_thread is s)) = {x \<in> set (sch_threads s). fst x \<notin> set is}
    \<and> sch_db_path (fold stop_thread is s) = sch_db_path s"
proof (induction "is" arbitrary: s)
  case (Cons i js)
  then show ?case using stop_thread_registered [OF Cons.prems, of i] Cons.IH [of "stop_thread i s"] by auto
qed simp

lemma ensure_threads_registered:
  "registered s \<Longrightarrow> registered (fold ensure_thread cs s)
    \<and> fst ` set (sch_threads (fold ensure_thread cs s)) = fst ` set (sch_threads s) \<union> sc_id ` set cs
    \<and> sch_db_path (fold ensure_thread cs s) = sch_db_path s"
proof (induction cs arbitrary: s)
  case (Cons c cs)
  have "registered (ensure_thread c s) \<and> fst ` set (sch_threads (ensure_thread c s)) = insert (sc_id c) (fst ` set (sch_threads s))
    \<and> sch_db_path (ensure_thread c s) = sch_db_path s"
  proof (cases "map_of (sch_threads s) (sc_id c)")
    case None
    then show ?thesis using start_thread_registered [OF Cons.prems None] by (simp add: ensure_thread_def)
  next
    case (Some a)
    then have "sc_id c \<in> fst ` set (sch_threads s)" by (metis domI dom_map_of_conv_image_fst)
    then show ?thesis using Cons.prems Some by (auto simp: ensure_thread_def)
  qed
  then show ?case using Cons.IH [of "ensure_thread c s"] by auto
qed simp

lemma reload_backups_registered:
  fixes options :: db_backup_settings
  assumes "registered s"
  defines "s' \<equiv> reload_database_backup_threads options s"
  shows "registered s'" "sch_threads s' = sch_threads s" "sch_db_path s' = sch_db_path s"
    "(\<exists>a. (k, a) \<in> set (sch_backup_threads s') \<and> sch_spawned s' ! a = BackupJob k n b) \<longleftrightarrow> sch_db_path s \<noteq> None
      \<and> (bs_backup_enabled options \<and> (k, n, b) = (''database_backup'', bs_backup_interval_seconds options, False)
         \<or> bs_integrity_enabled options \<and> (k, n, b) = (''database_backup_integrity'', bs_integrity_interval_seconds options, True))"
proof -
  define s1 where "s1 = stop_database_backup_threads s"
  note s1 = stop_backups_registered [OF assms(1), folded s1_def]
  define s2 where "s2 = (if bs_backup_enabled options
    then start_database_backup_thread ''database_backup'' (bs_backup_interval_seconds options) False s1 else s1)"
  have start: "''database_backup'' \<notin> fst ` set (sch_backup_threads s1)" using s1(2) by simp
  note started = start_backup_registered [OF s1(1) start, where n = "bs_backup_interval_seconds options" and b = False]
  have s2: "registered s2" "sch_threads s2 = sch_threads s" "sch_db_path s2 = sch_db_path s"
    "set (sch_backup_threads s2) = (if bs_backup_enabled options then {(''database_backup'', length (sch_spawned s1))} else {})"
    "sch_spawned s2 = sch_spawned s1 @ (if bs_backup_enabled options then [BackupJob ''database_backup'' (bs_backup_interval_seconds options) False] else [])"
    using started s1 registeredD(1) [OF s1(1)] by (simp_all add: s2_def)
  have start2: "''database_backup_integrity'' \<notin> fst ` set (sch_backup_threads s2)" using s2(4) by (simp split: if_splits)
  note started2 = start_backup_registered [OF s2(1) start2, where n = "bs_integrity_interval_seconds options" and b = True]
  have s': "s' = (if sch_db_path s = None then s1 else if bs_integrity_enabled options
    then start_database_backup_thread ''database_backup_integrity'' (bs_integrity_interval_seconds options) True s2 else s2)"
    by (simp add: s'_def reload_database_backup_threads_def Let_def s1_def [symmetric] s2_def s1(4) split: option.splits)
  show "registered s'" "sch_threads s' = sch_threads s" "sch_db_path s' = sch_db_path s"
    using s1 s2 started2 by (simp_all add: s')
  have "set (sch_backup_threads s') = (if sch_db_path s = None then {}
      else (if bs_backup_enabled options then {(''database_backup'', length (sch_spawned s1))} else {})
        \<union> (if bs_integrity_enabled options then {(''database_backup_integrity'', length (sch_spawned s2))} else {}))"
    using s1(2) s2(4) started2(2) registeredD(1) [OF s2(1)] by (auto simp: s' split: if_splits)
  moreover have "sch_db_path s \<noteq> None \<Longrightarrow> sch_spawned s' = sch_spawned s2
      @ (if bs_integrity_enabled options then [BackupJob ''database_backup_integrity'' (bs_integrity_interval_seconds options) True] else [])"
    using started2(5) by (auto simp: s')
  ultimately show "(\<exists>a. (k, a) \<in> set (sch_backup_threads s') \<and> sch_spawned s' ! a = BackupJob k n b) \<longleftrightarrow> sch_db_path s \<noteq> None
      \<and> (bs_backup_enabled options \<and> (k, n, b) = (''database_backup'', bs_backup_interval_seconds options, False)
         \<or> bs_integrity_enabled options \<and> (k, n, b) = (''database_backup_integrity'', bs_integrity_interval_seconds options, True))"
    by (cases "sch_db_path s = None"; cases "bs_backup_enabled options"; cases "bs_integrity_enabled options")
      (auto simp: s2(5) nth_append)
qed

lemma stop_all_registered:
  assumes "registered s"
  shows "registered (stop_all s)" "live (stop_all s) = {}"
proof -
  note r = registeredD [OF assms]
  let ?s = "(fold set_stop (map snd (sch_threads s)) s)\<lparr>sch_threads := []\<rparr>"
  have at: "schedule_at ?s = schedule_at s" "backup_at ?s = backup_at s"
    using at_spawned [of ?s s] by (simp_all add: stop_all_flags)
  have "snd ` set (sch_threads s) \<inter> snd ` set (sch_backup_threads s) = {}" using r(5,6) not_both_jobs by fastforce
  then have "registered ?s" using r unfolding registered_def at by (auto simp: stop_all_flags)
  note s = stop_backups_registered [OF this]
  show "registered (stop_all s)" using s(1) by (simp add: stop_all_def)
  show "live (stop_all s) = {}" using registeredD(4) [OF s(1)] s(2,3) by (simp add: stop_all_def)
qed

text \<open>What a server does with its scheduler.\<close>

inductive scheduler_reachable :: "scheduler \<Rightarrow> bool" where
  started: "scheduler_reachable (new_scheduler p)"
| reloaded: "scheduler_reachable s \<Longrightarrow> reload s w = (Inr s', v) \<Longrightarrow> scheduler_reachable s'"
| stopped: "scheduler_reachable s \<Longrightarrow> scheduler_reachable (stop_all s)"

lemma reload_cases:
  assumes "reload s w = (Inr s', v)" "registered s"
  shows "registered s' \<and> v = w \<and> sch_db_path s' = sch_db_path s
    \<and> fst ` set (sch_threads s') = sc_id ` {c \<in> set (db_schedules (w_db w)). sc_enabled c}
    \<and> (\<forall>k n b. (\<exists>a. (k, a) \<in> set (sch_backup_threads s') \<and> sch_spawned s' ! a = BackupJob k n b) \<longleftrightarrow> sch_db_path s \<noteq> None
      \<and> (bs_backup_enabled (db_backup_options (w_db w)) \<and> (k, n, b) = (''database_backup'', bs_backup_interval_seconds (db_backup_options (w_db w)), False)
         \<or> bs_integrity_enabled (db_backup_options (w_db w))
           \<and> (k, n, b) = (''database_backup_integrity'', bs_integrity_interval_seconds (db_backup_options (w_db w)), True)))"
proof -
  let ?cs = "sort_key sc_id (db_schedules (w_db w))"
  let ?gone = "filter (\<lambda>i. \<not> (\<exists>c \<in> set ?cs. sc_id c = i \<and> sc_enabled c)) (map fst (sch_threads s))"
  define s1 where "s1 = fold stop_thread ?gone s"
  define s2 where "s2 = fold ensure_thread (filter sc_enabled ?cs) s1"
  have s': "s' = reload_database_backup_threads (db_backup_options (w_db w)) s2" "v = w"
    using assms(1) by (auto simp: reload_def bind_m_def list_schedule_configs_def get_db_backup_settings_def gets_m_def Let_def
        return_m_def s1_def s2_def)
  have 1: "registered s1 \<and> set (sch_threads s1) = {x \<in> set (sch_threads s). fst x \<notin> set ?gone} \<and> sch_db_path s1 = sch_db_path s"
    unfolding s1_def by (rule stop_threads_registered [OF assms(2)])
  have 2: "registered s2 \<and> fst ` set (sch_threads s2) = fst ` set (sch_threads s1) \<union> sc_id ` set (filter sc_enabled ?cs)
    \<and> sch_db_path s2 = sch_db_path s1"
    unfolding s2_def by (rule ensure_threads_registered) (use 1 in blast)
  have r: "registered s2" using 2 by blast
  have "fst ` set (sch_threads s2) = sc_id ` {c \<in> set (db_schedules (w_db w)). sc_enabled c}"
    using 1 2 by auto
  then show ?thesis using reload_backups_registered [OF r, where options = "db_backup_options (w_db w)"] 1 2 by (simp add: s')
qed

lemma reachable_registered: "scheduler_reachable s \<Longrightarrow> registered s"
proof (induction rule: scheduler_reachable.induct)
  case (started p)
  then show ?case by (simp add: registered_def new_scheduler_def live_def)
next
  case (reloaded s w s' v)
  then show ?case using reload_cases by blast
next
  case (stopped s)
  then show ?case using stop_all_registered(1) by blast
qed

lemma one_thread:
  assumes "distinct (map fst ts)" "\<And>a. Q a \<longleftrightarrow> (k, a) \<in> set ts"
  shows "card {a. Q a} = (if k \<in> fst ` set ts then 1 else 0)"
proof (cases "k \<in> fst ` set ts")
  case True
  then obtain a where a: "(k, a) \<in> set ts" by auto
  have "{a. Q a} = {a}" using assms a by (auto simp: assms(2) dest: eq_key_imp_eq_value)
  then show ?thesis using True by simp
next
  case False
  then have "{a. Q a} = {}" using assms(2) by force
  then show ?thesis using False by simp
qed


text \<open>A schedule and the backups are switched on.\<close>

definition scheduled_world :: world where
  "scheduled_world = blank_world (empty_db\<lparr>db_schedules :=
     [\<lparr>sc_id = 1, sc_task_type = ''sync'', sc_cron_expr = None, sc_interval_seconds = Some 60, sc_max_duration_seconds = None,
       sc_enabled = True, sc_last_run = None, sc_next_run = None, sc_created_at = 0, sc_updated_at = 0\<rparr>]\<rparr>)"


end
