(* ===== verification/Repo_Tracking.thy ===== *)
theory Repo_Tracking
  imports Repo_Backup Repo_Folders "HOL-Library.Char_ord" "HOL-Library.List_Lexorder" "HOL-Library.Multiset"
begin

section \<open>Repository: the list of tracked items and the tree of virtual paths\<close>

text \<open>
  \<open>list_tracking_items\<close> and \<open>list_virtual_path_tree_nodes\<close> of \<open>src/db/repository.rs\<close>. SQLite counts characters where Rust's
  \<open>len\<close> counts bytes, so here a string is its UTF-8 bytes and the SQL functions skip continuation bytes. Folders whose paths are
  equally long are tried in row order.
\<close>

datatype tracking_item_kind = FileItem | FolderItem

datatype tracking_source = DirectSource | FolderSource

datatype tracking_folder_status = NotScanned | EmptyFolder | TrackedFolder | MirroredFolder | PartialFolder

record tracking_item =
  ti_kind :: tracking_item_kind
  ti_id :: int
  ti_drive_pair_id :: int
  ti_path :: string
  ti_virtual_path :: "string option"
  ti_is_mirrored :: "bool option"
  ti_tracked_direct :: "bool option"
  ti_tracked_via_folder :: "bool option"
  ti_source :: tracking_source
  ti_folder_status :: "tracking_folder_status option"
  ti_folder_total_files :: "int option"
  ti_folder_mirrored_files :: "int option"
  ti_created_at :: int
  ti_updated_at :: int

record virtual_path_tree_node =
  vn_name :: string
  vn_path :: string
  vn_item_count :: int
  vn_has_children :: bool

subsection \<open>Characters of SQL\<close>

definition continuation :: "char \<Rightarrow> bool" where
  "continuation c = (let n = (of_char c :: nat) in 128 \<le> n \<and> n < 192)"

definition sql_length :: "string \<Rightarrow> nat" where
  "sql_length s = length (filter (\<lambda>c. \<not> continuation c) s)"

text \<open>\<open>substr(s, n + 1)\<close>: what follows the first \<open>n\<close> characters.\<close>

fun skip_chars :: "nat \<Rightarrow> string \<Rightarrow> string" where
  "skip_chars 0 s = s"
| "skip_chars (Suc n) [] = []"
| "skip_chars (Suc n) (c # cs) = skip_chars n (dropWhile continuation cs)"

subsection \<open>The virtual path a file appears under\<close>

definition covering_folders :: "db \<Rightarrow> tracked_file \<Rightarrow> tracked_folder list" where
  "covering_folders d f = filter (\<lambda>g. fo_drive_pair_id g = tf_drive_pair_id f \<and> fo_virtual_path g \<noteq> None
     \<and> in_folder_raw (fo_folder_path g) (tf_relative_path f)) (db_folders d)"

definition effective_virtual_path :: "db \<Rightarrow> tracked_file \<Rightarrow> string option" where
  "effective_virtual_path d f = (case tf_virtual_path f of
       Some v \<Rightarrow> Some v
     | None \<Rightarrow> (case sort_key (\<lambda>g. - int (sql_length (trim_end_char (CHR ''/'') (fo_folder_path g)))) (covering_folders d f) of
           [] \<Rightarrow> None
         | g # _ \<Rightarrow> (let stripped = trim_end_char (CHR ''/'') (fo_folder_path g) in
             if tf_relative_path f = stripped then fo_virtual_path g
             else map_option (\<lambda>v. v @ ''/'' @ skip_chars (sql_length stripped + 1) (tf_relative_path f)) (fo_virtual_path g))))"

subsection \<open>Listing\<close>

record tracking_filter =
  fl_drive_pair_id :: "int option"
  fl_query :: "string option"
  fl_virtual_prefix :: "string option"
  fl_has_virtual_path :: "bool option"
  fl_item_kind :: "string option"
  fl_source :: "string option"

definition or_all :: "string option \<Rightarrow> string" where
  "or_all s = (case s of None \<Rightarrow> ''all'' | Some x \<Rightarrow> x)"

definition include_files :: "tracking_filter \<Rightarrow> bool" where
  "include_files q = (or_all (fl_item_kind q) \<noteq> ''folder'')"

definition include_folders :: "tracking_filter \<Rightarrow> bool" where
  "include_folders q = (or_all (fl_item_kind q) \<noteq> ''file'' \<and> or_all (fl_source q) \<in> {''all'', ''folder''})"

definition non_blank :: "string option \<Rightarrow> string option" where
  "non_blank s = (case s of None \<Rightarrow> None | Some x \<Rightarrow> (if str_trim x = '''' then None else Some (str_trim x)))"

text \<open>The conditions that file rows and folder rows share; \<open>v\<close> is the virtual path of the row.\<close>

definition row_matches :: "tracking_filter \<Rightarrow> int \<Rightarrow> string \<Rightarrow> string option \<Rightarrow> bool" where
  "row_matches q pair_id path v =
     ((case fl_drive_pair_id q of None \<Rightarrow> True | Some i \<Rightarrow> pair_id = i)
    \<and> (case non_blank (fl_query q) of None \<Rightarrow> True
       | Some x \<Rightarrow> sql_like None (''%'' @ x @ ''%'') path \<or> sql_like None (''%'' @ x @ ''%'') (case v of None \<Rightarrow> '''' | Some p \<Rightarrow> p))
    \<and> (case non_blank (fl_virtual_prefix q) of None \<Rightarrow> True
       | Some x \<Rightarrow> (case v of None \<Rightarrow> False | Some p \<Rightarrow> sql_like None (x @ ''%'') p))
    \<and> (case fl_has_virtual_path q of None \<Rightarrow> True | Some b \<Rightarrow> b = (v \<noteq> None)))"

definition source_matches :: "tracking_filter \<Rightarrow> tracked_file \<Rightarrow> bool" where
  "source_matches q f = (let s = or_all (fl_source q) in
     if s = ''direct'' then tf_tracked_direct f
     else if s = ''folder'' then \<not> tf_tracked_direct f \<and> tf_tracked_via_folder f else True)"

definition file_item :: "db \<Rightarrow> tracked_file \<Rightarrow> tracking_item" where
  "file_item d f = \<lparr>ti_kind = FileItem, ti_id = tf_id f, ti_drive_pair_id = tf_drive_pair_id f, ti_path = tf_relative_path f,
     ti_virtual_path = effective_virtual_path d f, ti_is_mirrored = Some (tf_is_mirrored f),
     ti_tracked_direct = Some (tf_tracked_direct f), ti_tracked_via_folder = Some (tf_tracked_via_folder f),
     ti_source = (if tf_tracked_via_folder f then FolderSource else DirectSource),
     ti_folder_status = None, ti_folder_total_files = None, ti_folder_mirrored_files = None,
     ti_created_at = tf_created_at f, ti_updated_at = tf_updated_at f\<rparr>"

definition folder_files :: "db \<Rightarrow> tracked_folder \<Rightarrow> tracked_file list" where
  "folder_files d g = filter (\<lambda>f. tf_drive_pair_id f = fo_drive_pair_id g
     \<and> in_folder_raw (fo_folder_path g) (tf_relative_path f)) (db_files d)"

definition folder_status :: "tracked_folder \<Rightarrow> int \<Rightarrow> int \<Rightarrow> tracking_folder_status" where
  "folder_status g files mirrored =
     (if files = 0 \<and> fo_last_scanned_at g = None then NotScanned
      else if files = 0 then EmptyFolder
      else if mirrored = files then MirroredFolder
      else if mirrored = 0 then TrackedFolder else PartialFolder)"

definition folder_item :: "db \<Rightarrow> tracked_folder \<Rightarrow> tracking_item" where
  "folder_item d g =
     (let files = int (length (folder_files d g)); mirrored = count_where tf_is_mirrored (folder_files d g) in
      \<lparr>ti_kind = FolderItem, ti_id = fo_id g, ti_drive_pair_id = fo_drive_pair_id g, ti_path = fo_folder_path g,
       ti_virtual_path = fo_virtual_path g, ti_is_mirrored = None, ti_tracked_direct = None, ti_tracked_via_folder = None,
       ti_source = FolderSource, ti_folder_status = Some (folder_status g files mirrored),
       ti_folder_total_files = Some files, ti_folder_mirrored_files = Some mirrored,
       ti_created_at = fo_created_at g, ti_updated_at = fo_created_at g\<rparr>)"

definition file_matches :: "tracking_filter \<Rightarrow> db \<Rightarrow> tracked_file \<Rightarrow> bool" where
  "file_matches q d f = (include_files q \<and> source_matches q f
     \<and> row_matches q (tf_drive_pair_id f) (tf_relative_path f) (effective_virtual_path d f))"

definition folder_matches :: "tracking_filter \<Rightarrow> tracked_folder \<Rightarrow> bool" where
  "folder_matches q g = (include_folders q \<and> row_matches q (fo_drive_pair_id g) (fo_folder_path g) (fo_virtual_path g))"

text \<open>\<open>UNION ALL\<close> of both branches; \<open>ORDER BY kind, id\<close> puts files before folders.\<close>

definition tracking_rows :: "tracking_filter \<Rightarrow> db \<Rightarrow> tracking_item list" where
  "tracking_rows q d =
     sort_key ti_id (map (file_item d) (filter (file_matches q d) (db_files d)))
     @ sort_key ti_id (map (folder_item d) (filter (folder_matches q) (db_folders d)))"

definition list_tracking_items :: "tracking_filter \<Rightarrow> int \<Rightarrow> int \<Rightarrow> (tracking_item list \<times> int) prog" where
  "list_tracking_items q page per_page = gets_m (\<lambda>w.
     let page' = max page 1; per_page' = min (max per_page 1) 200; rows = tracking_rows q (w_db w) in
     (paginate page' per_page' rows, int (length rows)))"

subsection \<open>The tree\<close>

definition normalize_parent :: "string \<Rightarrow> string" where
  "normalize_parent parent = (let t = str_trim parent in
     if t = '''' then ''/''
     else (let n = (if take 1 t = ''/'' then t else ''/'' @ t) in if 1 < length n then trim_end_char (CHR ''/'') n else n))"

definition tree_paths :: "db \<Rightarrow> string list" where
  "tree_paths d = List.map_filter (effective_virtual_path d) (db_files d) @ List.map_filter fo_virtual_path (db_folders d)"

definition first_segment :: "string \<Rightarrow> string" where
  "first_segment s = takeWhile (\<lambda>c. c \<noteq> CHR ''/'') s"

definition tree_suffixes :: "string \<Rightarrow> db \<Rightarrow> string list" where
  "tree_suffixes search d = map (skip_chars (length search))
     (filter (\<lambda>v. sql_like None (search @ ''%'') v \<and> length search \<le> sql_length v) (tree_paths d))"

definition tree_node :: "string \<Rightarrow> string list \<Rightarrow> string \<Rightarrow> virtual_path_tree_node" where
  "tree_node parent ss name =
     \<lparr>vn_name = name, vn_path = (if parent = ''/'' then ''/'' @ name else parent @ ''/'' @ name),
      vn_item_count = count_where (\<lambda>s. first_segment s = name) ss,
      vn_has_children = list_ex (\<lambda>s. first_segment s = name \<and> CHR ''/'' \<in> set s) ss\<rparr>"

definition list_virtual_path_tree_nodes :: "string \<Rightarrow> virtual_path_tree_node list prog" where
  "list_virtual_path_tree_nodes parent = gets_m (\<lambda>w.
     let p = normalize_parent parent; search = (if p = ''/'' then ''/'' else p @ ''/''); ss = tree_suffixes search (w_db w) in
     map (tree_node p ss) (sort (remdups (filter (\<lambda>n. n \<noteq> '''') (map first_segment ss)))))"

subsection \<open>Pages\<close>

lemma take_pages: "concat (map (\<lambda>k. take m (drop (k * m) xs)) [0..<n]) = take (n * m) xs"
  by (induction n) (simp_all add: take_add [symmetric] add.commute)

lemma page_of:
  assumes "1 \<le> m" "m \<le> 200"
  shows "list_tracking_items q (int k + 1) m w =
    (Inr (take (nat m) (drop (k * nat m) (tracking_rows q (w_db w))), int (length (tracking_rows q (w_db w)))), w)"
  using assms by (simp add: list_tracking_items_def paginate_def Let_def i64_max_def nat_mult_distrib)

text \<open>Read page by page, with any page size the listing allows, the list of tracked items shows every file and every folder that
  the filter selects exactly once, files before folders and each kind in the order of its ids, and every page says how many there are.\<close>

theorem tracking_pages_complete:
  fixes w :: world
  assumes "1 \<le> m" "m \<le> 200" "length (db_files (w_db w)) + length (db_folders (w_db w)) \<le> n * nat m"
  shows "\<exists>pages. (\<forall>k < n. list_tracking_items q (int k + 1) m w = (Inr (pages k, int (length (concat (map pages [0..<n])))), w))
    \<and> mset (concat (map pages [0..<n])) = image_mset (file_item (w_db w)) (mset (filter (file_matches q (w_db w)) (db_files (w_db w))))
        + image_mset (folder_item (w_db w)) (mset (filter (folder_matches q) (db_folders (w_db w))))
    \<and> sorted_wrt (\<lambda>a b. ti_kind a = FileItem \<and> ti_kind b = FolderItem \<or> ti_kind a = ti_kind b \<and> ti_id a \<le> ti_id b) (concat (map pages [0..<n]))"
proof -
  let ?rows = "tracking_rows q (w_db w)"
  let ?pages = "\<lambda>k. take (nat m) (drop (k * nat m) ?rows)"
  have "length ?rows \<le> n * nat m" using assms(3)
    by (simp add: tracking_rows_def) (meson add_mono le_trans length_filter_le)
  then have all: "concat (map ?pages [0..<n]) = ?rows" by (simp add: take_pages)
  have kinds: "ti_kind (file_item d f) = FileItem" "ti_kind (folder_item d g) = FolderItem" for d f g
    by (simp_all add: file_item_def folder_item_def Let_def)
  have same: "sorted_wrt (\<lambda>a b. ti_kind a = FileItem \<and> ti_kind b = FolderItem \<or> ti_kind a = ti_kind b \<and> ti_id a \<le> ti_id b) (sort_key ti_id xs)"
    if "\<forall>x \<in> set xs. \<forall>y \<in> set xs. ti_kind x = ti_kind y" for xs
  proof (rule sorted_wrt_mono_rel [rotated])
    show "sorted_wrt (\<lambda>a b. ti_id a \<le> ti_id b) (sort_key ti_id xs)" using sorted_sort_key [of ti_id xs] by (simp add: sorted_map)
    fix x y assume "x \<in> set (sort_key ti_id xs)" "y \<in> set (sort_key ti_id xs)" "ti_id x \<le> ti_id y"
    then show "ti_kind x = FileItem \<and> ti_kind y = FolderItem \<or> ti_kind x = ti_kind y \<and> ti_id x \<le> ti_id y"
      using that unfolding set_sort by blast
  qed
  have "sorted_wrt (\<lambda>a b. ti_kind a = FileItem \<and> ti_kind b = FolderItem \<or> ti_kind a = ti_kind b \<and> ti_id a \<le> ti_id b) ?rows"
    unfolding tracking_rows_def sorted_wrt_append by (intro conjI same) (auto simp: kinds)
  moreover have "mset ?rows = image_mset (file_item (w_db w)) (mset (filter (file_matches q (w_db w)) (db_files (w_db w))))
        + image_mset (folder_item (w_db w)) (mset (filter (folder_matches q) (db_folders (w_db w))))"
    by (simp add: tracking_rows_def)
  ultimately show ?thesis using page_of [OF assms(1,2)] by (intro exI [of _ ?pages]) (simp add: all)
qed

theorem tracking_pages_complete_witness:
  "\<exists>pages. list_tracking_items \<lparr>fl_drive_pair_id = None, fl_query = None, fl_virtual_prefix = None, fl_has_virtual_path = None,
      fl_item_kind = None, fl_source = None\<rparr> 1 1 (blank_world (empty_db\<lparr>db_files := [blank_file 1 1]\<rparr>)) = (Inr (pages 0, 1), blank_world (empty_db\<lparr>db_files := [blank_file 1 1]\<rparr>))
    \<and> length (pages (0 :: nat)) = 1"
proof -
  let ?w = "blank_world (empty_db\<lparr>db_files := [blank_file 1 1]\<rparr>)"
  let ?q = "\<lparr>fl_drive_pair_id = None, fl_query = None, fl_virtual_prefix = None, fl_has_virtual_path = None,
      fl_item_kind = None, fl_source = None\<rparr>"
  have m: "file_matches ?q (w_db ?w) (blank_file 1 1)"
    by (simp add: file_matches_def include_files_def or_all_def source_matches_def row_matches_def non_blank_def)
  have small: "length (db_files (w_db ?w)) + length (db_folders (w_db ?w)) \<le> 1 * nat 1" by (simp add: blank_world_def empty_db_def)
  show ?thesis
    using tracking_pages_complete [OF _ _ small, of ?q] m
    by (auto simp: blank_world_def empty_db_def dest!: arg_cong [of "mset _" _ size])
qed

subsection \<open>The tree shows every path\<close>

definition ascii_char :: "char \<Rightarrow> bool" where
  "ascii_char c = ((of_char c :: nat) < 128)"

text \<open>A continuation byte follows a byte that is not ASCII.\<close>

fun well_encoded :: "string \<Rightarrow> bool" where
  "well_encoded (a # b # cs) = ((ascii_char a \<longrightarrow> \<not> continuation b) \<and> well_encoded (b # cs))"
| "well_encoded _ = True"

lemma ascii_not_continuation: "ascii_char c \<Longrightarrow> \<not> continuation c"
  by (simp add: ascii_char_def continuation_def Let_def)

lemma skip_ascii:
  "list_all ascii_char front \<Longrightarrow> well_encoded (front @ rest) \<Longrightarrow> front \<noteq> [] \<Longrightarrow> skip_chars (length front) (front @ rest) = rest"
proof (induction front)
  case (Cons c front)
  show ?case
  proof (cases "front = []")
    case True
    then have "dropWhile continuation rest = rest" using Cons.prems(1,2) by (cases rest) auto
    then show ?thesis using True by simp
  next
    case False
    then have "dropWhile continuation (front @ rest) = front @ rest"
      using Cons.prems(1) ascii_not_continuation by (cases front) auto
    moreover have "well_encoded (front @ rest)" using Cons.prems(2) False by (cases front) auto
    ultimately show ?thesis using Cons False by simp
  qed
qed simp

lemma ascii_lower_ascii: "ascii_char (ascii_lower c) \<longleftrightarrow> ascii_char c"
proof (cases "65 \<le> (of_char c :: nat) \<and> (of_char c :: nat) \<le> 90")
  case True
  then show ?thesis by (simp add: ascii_lower_def ascii_char_def Let_def of_char_of)
qed (auto simp: ascii_lower_def ascii_char_def Let_def)

lemma lower_ascii: "map ascii_lower a = map ascii_lower b \<Longrightarrow> list_all ascii_char b \<Longrightarrow> list_all ascii_char a"
  by (induction a arbitrary: b) (auto, metis ascii_lower_ascii)

definition plain_pattern :: "string \<Rightarrow> bool" where
  "plain_pattern p = (CHR ''%'' \<notin> set p \<and> CHR ''_'' \<notin> set p)"

lemma like_rest_raw: "sql_like None ''%'' s"
proof -
  have "sql_like None [] []" by simp
  moreover have "[] \<in> set (suffixes s)" by simp
  ultimately show ?thesis by (auto simp: list_ex_iff)
qed

lemma like_plain: "plain_pattern p \<Longrightarrow> sql_like None (p @ ''%'') s \<longleftrightarrow> (\<exists>front rest. s = front @ rest \<and> map ascii_lower front = map ascii_lower p)"
proof (induction p arbitrary: s)
  case Nil
  then show ?case using like_rest_raw by simp
next
  case (Cons c p)
  then have c: "c \<noteq> CHR ''%''" "c \<noteq> CHR ''_''" "plain_pattern p" by (auto simp: plain_pattern_def)
  have split: "(\<exists>front rest. s = front @ rest \<and> map ascii_lower front = map ascii_lower (c # p)) \<longleftrightarrow>
      (\<exists>x xs. s = x # xs \<and> ascii_lower x = ascii_lower c \<and> (\<exists>front rest. xs = front @ rest \<and> map ascii_lower front = map ascii_lower p))"
    (is "?l \<longleftrightarrow> ?r")
  proof
    assume ?l
    then obtain front rest where f: "s = front @ rest" "map ascii_lower front = map ascii_lower (c # p)" by blast
    then obtain x front' where "front = x # front'" by (cases front) auto
    then show ?r using f by auto
  next
    assume ?r
    then obtain x front rest where "s = x # front @ rest" "ascii_lower x = ascii_lower c" "map ascii_lower front = map ascii_lower p" by blast
    then show ?l by (intro exI [of _ "x # front"] exI [of _ rest]) simp
  qed
  have "sql_like None ((c # p) @ ''%'') s \<longleftrightarrow> (\<exists>x xs. s = x # xs \<and> ascii_lower x = ascii_lower c \<and> sql_like None (p @ ''%'') xs)"
    using c by (cases s) simp_all
  then show ?case unfolding Cons.IH [OF c(3)] split by simp
qed

text \<open>\<open>v\<close> goes on below the searched path with the segment \<open>name\<close>, and after it with \<open>rest\<close>; ASCII case is ignored in the searched part.\<close>

definition leads_to :: "string \<Rightarrow> string \<Rightarrow> string \<Rightarrow> string \<Rightarrow> bool" where
  "leads_to search name rest v = (CHR ''/'' \<notin> set name \<and> (rest = '''' \<or> take 1 rest = ''/'')
     \<and> (\<exists>front. v = front @ name @ rest \<and> map ascii_lower front = map ascii_lower search))"

lemma segment_split:
  "first_segment s = name \<and> drop (length name) s = rest \<longleftrightarrow> s = name @ rest \<and> CHR ''/'' \<notin> set name \<and> (rest = '''' \<or> take 1 rest = ''/'')"
proof
  assume l: "first_segment s = name \<and> drop (length name) s = rest"
  have s: "s = name @ dropWhile (\<lambda>c. c \<noteq> CHR ''/'') s" using l by (auto simp: first_segment_def)
  then have "rest = dropWhile (\<lambda>c. c \<noteq> CHR ''/'') s" using l by (metis append_eq_conv_conj)
  moreover have "dropWhile (\<lambda>c. c \<noteq> CHR ''/'') s = '''' \<or> take 1 (dropWhile (\<lambda>c. c \<noteq> CHR ''/'') s) = ''/''"
    by (induction s) auto
  moreover have "CHR ''/'' \<notin> set name" using l by (auto simp: first_segment_def dest: set_takeWhileD)
  ultimately show "s = name @ rest \<and> CHR ''/'' \<notin> set name \<and> (rest = '''' \<or> take 1 rest = ''/'')" using s by simp
next
  assume r: "s = name @ rest \<and> CHR ''/'' \<notin> set name \<and> (rest = '''' \<or> take 1 rest = ''/'')"
  then have "takeWhile (\<lambda>c. c \<noteq> CHR ''/'') rest = ''''" by (cases rest) auto
  then show "first_segment s = name \<and> drop (length name) s = rest" using r by (auto simp: first_segment_def takeWhile_append)
qed

lemma slash_in_rest: "s = name @ rest \<Longrightarrow> CHR ''/'' \<notin> set name \<Longrightarrow> rest = '''' \<or> take 1 rest = ''/'' \<Longrightarrow> CHR ''/'' \<in> set s \<longleftrightarrow> rest \<noteq> ''''"
  by (cases rest) auto

definition in_search :: "string \<Rightarrow> string \<Rightarrow> bool" where
  "in_search search v = (sql_like None (search @ ''%'') v \<and> length search \<le> sql_length v)"

lemma in_search_iff:
  assumes "plain_pattern search" "list_all ascii_char search" "search \<noteq> ''''" "well_encoded v"
  shows "in_search search v \<and> skip_chars (length search) v = s \<longleftrightarrow> (\<exists>front. v = front @ s \<and> map ascii_lower front = map ascii_lower search)"
proof -
  have skip: "skip_chars (length search) v = rest" "length search \<le> sql_length v"
    if "v = front @ rest" "map ascii_lower front = map ascii_lower search" for front rest
  proof -
    have f: "list_all ascii_char front" "length front = length search"
      using lower_ascii [OF that(2) assms(2)] map_eq_imp_length_eq [OF that(2)] by simp_all
    then show "skip_chars (length search) v = rest" using skip_ascii [OF f(1), of rest] assms(3,4) f(2) that(1) by (cases front) simp_all
    have "filter (\<lambda>c. \<not> continuation c) front = front" using f(1) ascii_not_continuation by (auto simp: list_all_iff intro: filter_True)
    then show "length search \<le> sql_length v" using f(2) that(1) by (simp add: sql_length_def)
  qed
  show ?thesis
  proof
    assume l: "in_search search v \<and> skip_chars (length search) v = s"
    then obtain front rest where f: "v = front @ rest" "map ascii_lower front = map ascii_lower search"
      unfolding in_search_def like_plain [OF assms(1)] by blast
    have "rest = s" using skip(1) [OF f] l by simp
    then show "\<exists>front. v = front @ s \<and> map ascii_lower front = map ascii_lower search" using f by blast
  next
    assume "\<exists>front. v = front @ s \<and> map ascii_lower front = map ascii_lower search"
    then obtain front where f: "v = front @ s" "map ascii_lower front = map ascii_lower search" by blast
    then have "sql_like None (search @ ''%'') v" unfolding like_plain [OF assms(1)] by blast
    then show "in_search search v \<and> skip_chars (length search) v = s" using skip [OF f] by (simp add: in_search_def)
  qed
qed

lemma segment_hit:
  assumes "plain_pattern search" "list_all ascii_char search" "search \<noteq> ''''" "well_encoded v"
  shows "in_search search v \<and> first_segment (skip_chars (length search) v) = name \<and> drop (length name) (skip_chars (length search) v) = rest
    \<longleftrightarrow> leads_to search name rest v"
  using in_search_iff [OF assms, of "name @ rest"] segment_split [of "skip_chars (length search) v" name rest]
  unfolding leads_to_def by blast

lemma tree_suffixes_eq: "tree_suffixes search d = map (skip_chars (length search)) (filter (in_search search) (tree_paths d))"
  by (simp add: tree_suffixes_def in_search_def [abs_def])

lemma tree_node_counts:
  assumes ok: "plain_pattern search" "list_all ascii_char search" "search \<noteq> ''''" "\<forall>v \<in> set (tree_paths d). well_encoded v"
  shows "vn_item_count (tree_node p (tree_suffixes search d) name) = int (length (filter (\<lambda>v. \<exists>rest. leads_to search name rest v) (tree_paths d)))"
    "vn_has_children (tree_node p (tree_suffixes search d) name) \<longleftrightarrow> (\<exists>v \<in> set (tree_paths d). \<exists>rest. rest \<noteq> '''' \<and> leads_to search name rest v)"
    "name \<in> first_segment ` set (tree_suffixes search d) \<longleftrightarrow> (\<exists>v \<in> set (tree_paths d). \<exists>rest. leads_to search name rest v)"
proof -
  let ?s = "skip_chars (length search)"
  have leads: "leads_to search name rest v \<longleftrightarrow> in_search search v \<and> first_segment (?s v) = name \<and> drop (length name) (?s v) = rest"
    if "v \<in> set (tree_paths d)" for v rest
    using segment_hit [OF ok(1-3), of v name rest] ok(4) that by simp
  have hit: "in_search search v \<and> first_segment (?s v) = name \<longleftrightarrow> (\<exists>rest. leads_to search name rest v)" if "v \<in> set (tree_paths d)" for v
    by (simp add: leads [OF that])
  have slash: "in_search search v \<and> first_segment (?s v) = name \<and> CHR ''/'' \<in> set (?s v) \<longleftrightarrow> (\<exists>rest. rest \<noteq> '''' \<and> leads_to search name rest v)"
    if v: "v \<in> set (tree_paths d)" for v
  proof -
    have "CHR ''/'' \<in> set (?s v) \<longleftrightarrow> drop (length name) (?s v) \<noteq> ''''" if "first_segment (?s v) = name"
      using segment_split [of "?s v" name "drop (length name) (?s v)"] that slash_in_rest by blast
    then show ?thesis by (auto simp: leads [OF v])
  qed
  have "length (filter (\<lambda>s. first_segment s = name) (tree_suffixes search d))
      = length (filter (\<lambda>v. in_search search v \<and> first_segment (?s v) = name) (tree_paths d))"
    by (simp add: tree_suffixes_eq filter_map comp_def conj_commute)
  also have "filter (\<lambda>v. in_search search v \<and> first_segment (?s v) = name) (tree_paths d) = filter (\<lambda>v. \<exists>rest. leads_to search name rest v) (tree_paths d)"
    by (rule filter_cong [OF refl]) (rule hit)
  finally show "vn_item_count (tree_node p (tree_suffixes search d) name) = int (length (filter (\<lambda>v. \<exists>rest. leads_to search name rest v) (tree_paths d)))"
    by (simp add: tree_node_def count_where_def)
  show "vn_has_children (tree_node p (tree_suffixes search d) name) \<longleftrightarrow> (\<exists>v \<in> set (tree_paths d). \<exists>rest. rest \<noteq> '''' \<and> leads_to search name rest v)"
  proof -
    have "vn_has_children (tree_node p (tree_suffixes search d) name) \<longleftrightarrow>
        (\<exists>v \<in> set (tree_paths d). in_search search v \<and> first_segment (?s v) = name \<and> CHR ''/'' \<in> set (?s v))"
      by (auto simp: tree_node_def list_ex_iff tree_suffixes_eq)
    also have "\<dots> \<longleftrightarrow> (\<exists>v \<in> set (tree_paths d). \<exists>rest. rest \<noteq> '''' \<and> leads_to search name rest v)"
      by (rule bex_cong [OF refl]) (rule slash)
    finally show ?thesis .
  qed
  show "name \<in> first_segment ` set (tree_suffixes search d) \<longleftrightarrow> (\<exists>v \<in> set (tree_paths d). \<exists>rest. leads_to search name rest v)"
  proof -
    have "name \<in> first_segment ` set (tree_suffixes search d) \<longleftrightarrow> (\<exists>v \<in> set (tree_paths d). in_search search v \<and> first_segment (?s v) = name)"
      by (auto simp: tree_suffixes_eq image_iff)
    also have "\<dots> \<longleftrightarrow> (\<exists>v \<in> set (tree_paths d). \<exists>rest. leads_to search name rest v)" by (rule bex_cong [OF refl]) (rule hit)
    finally show ?thesis .
  qed
qed


text \<open>Two files below \<open>/a\<close>, one of them deeper.\<close>

definition tree_world :: world where
  "tree_world = blank_world (empty_db\<lparr>db_files := [(blank_file 1 1)\<lparr>tf_virtual_path := Some ''/a/x''\<rparr>,
     (blank_file 2 1)\<lparr>tf_virtual_path := Some ''/a/d/y''\<rparr>]\<rparr>)"


end
