(* ===== verification/Api_Reply.thy ===== *)
theory Api_Reply
  imports Sync_Queue Path_Resolution
begin

section \<open>Replies of the HTTP handlers\<close>

text \<open>
  \<open>api/models.rs\<close> and what the handlers under \<open>api/routes\<close> share. A handler is a computation that answers a reply: a JSON payload, kept
  as the value that is serialized, an \<open>ApiError\<close> with its code and message, a plain text, or no body, each with its status code. The
  extractors (path, query, body) have decoded the request: they are the handler's arguments.
\<close>

datatype 'a reply =
    Json nat 'a
  | Problem nat string string
  | PlainText nat string
  | NoBody nat

fun reply_status :: "'a reply \<Rightarrow> nat" where
  "reply_status (Json s _) = s"
| "reply_status (Problem s _ _) = s"
| "reply_status (PlainText s _) = s"
| "reply_status (NoBody s) = s"

text \<open>\<open>match m { Ok(x) => k(x), Err(e) => return bad(e) }\<close>\<close>

definition on_ok :: "'b prog \<Rightarrow> (err \<Rightarrow> 'a reply) \<Rightarrow> ('b \<Rightarrow> 'a reply prog) \<Rightarrow> 'a reply prog" where
  "on_ok m bad k = bind_m (try_m m) (\<lambda>r. case r of Inl e \<Rightarrow> return_m (bad e) | Inr x \<Rightarrow> k x)"

definition internal_error :: "err \<Rightarrow> 'a reply" where
  "internal_error e = Problem 500 ''INTERNAL_ERROR'' (err_to_string e)"

definition validation_error :: "err \<Rightarrow> 'a reply" where
  "validation_error e = Problem 400 ''VALIDATION_ERROR'' (err_to_string e)"

definition not_found :: "string \<Rightarrow> int \<Rightarrow> err \<Rightarrow> 'a reply" where
  "not_found what i e = Problem 404 ''RESOURCE_NOT_FOUND'' (fmt [what, '' '', dec i, '' not found''])"

definition text_reply :: "nat \<Rightarrow> err \<Rightarrow> 'a reply" where
  "text_reply status e = PlainText status (err_to_string e)"

definition or_default :: "'a \<Rightarrow> 'a option \<Rightarrow> 'a" where
  "or_default d x = (case x of None \<Rightarrow> d | Some v \<Rightarrow> v)"

text \<open>\<open>msg.contains(part)\<close>\<close>

fun text_contains :: "string \<Rightarrow> string \<Rightarrow> bool" where
  "text_contains part [] = (part = [])"
| "text_contains part (c # cs) = (take (length part) (c # cs) = part \<or> text_contains part cs)"

definition resolve_m :: "key \<Rightarrow> string \<Rightarrow> string \<Rightarrow> path_target_kind \<Rightarrow> string prog" where
  "resolve_m cwd root input kind w = (resolve_path_within_drive_root cwd (w_fs w) root input kind, w)"

text \<open>Every handler answers; an error inside it has become a reply.\<close>

definition answers :: "'a reply prog \<Rightarrow> bool" where
  "answers h \<longleftrightarrow> (\<forall>w. \<exists>r v. h w = (Inr r, v))"

lemma keeps_on_ok [keeps]: "keeps P m \<Longrightarrow> (\<And>x. keeps P (k x)) \<Longrightarrow> keeps P (on_ok m bad k)"
  unfolding on_ok_def by (intro keeps_bind keeps_try keeps_sum keeps_return)

lemma keeps_resolve [keeps]: "keeps P (resolve_m cwd root input kind)"
  by (simp add: keeps_def resolve_m_def)

lemma on_ok_run: "on_ok m bad k w = (case m w of (Inl e, v) \<Rightarrow> (Inr (bad e), v) | (Inr x, v) \<Rightarrow> k x v)"
  by (simp add: on_ok_def bind_m_def try_m_def split: prod.splits sum.splits)

lemma on_ok_good: "m w = (Inr x, v) \<Longrightarrow> on_ok m bad k w = k x v"
  by (simp add: on_ok_run)

lemma on_ok_bad: "m w = (Inl e, v) \<Longrightarrow> on_ok m bad k w = (Inr (bad e), v)"
  by (simp add: on_ok_run)

lemma answersD: "answers h \<Longrightarrow> \<exists>r v. h w = (Inr r, v)"
  by (simp add: answers_def)

lemma answers_return: "answers (return_m r)"
  by (simp add: answers_def)

lemma answers_on_ok: "(\<And>x. answers (k x)) \<Longrightarrow> answers (on_ok m bad k)"
  by (auto simp: answers_def on_ok_run split: prod.splits sum.splits)

lemma answers_discard: "answers k \<Longrightarrow> answers (seq_m (discard m) k)"
  by (simp add: answers_def)

lemma answers_try: "(\<And>x. answers (k x)) \<Longrightarrow> answers (bind_m (try_m m) k)"
  by (auto simp: answers_def bind_m_def try_m_def split: prod.splits)

lemma answers_gets: "(\<And>x. answers (k x)) \<Longrightarrow> answers (bind_m (gets_m f) k)"
  by (simp add: answers_def)

text \<open>Publishing a snapshot leaves everything else alone.\<close>

lemma publish_run: "\<exists>v. publish_snapshot w = (Inr (), v) \<and> w_db v = w_db w \<and> w_fs v = w_fs w \<and> w_now v = w_now w"
  by (simp add: publish_snapshot_def snapshot_def bind_m_def Let_def)

lemma publish_same [simp]:
  "w_db (snd (publish_snapshot w)) = w_db w" "w_fs (snd (publish_snapshot w)) = w_fs w" "w_now (snd (publish_snapshot w)) = w_now w"
  using publish_run [of w] by auto

end
