(* ===== verification/Routes_Drives.thy ===== *)
theory Routes_Drives
  imports Api_Reply
begin

section \<open>Routes: drive pairs\<close>

text \<open>\<open>api/routes/drives.rs\<close>.\<close>

record create_drive_pair_request =
  cd_name :: string
  cd_primary_path :: string
  cd_secondary_path :: string
  cd_primary_media_type :: string
  cd_secondary_media_type :: string
  cd_skip_validation :: bool

record update_drive_pair_request =
  ud_name :: "string option"
  ud_primary_path :: "string option"
  ud_secondary_path :: "string option"
  ud_primary_media_type :: "string option"
  ud_secondary_media_type :: "string option"

record assign_replacement_request =
  ar_role :: string
  ar_new_path :: string
  ar_skip_validation :: bool

definition parse_role :: "string \<Rightarrow> drive_role prog" where
  "parse_role role = (if role = ''primary'' then return_m Primary
     else if role = ''secondary'' then return_m Secondary
     else bail (fmt [''Unknown drive role '', squoted role]))"

definition media_type_ok :: "string \<Rightarrow> bool" where
  "media_type_ok m = (m \<in> {''hdd'', ''ssd''})"

definition media_type_problem :: "'a reply" where
  "media_type_problem = Problem 400 ''VALIDATION_ERROR'' (fmt [''media_type must be '', squoted ''hdd'', '' or '', squoted ''ssd''])"

definition create_drive_pair_route :: "create_drive_pair_request \<Rightarrow> drive_pair reply prog" where
  "create_drive_pair_route b =
     (if \<not> media_type_ok (cd_primary_media_type b) \<or> \<not> media_type_ok (cd_secondary_media_type b)
      then return_m media_type_problem
      else on_ok (if cd_skip_validation b then return_m () else validate_drive_pair (cd_primary_path b) (cd_secondary_path b))
          validation_error (\<lambda>_.
        on_ok (create_drive_pair_with_media (cd_name b) (cd_primary_path b) (cd_secondary_path b)
                (cd_primary_media_type b) (cd_secondary_media_type b))
          (\<lambda>e. if is_duplicate_drive_path_error e then Problem 409 ''CONFLICT'' (err_to_string e) else internal_error e) (\<lambda>p.
        seq_m (discard (log_drive_created (dp_id p) (dp_name p) (dp_primary_path p) (dp_secondary_path p)))
          (return_m (Json 201 p)))))"

definition list_drive_pairs_route :: "drive_pair list reply prog" where
  "list_drive_pairs_route = on_ok list_drive_pairs internal_error (\<lambda>ps. return_m (Json 200 ps))"

definition get_drive_pair_route :: "int \<Rightarrow> drive_pair reply prog" where
  "get_drive_pair_route i = on_ok (get_drive_pair i) (not_found ''Drive pair'' i) (\<lambda>p. return_m (Json 200 p))"

definition update_drive_pair_route :: "int \<Rightarrow> update_drive_pair_request \<Rightarrow> drive_pair reply prog" where
  "update_drive_pair_route i b =
     (if (case ud_primary_media_type b of None \<Rightarrow> False | Some m \<Rightarrow> \<not> media_type_ok m) then return_m media_type_problem
      else if (case ud_secondary_media_type b of None \<Rightarrow> False | Some m \<Rightarrow> \<not> media_type_ok m) then return_m media_type_problem
      else on_ok (update_drive_pair_with_media i (ud_name b) (ud_primary_path b) (ud_secondary_path b)
                (ud_primary_media_type b) (ud_secondary_media_type b)) internal_error (\<lambda>p.
        seq_m (discard (log_drive_updated (dp_id p) (dp_name p))) (return_m (Json 200 p))))"

definition delete_drive_pair_route :: "int \<Rightarrow> unit reply prog" where
  "delete_drive_pair_route i = bind_m (try_m (get_drive_pair i)) (\<lambda>found.
     on_ok (delete_drive_pair i) validation_error (\<lambda>_.
     seq_m (case found of Inr p \<Rightarrow> discard (log_drive_deleted i (dp_name p)) | Inl _ \<Rightarrow> return_m ())
       (return_m (NoBody 204))))"

definition mark_replacement_route :: "int \<Rightarrow> string \<Rightarrow> drive_pair reply prog" where
  "mark_replacement_route i role = on_ok (parse_role role) validation_error (\<lambda>r.
     on_ok (mark_drive_quiescing i r) validation_error (\<lambda>p. return_m (Json 200 p)))"

definition confirm_replacement_route :: "int \<Rightarrow> string \<Rightarrow> drive_pair reply prog" where
  "confirm_replacement_route i role = on_ok (parse_role role) validation_error (\<lambda>r.
     on_ok (confirm_drive_failure i r) validation_error (\<lambda>p. return_m (Json 200 p)))"

definition cancel_replacement_route :: "int \<Rightarrow> string \<Rightarrow> drive_pair reply prog" where
  "cancel_replacement_route i role = on_ok (parse_role role) validation_error (\<lambda>r.
     on_ok (cancel_drive_quiescing i r) validation_error (\<lambda>p. return_m (Json 200 p)))"

definition assign_replacement_route :: "int \<Rightarrow> assign_replacement_request \<Rightarrow> (drive_pair \<times> nat) reply prog" where
  "assign_replacement_route i b = on_ok (parse_role (ar_role b)) validation_error (\<lambda>r.
     on_ok (get_drive_pair i) (not_found ''Drive pair'' i) (\<lambda>p.
     on_ok (if ar_skip_validation b then return_m ()
            else (case r of Primary \<Rightarrow> validate_drive_pair (ar_new_path b) (dp_secondary_path p)
                  | Secondary \<Rightarrow> validate_drive_pair (dp_primary_path p) (ar_new_path b))) validation_error (\<lambda>_.
     on_ok (assign_replacement_drive i r (ar_new_path b)) validation_error (\<lambda>result. return_m (Json 200 result)))))"

text \<open>The reply of a failover says whether the active role changed.\<close>

definition emergency_failover_route :: "int \<Rightarrow> (drive_pair \<times> bool) reply prog" where
  "emergency_failover_route i = on_ok (get_drive_pair i) (not_found ''Drive pair'' i) (\<lambda>p.
     on_ok (maybe_emergency_failover p) internal_error (\<lambda>updated.
     return_m (Json 200 (updated, dp_active_role updated \<noteq> dp_active_role p))))"

end
