(* ===== verification/Routes_Sync.thy ===== *)
theory Routes_Sync
  imports Api_Reply Scheduler
begin

section \<open>Routes: queue, schedules, log and status\<close>

text \<open>
  \<open>api/routes/sync.rs\<close>, \<open>scheduler.rs\<close>, \<open>logs.rs\<close> and \<open>status.rs\<close>. A handler that changes schedules takes the scheduler and gives it
  back. The event stream is the messages of the bus from a subscription on.
\<close>

subsection \<open>The queue\<close>

record sync_list_query =
  lq_status :: "string option"
  lq_page :: "int option"
  lq_per_page :: "int option"

record queue_page =
  qp_queue :: "sync_item list"
  qp_total :: int
  qp_page :: int
  qp_per_page :: int
  qp_queue_paused :: bool
  qp_active_items :: int
  qp_in_progress_items :: int
  qp_pending_items :: int
  qp_completed_items :: int
  qp_failed_items :: int

text \<open>The first event is a fresh snapshot; after it come the messages sent since the subscription whose revision is not older.\<close>

definition queue_stream_route :: "world \<Rightarrow> (sync_summary list \<Rightarrow> sync_summary list) \<times> world" where
  "queue_stream_route w = (case snapshot w of
       (Inl _, v) \<Rightarrow> (\<lambda>_. [], v)
     | (Inr initial, v) \<Rightarrow> (\<lambda>received. initial # filter (\<lambda>s. su_revision initial \<le> su_revision s) received, v))"

definition list_queue_route :: "sync_list_query \<Rightarrow> queue_page reply prog" where
  "list_queue_route q =
     (let page = max (or_default 1 (lq_page q)) 1; per_page = min (max (or_default 50 (lq_per_page q)) 1) 200 in
      bind_m (try_m get_sync_queue_paused) (\<lambda>paused.
      on_ok count_active_sync_queue (text_reply 500) (\<lambda>active.
      on_ok count_in_progress_sync_queue (text_reply 500) (\<lambda>in_progress.
      on_ok count_sync_queue_by_status (text_reply 500) (\<lambda>counts.
      on_ok (list_sync_queue (lq_status q) page per_page) (text_reply 500) (\<lambda>(items, n).
      return_m (Json 200 \<lparr>qp_queue = items, qp_total = n, qp_page = page, qp_per_page = per_page,
        qp_queue_paused = (case paused of Inr b \<Rightarrow> b | Inl _ \<Rightarrow> False), qp_active_items = active, qp_in_progress_items = in_progress,
        qp_pending_items = or_default 0 (counts ''pending''), qp_completed_items = or_default 0 (counts ''completed''),
        qp_failed_items = or_default 0 (counts ''failed'')\<rparr>)))))))"

definition add_queue_item_route :: "int \<Rightarrow> string \<Rightarrow> sync_item reply prog" where
  "add_queue_item_route file_id action = on_ok (create_sync_queue_item file_id action) (text_reply 400) (\<lambda>item.
     seq_m (discard publish_snapshot) (return_m (Json 201 item)))"

definition get_queue_item_route :: "int \<Rightarrow> sync_item reply prog" where
  "get_queue_item_route i = on_ok (get_sync_queue_item i) (text_reply 404) (\<lambda>item. return_m (Json 200 item))"

text \<open>The reply to an error is chosen by what its message contains.\<close>

definition resolve_error :: "err \<Rightarrow> 'a reply" where
  "resolve_error e = (let msg = err_to_string e; has = (\<lambda>part. text_contains part msg) in
     if has ''does not exist'' \<or> has ''not a regular file'' \<or> has ''not readable'' then Problem 400 ''validation_error'' msg
     else if has (fmt [''only '', squoted ''user_action_required'']) \<or> has (fmt [''only '', squoted ''pending'']) \<or> has ''Unknown resolution''
       \<or> has (fmt [''requires '', squoted ''accept_current'', '' or '', squoted ''untrack'']) \<or> has ''only valid when reason''
     then Problem 400 ''bad_request'' msg
     else if has ''no rows'' \<or> has ''QueryReturnedNoRows'' then Problem 404 ''not_found'' ''Queue item not found''
     else PlainText 500 msg)"

definition resolve_queue_item_route :: "digest \<Rightarrow> int \<Rightarrow> string \<Rightarrow> string option \<Rightarrow> sync_item reply prog" where
  "resolve_queue_item_route b3 i resolution new_file_path =
     on_ok (resolve_queue_item b3 i resolution new_file_path) resolve_error (\<lambda>item.
     seq_m (discard publish_snapshot) (return_m (Json 200 item)))"

text \<open>The reply, and the world once the background worker, if one was started, is done.\<close>

definition process_queue_route :: "nat \<Rightarrow> digest \<Rightarrow> (nat \<Rightarrow> nat \<Rightarrow> nat) \<Rightarrow> world \<Rightarrow> string reply \<times> world option" where
  "process_queue_route fuel b3 picks w = (Json 202 ''started'', process_all_pending_async fuel b3 picks w)"

definition clear_completed_queue_route :: "int reply prog" where
  "clear_completed_queue_route = on_ok clear_completed_sync_queue (text_reply 500) (\<lambda>deleted.
     seq_m (discard publish_snapshot) (return_m (Json 200 deleted)))"

definition run_task_route :: "task_env \<Rightarrow> checksum_config \<Rightarrow> string \<Rightarrow> world \<Rightarrow> ((err + (string \<times> 32 word) reply) \<times> world) option" where
  "run_task_route te cfg task_name w =
     (let run = (\<lambda>t. map_option (\<lambda>(r, v). (Inr (case r of Inr n \<Rightarrow> Json 200 (task_type_str t, n) | Inl e \<Rightarrow> text_reply 500 e), v))
        (run_task te t None cfg True w)) in
      if task_name = ''sync'' then run SyncTask
      else if task_name \<in> {''integrity-check'', ''integrity_check''} then run IntegrityCheckTask
      else Some (Inr (PlainText 400 (fmt [''Unknown task: '', task_name])), w))"

definition set_paused_route :: "bool \<Rightarrow> bool reply prog" where
  "set_paused_route b = on_ok (set_sync_queue_paused b) (text_reply 500) (\<lambda>_.
     seq_m (discard publish_snapshot) (return_m (Json 200 b)))"

definition pause_queue_route :: "bool reply prog" where
  "pause_queue_route = set_paused_route True"

definition resume_queue_route :: "bool reply prog" where
  "resume_queue_route = set_paused_route False"

subsection \<open>Schedules\<close>

record create_schedule_request =
  cs_task_type :: string
  cs_cron_expr :: "string option"
  cs_interval_seconds :: "int option"
  cs_max_duration_seconds :: "int option"
  cs_enabled :: "bool option"

record update_schedule_request =
  us_cron_expr :: "string option option"
  us_interval_seconds :: "int option option"
  us_max_duration_seconds :: "int option option"
  us_enabled :: "bool option"

text \<open>A handler that also holds the scheduler; when a reload fails the scheduler stays as it was.\<close>

type_synonym 'a scheduler_handler = "scheduler \<Rightarrow> world \<Rightarrow> 'a reply \<times> scheduler \<times> world"

definition reload_scheduler :: "scheduler \<Rightarrow> world \<Rightarrow> scheduler \<times> world" where
  "reload_scheduler s w = (case reload s w of (Inl _, v) \<Rightarrow> (s, v) | (Inr s', v) \<Rightarrow> (s', v))"

definition then_reload :: "'b prog \<Rightarrow> (err \<Rightarrow> 'a reply) \<Rightarrow> ('b \<Rightarrow> 'a reply) \<Rightarrow> 'a scheduler_handler" where
  "then_reload m bad good s w = (case m w of
       (Inl e, v) \<Rightarrow> (bad e, s, v)
     | (Inr x, v) \<Rightarrow> (let (s', u) = reload_scheduler s v in (good x, s', u)))"

definition list_schedules_route :: "schedule_config list reply prog" where
  "list_schedules_route = on_ok list_schedule_configs (text_reply 500) (\<lambda>cs. return_m (Json 200 cs))"

definition create_schedule_route :: "create_schedule_request \<Rightarrow> schedule_config scheduler_handler" where
  "create_schedule_route b s w =
     (if cs_cron_expr b = None \<and> cs_interval_seconds b = None
      then (Problem 400 ''validation_error'' ''At least one of cron_expr or interval_seconds must be provided'', s, w)
      else if cs_task_type b \<noteq> ''sync'' \<and> cs_task_type b \<noteq> ''integrity_check''
      then (Problem 400 ''validation_error'' (fmt [''task_type must be '', squoted ''sync'', '' or '', squoted ''integrity_check'']), s, w)
      else then_reload (create_schedule_config (cs_task_type b) (cs_cron_expr b) (cs_interval_seconds b)
              (or_default True (cs_enabled b)) (cs_max_duration_seconds b)) (text_reply 400) (Json 201) s w)"

definition get_schedule_route :: "int \<Rightarrow> schedule_config reply prog" where
  "get_schedule_route i = on_ok (get_schedule_config i) (\<lambda>_. Problem 404 ''not_found'' ''Schedule not found'') (\<lambda>c. return_m (Json 200 c))"

definition update_schedule_route :: "int \<Rightarrow> update_schedule_request \<Rightarrow> schedule_config scheduler_handler" where
  "update_schedule_route i b = then_reload
     (update_schedule_config i (us_cron_expr b) (us_interval_seconds b) (us_enabled b) (us_max_duration_seconds b))
     (\<lambda>e. let msg = err_to_string e in
        if text_contains ''no rows'' msg \<or> text_contains ''QueryReturnedNoRows'' msg then Problem 404 ''not_found'' ''Schedule not found''
        else PlainText 500 msg) (Json 200)"

definition delete_schedule_route :: "int \<Rightarrow> unit scheduler_handler" where
  "delete_schedule_route i = then_reload (delete_schedule_config i) (\<lambda>_. Problem 404 ''not_found'' ''Schedule not found'') (\<lambda>_. NoBody 204)"

subsection \<open>Log and status\<close>

record list_logs_query =
  ll_event_type :: "string option"
  ll_file_id :: "int option"
  ll_from :: "string option"
  ll_to :: "string option"
  ll_page :: "int option"
  ll_per_page :: "int option"

definition list_logs_route :: "(int \<Rightarrow> string) \<Rightarrow> list_logs_query \<Rightarrow> (event_log_entry list \<times> int \<times> int \<times> int) reply prog" where
  "list_logs_route datetime q = (let page = or_default 1 (ll_page q); per_page = or_default 50 (ll_per_page q) in
     on_ok (list_event_logs datetime (ll_event_type q) (ll_file_id q) (ll_from q) (ll_to q) page per_page) (text_reply 500)
       (\<lambda>(entries, n). return_m (Json 200 (entries, n, page, per_page))))"

definition get_log_route :: "int \<Rightarrow> event_log_entry reply prog" where
  "get_log_route i = on_ok (get_event_log i) (text_reply 404) (\<lambda>e. return_m (Json 200 e))"

record status_response =
  sr_base :: system_status
  sr_degraded_pairs :: int
  sr_active_secondary_pairs :: int
  sr_rebuilding_pairs :: int
  sr_quiescing_pairs :: int

definition get_status_route :: "status_response reply prog" where
  "get_status_route = on_ok get_system_status internal_error (\<lambda>base.
     on_ok list_drive_pairs internal_error (\<lambda>ps.
     let some_side = (\<lambda>s p. dp_primary_state p = s \<or> dp_secondary_state p = s) in
     return_m (Json 200 \<lparr>sr_base = base, sr_degraded_pairs = count_where is_degraded ps,
       sr_active_secondary_pairs = count_where (\<lambda>p. dp_active_role p = ''secondary'') ps,
       sr_rebuilding_pairs = count_where (some_side ''rebuilding'') ps,
       sr_quiescing_pairs = count_where (some_side ''quiescing'') ps\<rparr>)))"

end
