(* ===== verification/Routes_Integrity.thy ===== *)
theory Routes_Integrity
  imports Api_Reply Integrity_Runs
begin

section \<open>Routes: integrity checks and runs\<close>

text \<open>\<open>api/routes/integrity.rs\<close>. The thread of a run is \<open>run_thread\<close>.\<close>

record check_file_response =
  cr_file_id :: int
  cr_status :: string
  cr_master_valid :: bool
  cr_mirror_valid :: bool
  cr_recovered :: bool

record run_results_query =
  rr_issues_only :: "bool option"
  rr_page :: "int option"
  rr_per_page :: "int option"

record run_results_page =
  rp_run :: "integrity_run option"
  rp_results :: "integrity_run_result list"
  rp_total :: int
  rp_page :: int
  rp_per_page :: int

text \<open>\<open>recover\<close> is the value of the query's key, if it has one.\<close>

definition check_file_route :: "digest \<Rightarrow> int \<Rightarrow> string option \<Rightarrow> check_file_response reply prog" where
  "check_file_route b3 i recover = on_ok (get_tracked_file i) (not_found ''Tracked file'' i) (\<lambda>file.
     on_ok (load_operational_pair (tf_drive_pair_id file)) internal_error (\<lambda>p.
     on_ok (check_file_integrity b3 p file Streaming Streaming) internal_error (\<lambda>res.
     on_ok (if recover = Some ''true'' \<and> ic_status res \<noteq> IOk then attempt_recovery_with_reconciliation b3 p file res
            else return_m False) internal_error (\<lambda>recovered.
     seq_m (discard (update_tracked_file_last_integrity_check_at i))
       (return_m (Json 200 \<lparr>cr_file_id = ic_file_id res, cr_status = status_str (ic_status res),
          cr_master_valid = ic_master_valid res, cr_mirror_valid = ic_mirror_valid res, cr_recovered = recovered\<rparr>))))))"

text \<open>The reply to starting a run; its thread takes the id of the run in the payload.\<close>

definition start_run_route :: "int option \<Rightarrow> bool option \<Rightarrow> integrity_run reply prog" where
  "start_run_route drive_id recover = on_ok (open_run drive_id (or_default False recover) ''api'')
     (\<lambda>e. if text_contains ''already active'' (err_to_string e) then Problem 409 ''CONFLICT'' (err_to_string e) else internal_error e)
     (\<lambda>run. return_m (Json 202 run))"

definition active_run_route :: "integrity_run option reply prog" where
  "active_run_route = on_ok get_active_integrity_run internal_error (\<lambda>run. return_m (Json 200 run))"

definition stop_run_route :: "int \<Rightarrow> integrity_run reply prog" where
  "stop_run_route i = on_ok (get_integrity_run i) (not_found ''Integrity run'' i) (\<lambda>_.
     on_ok (request_integrity_run_stop i) internal_error (\<lambda>_.
     on_ok (get_integrity_run i) internal_error (\<lambda>run. return_m (Json 200 run))))"

definition results_page :: "integrity_run \<Rightarrow> run_results_query \<Rightarrow> run_results_page reply prog" where
  "results_page run q =
     (let page = max (or_default 1 (rr_page q)) 1; per_page = min (max (or_default 50 (rr_per_page q)) 1) 200 in
      on_ok (list_integrity_run_results (ir_id run) (or_default True (rr_issues_only q)) page per_page) internal_error (\<lambda>(results, n).
        return_m (Json 200 \<lparr>rp_run = Some run, rp_results = results, rp_total = n, rp_page = page, rp_per_page = per_page\<rparr>)))"

definition latest_run_route :: "run_results_query \<Rightarrow> run_results_page reply prog" where
  "latest_run_route q = on_ok get_latest_integrity_run internal_error (\<lambda>run. case run of
       None \<Rightarrow> return_m (Json 200 \<lparr>rp_run = None, rp_results = [], rp_total = 0, rp_page = max (or_default 1 (rr_page q)) 1,
         rp_per_page = min (max (or_default 50 (rr_per_page q)) 1) 200\<rparr>)
     | Some r \<Rightarrow> results_page r q)"

definition run_results_route :: "int \<Rightarrow> run_results_query \<Rightarrow> run_results_page reply prog" where
  "run_results_route i q = on_ok (get_integrity_run i) (not_found ''Integrity run'' i) (\<lambda>run. results_page run q)"

end
