(* ===== verification/Routes_Database.thy ===== *)
theory Routes_Database
  imports Routes_Sync
begin

section \<open>Routes: database backups\<close>

text \<open>\<open>api/routes/database.rs\<close>; \<open>db_path\<close> is the path of the live database. A response has the fields of the row it shows.\<close>

record create_backup_body =
  cb_backup_path :: string
  cb_drive_label :: "string option"
  cb_enabled :: bool

record update_backup_body =
  ub_backup_path :: "string option"
  ub_drive_label :: "string option option"
  ub_enabled :: "bool option"

record update_backup_settings_body =
  us_backup_enabled :: "bool option"
  us_backup_interval :: "int option"
  us_integrity_enabled :: "bool option"
  us_integrity_interval :: "int option"

definition validate_interval :: "int option \<Rightarrow> string \<Rightarrow> 'a reply option" where
  "validate_interval v name = (case v of
       None \<Rightarrow> None
     | Some seconds \<Rightarrow> (if seconds \<le> 0 then Some (Problem 400 ''validation_error'' (fmt [name, '' must be greater than zero''])) else None))"

definition list_backups_route :: "db_backup_config list reply prog" where
  "list_backups_route = on_ok list_db_backup_configs (text_reply 500) (\<lambda>cs. return_m (Json 200 cs))"

definition create_backup_route :: "create_backup_body \<Rightarrow> db_backup_config reply prog" where
  "create_backup_route b =
     (if str_trim (cb_backup_path b) = '''' then return_m (Problem 400 ''validation_error'' ''backup_path is required'')
      else on_ok (create_db_backup_config (str_trim (cb_backup_path b)) (cb_drive_label b) (cb_enabled b)) (text_reply 400)
        (\<lambda>c. return_m (Json 201 c)))"

definition get_backup_route :: "int \<Rightarrow> db_backup_config reply prog" where
  "get_backup_route i = on_ok (get_db_backup_config i) (\<lambda>_. Problem 404 ''not_found'' ''Backup configuration not found'')
     (\<lambda>c. return_m (Json 200 c))"

definition update_backup_route :: "int \<Rightarrow> update_backup_body \<Rightarrow> db_backup_config reply prog" where
  "update_backup_route i b = (let path = map_option str_trim (ub_backup_path b) in
     if path = Some '''' then return_m (Problem 400 ''validation_error'' ''backup_path cannot be empty'')
     else on_ok (update_db_backup_config i path (ub_drive_label b) (ub_enabled b)) (text_reply 400) (\<lambda>c. return_m (Json 200 c)))"

definition delete_backup_route :: "int \<Rightarrow> unit reply prog" where
  "delete_backup_route i = on_ok (delete_db_backup_config i) (text_reply 500) (\<lambda>_. return_m (NoBody 204))"

definition run_backups_route :: "backup_env \<Rightarrow> digest \<Rightarrow> string \<Rightarrow> backup_result list reply prog" where
  "run_backups_route env b3 db_path = on_ok (run_all_backups env b3 db_path) (text_reply 500) (\<lambda>rs. return_m (Json 200 rs))"

definition get_settings_route :: "db_backup_settings reply prog" where
  "get_settings_route = on_ok get_db_backup_settings (text_reply 500) (\<lambda>s. return_m (Json 200 s))"

definition update_settings_route :: "update_backup_settings_body \<Rightarrow> db_backup_settings scheduler_handler" where
  "update_settings_route b s w =
     (case validate_interval (us_backup_interval b) ''backup_interval_seconds'' of
        Some r \<Rightarrow> (r, s, w)
      | None \<Rightarrow> (case validate_interval (us_integrity_interval b) ''integrity_interval_seconds'' of
          Some r \<Rightarrow> (r, s, w)
        | None \<Rightarrow> then_reload (update_db_backup_settings (us_backup_enabled b) (us_backup_interval b) (us_integrity_enabled b)
              (us_integrity_interval b)) (text_reply 400) (Json 200) s w))"

text \<open>The check runs on a blocking thread; \<open>cancelled\<close> says that its task was.\<close>

definition integrity_check_route :: "backup_env \<Rightarrow> digest \<Rightarrow> bool \<Rightarrow> backup_integrity_result list reply prog" where
  "integrity_check_route env b3 cancelled =
     (if cancelled then return_m (PlainText 500 ''integrity check task was cancelled'')
      else on_ok (run_backup_integrity_check env b3) (text_reply 500) (\<lambda>rs. return_m (Json 200 rs)))"

definition restore_backup_route :: "backup_env \<Rightarrow> string \<Rightarrow> string \<Rightarrow> restore_result reply prog" where
  "restore_backup_route env db_path source_path =
     (if str_trim source_path = '''' then return_m (Problem 400 ''validation_error'' ''source_path is required'')
      else on_ok (stage_restore env db_path (str_trim source_path)) (\<lambda>e. Problem 400 ''restore_failed'' (err_to_string e))
        (\<lambda>r. return_m (Json 200 r)))"

end
