(* ===== verification/Routes_Browse.thy ===== *)
theory Routes_Browse
  imports Api_Reply Repo_Tracking Tracker
begin

section \<open>Routes: tracked items, the virtual tree, the file system\<close>

text \<open>
  \<open>api/routes/tracking.rs\<close>, the tree in \<open>virtual_paths.rs\<close>, and \<open>filesystem.rs\<close>, which lists a directory for the user to choose from.
  The listing of a directory is the parameter \<open>ls\<close>.
\<close>

record list_tracking_items_query =
  lt_filter :: tracking_filter
  lt_page :: "int option"
  lt_per_page :: "int option"

definition list_tracking_items_route :: "list_tracking_items_query \<Rightarrow> (tracking_item list \<times> int \<times> int \<times> int) reply prog" where
  "list_tracking_items_route q =
     (if or_all (fl_source (lt_filter q)) \<notin> {''all'', ''direct'', ''folder''}
      then return_m (Problem 400 ''VALIDATION_ERROR'' ''source must be one of: all, direct, folder'')
      else if or_all (fl_item_kind (lt_filter q)) \<notin> {''all'', ''file'', ''folder''}
      then return_m (Problem 400 ''VALIDATION_ERROR'' ''item_kind must be one of: all, file, folder'')
      else (let page = max (or_default 1 (lt_page q)) 1; per_page = min (max (or_default 50 (lt_per_page q)) 1) 200 in
        on_ok (list_tracking_items (lt_filter q) page per_page) internal_error (\<lambda>(items, n).
          return_m (Json 200 (items, n, page, per_page)))))"

definition virtual_path_tree_route :: "string option \<Rightarrow> (string \<times> virtual_path_tree_node list) reply prog" where
  "virtual_path_tree_route parent = (let p = or_default ''/'' (non_blank parent) in
     if take 1 p \<noteq> ''/'' then return_m (PlainText 400 ''Parent virtual prefix must be absolute'')
     else if text_contains ''..'' p then return_m (PlainText 400 (fmt [''Parent virtual prefix may not contain '', squoted ''..'']))
     else on_ok (list_virtual_path_tree_nodes p) (text_reply 500) (\<lambda>children. return_m (Json 200 (p, children))))"

subsection \<open>Browsing\<close>

datatype entry_kind = DirectoryEntry | FileEntry

record filesystem_entry =
  fe_name :: string
  fe_path :: string
  fe_kind :: entry_kind
  fe_is_hidden :: bool
  fe_is_selectable :: bool
  fe_has_children :: bool

record browse_query =
  bq_path :: "string option"
  bq_include_hidden :: "bool option"
  bq_directories_only :: "bool option"

record browse_response =
  br_path :: string
  br_canonical_path :: string
  br_parent_path :: "string option"
  br_entries :: "filesystem_entry list"

definition hidden_name :: "string \<Rightarrow> bool" where
  "hidden_name name = (take 1 name = ''.'')"

definition path_kind :: "fs \<Rightarrow> string \<Rightarrow> entry_kind" where
  "path_kind f path = (if path_is_dir f path then DirectoryEntry else FileEntry)"

definition dir_readable :: "fs \<Rightarrow> key \<Rightarrow> bool" where
  "dir_readable f k = (fs_nodes f k = Some Directory \<and> \<not> fs_noread f k)"

definition has_children :: "listing \<Rightarrow> fs \<Rightarrow> key \<Rightarrow> bool \<Rightarrow> bool" where
  "has_children ls f k include_hidden = (dir_readable f k \<and> list_ex (\<lambda>n. include_hidden \<or> \<not> hidden_name n) (ls f k))"

text \<open>Directories first, then by name without regard to case, then by name: three stable sorts, the last one first.\<close>

definition sort_entries :: "filesystem_entry list \<Rightarrow> filesystem_entry list" where
  "sort_entries es = sort_key (\<lambda>e. case fe_kind e of DirectoryEntry \<Rightarrow> 0 :: nat | FileEntry \<Rightarrow> 1)
     (sort_key (\<lambda>e. map ascii_lower (fe_name e)) (sort_key fe_name es))"

definition browse_entry :: "key \<Rightarrow> listing \<Rightarrow> fs \<Rightarrow> bool \<Rightarrow> bool \<Rightarrow> key \<Rightarrow> string \<Rightarrow> filesystem_entry option" where
  "browse_entry cwd ls f include_hidden directories_only dir name =
     (let path = path_join (key_string dir) name; kind = path_kind f path in
      if \<not> include_hidden \<and> hidden_name name then None
      else if directories_only \<and> kind \<noteq> DirectoryEntry then None
      else (case realpath cwd f path of
          None \<Rightarrow> None
        | Some k \<Rightarrow> Some \<lparr>fe_name = name, fe_path = key_string k, fe_kind = kind, fe_is_hidden = hidden_name name,
            fe_is_selectable = (if directories_only then kind = DirectoryEntry else True),
            fe_has_children = (kind = DirectoryEntry \<and> has_children ls f k include_hidden)\<rparr>))"

definition browse_filesystem_route :: "key \<Rightarrow> listing \<Rightarrow> browse_query \<Rightarrow> browse_response reply prog" where
  "browse_filesystem_route cwd ls q w =
     (let requested = or_default ''/'' (bq_path q); include_hidden = or_default False (bq_include_hidden q);
          directories_only = or_default False (bq_directories_only q); f = w_fs w in
      if contains_parent_dir requested
      then return_m (Problem 400 ''VALIDATION_ERROR'' ''Parent-directory traversal is not allowed'') w
      else (case realpath cwd f requested of
          None \<Rightarrow> return_m (validation_error (Io ''canonicalize'')) w
        | Some k \<Rightarrow>
            (if \<not> key_is_dir f k
             then return_m (Problem 400 ''VALIDATION_ERROR'' (fmt [''Path is not a directory: '', key_string k])) w
             else if \<not> dir_readable f k then return_m (validation_error (Io ''read_dir'')) w
             else return_m (Json 200 \<lparr>br_path = key_string k, br_canonical_path = key_string k,
               br_parent_path = (if length k \<le> 1 then None else Some (key_string (butlast k))),
               br_entries = sort_entries (List.map_filter (browse_entry cwd ls f include_hidden directories_only k) (ls f k))\<rparr>) w)))"

end
