(* ===== verification/Routes_Folders.thy ===== *)
theory Routes_Folders
  imports Api_Reply Tracker Virtual_Path
begin

section \<open>Routes: folders\<close>

text \<open>
  \<open>api/routes/folders.rs\<close>. Deleting, scanning and mirroring a folder answer at once and leave the work to a thread: the handler claims the
  folder, its thread is the function \<open>\<dots>_job\<close>, which other requests may come before. A job runs to its end whatever fails inside it.
\<close>

record add_folder_request =
  af_drive_pair_id :: int
  af_folder_path :: string
  af_virtual_path :: "string option"
  af_include_checksum_sidecars :: "bool option"

record scan_active_response =
  sa_scanning :: bool
  sa_scanned :: int
  sa_total :: int

record mirror_active_response =
  ma_mirroring :: bool
  ma_mirrored :: int
  ma_total :: int
  ma_mirrored_files :: int

definition scan_active_of :: "tracked_folder \<Rightarrow> scan_active_response" where
  "scan_active_of f = \<lparr>sa_scanning = fo_scanning f, sa_scanned = fo_scan_scanned_files f, sa_total = fo_scan_total_files f\<rparr>"

definition mirror_active_of :: "tracked_folder \<Rightarrow> mirror_active_response" where
  "mirror_active_of f = \<lparr>ma_mirroring = fo_mirroring f, ma_mirrored = fo_mirror_mirrored_files f,
     ma_total = fo_mirror_total_files f, ma_mirrored_files = fo_mirror_mirrored_files f\<rparr>"

subsection \<open>Progress\<close>

definition scan_progress_publish_interval :: int where
  "scan_progress_publish_interval = 1000000000"

definition should_publish_progress :: "int option \<Rightarrow> int \<Rightarrow> bool" where
  "should_publish_progress last_published_at now = (case last_published_at of
       None \<Rightarrow> True
     | Some l \<Rightarrow> scan_progress_publish_interval \<le> max (now - l) 0)"

text \<open>The time of the last publication is given back.\<close>

definition try_publish_progress :: "int option \<Rightarrow> int option prog" where
  "try_publish_progress last_published_at = bind_m instant_now (\<lambda>now.
     if should_publish_progress last_published_at now
     then seq_m (discard publish_snapshot) (return_m (Some now)) else return_m last_published_at)"

subsection \<open>Folders\<close>

definition list_folders_route :: "tracked_folder list reply prog" where
  "list_folders_route = on_ok list_tracked_folders (text_reply 500) (\<lambda>fs. return_m (Json 200 fs))"

definition add_folder_route :: "key \<Rightarrow> add_folder_request \<Rightarrow> tracked_folder reply prog" where
  "add_folder_route cwd b = on_ok (load_operational_pair (af_drive_pair_id b)) (text_reply 404) (\<lambda>p.
     on_ok (resolve_m cwd (active_path p) (af_folder_path b) TargetDirectory) (text_reply 400) (\<lambda>folder_path.
     on_ok (track_folder_with_options p folder_path (af_virtual_path b) (or_default False (af_include_checksum_sidecars b)))
       (text_reply 400) (\<lambda>folder. return_m (Json 201 folder))))"

definition get_folder_route :: "int \<Rightarrow> tracked_folder reply prog" where
  "get_folder_route i = on_ok (get_tracked_folder i) (text_reply 404) (\<lambda>f. return_m (Json 200 f))"

text \<open>A claim that is refused is told from other errors by its message.\<close>

definition claim_refused :: "err \<Rightarrow> 'a reply" where
  "claim_refused e = PlainText (if text_contains ''already active'' (err_to_string e) then 409 else 500) (err_to_string e)"

definition delete_folder_route :: "int \<Rightarrow> unit reply prog" where
  "delete_folder_route i = on_ok (get_tracked_folder i) (text_reply 404) (\<lambda>folder.
     on_ok (get_drive_pair (fo_drive_pair_id folder)) (text_reply 500) (\<lambda>p.
     on_ok (require_pair_mutation_allowed p) (text_reply 400) (\<lambda>_.
     on_ok (start_folder_delete i) claim_refused (\<lambda>_.
     seq_m (discard publish_snapshot) (return_m (NoBody 202))))))"

definition delete_folder_job :: "int \<Rightarrow> unit prog" where
  "delete_folder_job i = bind_m (try_m (untrack_folder_cascade i)) (\<lambda>r.
     seq_m (case r of Inl _ \<Rightarrow> discard (clear_folder_delete i) | Inr _ \<Rightarrow> return_m ())
       (discard publish_snapshot))"

text \<open>The body's field is absent, \<open>null\<close> or a path.\<close>

definition update_folder_route :: "int \<Rightarrow> string option option \<Rightarrow> tracked_folder reply prog" where
  "update_folder_route i virtual_path = on_ok (get_tracked_folder i) (text_reply 404) (\<lambda>_.
     on_ok (case virtual_path of
         Some (Some path) \<Rightarrow> set_folder_virtual_path i path
       | Some None \<Rightarrow> remove_folder_virtual_path i
       | None \<Rightarrow> return_m ()) (text_reply 400) (\<lambda>_.
     on_ok (get_tracked_folder i) (text_reply 404) (\<lambda>folder. return_m (Json 200 folder))))"

subsection \<open>Scanning\<close>

definition scan_folder_start :: "tracked_folder \<Rightarrow> err + int \<Rightarrow> scan_active_response reply prog" where
  "scan_folder_start folder counted = on_ok (lift_r counted) (text_reply 500) (\<lambda>total_files.
     on_ok (start_folder_scan (fo_id folder) total_files) claim_refused (\<lambda>status.
     seq_m (discard publish_snapshot) (return_m (Json 202 (scan_active_of status)))))"

definition scan_folder_route ::
    "nat \<Rightarrow> listing \<Rightarrow> int \<Rightarrow> world \<Rightarrow> ((err + scan_active_response reply) \<times> world) option" where
  "scan_folder_route fuel ls i w = (case get_tracked_folder i w of
       (Inl e, v) \<Rightarrow> Some (Inr (text_reply 404 e), v)
     | (Inr folder, v) \<Rightarrow> (case load_operational_pair (fo_drive_pair_id folder) v of
         (Inl e, u) \<Rightarrow> Some (Inr (text_reply 500 e), u)
       | (Inr p, u) \<Rightarrow> map_option (\<lambda>(counted, x). scan_folder_start folder counted x) (count_folder_files fuel ls p folder u)))"

text \<open>
  \<open>due n\<close> says whether the throttle lets the report of \<open>n\<close> scanned files through: the time of the last publication is a variable of the
  thread, and the clock is the environment's.
\<close>

definition scan_progress :: "(int \<Rightarrow> bool) \<Rightarrow> int \<Rightarrow> int \<Rightarrow> unit prog" where
  "scan_progress due i scanned = seq_m (update_scan_progress i scanned)
     (if due scanned then discard publish_snapshot else return_m ())"

definition scan_folder_work ::
    "nat \<Rightarrow> listing \<Rightarrow> digest \<Rightarrow> (int \<Rightarrow> bool) \<Rightarrow> int \<Rightarrow> world \<Rightarrow> ((err + nat \<times> nat) \<times> world) option" where
  "scan_folder_work fuel ls b3 due i w = (case get_tracked_folder i w of
       (Inl e, v) \<Rightarrow> Some (Inl e, v)
     | (Inr folder, v) \<Rightarrow> (case load_operational_pair (fo_drive_pair_id folder) v of
         (Inl e, u) \<Rightarrow> Some (Inl e, u)
       | (Inr p, u) \<Rightarrow> scan_tracked_folder fuel ls b3 p folder (scan_progress due i) u))"

definition scan_folder_job :: "nat \<Rightarrow> listing \<Rightarrow> digest \<Rightarrow> (int \<Rightarrow> bool) \<Rightarrow> int \<Rightarrow> world \<Rightarrow> world option" where
  "scan_folder_job fuel ls b3 due i w = map_option
     (\<lambda>(_, v). snd (seq_m (discard (finish_folder_scan i)) (discard publish_snapshot) v)) (scan_folder_work fuel ls b3 due i w)"

definition scan_folder_active_route :: "int \<Rightarrow> scan_active_response reply prog" where
  "scan_folder_active_route i = on_ok (get_tracked_folder i) (text_reply 404) (\<lambda>f. return_m (Json 200 (scan_active_of f)))"

subsection \<open>Mirroring\<close>

text \<open>With the payload, the pair and the files that the thread takes along.\<close>

definition mirror_folder_route :: "int \<Rightarrow> (mirror_active_response \<times> drive_pair \<times> tracked_file list) reply prog" where
  "mirror_folder_route i = on_ok (get_tracked_folder i) (text_reply 404) (\<lambda>folder.
     on_ok (load_operational_pair (fo_drive_pair_id folder)) (text_reply 500) (\<lambda>p.
     bind_m (gets_m (\<lambda>w. standby_accepts_sync (w_fs w) p)) (\<lambda>accepts.
     if \<not> accepts then return_m (PlainText 400 ''Standby drive is not currently available for mirroring'')
     else on_ok (list_tracked_files_under_folder (dp_id p) (fo_folder_path folder)) (text_reply 500) (\<lambda>files.
       let queued_files = filter (\<lambda>f. \<not> tf_is_mirrored f) files in
       on_ok (start_folder_mirror (fo_id folder) (int (length queued_files))) claim_refused (\<lambda>status.
       seq_m (discard publish_snapshot) (return_m (Json 202 (mirror_active_of status, p, queued_files))))))))"

definition mirror_one :: "digest \<Rightarrow> drive_pair \<Rightarrow> tracked_file \<Rightarrow> unit prog" where
  "mirror_one b3 p file =
     seq_m (discard (start_pending_mirror_queue_for_file (tf_id file)))
    (bind_m (try_m (mirror_file b3 p (tf_relative_path file))) (\<lambda>r. case r of
       Inr _ \<Rightarrow> seq_m (update_tracked_file_mirror_status (tf_id file) True)
         (discard (complete_pending_mirror_queue_for_file (tf_id file)))
     | Inl e \<Rightarrow> discard (fail_pending_mirror_queue_for_file (tf_id file) (err_to_string e))))"

fun mirror_files :: "digest \<Rightarrow> drive_pair \<Rightarrow> int \<Rightarrow> tracked_file list \<Rightarrow> int \<Rightarrow> int option \<Rightarrow> unit prog" where
  "mirror_files b3 p i [] processed prev = return_m ()"
| "mirror_files b3 p i (file # files) processed prev =
     seq_m (mirror_one b3 p file)
    (seq_m (discard (update_mirror_progress i (processed + 1)))
    (bind_m (try_publish_progress prev) (\<lambda>prev'. mirror_files b3 p i files (processed + 1) prev')))"

definition mirror_folder_job :: "digest \<Rightarrow> int \<Rightarrow> drive_pair \<Rightarrow> tracked_file list \<Rightarrow> unit prog" where
  "mirror_folder_job b3 i p queued_files = seq_m (discard (mirror_files b3 p i queued_files 0 None))
    (seq_m (discard (finish_folder_mirror i)) (discard publish_snapshot))"

definition mirror_folder_active_route :: "int \<Rightarrow> mirror_active_response reply prog" where
  "mirror_folder_active_route i = on_ok (get_tracked_folder i) (text_reply 404) (\<lambda>f. return_m (Json 200 (mirror_active_of f)))"

end
