(* ===== verification/Folder_Jobs.thy ===== *)
theory Folder_Jobs
  imports Routes_Folders Tracker_Correct
begin

section \<open>The threads of a folder, proved\<close>

text \<open>Whatever fails in its job, a folder that was claimed is free again afterwards; a mirror job settles every file it took.\<close>

subsection \<open>What publishing leaves alone\<close>

lemma progress_run: "\<exists>r v. try_publish_progress prev w = (Inr r, v) \<and> w_db v = w_db w \<and> w_fs v = w_fs w \<and> w_now v = w_now w"
  by (simp add: try_publish_progress_def bind_m_def instant_now_def)

lemma set_folder_run: "set_folder i g w = (Inr (), w\<lparr>w_db := (w_db w)\<lparr>db_folders := upd_where (\<lambda>r. fo_id r = i) g (db_folders (w_db w))\<rparr>\<rparr>)"
  by (simp add: set_folder_def)

subsection \<open>One file of a mirror job\<close>

definition settle :: "int set \<Rightarrow> (int \<Rightarrow> bool) \<Rightarrow> (int \<Rightarrow> string option) \<Rightarrow> int \<Rightarrow> sync_item \<Rightarrow> sync_item" where
  "settle ids ok e now q = (if sq_tracked_file_id q \<in> ids \<and> is_mirror_action (sq_action q) \<and> is_active q
     then stamp_status (if ok (sq_tracked_file_id q) then ''completed'' else ''failed'') (e (sq_tracked_file_id q)) now q else q)"

definition mark_mirrored :: "int set \<Rightarrow> (int \<Rightarrow> bool) \<Rightarrow> int \<Rightarrow> tracked_file \<Rightarrow> tracked_file" where
  "mark_mirrored ids ok now r = (if tf_id r \<in> ids \<and> ok (tf_id r) then r\<lparr>tf_is_mirrored := True, tf_updated_at := now\<rparr> else r)"

lemma settle_start:
  "map (\<lambda>q. if sq_tracked_file_id q = i \<and> is_mirror_action (sq_action q) \<and> is_active q then stamp_status s e now q else q)
     (map (\<lambda>q. if sq_tracked_file_id q = i \<and> is_mirror_action (sq_action q) \<and> sq_status q = ''pending'' then stamp_status ''in_progress'' None now q else q) qs)
   = map (\<lambda>q. if sq_tracked_file_id q = i \<and> is_mirror_action (sq_action q) \<and> is_active q then stamp_status s e now q else q) qs"
  by (induction qs) (auto simp: stamp_status_def is_active_def)

lemma start_mirror_run: "start_pending_mirror_queue_for_file i w = (Inr r, u) \<Longrightarrow>
    u = w\<lparr>w_db := (w_db w)\<lparr>db_queue := map (\<lambda>q. if sq_tracked_file_id q = i \<and> is_mirror_action (sq_action q) \<and> sq_status q = ''pending''
      then stamp_status ''in_progress'' None (w_now w) q else q) (db_queue (w_db w))\<rparr>\<rparr>"
  by (simp add: start_pending_mirror_queue_for_file_def update_queue_counted_def update_queue_def upd_where_def)

lemma mirror_one_effect:
  "\<exists>u x r v. mirror_file b3 p (tf_relative_path f) u = (r, x) \<and> w_fs u = w_fs w \<and> mirror_one b3 p f w = (Inr (), v) \<and> w_fs v = w_fs x \<and> w_now v = w_now w
    \<and> w_db v = (w_db w)\<lparr>db_queue := map (settle {tf_id f} (\<lambda>_. \<exists>s. r = Inr s) (\<lambda>_. case r of Inr _ \<Rightarrow> None | Inl e \<Rightarrow> Some (err_to_string e)) (w_now w)) (db_queue (w_db w)),
        db_files := map (mark_mirrored {tf_id f} (\<lambda>_. \<exists>s. r = Inr s) (w_now w)) (db_files (w_db w))\<rparr>"
proof -
  obtain n u where u: "start_pending_mirror_queue_for_file (tf_id f) w = (Inr n, u)"
    by (simp add: start_pending_mirror_queue_for_file_def update_queue_counted_def)
  note u_eq = start_mirror_run [OF u]
  obtain r x where x: "mirror_file b3 p (tf_relative_path f) u = (r, x)" by fastforce
  have xu: "w_db x = w_db u" "w_now x = w_now u" using mirror_db [of b3 p "tf_relative_path f" u] mirror_now [of b3 p "tf_relative_path f" u] x by simp_all
  show ?thesis
  proof (cases r)
    case (Inr s)
    obtain n' v where v: "complete_pending_mirror_queue_for_file (tf_id f) (snd (update_tracked_file_mirror_status (tf_id f) True x)) = (Inr n', v)"
      by (simp add: complete_pending_mirror_queue_for_file_def update_queue_counted_def)
    have run: "mirror_one b3 p f w = (Inr (), v)"
      using u x v Inr by (simp add: mirror_one_def seq_m_def bind_m_def try_m_def update_tracked_file_mirror_status_def update_files_def)
    have "w_db v = (w_db w)\<lparr>db_queue := map (settle {tf_id f} (\<lambda>_. True) (\<lambda>_. None) (w_now w)) (db_queue (w_db w)),
        db_files := map (mark_mirrored {tf_id f} (\<lambda>_. True) (w_now w)) (db_files (w_db w))\<rparr>" "w_fs v = w_fs x" "w_now v = w_now w"
      using v xu u_eq by (auto simp: complete_pending_mirror_queue_for_file_def update_queue_counted_def update_queue_def upd_where_def
          update_tracked_file_mirror_status_def update_files_def settle_start settle_def [abs_def] mark_mirrored_def [abs_def] simp del: map_map)
    then show ?thesis using x run u_eq Inr by (intro exI [of _ u] exI [of _ x] exI [of _ r] exI [of _ v]) simp
  next
    case (Inl e)
    obtain n' v where v: "fail_pending_mirror_queue_for_file (tf_id f) (err_to_string e) x = (Inr n', v)"
      by (simp add: fail_pending_mirror_queue_for_file_def update_queue_counted_def)
    have run: "mirror_one b3 p f w = (Inr (), v)"
      using u x v Inl by (simp add: mirror_one_def seq_m_def bind_m_def try_m_def)
    have "w_db v = (w_db w)\<lparr>db_queue := map (settle {tf_id f} (\<lambda>_. False) (\<lambda>_. Some (err_to_string e)) (w_now w)) (db_queue (w_db w)),
        db_files := map (mark_mirrored {tf_id f} (\<lambda>_. False) (w_now w)) (db_files (w_db w))\<rparr>" "w_fs v = w_fs x" "w_now v = w_now w"
      using v xu u_eq by (auto simp: fail_pending_mirror_queue_for_file_def update_queue_counted_def update_queue_def upd_where_def
          settle_start settle_def [abs_def] mark_mirrored_def [abs_def] simp del: map_map)
    then show ?thesis using x run u_eq Inl by (intro exI [of _ u] exI [of _ x] exI [of _ r] exI [of _ v]) simp
  qed
qed

text \<open>The file system went from \<open>f\<close> to \<open>g\<close> by mirroring the files in turn; \<open>ok\<close> tells which of the copies succeeded.\<close>

fun copied :: "digest \<Rightarrow> drive_pair \<Rightarrow> tracked_file list \<Rightarrow> (int \<Rightarrow> bool) \<Rightarrow> fs \<Rightarrow> fs \<Rightarrow> bool" where
  "copied b3 p [] ok f g = (g = f)"
| "copied b3 p (x # xs) ok f g = (\<exists>u v r. w_fs u = f \<and> mirror_file b3 p (tf_relative_path x) u = (r, v)
     \<and> (ok (tf_id x) \<longleftrightarrow> (\<exists>s. r = Inr s)) \<and> copied b3 p xs ok (w_fs v) g)"

lemma copied_cong: "(\<And>x. x \<in> set xs \<Longrightarrow> ok (tf_id x) = ok' (tf_id x)) \<Longrightarrow> copied b3 p xs ok f g = copied b3 p xs ok' f g"
  by (induction xs arbitrary: f) auto

lemma settle_more:
  assumes "i \<notin> ids"
  shows "settle ids ok e now (settle {i} (\<lambda>_. b) (\<lambda>_. d) now q) = settle (insert i ids) (ok(i := b)) (e(i := d)) now q"
  using assms by (auto simp: settle_def stamp_status_def is_active_def)

lemma mark_more:
  assumes "i \<notin> ids"
  shows "mark_mirrored ids ok now (mark_mirrored {i} (\<lambda>_. b) now r) = mark_mirrored (insert i ids) (ok(i := b)) now r"
  using assms by (auto simp: mark_mirrored_def)

definition settled :: "digest \<Rightarrow> drive_pair \<Rightarrow> tracked_file list \<Rightarrow> (int \<Rightarrow> bool) \<Rightarrow> (int \<Rightarrow> string option) \<Rightarrow> world \<Rightarrow> world \<Rightarrow> bool" where
  "settled b3 p fs ok e w v = (copied b3 p fs ok (w_fs w) (w_fs v) \<and> w_now v = w_now w
     \<and> db_queue (w_db v) = map (settle (tf_id ` set fs) ok e (w_now w)) (db_queue (w_db w))
     \<and> db_files (w_db v) = map (mark_mirrored (tf_id ` set fs) ok (w_now w)) (db_files (w_db w)))"

lemma mirror_files_settles:
  "distinct (map tf_id fs) \<Longrightarrow> \<exists>v ok e. mirror_files b3 p i fs n prev w = (Inr (), v) \<and> settled b3 p fs ok e w v"
proof (induction fs arbitrary: n prev w)
  case Nil
  have "settle {} ok e now = id" "mark_mirrored {} ok now = id" for ok :: "int \<Rightarrow> bool" and e now
    by (auto simp: settle_def mark_mirrored_def)
  then show ?case by (simp add: settled_def)
next
  case (Cons f fs)
  obtain u x r v where one: "mirror_file b3 p (tf_relative_path f) u = (r, x)" "w_fs u = w_fs w" "mirror_one b3 p f w = (Inr (), v)"
    "w_fs v = w_fs x" "w_now v = w_now w"
    and db: "w_db v = (w_db w)\<lparr>db_queue := map (settle {tf_id f} (\<lambda>_. \<exists>s. r = Inr s) (\<lambda>_. case r of Inr _ \<Rightarrow> None | Inl e \<Rightarrow> Some (err_to_string e)) (w_now w)) (db_queue (w_db w)),
        db_files := map (mark_mirrored {tf_id f} (\<lambda>_. \<exists>s. r = Inr s) (w_now w)) (db_files (w_db w))\<rparr>"
    using mirror_one_effect by blast
  obtain y where y: "update_mirror_progress i (n + 1) v = (Inr (), y)" "w_fs y = w_fs v" "w_now y = w_now v"
    "db_queue (w_db y) = db_queue (w_db v)" "db_files (w_db y) = db_files (w_db v)"
    by (simp add: update_mirror_progress_def set_folder_run)
  obtain prev' z where z: "try_publish_progress prev y = (Inr prev', z)" "w_db z = w_db y" "w_fs z = w_fs y" "w_now z = w_now y"
    using progress_run by blast
  obtain v' ok e where rest: "mirror_files b3 p i fs (n + 1) prev' z = (Inr (), v')" "settled b3 p fs ok e z v'"
    using Cons by fastforce
  let ?b = "\<exists>s. r = Inr s" and ?d = "case r of Inr _ \<Rightarrow> None | Inl e \<Rightarrow> Some (err_to_string e)"
  have new: "tf_id f \<notin> tf_id ` set fs" using Cons.prems by auto
  have run: "mirror_files b3 p i (f # fs) n prev w = (Inr (), v')"
    using one(3) y(1) z(1) rest(1) by (simp add: seq_m_def bind_m_def del: bind_m_Inr seq_m_Inr)
  have cp: "copied b3 p (f # fs) (ok(tf_id f := ?b)) (w_fs w) (w_fs v')"
  proof -
    have "copied b3 p fs (ok(tf_id f := ?b)) (w_fs x) (w_fs v') = copied b3 p fs ok (w_fs x) (w_fs v')"
      using new by (intro copied_cong) (auto simp: image_iff)
    then show ?thesis using rest(2) one(1,2,4) y(2) z(3) by (auto simp: settled_def)
  qed
  have "settled b3 p (f # fs) (ok(tf_id f := ?b)) (e(tf_id f := ?d)) w v'"
    using cp rest(2) one(5) db y(3-5) z(2,4) new unfolding settled_def
    by (simp add: settle_more mark_more comp_def del: copied.simps)
  then show ?case using run by blast
qed

lemma no_flag: "(\<And>r. \<not> flag (k r)) \<Longrightarrow> (\<And>r. fo_id (k r) = fo_id r) \<Longrightarrow> g \<in> set (upd_where (\<lambda>r. fo_id r = i) k fs) \<Longrightarrow> fo_id g = i \<Longrightarrow> \<not> flag g"
  by (auto simp: set_upd_where split: if_splits)

lemma mirror_job_run:
  assumes "distinct (map tf_id fs)"
  shows "\<exists>v ok e. mirror_folder_job b3 i p fs w = (Inr (), v) \<and> settled b3 p fs ok e w v
    \<and> (\<forall>g \<in> set (db_folders (w_db v)). fo_id g = i \<longrightarrow> \<not> fo_mirroring g)"
proof -
  obtain u ok e where u: "mirror_files b3 p i fs 0 None w = (Inr (), u)" "settled b3 p fs ok e w u"
    using mirror_files_settles [OF assms] by blast
  let ?k = "\<lambda>f. f\<lparr>fo_mirroring := False, fo_last_mirrored_at := Some (w_now u)\<rparr>"
  let ?v = "snd (publish_snapshot (snd (finish_folder_mirror i u)))"
  have run: "mirror_folder_job b3 i p fs w = (Inr (), ?v)" by (simp add: mirror_folder_job_def u(1))
  have f: "snd (finish_folder_mirror i u) = u\<lparr>w_db := (w_db u)\<lparr>db_folders := upd_where (\<lambda>r. fo_id r = i) ?k (db_folders (w_db u))\<rparr>\<rparr>"
    by (simp add: finish_folder_mirror_def seq_m_def bind_m_def set_folder_run folders.get_state)
  have "settled b3 p fs ok e w ?v" using u(2) by (simp add: settled_def f)
  moreover have "\<forall>g \<in> set (db_folders (w_db ?v)). fo_id g = i \<longrightarrow> \<not> fo_mirroring g" unfolding publish_same f
    by (intro ballI impI) (rule no_flag [where flag = fo_mirroring and k = ?k], simp_all)
  ultimately show ?thesis using run by (intro exI [of _ ?v] exI [of _ ok] exI [of _ e] conjI)
qed

text \<open>C38: The thread that mirrors a folder always ends, and settles every file it took: the file system is changed by the copies alone, in
  order; a file whose copy succeeded is marked mirrored and its unfinished mirror items are completed, a file whose copy failed
  keeps its mark and its unfinished mirror items are failed; no other file and no other item changes; and the folder is
  no longer being mirrored.\<close>

theorem mirror_job_settles_files:
  assumes "distinct (map tf_id fs)"
  shows "\<exists>v ok e. mirror_folder_job b3 i p fs w = (Inr (), v) \<and> copied b3 p fs ok (w_fs w) (w_fs v)
    \<and> db_files (w_db v) = map (\<lambda>r. if tf_id r \<in> tf_id ` set fs \<and> ok (tf_id r) then r\<lparr>tf_is_mirrored := True, tf_updated_at := w_now w\<rparr> else r)
        (db_files (w_db w))
    \<and> db_queue (w_db v) = map (\<lambda>q. if sq_tracked_file_id q \<in> tf_id ` set fs \<and> is_mirror_action (sq_action q) \<and> is_active q
        then stamp_status (if ok (sq_tracked_file_id q) then ''completed'' else ''failed'') (e (sq_tracked_file_id q)) (w_now w) q else q)
        (db_queue (w_db w))
    \<and> (\<forall>g \<in> set (db_folders (w_db v)). fo_id g = i \<longrightarrow> \<not> fo_mirroring g)"
proof -
  obtain v ok e where v: "mirror_folder_job b3 i p fs w = (Inr (), v)" "settled b3 p fs ok e w v"
    "\<forall>g \<in> set (db_folders (w_db v)). fo_id g = i \<longrightarrow> \<not> fo_mirroring g" using mirror_job_run [OF assms] by blast
  then show ?thesis by (intro exI [of _ v] exI [of _ ok] exI [of _ e])
    (simp add: settled_def settle_def [abs_def] mark_mirrored_def [abs_def])
qed

text \<open>A file with a pending item, on a pair whose drives are gone.\<close>

definition lost_world :: world where
  "lost_world = blank_world (empty_db\<lparr>db_files := [blank_file 1 1], db_queue := [new_item 1 1 ''mirror'' None None 0]\<rparr>)"

theorem mirror_job_settles_files_witness:
  "\<exists>v. mirror_folder_job (\<lambda>_. []) 1 ab_pair [blank_file 1 1] lost_world = (Inr (), v) \<and> map sq_id (db_queue (w_db v)) = [1]
    \<and> (\<forall>q \<in> set (db_queue (w_db v)). \<not> is_active q)"
proof -
  have d: "distinct (map tf_id [blank_file 1 1])" by simp
  have item: "is_active (new_item 1 1 ''mirror'' None None 0)" "is_mirror_action ''mirror''" "tf_id (blank_file 1 1) = 1"
    by (simp_all add: is_active_def new_item_def is_mirror_action_def blank_file_def)
  from mirror_job_settles_files [OF d, of "\<lambda>_. []" 1 ab_pair lost_world] show ?thesis
  proof (elim exE conjE, goal_cases)
    case (1 v ok e)
    have "db_queue (w_db v) = [stamp_status (if ok 1 then ''completed'' else ''failed'') (e 1) (w_now lost_world) (new_item 1 1 ''mirror'' None None 0)]"
      unfolding 1(4) using item by (simp add: lost_world_def blank_world_def new_item_def)
    then show ?case using 1(1) by (intro exI [of _ v]) (simp add: new_item_def stamp_status_def is_active_def)
  qed
qed

subsection \<open>Every job gives its folder back\<close>

lemma delete_job_run:
  "\<exists>v. delete_folder_job i w = (Inr (), v) \<and> (\<forall>g \<in> set (db_folders (w_db v)). fo_id g = i \<longrightarrow> \<not> fo_deleting g)"
proof (cases "untrack_folder_cascade i w")
  case (Pair r u)
  show ?thesis
  proof (cases r)
    case (Inl e)
    let ?u = "snd (clear_folder_delete i u)"
    have run: "delete_folder_job i w = (Inr (), snd (publish_snapshot ?u))"
      using Pair Inl by (simp add: delete_folder_job_def bind_m_def try_m_def)
    have f: "db_folders (w_db ?u) = upd_where (\<lambda>r. fo_id r = i) (\<lambda>f. f\<lparr>fo_deleting := False\<rparr>) (db_folders (w_db u))"
      by (simp add: clear_folder_delete_def set_folder_run)
    have "\<forall>g \<in> set (db_folders (w_db (snd (publish_snapshot ?u)))). fo_id g = i \<longrightarrow> \<not> fo_deleting g" unfolding publish_same f
      by (intro ballI impI) (rule no_flag [where flag = fo_deleting and k = "\<lambda>f. f\<lparr>fo_deleting := False\<rparr>"], simp_all)
    then show ?thesis using run by (intro exI [of _ "snd (publish_snapshot ?u)"] conjI)
  next
    case (Inr x)
    then have gone: "untrack_folder_cascade i w = (Inr x, u)" using Pair by simp
    obtain g p ds where g: "fo_id g = i" "untrack_found g p ds w = (Inr x, u)"
      by (rule untrack_folder_found [OF gone]) (rule that)
    have "delete_folder_job i w = (Inr (), snd (publish_snapshot u))"
      using Pair Inr by (simp add: delete_folder_job_def bind_m_def try_m_def)
    moreover have "db_folders (w_db u) = filter (\<lambda>f. fo_id f \<noteq> i) (db_folders (w_db w))"
      using untrack_found_rest(2) [OF g(2)] g(1) by (simp add: rest_is_def)
    ultimately show ?thesis by (intro exI [of _ "snd (publish_snapshot u)"]) simp
  qed
qed

lemma scan_job_run:
  assumes "scan_folder_job fuel ls b3 due i w = Some v"
  shows "\<forall>g \<in> set (db_folders (w_db v)). fo_id g = i \<longrightarrow> \<not> fo_scanning g"
proof -
  obtain r u where v: "v = snd (publish_snapshot (snd (finish_folder_scan i u)))"
    using assms by (auto simp: scan_folder_job_def)
  have f: "db_folders (w_db v) = upd_where (\<lambda>r. fo_id r = i) (\<lambda>f. f\<lparr>fo_scanning := False\<rparr>) (db_folders (w_db u))"
    by (simp add: v finish_folder_scan_def seq_m_def bind_m_def set_folder_run folders.get_state)
  show ?thesis unfolding f
    by (intro ballI impI) (rule no_flag [where flag = fo_scanning and k = "\<lambda>f. f\<lparr>fo_scanning := False\<rparr>"], simp_all)
qed

text \<open>No folder stays busy: when the thread that deletes, mirrors or scans a folder is done, whatever failed in it, the folder is no longer
  marked as being deleted, mirrored or scanned (a deleted folder is gone), so the next request can claim it. Deleting
  and mirroring always end.\<close>

theorem folder_jobs_release:
  "(\<exists>v. delete_folder_job i w = (Inr (), v) \<and> (\<forall>g \<in> set (db_folders (w_db v)). fo_id g = i \<longrightarrow> \<not> fo_deleting g))
   \<and> (distinct (map tf_id fs) \<longrightarrow> (\<exists>v. mirror_folder_job b3 i p fs w = (Inr (), v) \<and> (\<forall>g \<in> set (db_folders (w_db v)). fo_id g = i \<longrightarrow> \<not> fo_mirroring g)))
   \<and> (\<forall>v. scan_folder_job fuel ls b3 due i w = Some v \<longrightarrow> (\<forall>g \<in> set (db_folders (w_db v)). fo_id g = i \<longrightarrow> \<not> fo_scanning g))"
  using delete_job_run scan_job_run mirror_job_run by blast

text \<open>A folder that is being scanned, of a pair that is not there.\<close>

definition scanned_folder :: tracked_folder where
  "scanned_folder = \<lparr>fo_id = 1, fo_drive_pair_id = 1, fo_folder_path = ''d'', fo_virtual_path = None,
     fo_include_checksum_sidecars = False, fo_scanning = True, fo_scan_scanned_files = 0, fo_scan_total_files = 0, fo_mirroring = False,
     fo_deleting = False, fo_mirror_mirrored_files = 0, fo_mirror_total_files = 0, fo_last_scanned_at = None,
     fo_last_mirrored_at = None, fo_created_at = 0\<rparr>"

theorem folder_jobs_release_witness:
  "\<exists>v. scan_folder_job 0 (\<lambda>_ _. []) (\<lambda>_. []) (\<lambda>_. True) 1 (blank_world (empty_db\<lparr>db_folders := [scanned_folder]\<rparr>)) = Some v
    \<and> map fo_id (db_folders (w_db v)) = [1] \<and> (\<forall>g \<in> set (db_folders (w_db v)). fo_id g = 1 \<longrightarrow> \<not> fo_scanning g)"
proof -
  let ?w = "blank_world (empty_db\<lparr>db_folders := [scanned_folder]\<rparr>)"
  have g: "get_tracked_folder 1 ?w = (Inr scanned_folder, ?w)" by (simp add: get_tracked_folder_def blank_world_def scanned_folder_def)
  have l: "load_operational_pair 1 ?w = (Inl QueryReturnedNoRows, ?w)"
    by (simp add: load_operational_pair_def bind_m_def get_drive_pair_def blank_world_def empty_db_def)
  have "scan_folder_work 0 (\<lambda>_ _. []) (\<lambda>_. []) (\<lambda>_. True) 1 ?w = Some (Inl QueryReturnedNoRows, ?w)"
    using g l by (simp add: scan_folder_work_def scanned_folder_def)
  then obtain v where v: "scan_folder_job 0 (\<lambda>_ _. []) (\<lambda>_. []) (\<lambda>_. True) 1 ?w = Some v"
    "v = snd (publish_snapshot (snd (finish_folder_scan 1 ?w)))"
    by (simp add: scan_folder_job_def)
  have "map fo_id (db_folders (w_db v)) = [1]"
    by (simp add: v(2) finish_folder_scan_def seq_m_def bind_m_def set_folder_run folders.get_state blank_world_def scanned_folder_def)
  moreover have "\<forall>g \<in> set (db_folders (w_db v)). fo_id g = 1 \<longrightarrow> \<not> fo_scanning g"
    using folder_jobs_release [of 1 ?w "[]" "\<lambda>_. []" ab_pair 0 "\<lambda>_ _. []" "\<lambda>_. True", THEN conjunct2, THEN conjunct2] v(1) by simp
  ultimately show ?thesis using v(1) by (intro exI [of _ v] conjI)
qed

end
