(* ===== verification/Routes_Files.thy ===== *)
theory Routes_Files
  imports Api_Reply Tracker Virtual_Path
begin

section \<open>Routes: files and virtual paths\<close>

text \<open>\<open>api/routes/files.rs\<close> and the setting and removing of virtual paths in \<open>api/routes/virtual_paths.rs\<close>; \<open>cwd\<close> is the working directory.\<close>

record track_file_request =
  tr_drive_pair_id :: int
  tr_relative_path :: string
  tr_virtual_path :: "string option"

record list_files_query =
  lf_drive_id :: "int option"
  lf_virtual_prefix :: "string option"
  lf_mirrored :: "bool option"
  lf_page :: "int option"
  lf_per_page :: "int option"

text \<open>What is answered once the file is tracked: a new file whose standby is there is queued to adopt the copy it may find.\<close>

definition reply_tracked :: "drive_pair \<Rightarrow> bool \<Rightarrow> tracked_file \<Rightarrow> tracked_file reply prog" where
  "reply_tracked p existed_before tracked =
     (let reply = return_m (Json (if existed_before then 200 else 201) tracked) in
      bind_m (gets_m (\<lambda>w. standby_accepts_sync (w_fs w) p)) (\<lambda>accepts.
      if \<not> existed_before \<and> accepts then
        on_ok (has_pending_sync_queue_item_with_reason (tf_id tracked) ''user_action_required'' b3_sidecar_mismatch_reason) internal_error
          (\<lambda>has_b3_mismatch. if has_b3_mismatch then return_m (Json 201 tracked)
           else on_ok (create_sync_queue_item_dedup (tf_id tracked) ''adopt_mirror'') internal_error (\<lambda>_. reply))
      else reply))"

definition track_resolved :: "digest \<Rightarrow> drive_pair \<Rightarrow> string option \<Rightarrow> string \<Rightarrow> tracked_file reply prog" where
  "track_resolved b3 p virtual_path relative_path =
     bind_m (try_m (get_tracked_file_by_path (dp_id p) relative_path)) (\<lambda>before.
     on_ok (track_file b3 p relative_path virtual_path) validation_error
       (reply_tracked p (case before of Inr _ \<Rightarrow> True | Inl _ \<Rightarrow> False)))"

definition track_file_route :: "digest \<Rightarrow> key \<Rightarrow> track_file_request \<Rightarrow> tracked_file reply prog" where
  "track_file_route b3 cwd b =
     on_ok (load_operational_pair (tr_drive_pair_id b)) (\<lambda>_. Problem 404 ''RESOURCE_NOT_FOUND'' ''Drive pair not found'') (\<lambda>p.
     on_ok (resolve_m cwd (active_path p) (tr_relative_path b) TargetFile) validation_error
       (track_resolved b3 p (tr_virtual_path b)))"

definition list_files_route :: "list_files_query \<Rightarrow> (tracked_file list \<times> int \<times> int \<times> int) reply prog" where
  "list_files_route q =
     (let page = or_default 1 (lf_page q); per_page = or_default 50 (lf_per_page q) in
      on_ok (list_tracked_files (lf_drive_id q) (lf_virtual_prefix q) (lf_mirrored q) page per_page) internal_error (\<lambda>(files, count).
        return_m (Json 200 (files, count, page, per_page))))"

definition get_file_route :: "int \<Rightarrow> tracked_file reply prog" where
  "get_file_route i = on_ok (get_tracked_file i) (not_found ''Tracked file'' i) (\<lambda>f. return_m (Json 200 f))"

text \<open>The payload says that the file is mirrored.\<close>

definition mirror_file_route :: "digest \<Rightarrow> int \<Rightarrow> bool reply prog" where
  "mirror_file_route b3 i = on_ok (get_tracked_file i) (not_found ''Tracked file'' i) (\<lambda>file.
     on_ok (load_operational_pair (tf_drive_pair_id file)) internal_error (\<lambda>p.
     on_ok (mirror_file b3 p (tf_relative_path file)) internal_error (\<lambda>_.
     on_ok (update_tracked_file_mirror_status i True) internal_error (\<lambda>_.
     seq_m (discard (complete_pending_mirror_queue_for_file i)) (return_m (Json 200 True))))))"

definition untracked_name :: "tracked_file \<Rightarrow> string prog" where
  "untracked_name file = bind_m (try_m (get_drive_pair (tf_drive_pair_id file))) (\<lambda>r. return_m (case r of
       Inr p \<Rightarrow> fmt [dp_primary_path p, ''/'', tf_relative_path file]
     | Inl _ \<Rightarrow> tf_relative_path file))"

definition delete_file_route :: "int \<Rightarrow> unit reply prog" where
  "delete_file_route i = on_ok (get_tracked_file i) (not_found ''Tracked file'' i) (\<lambda>file.
     on_ok (has_active_sync_for_file i) internal_error (\<lambda>active.
     if active then return_m (Problem 409 ''CONFLICT'' ''Cannot delete file while another operation is active'')
     else on_ok (if tf_virtual_path file \<noteq> None then remove_virtual_path i else return_m ()) validation_error (\<lambda>_.
       on_ok (delete_tracked_file i) validation_error (\<lambda>_.
       bind_m (untracked_name file) (\<lambda>full_path.
       seq_m (discard (log_file_untracked i full_path))
      (seq_m (discard publish_snapshot) (return_m (NoBody 204))))))))"

definition set_virtual_path_route :: "int \<Rightarrow> string \<Rightarrow> unit reply prog" where
  "set_virtual_path_route i path = on_ok (set_virtual_path i path) (text_reply 400) (\<lambda>_.
     return_m (PlainText 200 (fmt [''Virtual path set for file #'', dec i])))"

definition remove_virtual_path_route :: "int \<Rightarrow> unit reply prog" where
  "remove_virtual_path_route i = on_ok (remove_virtual_path i) (text_reply 400) (\<lambda>_.
     return_m (PlainText 200 (fmt [''Virtual path removed for file #'', dec i])))"

end
