(* ===== verification/Http_Files.thy ===== *)
theory Http_Files
  imports Routes_Files Tracker_Correct Path_Resolution
begin

section \<open>The file routes, proved\<close>

text \<open>What a client is told of a deletion is what happened to the rows, and tracking through the interface never reaches outside the drive.\<close>

subsection \<open>Deleting\<close>

lemma rest_remove_path: "keeps (rest_is ks qs fs) (remove_virtual_path i)"
  unfolding remove_virtual_path_def update_tracked_file_virtual_path_def
  by (intro keeps_bind keeps_seq files.keeps_get keeps_option rest_update_files rest_link)
    (simp_all add: keeps_def lift_r_def row_key_def)

lemma rest_self: "rest_is (map row_key (db_files (w_db w))) (db_queue (w_db w)) (db_folders (w_db w)) w"
  by (simp add: rest_is_def)

lemma delete_rows: "rest_is ks qs fs w \<Longrightarrow> \<exists>v. delete_tracked_file i w = (Inr (), v)
    \<and> rest_is (filter (\<lambda>k. fst k \<noteq> i) ks) (filter (\<lambda>q. sq_tracked_file_id q \<noteq> i) qs) fs v"
proof -
  have "map row_key (filter (\<lambda>f. tf_id f \<noteq> i) xs) = filter (\<lambda>k. fst k \<noteq> i) (map row_key xs)" for xs
    by (induction xs) (simp_all add: row_key_def)
  then show "rest_is ks qs fs w \<Longrightarrow> ?thesis"
    by (auto simp: rest_is_def delete_tracked_file_def seq_m_def drop_file_rows_def drop_file_queue_def)
qed

lemma untracked_name_run: "\<exists>s. untracked_name f w = (Inr s, w)"
  by (simp add: untracked_name_def bind_m_def try_m_def get_drive_pair_def split: option.splits)

text \<open>What follows the removal of the virtual path.\<close>

lemma delete_after_path:
  assumes "rest_is ks qs fs w"
  shows "\<exists>v. on_ok (delete_tracked_file i) validation_error (\<lambda>_. bind_m (untracked_name file) (\<lambda>full_path.
       seq_m (discard (log_file_untracked i full_path)) (seq_m (discard publish_snapshot) (return_m (NoBody 204))))) w = (Inr (NoBody 204), v)
    \<and> rest_is (filter (\<lambda>k. fst k \<noteq> i) ks) (filter (\<lambda>q. sq_tracked_file_id q \<noteq> i) qs) fs v"
proof -
  obtain u where u: "delete_tracked_file i w = (Inr (), u)"
    "rest_is (filter (\<lambda>k. fst k \<noteq> i) ks) (filter (\<lambda>q. sq_tracked_file_id q \<noteq> i) qs) fs u"
    using delete_rows [OF assms] by blast
  obtain s where s: "untracked_name file u = (Inr s, u)" using untracked_name_run by blast
  have "rest_is ks' qs' fs' (snd (publish_snapshot (snd (log_file_untracked i s u)))) = rest_is ks' qs' fs' u" for ks' qs' fs'
    by (simp add: rest_is_def)
  then show ?thesis using u s
    by (intro exI [of _ "snd (publish_snapshot (snd (log_file_untracked i s u)))"]) (simp add: on_ok_run bind_m_def seq_m_discard)
qed

lemma delete_free:
  assumes "get_tracked_file i w = (Inr f, w)" "has_active_sync_for_file i w = (Inr False, w)"
  shows "\<exists>r v. delete_file_route i w = (Inr r, v) \<and> (if tf_virtual_path f = None \<or> reply_status r = 204
    then reply_status r = 204 \<and> rest_is (filter (\<lambda>k. fst k \<noteq> i) (map row_key (db_files (w_db w))))
      (filter (\<lambda>q. sq_tracked_file_id q \<noteq> i) (db_queue (w_db w))) (db_folders (w_db w)) v
    else reply_status r = 400 \<and> rest_is (map row_key (db_files (w_db w))) (db_queue (w_db w)) (db_folders (w_db w)) v)"
proof -
  let ?path = "if tf_virtual_path f \<noteq> None then remove_virtual_path i else return_m ()"
  let ?rest = "on_ok (delete_tracked_file i) validation_error (\<lambda>_. bind_m (untracked_name f) (\<lambda>full_path.
     seq_m (discard (log_file_untracked i full_path)) (seq_m (discard publish_snapshot) (return_m (NoBody 204))))) :: unit reply prog"
  have run: "delete_file_route i w = on_ok ?path validation_error (\<lambda>_. ?rest) w"
    by (simp add: delete_file_route_def on_ok_good [where m = "get_tracked_file i", OF assms(1)] on_ok_good [where m = "has_active_sync_for_file i", OF assms(2)])
  obtain r u where u: "?path w = (r, u)" by fastforce
  have rest: "rest_is (map row_key (db_files (w_db w))) (db_queue (w_db w)) (db_folders (w_db w)) u"
    using keeps_result [OF rest_remove_path rest_self, of i w] rest_self [of w] u by (auto split: if_splits)
  show ?thesis
  proof (cases r)
    case (Inl e)
    then have "tf_virtual_path f \<noteq> None" using u by (auto split: if_splits)
    moreover have "delete_file_route i w = (Inr (validation_error e), u)"
      unfolding run by (rule on_ok_bad [where m = ?path, OF u [unfolded Inl]])
    ultimately show ?thesis using rest by (intro exI [of _ "validation_error e"] exI [of _ u]) (simp add: validation_error_def)
  next
    case (Inr x)
    obtain v where v: "?rest u = (Inr (NoBody 204), v)"
      "rest_is (filter (\<lambda>k. fst k \<noteq> i) (map row_key (db_files (w_db w)))) (filter (\<lambda>q. sq_tracked_file_id q \<noteq> i) (db_queue (w_db w)))
        (db_folders (w_db w)) v"
      using delete_after_path [OF rest] by blast
    moreover have "delete_file_route i w = (Inr (NoBody 204), v)"
      unfolding run using v(1) by (simp only: on_ok_good [where m = ?path, OF u [unfolded Inr]])
    ultimately show ?thesis by (intro exI [of _ "NoBody 204"] exI [of _ v]) simp
  qed
qed


subsection \<open>Tracking\<close>

text \<open>Every answer of \<open>m\<close> satisfies \<open>Q\<close> in the state it comes with.\<close>

definition yields :: "('a \<Rightarrow> 's \<Rightarrow> bool) \<Rightarrow> ('s, 'a) m \<Rightarrow> bool" where
  "yields Q m = (\<forall>w x v. m w = (Inr x, v) \<longrightarrow> Q x v)"

lemma yields_bind: "(\<And>x. yields Q (k x)) \<Longrightarrow> yields Q (bind_m m k)"
  by (auto simp: yields_def bind_m_def split: prod.splits sum.splits)

lemma yields_seq: "yields Q k \<Longrightarrow> yields Q (seq_m m k)"
  by (simp add: seq_m_def yields_bind)

lemma yields_get: "yields (\<lambda>f v. tf_id f = i \<and> f \<in> set (db_files (w_db v))) (get_tracked_file i)"
  by (auto simp: yields_def files.get_Inr dest: find_SomeD)

lemma yields_existing: "yields (\<lambda>g v. tf_id g = tf_id f \<and> g \<in> set (db_files (w_db v))) (track_existing p f path vp)"
  unfolding track_existing_def by (intro yields_seq yields_get)

lemma yields_new: "yields (\<lambda>g v. g \<in> set (db_files (w_db v))) (track_new b3 p path vp)"
proof -
  have get: "yields (\<lambda>g v. g \<in> set (db_files (w_db v))) (get_tracked_file i)" for i using yields_get [of i] by (simp add: yields_def)
  have "yields (\<lambda>g v. g \<in> set (db_files (w_db v))) (case x of (f, mm) \<Rightarrow> seq_m (a f) (seq_m (b f mm) (seq_m (c f) (get_tracked_file (tf_id f)))))" for a b c x
    by (cases x) (simp, intro yields_seq get)
  then show ?thesis unfolding track_new_def by (intro yields_bind)
qed

lemma one_key: "distinct (map fst ks) \<Longrightarrow> (i, a) \<in> set ks \<Longrightarrow> (i, b) \<in> set ks \<Longrightarrow> a = b"
  by (induction ks) (force simp: image_iff)+

lemma key_member: "keys_are ks nx v \<Longrightarrow> f \<in> set (db_files (w_db v)) \<Longrightarrow> (tf_id f, tf_drive_pair_id f, tf_relative_path f) \<in> set ks"
  by (auto simp: keys_are_def row_key_def)

text \<open>The file a success answers has the pair and the path asked for, whether it was tracked before or not.\<close>

lemma tracked_asked:
  assumes "db_ok (w_db w)" "track_file b3 p path vp w = (Inr f, v)"
  shows "tf_drive_pair_id f = dp_id p \<and> tf_relative_path f = path"
proof -
  let ?ks = "map row_key (db_files (w_db w))" and ?nx = "nx_file (w_db w)"
  let ?K = "keys_are ?ks ?nx"
  have d: "distinct (map fst ?ks)" "\<forall>k \<in> set ?ks. fst k \<noteq> ?nx"
    using assms(1) by (force simp: db_ok_def Let_def files_ok_def keys_ok_def row_key_def comp_def)+
  obtain u1 u2 r u3 where 1: "ensure_drive_root_marker (active_path p) w = (Inr (), u1)"
    and 2: "(if path_is_available (w_fs u1) (standby_path p) then discard (ensure_drive_root_marker (standby_path p)) u1 else (Inr (), u1)) = (Inr (), u2)"
    and 3: "get_tracked_file_by_path (dp_id p) path u2 = (r, u3)"
    and 4: "(case r of Inr f \<Rightarrow> track_existing p f path vp | Inl _ \<Rightarrow> track_new b3 p path vp) u3 = (Inr f, v)"
    using assms(2) by (cases rule: allowed_cases [of p w]) (auto simp: track_file_def)
  have "?K u1" by (rule keeps_result [where P = ?K, OF keys_marker keys_refl 1])
  then have k: "?K u2" using 2 keepsD [where P = ?K, OF keys_marker] by (auto split: if_splits)
  have u3: "u3 = u2" using 3 by (auto simp: get_tracked_file_by_path_def split: option.splits)
  show ?thesis
  proof (cases r)
    case (Inr g)
    then have g: "g \<in> set (db_files (w_db u2))" "tf_drive_pair_id g = dp_id p" "tf_relative_path g = path"
      using 3 by (auto simp: get_tracked_file_by_path_def split: option.splits dest: find_SomeD)
    have t: "track_existing p g path vp u2 = (Inr f, v)" using 4 Inr u3 by simp
    have kv: "?K v" by (rule keeps_result [where P = ?K, OF keys_track_existing k t])
    have f: "tf_id f = tf_id g" "f \<in> set (db_files (w_db v))" using yields_existing t unfolding yields_def by blast+
    show ?thesis using one_key [OF d(1), of "tf_id g"] key_member [OF k g(1)] key_member [OF kv f(2)] f(1) g by fastforce
  next
    case (Inl e)
    then have t: "track_new b3 p path vp u2 = (Inr f, v)" using 4 u3 by simp
    have n: "keys_are (?ks @ [(?nx, dp_id p, path)]) (?nx + 1) v" "tf_id f = ?nx"
      using endsD [OF track_new_ends [OF d(2)] k t] by (simp_all add: new_row_def)
    have f: "f \<in> set (db_files (w_db v))" using yields_new t unfolding yields_def by blast
    have "distinct (map fst (?ks @ [(?nx, dp_id p, path)]))" using d by (auto simp: image_iff)
    from one_key [OF this, of "tf_id f"] show ?thesis using key_member [OF n(1) f] n(2) by fastforce
  qed
qed

lemma on_ok_Json:
  assumes "on_ok m bad k w = (Inr (Json s x), v)" "\<And>e. bad e \<noteq> Json s x"
  obtains y u where "m w = (Inr y, u)" "k y u = (Inr (Json s x), v)"
  using assms by (auto simp: on_ok_run split: prod.splits sum.splits)

lemma after_tracking:
  assumes "reply_tracked p existed g w = (Inr (Json s f), v)"
  shows "f = g \<and> s = (if existed then 200 else 201)"
  using assms by (auto simp: reply_tracked_def Let_def on_ok_run internal_error_def split: prod.splits sum.splits if_splits)

lemma track_resolved_Json:
  assumes "track_resolved b3 p vp path w = (Inr (Json s f), v)"
  shows "(\<exists>u. track_file b3 p path vp w = (Inr f, u))
    \<and> s = (if \<exists>g. g \<in> set (db_files (w_db w)) \<and> tf_drive_pair_id g = dp_id p \<and> tf_relative_path g = path then 200 else 201)"
proof -
  let ?e = "\<exists>g. g \<in> set (db_files (w_db w)) \<and> tf_drive_pair_id g = dp_id p \<and> tf_relative_path g = path"
  obtain r where r: "get_tracked_file_by_path (dp_id p) path w = (r, w)" "(case r of Inr _ \<Rightarrow> True | Inl _ \<Rightarrow> False) = ?e"
    using find_None [of "\<lambda>f. tf_drive_pair_id f = dp_id p \<and> tf_relative_path f = path" "db_files (w_db w)"]
    by (cases "find (\<lambda>f. tf_drive_pair_id f = dp_id p \<and> tf_relative_path f = path) (db_files (w_db w))")
      (auto simp: get_tracked_file_by_path_def dest: find_SomeD)
  have "on_ok (track_file b3 p path vp) validation_error (reply_tracked p ?e) w = (Inr (Json s f), v)"
    using assms r by (simp add: track_resolved_def bind_m_def try_m_def)
  then obtain g u where g: "track_file b3 p path vp w = (Inr g, u)" "reply_tracked p ?e g u = (Inr (Json s f), v)"
    by (rule on_ok_Json) (simp_all add: validation_error_def)
  then show ?thesis using after_tracking [OF g(2)] by blast
qed

text \<open>C36: No request makes the server track something outside a drive: when a request to track a file is answered with a file, the file belongs
  to the pair asked for, its path is made of plain names, leads from the resolved root of the pair's active drive without meeting a
  symbolic link, and ends at a regular file there, however the path was written in the request; and the status tells whether the
  file was tracked before (200) or is new (201).\<close>

theorem http_tracking_stays_inside:
  assumes "db_ok (w_db w)" "track_file_route b3 cwd b w = (Inr (Json s f), v)"
  shows "\<exists>p u. load_operational_pair (tr_drive_pair_id b) w = (Inr p, u) \<and> tf_drive_pair_id f = dp_id p
    \<and> s = (if \<exists>g. g \<in> set (db_files (w_db u)) \<and> tf_drive_pair_id g = dp_id p \<and> tf_relative_path g = tf_relative_path f then 200 else 201)
    \<and> (is_absolute (active_path p) \<or> canonical_dir (w_fs u) cwd \<longrightarrow> (\<exists>root. realpath cwd (w_fs u) (active_path p) = Some root
         \<and> list_all plain_name (split_on (CHR ''/'') (tf_relative_path f))
         \<and> canon 0 (w_fs u) root (split_on (CHR ''/'') (tf_relative_path f)) = Some (root @ split_on (CHR ''/'') (tf_relative_path f))
         \<and> key_is_file (w_fs u) (root @ split_on (CHR ''/'') (tf_relative_path f))))"
proof -
  obtain p u where p: "load_operational_pair (tr_drive_pair_id b) w = (Inr p, u)"
    and 1: "on_ok (resolve_m cwd (active_path p) (tr_relative_path b) TargetFile) validation_error
       (track_resolved b3 p (tr_virtual_path b)) u = (Inr (Json s f), v)"
    using assms(2) unfolding track_file_route_def by (rule on_ok_Json) simp_all
  obtain path where path: "resolve_path_within_drive_root cwd (w_fs u) (active_path p) (tr_relative_path b) TargetFile = Inr path"
    and 2: "track_resolved b3 p (tr_virtual_path b) path u = (Inr (Json s f), v)"
    using 1 by (rule on_ok_Json) (simp_all add: validation_error_def resolve_m_def)
  obtain x where x: "track_file b3 p path (tr_virtual_path b) u = (Inr f, x)" using track_resolved_Json [OF 2] by blast
  have "db_inv u" by (rule keeps_result [OF db_keeps_load _ p]) (use assms(1) in \<open>simp add: db_inv_def\<close>)
  then have f: "tf_drive_pair_id f = dp_id p" "tf_relative_path f = path" using tracked_asked [OF _ x] by (simp_all add: db_inv_def)
  show ?thesis using p f track_resolved_Json [OF 2] resolve_inside [OF path] by (intro exI [of _ p] exI [of _ u]) auto
qed

text \<open>A file that is tracked already, of a pair whose active drive is the secondary one.\<close>

lemma with_row_ok: "db_ok (w_db (with_row c))"
  by (simp add: db_ok_def pairs_ok_def files_ok_def folders_ok_def queue_ok_def events_ok_def runs_ok_def
      results_ok_def keys_ok_def pair_ok_def state_names_def tracked_eval)

lemma with_row_load: "load_operational_pair 1 (with_row c) = (Inr ba_pair, with_row c)"
proof -
  have g: "get_drive_pair 1 (with_row c) = (Inr ba_pair, with_row c)" by (simp add: get_drive_pair_def tracked_eval)
  have a: "active_role_enum ba_pair = Secondary" by (simp add: ba_pair_def active_role_enum_def role_from_str_def)
  have "path_is_available (w_fs (with_row c)) ''/b''" "\<not> missing_expected_root_marker (w_fs (with_row c)) ba_pair Secondary"
    by (simp_all add: missing_expected_root_marker_def path_for_role_def path_is_available_def path_exists_def metadata_def
        read_dir_ok_def drive_root_marker_path_def drive_root_marker_def tracked_eval)
  then show ?thesis by (simp add: load_operational_pair_def bind_m_def g maybe_emergency_failover_def Let_def a ba_roles(1))
qed

lemma with_row_resolve: "resolve_m [] ''/b'' ''x'' TargetFile (with_row c) = (Inr ''x'', with_row c)"
proof -
  have n: "fs_nodes (w_fs (with_row c)) [''/'', ''b''] = Some Directory" "fs_nodes (w_fs (with_row c)) [''/'', ''b'', ''x''] = Some (RegFile c 420)"
    "\<not> fs_nostat (w_fs (with_row c)) k" for k
    by (simp_all add: with_row_def untracked_def two_copies_def blank_world_def)
  have "realpath [] (w_fs (with_row c)) ''/b'' = Some [''/'', ''b'']" "realpath [] (w_fs (with_row c)) ''/b/x'' = Some [''/'', ''b'', ''x'']"
    by (simp_all add: realpath_def is_absolute_def n)
  moreover have "str_trim ''x'' = ''x''" "path_join ''/b'' ''x'' = ''/b/x''" "key_string [''/'', ''b''] = ''/b''"
    by (simp_all add: str_trim_def is_ascii_ws_def path_join_def is_absolute_def key_string_def)
  ultimately show ?thesis
    by (simp add: resolve_m_def resolve_path_within_drive_root_def contains_parent_dir_def key_strip_prefix_def key_is_file_def n Let_def)
qed

lemma with_row_again: "\<exists>f v. track_file b3 ba_pair ''x'' None (with_row c) = (Inr f, v)"
proof -
  let ?w = "with_row c"
  have a: "ensure_drive_root_marker ''/a'' ?w = (Inr (), ?w)" and b: "ensure_drive_root_marker ''/b'' ?w = (Inr (), ?w)"
    by (simp_all add: ensure_drive_root_marker_def path_is_available_def path_exists_def metadata_def read_dir_ok_def
        drive_root_marker_path_def drive_root_marker_def with_row_def untracked_def sample_eval)
  have n: "try_m (get_tracked_file_by_path 1 ''x'') ?w = (Inr (Inr (tracked_row c)), ?w)"
    by (simp add: get_tracked_file_by_path_def try_m_def tracked_eval)
  have p: "require_pair_mutation_allowed ba_pair ?w = (Inr (), ?w)" by (simp add: require_pair_mutation_allowed_def ba_roles)
  have j: "path_join ''/b'' ''x'' = ''/b/x''" by (simp add: path_join_def is_absolute_def)
  have r: "ensure_world_readable ''/b/x'' ?w = (Inr (), ?w)"
    by (simp add: ensure_world_readable_def metadata_def node_mode_def world_readable_mode_def tracked_eval)
  obtain v where u: "update_tracked_file_sources 1 True False ?w = (Inr (), v)" "1 \<in> tf_id ` set (db_files (w_db v))"
    by (simp add: update_tracked_file_sources_def update_files_def upd_where_def with_row_def tracked_row_def)
  obtain f where f: "get_tracked_file 1 v = (Inr f, v)" using files.get_found [of _ v] u(2) by force
  have i: "tf_id (tracked_row c) = 1" by (simp add: tracked_row_def)
  have "track_existing ba_pair (tracked_row c) ''x'' None ?w = (Inr f, v)"
    by (simp add: track_existing_def ba_roles(1) j seq_m_def bind_m_def r i u(1) opt_m_def f)
  then have "track_file b3 ba_pair ''x'' None ?w = (Inr f, v)"
    using a by (simp add: track_file_def ba_roles(1,2,4) seq_m_def bind_m_def p b n)
  then show ?thesis by blast
qed

theorem http_tracking_stays_inside_witness:
  "\<exists>f v. track_file_route (\<lambda>_. ''h'') [] \<lparr>tr_drive_pair_id = 1, tr_relative_path = ''x'', tr_virtual_path = None\<rparr> (with_row [7])
       = (Inr (Json 200 f), v) \<and> tf_drive_pair_id f = 1 \<and> list_all plain_name (split_on (CHR ''/'') (tf_relative_path f))"
proof -
  let ?b = "\<lparr>tr_drive_pair_id = 1, tr_relative_path = ''x'', tr_virtual_path = None\<rparr>"
  obtain f v where t: "track_file (\<lambda>_. ''h'') ba_pair ''x'' None (with_row [7]) = (Inr f, v)" using with_row_again by blast
  have n: "try_m (get_tracked_file_by_path 1 ''x'') (with_row [7]) = (Inr (Inr (tracked_row [7])), with_row [7])"
    by (simp add: get_tracked_file_by_path_def try_m_def tracked_eval)
  have "reply_tracked ba_pair True f v = (Inr (Json 200 f), v)" by (simp add: reply_tracked_def bind_m_def)
  then have "track_resolved (\<lambda>_. ''h'') ba_pair None ''x'' (with_row [7]) = (Inr (Json 200 f), v)"
    by (simp add: track_resolved_def bind_m_def ba_roles(4) n on_ok_run t)
  then have run: "track_file_route (\<lambda>_. ''h'') [] ?b (with_row [7]) = (Inr (Json 200 f), v)"
    by (simp add: track_file_route_def on_ok_run with_row_load ba_roles(1) with_row_resolve)
  have abs: "is_absolute (active_path ba_pair)" by (simp add: ba_roles(1) is_absolute_def)
  from http_tracking_stays_inside [OF with_row_ok run] show ?thesis
  proof (elim exE conjE, goal_cases)
    case (1 p u)
    have p: "p = ba_pair" using 1(1) by (simp add: with_row_load)
    have "list_all plain_name (split_on (CHR ''/'') (tf_relative_path f))" using 1(4) abs unfolding p by blast
    then show ?case using run 1(2) by (intro exI [of _ f] exI [of _ v] conjI) (simp_all add: p ba_roles(4))
  qed
qed

end
