(* ===== verification/Cli_Drives.thy ===== *)
theory Cli_Drives
  imports Sync_Queue
begin

section \<open>Command line: drive pairs\<close>

text \<open>
  \<open>cli/commands/drives.rs\<close>. The handler of a group of commands is a function on the parsed command; its result is what the command
  prints, as values instead of columns of text, and an error is the message and the exit code of the process.
\<close>

definition printing :: "('a \<Rightarrow> 'b) \<Rightarrow> 'a prog \<Rightarrow> 'b prog" where
  "printing f m = bind_m m (\<lambda>x. return_m (f x))"

lemma printing_run: "printing f m w = (case m w of (Inl e, v) \<Rightarrow> (Inl e, v) | (Inr x, v) \<Rightarrow> (Inr (f x), v))"
  by (simp add: printing_def bind_m_def split: prod.splits sum.splits)

record drives_add_args =
  da_name :: string
  da_primary :: string
  da_secondary :: string
  da_no_validate :: bool
  da_primary_media_type :: string
  da_secondary_media_type :: string

record drives_update_args =
  du_id :: int
  du_name :: "string option"
  du_primary :: "string option"
  du_secondary :: "string option"
  du_primary_media_type :: "string option"
  du_secondary_media_type :: "string option"

record assign_args =
  as_id :: int
  as_role :: drive_role
  as_new_path :: string
  as_no_validate :: bool

datatype drives_command =
    DrivesAdd drives_add_args
  | DrivesList
  | DrivesShow int
  | DrivesUpdate drives_update_args
  | DrivesRemove int
  | ReplaceMark int drive_role
  | ReplaceConfirm int drive_role
  | ReplaceCancel int drive_role
  | ReplaceAssign assign_args

datatype drives_output =
    PrintPair drive_pair
  | PrintPairs "drive_pair list"
  | PairRemoved int
  | PairAssigned drive_pair nat

definition media_check :: "string \<Rightarrow> string \<Rightarrow> unit prog" where
  "media_check option_name m = (if m \<in> {''hdd'', ''ssd''} then return_m ()
     else bail (fmt [option_name, '' must be '', squoted ''hdd'', '' or '', squoted ''ssd'']))"

definition already_registered :: "err \<Rightarrow> err" where
  "already_registered e = (if is_duplicate_drive_path_error e
     then Bail ''Drive path is already registered: each physical path may belong to only one drive pair'' else e)"

definition map_err_m :: "(err \<Rightarrow> err) \<Rightarrow> 'a prog \<Rightarrow> 'a prog" where
  "map_err_m f m = bind_m (try_m m) (\<lambda>r. case r of Inl e \<Rightarrow> raise_m (f e) | Inr x \<Rightarrow> return_m x)"

fun handle_drives :: "drives_command \<Rightarrow> drives_output prog" where
  "handle_drives (DrivesAdd a) =
     seq_m (media_check ''--primary-media-type'' (da_primary_media_type a))
    (seq_m (media_check ''--secondary-media-type'' (da_secondary_media_type a))
    (seq_m (if da_no_validate a then return_m () else validate_drive_pair (da_primary a) (da_secondary a))
    (bind_m (map_err_m already_registered (create_drive_pair_with_media (da_name a) (da_primary a) (da_secondary a)
               (da_primary_media_type a) (da_secondary_media_type a))) (\<lambda>p.
     seq_m (discard (log_drive_created (dp_id p) (dp_name p) (dp_primary_path p) (dp_secondary_path p)))
       (return_m (PrintPair p))))))"
| "handle_drives DrivesList = printing PrintPairs list_drive_pairs"
| "handle_drives (DrivesShow i) = printing PrintPair (get_drive_pair i)"
| "handle_drives (DrivesUpdate a) =
     seq_m (opt_m (du_primary_media_type a) (media_check ''--primary-media-type''))
    (seq_m (opt_m (du_secondary_media_type a) (media_check ''--secondary-media-type''))
    (bind_m (update_drive_pair_with_media (du_id a) (du_name a) (du_primary a) (du_secondary a)
               (du_primary_media_type a) (du_secondary_media_type a)) (\<lambda>p.
     seq_m (discard (log_drive_updated (dp_id p) (dp_name p))) (return_m (PrintPair p)))))"
| "handle_drives (DrivesRemove i) = bind_m (try_m (get_drive_pair i)) (\<lambda>found.
     seq_m (delete_drive_pair i)
    (seq_m (case found of Inr p \<Rightarrow> discard (log_drive_deleted i (dp_name p)) | Inl _ \<Rightarrow> return_m ())
       (return_m (PairRemoved i))))"
| "handle_drives (ReplaceMark i r) = printing PrintPair (mark_drive_quiescing i r)"
| "handle_drives (ReplaceConfirm i r) = printing PrintPair (confirm_drive_failure i r)"
| "handle_drives (ReplaceCancel i r) = printing PrintPair (cancel_drive_quiescing i r)"
| "handle_drives (ReplaceAssign a) = bind_m (get_drive_pair (as_id a)) (\<lambda>p.
     seq_m (if as_no_validate a then return_m ()
            else (case as_role a of Primary \<Rightarrow> validate_drive_pair (as_new_path a) (dp_secondary_path p)
                  | Secondary \<Rightarrow> validate_drive_pair (dp_primary_path p) (as_new_path a)))
       (printing (\<lambda>(q, n). PairAssigned q n) (assign_replacement_drive (as_id a) (as_role a) (as_new_path a))))"

end
