(* ===== verification/Cli_Files.thy ===== *)
theory Cli_Files
  imports Cli_Drives Backup Tracker Virtual_Path Change_Detection
begin

section \<open>Command line: files, folders, virtual paths\<close>

text \<open>
  \<open>cli/commands/files.rs\<close>, \<open>folders.rs\<close> and \<open>virtual_paths.rs\<close>. Indexing a string beyond its end is a panic, which ends the process; here
  it is an error, as nothing is written after it. Watching a folder is not modelled.
\<close>

definition prefix_m :: "nat \<Rightarrow> string \<Rightarrow> string prog" where
  "prefix_m n s = (if length s < n then bail ''byte index out of bounds'' else return_m (take n s))"

subsection \<open>Files\<close>

record list_files_args =
  la_drive_id :: "int option"
  la_virtual_prefix :: "string option"
  la_mirrored :: "bool option"
  la_page :: int
  la_per_page :: int

datatype files_command =
    FilesTrack int string "string option"
  | FilesList list_files_args
  | FilesShow int
  | FilesMirror int
  | FilesUntrack int

datatype files_output =
    FileTracked tracked_file bool
  | FilePage "(tracked_file \<times> string) list" int
  | PrintFile tracked_file
  | FileMirrored tracked_file
  | FileUntracked int

definition track_command :: "digest \<Rightarrow> int \<Rightarrow> string \<Rightarrow> string option \<Rightarrow> files_output prog" where
  "track_command b3 pair_id relative_path virtual_path =
     bind_m (load_operational_pair pair_id) (\<lambda>p.
     bind_m (try_m (get_tracked_file_by_path pair_id relative_path)) (\<lambda>before.
     bind_m (track_file b3 p relative_path virtual_path) (\<lambda>tracked.
     bind_m (has_pending_sync_queue_item_with_reason (tf_id tracked) ''user_action_required'' b3_sidecar_mismatch_reason) (\<lambda>has_b3_mismatch.
     bind_m (gets_m (\<lambda>w. standby_accepts_sync (w_fs w) p)) (\<lambda>accepts.
     if (case before of Inr _ \<Rightarrow> False | Inl _ \<Rightarrow> True) \<and> accepts \<and> \<not> has_b3_mismatch
     then bind_m (create_sync_queue_item_dedup (tf_id tracked) ''adopt_mirror'') (\<lambda>_. return_m (FileTracked tracked True))
     else return_m (FileTracked tracked False))))))"

definition list_files_command :: "list_files_args \<Rightarrow> files_output prog" where
  "list_files_command a = bind_m (list_tracked_files (la_drive_id a) (la_virtual_prefix a) (la_mirrored a) (la_page a) (la_per_page a))
     (\<lambda>(files, n). printing (\<lambda>rows. FilePage rows n)
        (collect_m files (\<lambda>f. bind_m (prefix_m 16 (tf_checksum f)) (\<lambda>c. return_m (f, c)))))"

definition mirror_command :: "digest \<Rightarrow> int \<Rightarrow> files_output prog" where
  "mirror_command b3 i = bind_m (get_tracked_file i) (\<lambda>file.
     bind_m (load_operational_pair (tf_drive_pair_id file)) (\<lambda>p.
     bind_m (mirror_file b3 p (tf_relative_path file)) (\<lambda>_.
     seq_m (update_tracked_file_mirror_status i True)
    (seq_m (discard (complete_pending_mirror_queue_for_file i)) (return_m (FileMirrored file))))))"

definition untrack_command :: "int \<Rightarrow> files_output prog" where
  "untrack_command i = bind_m (get_tracked_file i) (\<lambda>file.
     seq_m (if tf_virtual_path file \<noteq> None then remove_virtual_path i else return_m ())
    (seq_m (delete_tracked_file i)
    (bind_m (try_m (get_drive_pair (tf_drive_pair_id file))) (\<lambda>r.
     let full_path = (case r of Inr p \<Rightarrow> fmt [dp_primary_path p, ''/'', tf_relative_path file] | Inl _ \<Rightarrow> tf_relative_path file) in
     seq_m (discard (log_file_untracked i full_path)) (return_m (FileUntracked i))))))"

fun handle_files :: "digest \<Rightarrow> files_command \<Rightarrow> files_output prog" where
  "handle_files b3 (FilesTrack pair_id path vp) = track_command b3 pair_id path vp"
| "handle_files b3 (FilesList a) = list_files_command a"
| "handle_files b3 (FilesShow i) = printing PrintFile (get_tracked_file i)"
| "handle_files b3 (FilesMirror i) = mirror_command b3 i"
| "handle_files b3 (FilesUntrack i) = untrack_command i"

subsection \<open>Folders\<close>

record add_folder_args =
  fa_drive_pair_id :: int
  fa_folder_path :: string
  fa_virtual_path :: "string option"
  fa_include_b3 :: bool

datatype folders_command =
    FoldersAdd add_folder_args
  | FoldersList
  | FoldersShow int
  | FoldersRemove int
  | FoldersScan int
  | FoldersMirror int

datatype folders_output =
    PrintFolder tracked_folder
  | PrintFolders "tracked_folder list"
  | FolderRemoved folder_untrack_result
  | FolderScanned "tracked_file list" "(tracked_file \<times> string \<times> string) list"
  | FolderMirrored nat tracked_folder

definition changes_in_folder :: "digest \<Rightarrow> drive_pair \<Rightarrow> tracked_folder \<Rightarrow> tracked_file list \<Rightarrow> folders_output prog" where
  "changes_in_folder b3 p folder new_files = bind_m (scan_and_record_changes b3 p) (\<lambda>changes.
     let folder_changes = filter (\<lambda>(f, _). prefix (fo_folder_path folder @ ''/'') (tf_relative_path f)) changes in
     printing (FolderScanned new_files) (collect_m folder_changes (\<lambda>(f, new_hash).
       bind_m (prefix_m 8 (tf_checksum f)) (\<lambda>stored. bind_m (prefix_m 8 new_hash) (\<lambda>current. return_m (f, stored, current))))))"

definition scan_command ::
    "nat \<Rightarrow> listing \<Rightarrow> digest \<Rightarrow> int \<Rightarrow> world \<Rightarrow> ((err + folders_output) \<times> world) option" where
  "scan_command fuel ls b3 i w = (case get_tracked_folder i w of
       (Inl e, v) \<Rightarrow> Some (Inl e, v)
     | (Inr folder, v) \<Rightarrow> (case load_operational_pair (fo_drive_pair_id folder) v of
         (Inl e, u) \<Rightarrow> Some (Inl e, u)
       | (Inr p, u) \<Rightarrow> after_walk (auto_track_folder_files fuel ls b3 p folder u) (changes_in_folder b3 p folder)))"

fun mirror_each :: "digest \<Rightarrow> drive_pair \<Rightarrow> tracked_file list \<Rightarrow> nat \<Rightarrow> nat prog" where
  "mirror_each b3 p [] mirrored = return_m mirrored"
| "mirror_each b3 p (file # files) mirrored =
     bind_m (mirror_file b3 p (tf_relative_path file)) (\<lambda>_.
     seq_m (update_tracked_file_mirror_status (tf_id file) True)
    (seq_m (discard (complete_pending_mirror_queue_for_file (tf_id file))) (mirror_each b3 p files (mirrored + 1))))"

definition mirror_folder_command :: "digest \<Rightarrow> int \<Rightarrow> folders_output prog" where
  "mirror_folder_command b3 i = bind_m (get_tracked_folder i) (\<lambda>folder.
     bind_m (load_operational_pair (fo_drive_pair_id folder)) (\<lambda>p.
     bind_m (gets_m (\<lambda>w. standby_accepts_sync (w_fs w) p)) (\<lambda>accepts.
     if \<not> accepts then bail ''Standby drive is not currently available for mirroring''
     else bind_m (list_tracked_files_under_folder (dp_id p) (fo_folder_path folder)) (\<lambda>files.
       printing (\<lambda>n. FolderMirrored n folder) (mirror_each b3 p (filter (\<lambda>f. \<not> tf_is_mirrored f) files) 0)))))"

fun handle_folders ::
    "nat \<Rightarrow> listing \<Rightarrow> digest \<Rightarrow> folders_command \<Rightarrow> world \<Rightarrow> ((err + folders_output) \<times> world) option" where
  "handle_folders fuel ls b3 (FoldersAdd a) w = Some (bind_m (load_operational_pair (fa_drive_pair_id a)) (\<lambda>p.
     printing PrintFolder (track_folder_with_options p (fa_folder_path a) (fa_virtual_path a) (fa_include_b3 a))) w)"
| "handle_folders fuel ls b3 FoldersList w = Some (printing PrintFolders list_tracked_folders w)"
| "handle_folders fuel ls b3 (FoldersShow i) w = Some (printing PrintFolder (get_tracked_folder i) w)"
| "handle_folders fuel ls b3 (FoldersRemove i) w = Some (printing FolderRemoved (untrack_folder_cascade i) w)"
| "handle_folders fuel ls b3 (FoldersScan i) w = scan_command fuel ls b3 i w"
| "handle_folders fuel ls b3 (FoldersMirror i) w = Some (mirror_folder_command b3 i w)"

subsection \<open>Virtual paths\<close>

datatype virtual_paths_command =
    VirtualSet int string
  | VirtualRemove int
  | VirtualList
  | VirtualRefresh

datatype virtual_paths_output =
    VirtualPathSet int string string
  | VirtualPathRemoved int
  | VirtualPathRows "(int \<times> string option \<times> string) list"
  | LinksRefreshed symlink_refresh_result

definition virtual_rows :: "tracked_file list \<Rightarrow> (int \<times> string option \<times> string) list prog" where
  "virtual_rows files = collect_m (filter (\<lambda>f. tf_virtual_path f \<noteq> None) files) (\<lambda>f.
     bind_m (load_operational_pair (tf_drive_pair_id f)) (\<lambda>p.
     return_m (tf_id f, tf_virtual_path f, path_join (active_path p) (tf_relative_path f))))"

fun handle_virtual_paths :: "virtual_paths_command \<Rightarrow> virtual_paths_output prog" where
  "handle_virtual_paths (VirtualSet i path) = bind_m (get_tracked_file i) (\<lambda>file.
     bind_m (load_operational_pair (tf_drive_pair_id file)) (\<lambda>p.
     seq_m (set_virtual_path i path)
       (return_m (VirtualPathSet i path (path_join (active_path p) (tf_relative_path file))))))"
| "handle_virtual_paths (VirtualRemove i) = bind_m (get_tracked_file i) (\<lambda>file.
     if tf_virtual_path file = None then bail (fmt [''File #'', dec i, '' has no virtual path assigned''])
     else seq_m (remove_virtual_path i) (return_m (VirtualPathRemoved i)))"
| "handle_virtual_paths VirtualList = bind_m (list_tracked_files None None None 1 i64_max) (\<lambda>(files, _).
     printing VirtualPathRows (virtual_rows files))"
| "handle_virtual_paths VirtualRefresh = bind_m list_drive_pairs (\<lambda>pairs.
     printing LinksRefreshed (refresh_all_virtual_paths (map_of (rev (map (\<lambda>p. (dp_id p, p)) pairs)))))"

end
