(* ===== verification/Cli_Work.thy ===== *)
theory Cli_Work
  imports Cli_Drives Integrity_Runs Scheduler
begin

section \<open>Command line: integrity and queue\<close>

text \<open>\<open>cli/commands/integrity.rs\<close> and \<open>sync.rs\<close>; \<open>cpus\<close> is the number of processors the default configuration asks for.\<close>

subsection \<open>Integrity\<close>

definition status_label :: "integrity_status \<Rightarrow> string" where
  "status_label s = (case s of
       IOk \<Rightarrow> ''OK''
     | MasterCorrupted \<Rightarrow> ''MASTER_CORRUPTED''
     | MirrorCorrupted \<Rightarrow> ''MIRROR_CORRUPTED''
     | BothCorrupted \<Rightarrow> ''BOTH_CORRUPTED''
     | MirrorMissing \<Rightarrow> ''MIRROR_MISSING''
     | MasterMissing \<Rightarrow> ''MASTER_MISSING''
     | PrimaryDriveUnavailable \<Rightarrow> ''PRIMARY_DRIVE_UNAVAILABLE''
     | SecondaryDriveUnavailable \<Rightarrow> ''SECONDARY_DRIVE_UNAVAILABLE'')"

text \<open>The status, and whether the file was recovered.\<close>

definition check_single :: "digest \<Rightarrow> int \<Rightarrow> bool \<Rightarrow> (integrity_status \<times> bool) prog" where
  "check_single b3 file_id recover = bind_m (get_tracked_file file_id) (\<lambda>file.
     bind_m (load_operational_pair (tf_drive_pair_id file)) (\<lambda>p.
     bind_m (check_file_integrity b3 p file Streaming Streaming) (\<lambda>res.
     let failed = bail (fmt [''Integrity check failed: '', status_label (ic_status res)]);
         passed = (\<lambda>recovered. seq_m (update_tracked_file_last_integrity_check_at file_id) (return_m (ic_status res, recovered))) in
     if ic_status res = IOk then passed False
     else if recover then bind_m (attempt_recovery_with_reconciliation b3 p file res) (\<lambda>recovered.
       if recovered then passed True else failed)
     else failed)))"

text \<open>The issues of a run are read page by page; the fuel is one unit per page.\<close>

fun list_issues :: "nat \<Rightarrow> int \<Rightarrow> int \<Rightarrow> world \<Rightarrow> ((err + integrity_run_result list) \<times> world) option" where
  "list_issues 0 run_id page w = None"
| "list_issues (Suc n) run_id page w = (case list_integrity_run_results run_id True page 200 w of
       (Inl e, v) \<Rightarrow> Some (Inl e, v)
     | (Inr (results, total_issues), v) \<Rightarrow>
         if results = [] then Some (Inr [], v)
         else if total_issues \<le> page * 200 then Some (Inr results, v)
         else map_option (\<lambda>(r, u). (map_sum id ((@) results) r, u)) (list_issues n run_id (page + 1) v))"

text \<open>What the command answers, the issues it prints before, and the world.\<close>

definition check_all ::
    "task_env \<Rightarrow> nat \<Rightarrow> checksum_config \<Rightarrow> int option \<Rightarrow> bool \<Rightarrow> world
       \<Rightarrow> ((err + integrity_run) \<times> integrity_run_result list \<times> world) option" where
  "check_all te pages cfg drive_id recover w =
     (case run_sync (te_fuel te) (te_digest te) (te_meminfo te) (te_pool_ok te) (te_others te) drive_id recover ''cli'' None cfg w of
        None \<Rightarrow> None
      | Some (Inl e, v) \<Rightarrow> Some (Inl e, [], v)
      | Some (Inr run, v) \<Rightarrow>
          if 0 < ir_attention_files run
          then map_option (\<lambda>(r, u). case r of
                 Inl e \<Rightarrow> (Inl e, [], u)
               | Inr issues \<Rightarrow> (Inl (Bail (fmt [dec (ir_attention_files run), '' files need attention in run #'', dec (ir_id run)])), issues, u))
                 (list_issues pages (ir_id run) 1 v)
          else Some (Inr run, [], v))"

subsection \<open>Queue\<close>

datatype sync_command =
    SyncList "string option" int int
  | SyncShow int
  | SyncAdd int string
  | SyncProcess
  | SyncPause
  | SyncResume
  | SyncRun string
  | SyncResolve int string "string option"

datatype sync_output =
    QueuePage "sync_item list" int bool
  | PrintItem sync_item
  | QueueProcessed nat
  | QueuePaused bool
  | TaskDone task_type "32 word"

definition list_command :: "string option \<Rightarrow> int \<Rightarrow> int \<Rightarrow> sync_output prog" where
  "list_command status page per_page = bind_m (list_sync_queue status page per_page) (\<lambda>(items, n).
     bind_m (try_m get_sync_queue_paused) (\<lambda>paused.
     return_m (QueuePage items n (case paused of Inr b \<Rightarrow> b | Inl _ \<Rightarrow> False))))"

definition parse_task :: "string \<Rightarrow> err + task_type" where
  "parse_task task = (if task = ''sync'' then Inr SyncTask
     else if task \<in> {''integrity-check'', ''integrity_check''} then Inr IntegrityCheckTask
     else Inl (Bail (fmt [''Unknown task type '', squoted task, ''. Use '', squoted ''sync'', '' or '', squoted ''integrity-check''])))"

definition run_command :: "task_env \<Rightarrow> nat \<Rightarrow> string \<Rightarrow> world \<Rightarrow> ((err + sync_output) \<times> world) option" where
  "run_command te cpus task w = (case parse_task task of
       Inl e \<Rightarrow> Some (Inl e, w)
     | Inr t \<Rightarrow> map_option (\<lambda>(r, v). (map_sum id (TaskDone t) r, v)) (run_task te t None (default_checksum_config cpus) False w))"

fun handle_sync :: "task_env \<Rightarrow> nat \<Rightarrow> sync_command \<Rightarrow> world \<Rightarrow> ((err + sync_output) \<times> world) option" where
  "handle_sync te cpus (SyncList status page per_page) w = Some (list_command status page per_page w)"
| "handle_sync te cpus (SyncShow i) w = Some (printing PrintItem (get_sync_queue_item i) w)"
| "handle_sync te cpus (SyncAdd i action) w = Some (printing PrintItem (create_sync_queue_item i action) w)"
| "handle_sync te cpus SyncProcess w = map_option (\<lambda>(r, v). (map_sum id QueueProcessed r, v))
     (process_all_pending (te_fuel te) (te_digest te) (te_picks te) None False w)"
| "handle_sync te cpus SyncPause w = Some (seq_m (set_sync_queue_paused True) (return_m (QueuePaused True)) w)"
| "handle_sync te cpus SyncResume w = Some (seq_m (set_sync_queue_paused False) (return_m (QueuePaused False)) w)"
| "handle_sync te cpus (SyncRun task) w = run_command te cpus task w"
| "handle_sync te cpus (SyncResolve i resolution path) w = Some (printing PrintItem (resolve_queue_item (te_digest te) i resolution path) w)"

end
