(* ===== verification/Cli_Admin.thy ===== *)
theory Cli_Admin
  imports Cli_Drives Scheduler Backup Server
begin

section \<open>Command line: database, schedules, log, status, start\<close>

text \<open>
  \<open>cli/commands/database.rs\<close>, \<open>scheduler.rs\<close>, \<open>logs.rs\<close>, \<open>cli/ssh_status.rs\<close> and the settings \<open>main.rs\<close> resolves. The option parser
  guarantees that opposite flags are not both given; the TOML parser is a parameter.
\<close>

subsection \<open>Backups\<close>

record backup_settings_args =
  sg_backup_enabled :: bool
  sg_backup_disabled :: bool
  sg_backup_interval_seconds :: "int option"
  sg_integrity_enabled :: bool
  sg_integrity_disabled :: bool
  sg_integrity_interval_seconds :: "int option"

datatype database_command =
    DatabaseAdd string "string option" bool
  | DatabaseList
  | DatabaseShow int
  | DatabaseRemove int
  | DatabaseEnable int
  | DatabaseDisable int
  | DatabaseRun
  | DatabaseCheckIntegrity
  | DatabaseRestore string
  | DatabaseSettings backup_settings_args

datatype database_output =
    PrintBackup db_backup_config
  | PrintBackups "db_backup_config list"
  | BackupRemoved int
  | BackupEnabled int bool
  | BackupsRun "backup_result list" nat
  | BackupsChecked "backup_integrity_result list"
  | RestoreStaged restore_result
  | PrintSettings db_backup_settings

definition flag_of :: "bool \<Rightarrow> bool \<Rightarrow> bool option" where
  "flag_of enabled disabled = (if enabled then Some True else if disabled then Some False else None)"

definition settings_command :: "backup_settings_args \<Rightarrow> db_backup_settings prog" where
  "settings_command a =
     (let backup_enabled = flag_of (sg_backup_enabled a) (sg_backup_disabled a);
          integrity_enabled = flag_of (sg_integrity_enabled a) (sg_integrity_disabled a);
          changed = (backup_enabled \<noteq> None \<or> integrity_enabled \<noteq> None \<or> sg_backup_interval_seconds a \<noteq> None
            \<or> sg_integrity_interval_seconds a \<noteq> None) in
      if changed then update_db_backup_settings backup_enabled (sg_backup_interval_seconds a) integrity_enabled (sg_integrity_interval_seconds a)
      else get_db_backup_settings)"

fun handle_database :: "backup_env \<Rightarrow> digest \<Rightarrow> string \<Rightarrow> database_command \<Rightarrow> database_output prog" where
  "handle_database env b3 db_path (DatabaseAdd path label disabled) = printing PrintBackup (create_db_backup_config path label (\<not> disabled))"
| "handle_database env b3 db_path DatabaseList = printing PrintBackups list_db_backup_configs"
| "handle_database env b3 db_path (DatabaseShow i) = printing PrintBackup (get_db_backup_config i)"
| "handle_database env b3 db_path (DatabaseRemove i) = seq_m (delete_db_backup_config i) (return_m (BackupRemoved i))"
| "handle_database env b3 db_path (DatabaseEnable i) = printing (\<lambda>_. BackupEnabled i True) (update_db_backup_config i None None (Some True))"
| "handle_database env b3 db_path (DatabaseDisable i) = printing (\<lambda>_. BackupEnabled i False) (update_db_backup_config i None None (Some False))"
| "handle_database env b3 db_path DatabaseRun = printing (\<lambda>rs. BackupsRun rs (length (filter (\<lambda>r. br_status r = ''success'') rs)))
     (run_all_backups env b3 db_path)"
| "handle_database env b3 db_path DatabaseCheckIntegrity = printing BackupsChecked (run_backup_integrity_check env b3)"
| "handle_database env b3 db_path (DatabaseRestore source) = printing RestoreStaged (stage_restore env db_path source)"
| "handle_database env b3 db_path (DatabaseSettings a) = printing PrintSettings (settings_command a)"

subsection \<open>Schedules\<close>

record add_schedule_args =
  ad_task_type :: string
  ad_cron :: "string option"
  ad_interval :: "int option"
  ad_max_duration :: "int option"
  ad_enabled :: bool

datatype scheduler_command =
    SchedulerList
  | SchedulerAdd add_schedule_args
  | SchedulerRemove int
  | SchedulerEnable int
  | SchedulerDisable int
  | SchedulerSetMaxDuration int "int option"
  | SchedulerShow int

datatype scheduler_output =
    PrintSchedules "schedule_config list"
  | PrintSchedule schedule_config
  | ScheduleRemoved int
  | ScheduleEnabled int bool
  | MaxDurationSet int "int option"

text \<open>\<open>filter(|&s| s > 0)\<close>\<close>

definition positive :: "int option \<Rightarrow> int option" where
  "positive x = (case x of None \<Rightarrow> None | Some s \<Rightarrow> (if 0 < s then Some s else None))"

fun handle_scheduler :: "scheduler_command \<Rightarrow> scheduler_output prog" where
  "handle_scheduler SchedulerList = printing PrintSchedules list_schedule_configs"
| "handle_scheduler (SchedulerAdd a) =
     (if ad_cron a = None \<and> ad_interval a = None then bail ''Provide at least one of --cron or --interval''
      else if ad_task_type a \<noteq> ''sync'' \<and> ad_task_type a \<noteq> ''integrity_check''
      then bail (fmt [''task_type must be '', squoted ''sync'', '' or '', squoted ''integrity_check''])
      else printing PrintSchedule (create_schedule_config (ad_task_type a) (ad_cron a) (ad_interval a) (ad_enabled a)
             (positive (ad_max_duration a))))"
| "handle_scheduler (SchedulerRemove i) = seq_m (delete_schedule_config i) (return_m (ScheduleRemoved i))"
| "handle_scheduler (SchedulerEnable i) = printing (\<lambda>_. ScheduleEnabled i True) (update_schedule_config i None None (Some True) None)"
| "handle_scheduler (SchedulerDisable i) = printing (\<lambda>_. ScheduleEnabled i False) (update_schedule_config i None None (Some False) None)"
| "handle_scheduler (SchedulerSetMaxDuration i seconds) = printing (\<lambda>_. MaxDurationSet i (positive seconds))
     (update_schedule_config i None None None (Some (positive seconds)))"
| "handle_scheduler (SchedulerShow i) = printing PrintSchedule (get_schedule_config i)"

subsection \<open>Log\<close>

record list_logs_args =
  lg_event_type :: "string option"
  lg_file_id :: "int option"
  lg_from :: "string option"
  lg_to :: "string option"
  lg_page :: int
  lg_per_page :: int

datatype logs_command = LogsList list_logs_args | LogsShow int

datatype logs_output = LogPage "event_log_entry list" int | PrintEntry event_log_entry

fun handle_logs :: "(int \<Rightarrow> string) \<Rightarrow> logs_command \<Rightarrow> logs_output prog" where
  "handle_logs datetime (LogsList a) = printing (\<lambda>(entries, n). LogPage entries n)
     (list_event_logs datetime (lg_event_type a) (lg_file_id a) (lg_from a) (lg_to a) (lg_page a) (lg_per_page a))"
| "handle_logs datetime (LogsShow i) = printing PrintEntry (get_event_log i)"

subsection \<open>Status at login\<close>

record status_report =
  sp_drive_pairs :: nat
  sp_degraded_pairs :: nat
  sp_active_secondary_pairs :: nat
  sp_tracked_files :: nat
  sp_pending_sync :: nat
  sp_recent_integrity_failures :: nat
  sp_last_backup :: "int option"

text \<open>Time stamps are printed as text that is ordered as the times are; \<open>max\<close> of no times is none.\<close>

definition latest :: "int list \<Rightarrow> int option" where
  "latest ts = (if ts = [] then None else Some (Max (set ts)))"

definition gather_status :: "(int \<Rightarrow> string) \<Rightarrow> status_report prog" where
  "gather_status datetime =
     bind_m list_drive_pairs (\<lambda>pairs.
     bind_m (list_tracked_files None None None 1 1) (\<lambda>(_, total_files).
     bind_m (list_sync_queue (Some ''pending'') 1 1) (\<lambda>(_, total_pending).
     bind_m (gets_m w_now) (\<lambda>now.
     bind_m (list_event_logs datetime (Some ''integrity_fail'') None (Some (datetime (now - 86400))) None 1 1) (\<lambda>(_, total_failures).
     bind_m list_db_backup_configs (\<lambda>configs.
     return_m \<lparr>sp_drive_pairs = length pairs, sp_degraded_pairs = length (filter is_degraded pairs),
       sp_active_secondary_pairs = length (filter (\<lambda>p. dp_active_role p = ''secondary'') pairs),
       sp_tracked_files = nat total_files, sp_pending_sync = nat total_pending,
       sp_recent_integrity_failures = nat total_failures,
       sp_last_backup = latest (List.map_filter bk_last_backup configs)\<rparr>))))))"

text \<open>The lines of the report, without their frame and symbols.\<close>

definition format_status :: "(int \<Rightarrow> string) \<Rightarrow> status_report \<Rightarrow> string list" where
  "format_status datetime r = (let num = (\<lambda>n. dec (int n)) in
    [fmt [''Drives: '', num (sp_drive_pairs r), ''   Files: '', num (sp_tracked_files r)],
     (if 0 < sp_degraded_pairs r
      then fmt [num (sp_degraded_pairs r), '' degraded pair(s), '', num (sp_active_secondary_pairs r), '' running from secondary'']
      else ''All drive pairs fully mirrored''),
     (if 0 < sp_pending_sync r then fmt [num (sp_pending_sync r), '' file(s) pending sync''] else ''Sync queue empty''),
     (if 0 < sp_recent_integrity_failures r then fmt [num (sp_recent_integrity_failures r), '' integrity failure(s) in last 24h'']
      else ''No integrity failures (24h)''),
     (case sp_last_backup r of Some t \<Rightarrow> fmt [''Last backup: '', datetime t] | None \<Rightarrow> ''No backups configured'')])"

subsection \<open>Settings of the server\<close>

record server_settings =
  sv_host :: "string option"
  sv_port :: "16 word option"
  sv_tls_cert :: "string option"
  sv_tls_key :: "string option"
  sv_rate_limit_rps :: "nat option"
  sv_jwt_secret :: "string option"

record app_config =
  ac_server :: server_settings
  ac_database_path :: "string option"
  ac_hdd_max_parallel :: "nat option"
  ac_ssd_max_parallel :: "nat option"

definition no_server_settings :: server_settings where
  "no_server_settings = \<lparr>sv_host = None, sv_port = None, sv_tls_cert = None, sv_tls_key = None, sv_rate_limit_rps = None, sv_jwt_secret = None\<rparr>"

definition empty_config :: app_config where
  "empty_config = \<lparr>ac_server = no_server_settings, ac_database_path = None, ac_hdd_max_parallel = None, ac_ssd_max_parallel = None\<rparr>"

definition load_app_config :: "(bytes \<Rightarrow> app_config option) \<Rightarrow> fs \<Rightarrow> string \<Rightarrow> app_config" where
  "load_app_config parse f path = (case readable_bytes f path of
       None \<Rightarrow> empty_config
     | Some content \<Rightarrow> (case parse content of None \<Rightarrow> empty_config | Some c \<Rightarrow> c))"

definition default_db_path :: string where
  "default_db_path = ''/var/lib/bitprotector/bitprotector.db''"

definition resolve_db_path :: "string \<Rightarrow> string \<Rightarrow> string option \<Rightarrow> string" where
  "resolve_db_path cli_db cli_default file_cfg_db = (if cli_db \<noteq> cli_default then cli_db
     else (case file_cfg_db of Some path \<Rightarrow> path | None \<Rightarrow> cli_db))"

definition or_else :: "'a option \<Rightarrow> 'a option \<Rightarrow> 'a option" where
  "or_else a b = (case a of None \<Rightarrow> b | Some x \<Rightarrow> Some x)"

definition unwrap_or :: "'a option \<Rightarrow> 'a \<Rightarrow> 'a" where
  "unwrap_or a d = (case a of None \<Rightarrow> d | Some x \<Rightarrow> x)"

record serve_settings =
  se_host :: string
  se_port :: "16 word"
  se_secret :: string
  se_tls_cert :: "string option"
  se_tls_key :: "string option"
  se_rate_limit :: nat
  se_checksum :: checksum_config

definition serve_settings_of :: "nat \<Rightarrow> server_settings \<Rightarrow> app_config \<Rightarrow> serve_settings" where
  "serve_settings_of cpus cli c = (let s = ac_server c in
    \<lparr>se_host = unwrap_or (or_else (sv_host cli) (sv_host s)) ''0.0.0.0'',
     se_port = unwrap_or (or_else (sv_port cli) (sv_port s)) 8443,
     se_secret = unwrap_or (or_else (sv_jwt_secret cli) (sv_jwt_secret s)) ''change-me-in-production'',
     se_tls_cert = or_else (sv_tls_cert cli) (sv_tls_cert s),
     se_tls_key = or_else (sv_tls_key cli) (sv_tls_key s),
     se_rate_limit = unwrap_or (or_else (sv_rate_limit_rps cli) (sv_rate_limit_rps s)) 100,
     se_checksum = resolve_config cpus (unwrap_or (ac_hdd_max_parallel c) 2) (unwrap_or (ac_ssd_max_parallel c) 0)\<rparr>)"

end
