(* ===== verification/Front_Ends.thy ===== *)
theory Front_Ends
  imports Cli_Files Cli_Work Cli_Admin Routes_Drives Routes_Files Routes_Folders Routes_Database
begin

section \<open>Both front ends do the same\<close>

text \<open>
  Where a command and a request ask for the same thing, they leave the same rows and the same files, and the command fails exactly
  when the request is refused. Commands differ from requests only in publishing no snapshot to the event bus.
\<close>

fun payload :: "'a reply \<Rightarrow> 'a option" where
  "payload (Json s x) = Some x"
| "payload (Problem s c m) = None"
| "payload (PlainText s m) = None"
| "payload (NoBody s) = None"

text \<open>\<open>R\<close> relates what the command prints to the payload of the reply.\<close>

definition agree :: "('a \<Rightarrow> 'b option \<Rightarrow> bool) \<Rightarrow> 'a prog \<Rightarrow> 'b reply prog \<Rightarrow> bool" where
  "agree R m h \<longleftrightarrow> (\<forall>w. \<exists>reply v. h w = (Inr reply, v) \<and> w_db v = w_db (snd (m w)) \<and> w_fs v = w_fs (snd (m w))
     \<and> (case fst (m w) of Inl e \<Rightarrow> 400 \<le> reply_status reply
        | Inr out \<Rightarrow> 200 \<le> reply_status reply \<and> reply_status reply < 300 \<and> R out (payload reply)))"

named_theorems agrees

lemma agree_return [agrees]:
  "200 \<le> reply_status rp \<Longrightarrow> reply_status rp < 300 \<Longrightarrow> R x (payload rp) \<Longrightarrow> agree R (return_m x) (return_m rp)"
  by (simp add: agree_def)

lemma agree_publish [agrees]:
  "200 \<le> reply_status rp \<Longrightarrow> reply_status rp < 300 \<Longrightarrow> R x (payload rp)
    \<Longrightarrow> agree R (return_m x) (seq_m (discard publish_snapshot) (return_m rp))"
  by (simp add: agree_def seq_m_discard)

lemma agree_fail [agrees]: "400 \<le> reply_status rp \<Longrightarrow> agree R (bail msg) (return_m rp)"
  by (simp add: agree_def)

lemma agree_bind [agrees]:
  "(\<And>e. 400 \<le> reply_status (bad e)) \<Longrightarrow> (\<And>x. agree R (k x) (h x)) \<Longrightarrow> agree R (bind_m m k) (on_ok m bad h)"
  by (auto simp: agree_def bind_m_def on_ok_run split: prod.splits sum.splits)

lemma agree_seq [agrees]:
  "(\<And>e. 400 \<le> reply_status (bad e)) \<Longrightarrow> agree R k h \<Longrightarrow> agree R (seq_m m k) (on_ok m bad (\<lambda>_. h))"
  unfolding seq_m_def by (rule agree_bind)

lemma agree_printing [agrees]:
  "(\<And>e. 400 \<le> reply_status (bad e)) \<Longrightarrow> (\<And>x. agree R (return_m (f x)) (h x)) \<Longrightarrow> agree R (printing f m) (on_ok m bad h)"
  unfolding printing_def by (rule agree_bind)

lemma agree_log [agrees]: "agree R k h \<Longrightarrow> agree R (seq_m (discard m) k) (seq_m (discard m) h)"
  by (simp add: agree_def seq_m_discard)

lemma agree_try [agrees]: "(\<And>r. agree R (k r) (h r)) \<Longrightarrow> agree R (bind_m (try_m m) k) (bind_m (try_m m) h)"
  by (auto simp: agree_def bind_m_def try_m_def split: prod.splits)

lemma agree_gets [agrees]: "(\<And>x. agree R (k x) (h x)) \<Longrightarrow> agree R (bind_m (gets_m f) k) (bind_m (gets_m f) h)"
  by (simp add: agree_def)

lemma agree_if [agrees]: "(b \<Longrightarrow> agree R k h) \<Longrightarrow> (\<not> b \<Longrightarrow> agree R k' h') \<Longrightarrow> agree R (if b then k else k') (if b then h else h')"
  by simp

lemma agree_prod [agrees]: "(\<And>x y. v = (x, y) \<Longrightarrow> agree R (k x y) (h x y)) \<Longrightarrow> agree R (case v of (x, y) \<Rightarrow> k x y) (case v of (x, y) \<Rightarrow> h x y)"
  by (simp split: prod.splits)

lemma agree_map_err:
  assumes "\<And>e. 400 \<le> reply_status (bad e)" "\<And>x. agree R (k x) (h x)"
  shows "agree R (bind_m (map_err_m f m) k) (on_ok m bad h)"
proof -
  have "bind_m (map_err_m f m) k w = (case m w of (Inl e, v) \<Rightarrow> (Inl (f e), v) | (Inr x, v) \<Rightarrow> k x v)" for w
    by (simp add: map_err_m_def bind_m_def try_m_def split: prod.splits sum.splits)
  then show ?thesis using assms by (auto simp: agree_def on_ok_run split: prod.splits sum.splits)
qed

lemma statuses [simp]:
  "reply_status (internal_error e) = 500" "reply_status (validation_error e) = 400" "reply_status (not_found what i e) = 404"
  "reply_status (text_reply s e) = s" "reply_status media_type_problem = 400"
  by (simp_all add: internal_error_def validation_error_def not_found_def text_reply_def media_type_problem_def)

text \<open>The payload of the reply is what is printed, or there is none.\<close>

definition shows_as :: "('b \<Rightarrow> 'a) \<Rightarrow> 'a \<Rightarrow> 'b option \<Rightarrow> bool" where
  "shows_as f out p \<longleftrightarrow> p \<noteq> None \<and> out = f (the p)"

definition shows_none :: "'a \<Rightarrow> 'a \<Rightarrow> 'b option \<Rightarrow> bool" where
  "shows_none x out p \<longleftrightarrow> p = None \<and> out = x"

lemma seq_done: "seq_m (return_m x) k = k" "seq_m (bail msg) k' = bail msg"
  by (auto simp: seq_m_def bind_m_def bail_def raise_m_def fun_eq_iff)

subsection \<open>Drive pairs\<close>

lemma add_agrees: "agree (shows_as PrintPair) (handle_drives (DrivesAdd a)) (create_drive_pair_route
    \<lparr>cd_name = da_name a, cd_primary_path = da_primary a, cd_secondary_path = da_secondary a, cd_primary_media_type = da_primary_media_type a,
     cd_secondary_media_type = da_secondary_media_type a, cd_skip_validation = da_no_validate a\<rparr>)"
proof (cases "media_type_ok (da_primary_media_type a) \<and> media_type_ok (da_secondary_media_type a)")
  case True
  then have m: "media_check o1 (da_primary_media_type a) = return_m ()" "media_check o2 (da_secondary_media_type a) = return_m ()" for o1 o2
    by (auto simp: media_check_def media_type_ok_def)
  have "agree (shows_as PrintPair)
     (seq_m (if da_no_validate a then return_m () else validate_drive_pair (da_primary a) (da_secondary a))
      (bind_m (map_err_m already_registered c) (\<lambda>p. seq_m (discard (l p)) (return_m (PrintPair p)))))
     (on_ok (if da_no_validate a then return_m () else validate_drive_pair (da_primary a) (da_secondary a)) validation_error (\<lambda>_.
        on_ok c (\<lambda>e. if is_duplicate_drive_path_error e then Problem 409 ''CONFLICT'' (err_to_string e) else internal_error e)
          (\<lambda>p. seq_m (discard (l p)) (return_m (Json 201 p)))))" for c l
    by (intro agrees agree_map_err) (simp_all add: shows_as_def)
  then show ?thesis using True by (simp add: create_drive_pair_route_def m seq_done cong: if_cong split del: if_split)
next
  case False
  then show ?thesis by (auto simp: agree_def create_drive_pair_route_def media_check_def media_type_ok_def seq_done)
qed

lemma update_agrees: "agree (shows_as PrintPair) (handle_drives (DrivesUpdate a)) (update_drive_pair_route (du_id a)
    \<lparr>ud_name = du_name a, ud_primary_path = du_primary a, ud_secondary_path = du_secondary a,
     ud_primary_media_type = du_primary_media_type a, ud_secondary_media_type = du_secondary_media_type a\<rparr>)"
proof (cases "(\<exists>m. du_primary_media_type a = Some m \<and> \<not> media_type_ok m) \<or> (\<exists>m. du_secondary_media_type a = Some m \<and> \<not> media_type_ok m)")
  case False
  then have m: "opt_m (du_primary_media_type a) (media_check o1) = return_m ()" "opt_m (du_secondary_media_type a) (media_check o2) = return_m ()" for o1 o2
    by (auto simp: opt_m_def media_check_def media_type_ok_def split: option.splits)
  have "agree (shows_as PrintPair) (bind_m c (\<lambda>p. seq_m (discard (l p)) (return_m (PrintPair p))))
     (on_ok c internal_error (\<lambda>p. seq_m (discard (l p)) (return_m (Json 200 p))))" for c l
    by (intro agrees) (simp_all add: shows_as_def)
  then show ?thesis using False by (auto simp: update_drive_pair_route_def m seq_done split: option.splits)
next
  case True
  then show ?thesis
    by (auto simp: agree_def update_drive_pair_route_def opt_m_def media_check_def media_type_ok_def seq_done split: option.splits)
qed

lemma assign_agrees: "agree (shows_as (\<lambda>(p, n). PairAssigned p n)) (handle_drives (ReplaceAssign a)) (assign_replacement_route (as_id a)
    \<lparr>ar_role = role_str (as_role a), ar_new_path = as_new_path a, ar_skip_validation = as_no_validate a\<rparr>)"
proof -
  have r: "on_ok (parse_role (role_str r)) bad k = k r" for r bad and k :: "drive_role \<Rightarrow> 'b reply prog"
    by (cases r) (auto simp: parse_role_def role_str.simps on_ok_run fun_eq_iff)
  show ?thesis unfolding assign_replacement_route_def by (simp add: r cong: if_cong drive_role.case_cong split del: if_split) (intro agrees; simp add: shows_as_def split: prod.splits)
qed

lemma drives_agree:
  "agree (shows_as PrintPairs) (handle_drives DrivesList) list_drive_pairs_route"
  "agree (shows_as PrintPair) (handle_drives (DrivesShow i)) (get_drive_pair_route i)"
  "agree (shows_none (PairRemoved i)) (handle_drives (DrivesRemove i)) (delete_drive_pair_route i)"
  "agree (shows_as PrintPair) (handle_drives (ReplaceMark i r)) (mark_replacement_route i (role_str r))"
  "agree (shows_as PrintPair) (handle_drives (ReplaceConfirm i r)) (confirm_replacement_route i (role_str r))"
  "agree (shows_as PrintPair) (handle_drives (ReplaceCancel i r)) (cancel_replacement_route i (role_str r))"
proof -
  have r: "on_ok (parse_role (role_str r)) bad k = k r" for bad and k :: "drive_role \<Rightarrow> drive_pair reply prog"
    by (cases r) (auto simp: parse_role_def role_str.simps on_ok_run fun_eq_iff)
  show "agree (shows_as PrintPairs) (handle_drives DrivesList) list_drive_pairs_route"
    "agree (shows_as PrintPair) (handle_drives (DrivesShow i)) (get_drive_pair_route i)"
    "agree (shows_as PrintPair) (handle_drives (ReplaceMark i r)) (mark_replacement_route i (role_str r))"
    "agree (shows_as PrintPair) (handle_drives (ReplaceConfirm i r)) (confirm_replacement_route i (role_str r))"
    "agree (shows_as PrintPair) (handle_drives (ReplaceCancel i r)) (cancel_replacement_route i (role_str r))"
    unfolding list_drive_pairs_route_def get_drive_pair_route_def mark_replacement_route_def confirm_replacement_route_def
      cancel_replacement_route_def r handle_drives.simps
    by (intro agrees; simp add: shows_as_def)+
  have log: "agree R k h \<Longrightarrow> agree R (seq_m (case f of Inr p \<Rightarrow> discard (l p) | Inl _ \<Rightarrow> return_m ()) k)
      (seq_m (case f of Inr p \<Rightarrow> discard (l p) | Inl _ \<Rightarrow> return_m ()) h)" for R k h f and l :: "drive_pair \<Rightarrow> unit prog"
    by (cases f) (simp_all add: agree_def seq_m_discard seq_done)
  show "agree (shows_none (PairRemoved i)) (handle_drives (DrivesRemove i)) (delete_drive_pair_route i)"
    unfolding delete_drive_pair_route_def handle_drives.simps by (intro agrees log) (simp_all add: shows_none_def)
qed

subsection \<open>Files, folders, queue, backups\<close>

lemma files_agree:
  "agree (shows_as PrintFile) (handle_files b3 (FilesShow i)) (get_file_route i)"
  "agree (\<lambda>out p. p = Some True \<and> (\<exists>f. out = FileMirrored f)) (handle_files b3 (FilesMirror i)) (mirror_file_route b3 i)"
  unfolding get_file_route_def mirror_file_route_def handle_files.simps mirror_command_def
  by (intro agrees; simp add: shows_as_def)+

text \<open>Tracking, for a path that is what the guard of the request makes of it.\<close>

lemma load_id: "load_operational_pair i w = (Inr p, v) \<Longrightarrow> dp_id p = i"
proof -
  assume load: "load_operational_pair i w = (Inr p, v)"
  then obtain q u where q: "get_drive_pair i w = (Inr q, u)" "maybe_emergency_failover q u = (Inr p, v)"
    unfolding load_operational_pair_def bind_m_Inr by blast
  have "p = q \<or> (\<exists>x. get_drive_pair (dp_id q) x = (Inr p, v))"
    using q(2) by (auto simp: maybe_emergency_failover_def Let_def split: if_splits)
  then show "dp_id p = i" using pairs.get_id [OF q(1)] pairs.get_id [of "dp_id q"] by auto
qed

lemma agree_after:
  "(\<And>e. 400 \<le> reply_status (bad e)) \<Longrightarrow> (\<And>x w v. m w = (Inr x, v) \<Longrightarrow> agree R (k x) (h x)) \<Longrightarrow> agree R (bind_m m k) (on_ok m bad h)"
  by (auto simp: agree_def bind_m_def on_ok_run split: prod.splits sum.splits)

definition tells_file :: "files_output \<Rightarrow> tracked_file option \<Rightarrow> bool" where
  "tells_file out p \<longleftrightarrow> (\<exists>f queued. p = Some f \<and> out = FileTracked f queued)"

lemma reply_agrees:
  "agree tells_file
     (bind_m (has_pending_sync_queue_item_with_reason (tf_id f) ''user_action_required'' b3_sidecar_mismatch_reason) (\<lambda>has_b3_mismatch.
      bind_m (gets_m (\<lambda>w. standby_accepts_sync (w_fs w) p)) (\<lambda>accepts.
      if \<not> existed \<and> accepts \<and> \<not> has_b3_mismatch
      then bind_m (create_sync_queue_item_dedup (tf_id f) ''adopt_mirror'') (\<lambda>_. return_m (FileTracked f True))
      else return_m (FileTracked f False))))
     (reply_tracked p existed f)" (is "agree _ ?m _")
proof -
  have "\<exists>b. has_pending_sync_queue_item_with_reason (tf_id f) ''user_action_required'' b3_sidecar_mismatch_reason w = (Inr b, w)" for w :: world
    by (simp add: has_pending_sync_queue_item_with_reason_def)
  then obtain pending where pending:
    "has_pending_sync_queue_item_with_reason (tf_id f) ''user_action_required'' b3_sidecar_mismatch_reason w = (Inr (pending w), w)" for w :: world
    by metis
  have new: "agree tells_file
      (if pending w then return_m (FileTracked f False)
       else bind_m (create_sync_queue_item_dedup (tf_id f) ''adopt_mirror'') (\<lambda>_. return_m (FileTracked f True)))
      (if pending w then return_m (Json 201 f)
       else on_ok (create_sync_queue_item_dedup (tf_id f) ''adopt_mirror'') internal_error (\<lambda>_. return_m (Json 201 f)))" for w
    by (intro agrees) (auto simp: tells_file_def)
  have old: "agree tells_file (return_m (FileTracked f False)) (return_m (Json (if existed then 200 else 201) f))"
    by (intro agrees) (auto simp: tells_file_def)
  show ?thesis unfolding agree_def
  proof
    fix w
    show "\<exists>reply v. reply_tracked p existed f w = (Inr reply, v) \<and> w_db v = w_db (snd (?m w)) \<and> w_fs v = w_fs (snd (?m w))
      \<and> (case fst (?m w) of Inl e \<Rightarrow> 400 \<le> reply_status reply
         | Inr out \<Rightarrow> 200 \<le> reply_status reply \<and> reply_status reply < 300 \<and> tells_file out (payload reply))"
      using new [of w, unfolded agree_def, rule_format, of w] old [unfolded agree_def, rule_format, of w]
      by (cases existed; cases "standby_accepts_sync (w_fs w) p"; cases "pending w")
        (simp_all add: reply_tracked_def Let_def on_ok_run bind_m_def pending)
  qed
qed

lemma track_agrees:
  "agree tells_file (track_command b3 i path vp)
     (on_ok (load_operational_pair i) (\<lambda>_. Problem 404 ''RESOURCE_NOT_FOUND'' ''Drive pair not found'') (\<lambda>p. track_resolved b3 p vp path))"
  unfolding track_command_def
proof (rule agree_after)
  fix p w v assume "load_operational_pair i w = (Inr p, v)"
  then have p: "dp_id p = i" by (rule load_id)
  have "agree tells_file
     (bind_m (track_file b3 p path vp) (\<lambda>f.
      bind_m (has_pending_sync_queue_item_with_reason (tf_id f) ''user_action_required'' b3_sidecar_mismatch_reason) (\<lambda>has_b3_mismatch.
      bind_m (gets_m (\<lambda>w. standby_accepts_sync (w_fs w) p)) (\<lambda>accepts.
      if (case before of Inr _ \<Rightarrow> False | Inl _ \<Rightarrow> True) \<and> accepts \<and> \<not> has_b3_mismatch
      then bind_m (create_sync_queue_item_dedup (tf_id f) ''adopt_mirror'') (\<lambda>_. return_m (FileTracked f True))
      else return_m (FileTracked f False)))))
     (on_ok (track_file b3 p path vp) validation_error (reply_tracked p (case before of Inr _ \<Rightarrow> True | Inl _ \<Rightarrow> False)))" for before :: "err + tracked_file"
    using reply_agrees [where p = p and existed = "case before of Inr _ \<Rightarrow> True | Inl _ \<Rightarrow> False"]
    by (intro agree_bind) (cases before; simp)+
  then show "agree tells_file
      (bind_m (try_m (get_tracked_file_by_path i path)) (\<lambda>before. bind_m (track_file b3 p path vp) (\<lambda>f.
      bind_m (has_pending_sync_queue_item_with_reason (tf_id f) ''user_action_required'' b3_sidecar_mismatch_reason) (\<lambda>has_b3_mismatch.
      bind_m (gets_m (\<lambda>w. standby_accepts_sync (w_fs w) p)) (\<lambda>accepts.
      if (case before of Inr _ \<Rightarrow> False | Inl _ \<Rightarrow> True) \<and> accepts \<and> \<not> has_b3_mismatch
      then bind_m (create_sync_queue_item_dedup (tf_id f) ''adopt_mirror'') (\<lambda>_. return_m (FileTracked f True))
      else return_m (FileTracked f False))))))
      (track_resolved b3 p vp path)"
    unfolding track_resolved_def p by (rule agree_try)
qed simp

lemma queue_agrees:
  "agree (shows_as PrintItem) (\<lambda>w. the (handle_sync te cpus (SyncShow i) w)) (get_queue_item_route i)"
  "agree (shows_as PrintItem) (\<lambda>w. the (handle_sync te cpus (SyncAdd i action) w)) (add_queue_item_route i action)"
  "agree (shows_as QueuePaused) (\<lambda>w. the (handle_sync te cpus SyncPause w)) pause_queue_route"
  "agree (shows_as QueuePaused) (\<lambda>w. the (handle_sync te cpus SyncResume w)) resume_queue_route"
  "agree (shows_as PrintItem) (\<lambda>w. the (handle_sync te cpus (SyncResolve i resolution path) w)) (resolve_queue_item_route (te_digest te) i resolution path)"
proof -
  have e: "400 \<le> reply_status (resolve_error e)" for e by (simp add: resolve_error_def Let_def)
  show "agree (shows_as PrintItem) (\<lambda>w. the (handle_sync te cpus (SyncShow i) w)) (get_queue_item_route i)"
    "agree (shows_as PrintItem) (\<lambda>w. the (handle_sync te cpus (SyncAdd i action) w)) (add_queue_item_route i action)"
    "agree (shows_as QueuePaused) (\<lambda>w. the (handle_sync te cpus SyncPause w)) pause_queue_route"
    "agree (shows_as QueuePaused) (\<lambda>w. the (handle_sync te cpus SyncResume w)) resume_queue_route"
    "agree (shows_as PrintItem) (\<lambda>w. the (handle_sync te cpus (SyncResolve i resolution path) w)) (resolve_queue_item_route (te_digest te) i resolution path)"
    unfolding get_queue_item_route_def add_queue_item_route_def pause_queue_route_def resume_queue_route_def set_paused_route_def
      resolve_queue_item_route_def handle_sync.simps option.sel
    by (intro agrees e; simp add: shows_as_def)+
qed

lemma backups_agree:
  "agree (shows_as PrintBackups) (handle_database env b3 db DatabaseList) list_backups_route"
  "agree (shows_as PrintBackup) (handle_database env b3 db (DatabaseShow i)) (get_backup_route i)"
  "agree (shows_none (BackupRemoved i)) (handle_database env b3 db (DatabaseRemove i)) (delete_backup_route i)"
  "agree (\<lambda>out p. p \<noteq> None \<and> out = BackupEnabled i True) (handle_database env b3 db (DatabaseEnable i))
     (update_backup_route i \<lparr>ub_backup_path = None, ub_drive_label = None, ub_enabled = Some True\<rparr>)"
  "agree (\<lambda>out p. p \<noteq> None \<and> out = BackupEnabled i False) (handle_database env b3 db (DatabaseDisable i))
     (update_backup_route i \<lparr>ub_backup_path = None, ub_drive_label = None, ub_enabled = Some False\<rparr>)"
  "agree (shows_as (\<lambda>rs. BackupsRun rs (length (filter (\<lambda>r. br_status r = ''success'') rs)))) (handle_database env b3 db DatabaseRun)
     (run_backups_route env b3 db)"
  "agree (shows_as BackupsChecked) (handle_database env b3 db DatabaseCheckIntegrity) (integrity_check_route env b3 False)"
  unfolding list_backups_route_def get_backup_route_def delete_backup_route_def update_backup_route_def run_backups_route_def
    integrity_check_route_def handle_database.simps Let_def
  by (simp_all add: ) (intro agrees; simp add: shows_as_def shows_none_def)+


subsection \<open>Checking everything from the command line\<close>

text \<open>The pages of issues from page \<open>k + 1\<close> on are the issues after the first \<open>k * 200\<close>.\<close>

lemma list_issues_run:
  fixes w :: world
  assumes "xs = filter (\<lambda>r. rr_run_id r = i \<and> rr_needs_attention r) (db_results (w_db w))" "0 < n" "length xs \<le> (k + n) * 200"
  shows "list_issues n i (int k + 1) w = Some (Inr (drop (k * 200) xs), w)"
  using assms(2,3)
proof (induction n arbitrary: k)
  case (Suc n)
  have page: "list_integrity_run_results i True (int k + 1) 200 w = (Inr (take 200 (drop (k * 200) xs), int (length xs)), w)"
    by (simp add: list_integrity_run_results_def Let_def paginate_def assms(1) i64_max_def nat_mult_distrib)
  show ?case
  proof (cases "length xs \<le> (k + 1) * 200")
    case True
    then show ?thesis by (auto simp: page)
  next
    case False
    then have "0 < n" "length xs \<le> ((k + 1) + n) * 200" using Suc.prems by (cases n; simp)+
    from Suc.IH [OF this] have "list_issues n i (2 + int k) w = Some (Inr (drop (200 + k * 200) xs), w)" by (simp add: add.commute)
    moreover have "take 200 (drop (k * 200) xs) @ drop (200 + k * 200) xs = drop (k * 200) xs"
      by (metis append_take_drop_id drop_drop)
    ultimately show ?thesis using False by (simp add: page)
  qed
qed simp

text \<open>Checking everything ends whenever the run does, given enough pages: it fails exactly when the run fails or files need
  attention, and then it has printed every issue of the run exactly once, in the order they were recorded.\<close>

theorem check_all_prints_every_issue:
  "\<exists>n. \<forall>k. check_all te (n + k) cfg scope recover w = map_option (\<lambda>(r, v). case r of
       Inl e \<Rightarrow> (Inl e, [], v)
     | Inr run \<Rightarrow> if ir_attention_files run \<le> 0 then (Inr run, [], v)
         else (Inl (Bail (fmt [dec (ir_attention_files run), '' files need attention in run #'', dec (ir_id run)])),
           filter (\<lambda>r. rr_run_id r = ir_id run \<and> rr_needs_attention r) (db_results (w_db v)), v))
     (run_sync (te_fuel te) (te_digest te) (te_meminfo te) (te_pool_ok te) (te_others te) scope recover ''cli'' None cfg w)"
proof (cases "run_sync (te_fuel te) (te_digest te) (te_meminfo te) (te_pool_ok te) (te_others te) scope recover ''cli'' None cfg w")
  case None
  then show ?thesis by (simp add: check_all_def)
next
  case (Some x)
  obtain r v where x: "x = (r, v)" by fastforce
  have "list_issues (length (db_results (w_db v)) + 1 + k) i 1 v
    = Some (Inr (filter (\<lambda>r. rr_run_id r = i \<and> rr_needs_attention r) (db_results (w_db v))), v)" for k i
  proof -
    have "length (filter (\<lambda>r. rr_run_id r = i \<and> rr_needs_attention r) (db_results (w_db v))) \<le> (0 + (length (db_results (w_db v)) + 1 + k)) * 200"
      by (rule order_trans [OF length_filter_le]) simp
    from list_issues_run [OF refl _ this] show ?thesis by simp
  qed
  then show ?thesis using Some x by (intro exI [of _ "length (db_results (w_db v)) + 1"]) (simp add: check_all_def split: sum.splits)
qed

subsection \<open>Status and start\<close>

text \<open>The report at login counts what is in the database, and changes nothing.\<close>

theorem login_report_counts:
  "\<exists>r. gather_status datetime w = (Inr r, w) \<and> sp_drive_pairs r = length (db_pairs (w_db w)) \<and> sp_tracked_files r = length (db_files (w_db w))
    \<and> sp_pending_sync r = length (filter (\<lambda>q. sq_status q = ''pending'') (db_queue (w_db w)))
    \<and> sp_degraded_pairs r = length (filter is_degraded (db_pairs (w_db w)))
    \<and> (sp_last_backup r = None \<longleftrightarrow> (\<forall>c \<in> set (db_backups (w_db w)). bk_last_backup c = None))"
proof -
  have none: "List.map_filter bk_last_backup cs = [] \<longleftrightarrow> (\<forall>c \<in> set cs. bk_last_backup c = None)" for cs
    by (induction cs) (auto simp: List.map_filter_simps split: option.splits)
  show ?thesis
    by (auto simp: none gather_status_def bind_m_def list_drive_pairs_def list_tracked_files_def list_sync_queue_def list_event_logs_def
        list_db_backup_configs_def Let_def latest_def)
qed

text \<open>A database path given on the command line is used unless it is the default one, which cannot be told from none.\<close>

theorem default_db_flag_is_ignored: "resolve_db_path default_db_path default_db_path (Some path) = path"
  by (simp add: resolve_db_path_def)

end
