(* ===== verification/Spec2Isabelle.thy ===== *)
theory Spec2Isabelle
  imports Queue_Loop Queue_Resolve Integrity_Runs_Invariant Tracker_Scan Server Path_Resolution Backup_Correct Scheduler
    Repo_Tracking Routes_Drives Routes_Sync Routes_Integrity Routes_Database Routes_Browse Folder_Jobs Http_Files Front_Ends
begin

text \<open>
  \<^bold>\<open>BitProtector\<close> keeps two copies of every tracked file, one on each drive of a pair, and detects and repairs
  silent corruption. This library models the core of the program, the Rust crate under \<open>src/src\<close>, and
  proves what makes it correct.

  \<^bold>\<open>The program.\<close> A \<^emph>\<open>drive pair\<close> has a primary and a secondary root and an active role; it moves through the states
  of failure, replacement and rebuild (\<open>core/drive.rs\<close>). A \<^emph>\<open>tracked file\<close> is a row with the checksum of its bytes; the
  \<^emph>\<open>mirror\<close> functions copy it between the roots and verify the copy (\<open>core/mirror.rs\<close>, \<open>core/checksum.rs\<close>). The
  \<^emph>\<open>integrity check\<close> compares both copies with the stored checksum and recovers a damaged one (\<open>core/integrity.rs\<close>), a
  \<^emph>\<open>run\<close> does so for all files page by page (\<open>core/integrity_runs.rs\<close>). Work is queued in \<open>sync_queue\<close> and processed by
  several threads under a lock (\<open>core/sync_queue.rs\<close>). Everything is kept in SQLite (\<open>db/repository.rs\<close>, constraints in
  \<open>db/schema.rs\<close>) and logged (\<open>logging/event_logger.rs\<close>). Virtual paths publish files under other names by symbolic
  links (\<open>core/virtual_path.rs\<close>).

  \<^bold>\<open>How it is modelled.\<close> An operation is a function from the \<open>world\<close> (\<open>BP_State\<close>: the tables as lists of rows in rowid order,
  the file system, the clocks, the processes, the event bus) to an error or a result and the new world: the monad \<open>m\<close> of
  \<open>BP_Prelude\<close>. Rust's \<open>?\<close> is \<open>bind_m\<close> and \<open>seq_m\<close>, \<open>bail!\<close> is \<open>bail\<close>, a dropped result is \<open>discard\<close>. A statement of
  SQL is one function on the tables, with the constraints of the schema as its errors; the \<open>AUTOINCREMENT\<close> counters are
  part of the database. Time stamps are seconds, strings are lists of characters, file sizes and event revisions are machine
  words where their width matters.

  \<^bold>\<open>Theories.\<close>
    \<^item> \<open>BP_Prelude\<close>, \<open>BP_State\<close>, \<open>Std_Fs\<close>: the monad and its frame rules (\<open>keeps\<close>), rows and world, what the program uses of \<open>std::fs\<close>
      and \<open>std::path\<close> (with faults: unreadable, unwritable, full, damaged from an offset on).
    \<^item> \<open>Repo_Core\<close>, \<open>Repo_Queue\<close>, \<open>Repo_Runs\<close>: \<open>db/repository.rs\<close> on pairs and files; on the queue, its settings and lock and the event
      log; on integrity runs. The locale \<open>row_table\<close> is the contract of a table with row ids, interpreted for every table. The
      deduplicated insertion, the fairness of the page of pending items and the exclusiveness of the lock are proved here.
    \<^item> \<open>Event_Logger\<close>: \<open>logging/event_logger.rs\<close>; logging changes the event log only.
    \<^item> \<open>Drive_Roles\<close>, \<open>Virtual_Links\<close>, \<open>Drive\<close>, \<open>Drive_Correct\<close>: \<open>core/drive.rs\<close> and the links it refreshes; the state machine of a pair as a step
      relation, refinement of it by every operation, its invariant, failover, replacement and rebuild.
    \<^item> \<open>Checksum\<close>: \<open>core/checksum.rs\<close>. BLAKE3 is a parameter \<open>b3\<close>, a function of the list of slices it was fed; \<open>streaming_hash\<close> (only the
      concatenation counts) is a hypothesis where it is needed. The three ways to hash agree; the verified copy is sound, and
      complete on healthy disks.
    \<^item> \<open>Mirroring\<close>, \<open>Integrity\<close>, \<open>Sidecar\<close>: mirroring and restoring; the check tells the truth, recovery is sound and reconciles the queue; the
      \<open>.b3\<close> sidecar of a file.
    \<^item> \<open>Sync_Queue\<close> and \<open>Queue_Frame\<close>, \<open>Queue_Drain\<close>, \<open>Queue_Loop\<close>, \<open>Queue_Items\<close>, \<open>Queue_Resolve\<close>: \<open>core/sync_queue.rs\<close>. The threads of a round take turns as an
      arbitrary schedule \<open>picks\<close> says. The loop may spin for ever, so it takes fuel (one unit per round) and answers \<open>None\<close>
      when it runs out; two more rounds than there are unfinished items are proved enough unless a pair is quiescing.
    \<^item> \<open>Integrity_Runs\<close>, \<open>Integrity_Runs_Correct\<close>, \<open>Integrity_Runs_Invariant\<close>: \<open>core/integrity_runs.rs\<close>. \<open>others n\<close> is what the other threads do before page turn
      \<open>n\<close>; the fuel is one unit per page, and \<open>n div 100 + 1\<close> units are proved enough for \<open>n\<close> files. The locale \<open>run_invariant\<close>
      is interpreted on the counters, on the number of files and on the number of active runs.
    \<^item> \<open>Integrity_Runs_Frame\<close>, \<open>Repo_Folders\<close>, \<open>Virtual_Path\<close>: the frame rule of a run for any property its steps keep (locale \<open>run_frame\<close>);
      the statements on tracked folders; setting and removing virtual paths (\<open>core/virtual_path.rs\<close>).
    \<^item> \<open>Change_Detection\<close>: \<open>core/change_detection.rs\<close>; a paged scan finds what one scan of all files finds.
    \<^item> \<open>Tracker\<close>, \<open>Tracker_Correct\<close>, \<open>Tracker_Scan\<close>: \<open>core/tracker.rs\<close>. The listing of a directory is a parameter \<open>ls\<close>, a function of the file
      system and the directory; the walk takes one unit of fuel per directory. A new row matches the disk, a failed tracking leaves none,
      untracking a folder removes exactly its files, a scan that succeeds leaves none untracked.
    \<^item> \<open>Db_Wellformed\<close>, \<open>Db_Operations\<close>: the constraints of \<open>db/schema.rs\<close> as a predicate on the tables, and its preservation by every statement
      and operation of the model (\<open>db_step\<close>), so by every sequence of them.
    \<^item> \<open>Auth\<close>, \<open>Server\<close>: \<open>api/auth.rs\<close>, \<open>routes/auth.rs\<close> and \<open>api/server.rs\<close>. The JWT library and PAM are parameters. The limiter is exact; a
      protected handler is reached exactly with a token that decodes and was not revoked, over any history of requests.
    \<^item> \<open>Path_Resolution\<close>: \<open>api/path_resolution.rs\<close>, with \<open>fs::canonicalize\<close> walking inner links too; a path that is accepted stays below the root.
    \<^item> \<open>Repo_Backup\<close>, \<open>Backup\<close>, \<open>Backup_Correct\<close>: the statements on schedules, backup destinations and the listing of events; \<open>db/backup.rs\<close>
      with SQLite as a parameter. A check keeps the sound backups and repairs the others from a sound one only.
    \<^item> \<open>Scheduler\<close>: \<open>core/scheduler.rs\<close>. The threads and their stop flags are numbered in the order they are spawned; after every reload exactly
      the enabled tasks have a live thread.
    \<^item> \<open>Repo_Tracking\<close>: the listing of tracked items and the tree of virtual paths in \<open>db/repository.rs\<close>. Pages together show every item once; a level of
      the tree has exactly the segments of the paths below it (strings are the bytes of UTF-8 here, which SQLite counts as characters).
    \<^item> \<open>Api_Reply\<close>, \<open>Routes_Drives\<close>, \<open>Routes_Files\<close>, \<open>Routes_Folders\<close>, \<open>Routes_Sync\<close>, \<open>Routes_Integrity\<close>, \<open>Routes_Database\<close>, \<open>Routes_Browse\<close>: every handler
      under \<open>api/routes\<close> as a computation that answers a reply (\<open>api/models.rs\<close>). The arguments of a handler are what the extractors
      decoded; the threads that folder handlers start are functions of their own.
    \<^item> \<open>Folder_Jobs\<close>, \<open>Http_Files\<close>: a mirror thread settles every file and every job gives its folder back; the answers to tracking and deleting a file
      are what happened, and tracking never leaves the drive.
    \<^item> \<open>Cli_Drives\<close>, \<open>Cli_Files\<close>, \<open>Cli_Work\<close>, \<open>Cli_Admin\<close>: the handlers of all commands under \<open>cli/commands\<close>, the report at login
      (\<open>cli/ssh_status.rs\<close>) and the settings the server is started with (\<open>main.rs\<close>). A handler answers what it prints.
    \<^item> \<open>Front_Ends\<close>: commands and requests that ask for the same do the same (\<open>agree\<close>); checking all files prints every issue of the run.

  \<^bold>\<open>Not modelled.\<close> Parsing of options and of requests, the text of tables and the serialization of replies; TLS, static files and the
  start-up of the server; schema migration and the connection pool; the watcher of the file system; the user interface.
  The transactions of SQLite are atomic functions; two statements in one transaction are modelled as that transaction, two
  statements in two transactions as two functions that other threads may come between where the theorem says so. Database
  errors other than a violated constraint or a missing row (disk full, a busy database) do not occur in the model.
\<close>

end
